(* ===== verification/Http_Status_Rules.thy ===== *)
theory Http_Status_Rules
  imports Js_Prelude
begin

text \<open>
  The parser of HTTP status code rules (\<open>src/web/default/src/lib/http-status-code-rules.ts\<close>):
  a comma separated list of codes and code ranges is parsed, sorted and merged into a
  canonical list of disjoint ranges, and printed back in normalised form.
  \<open>Number.parseInt\<close> runs on digit strings only; a value above 599 is rejected whatever
  its rounding, so the exact natural number is used.
\<close>

section \<open>Definitions\<close>

record StatusCodeRange =
  range_start :: nat
  range_end :: nat

record ParsedHttpStatusCodeRules =
  rules_ok :: bool
  rules_ranges :: "StatusCodeRange list"
  rules_tokens :: "jsstr list"
  rules_normalized :: jsstr
  rules_invalidTokens :: "jsstr list"

text \<open>\<open>/^\d+$/.test(s)\<close>\<close>

definition isNumber :: "jsstr \<Rightarrow> bool" where
  "isNumber s \<longleftrightarrow> s \<noteq> [] \<and> list_all is_digit s"

definition isValidCode :: "nat \<Rightarrow> bool" where
  "isValidCode code \<longleftrightarrow> 100 \<le> code \<and> code \<le> 599"

definition parseToken :: "jsstr \<Rightarrow> StatusCodeRange option" where
  "parseToken token =
     (let cleaned = filter (\<lambda>c. \<not> is_ws c) (trim token) in
      if cleaned = [] then None
      else if str_includes (js ''-'') cleaned then
        (case split_on (of_char CHR ''-'') cleaned of
           a # b # _ \<Rightarrow>
             if \<not> isNumber a \<or> \<not> isNumber b then None
             else (let start = digits_val a; end' = digits_val b in
               if \<not> isValidCode start \<or> \<not> isValidCode end' \<or> start > end' then None
               else Some \<lparr>range_start = start, range_end = end'\<rparr>)
         | _ \<Rightarrow> None)
      else if \<not> isNumber cleaned then None
      else (let code = digits_val cleaned in
        if \<not> isValidCode code then None
        else Some \<lparr>range_start = code, range_end = code\<rparr>))"

text \<open>\<open>compare(a, b) <= 0\<close> for the comparison by start, then by end.\<close>

definition range_le :: "StatusCodeRange \<Rightarrow> StatusCodeRange \<Rightarrow> bool" where
  "range_le a b \<longleftrightarrow>
     (if range_start a \<noteq> range_start b then range_start a \<le> range_start b
      else range_end a \<le> range_end b)"

text \<open>The reducer: push the range, or extend the last one in place.\<close>

definition merge_step :: "StatusCodeRange list \<Rightarrow> StatusCodeRange \<Rightarrow> StatusCodeRange list" where
  "merge_step merged current =
     (if merged = [] \<or> range_start current > range_end (last merged) + 1 then merged @ [current]
      else butlast merged @
        [(last merged)\<lparr>range_end := max (range_end (last merged)) (range_end current)\<rparr>])"

definition mergeRanges :: "StatusCodeRange list \<Rightarrow> StatusCodeRange list" where
  "mergeRanges ranges =
     (if ranges = [] then [] else foldl merge_step [] (js_sort range_le ranges))"

definition range_token :: "StatusCodeRange \<Rightarrow> jsstr" where
  "range_token r =
     (if range_start r = range_end r then nat_str (range_start r)
      else nat_str (range_start r) @ js ''-'' @ nat_str (range_end r))"

text \<open>
  The full-width comma U+FF0C is replaced by an ASCII comma before splitting. An input
  of \<open>None\<close> is null or undefined; any other value is given by its \<open>toString()\<close>.
\<close>

definition rule_segments :: "jsstr \<Rightarrow> jsstr list" where
  "rule_segments raw =
     truthy_strs (map trim (split_on (of_char CHR '','') (map (\<lambda>c. if c = 65292 then 44 else c) raw)))"

definition parseHttpStatusCodeRules :: "jsstr option \<Rightarrow> ParsedHttpStatusCodeRules" where
  "parseHttpStatusCodeRules input =
     (let raw = trim (case input of None \<Rightarrow> [] | Some s \<Rightarrow> s) in
      if length raw = 0 then
        \<lparr>rules_ok = True, rules_ranges = [], rules_tokens = [], rules_normalized = [],
         rules_invalidTokens = []\<rparr>
      else
        (let segments = rule_segments raw;
             ranges = List.map_filter parseToken segments;
             invalidTokens = filter (\<lambda>s. parseToken s = None) segments in
         if length invalidTokens > 0 then
           \<lparr>rules_ok = False, rules_ranges = [], rules_tokens = [], rules_normalized = raw,
            rules_invalidTokens = invalidTokens\<rparr>
         else
           (let merged = mergeRanges ranges; tokens = map range_token merged in
            \<lparr>rules_ok = True, rules_ranges = merged, rules_tokens = tokens,
             rules_normalized = join (js '','') tokens, rules_invalidTokens = []\<rparr>)))"

text \<open>The set of status codes a list of ranges covers: the meaning of a rule.\<close>

definition covered :: "StatusCodeRange list \<Rightarrow> nat set" where
  "covered rs = (\<Union>r \<in> set rs. {range_start r..range_end r})"

definition wf_range :: "StatusCodeRange \<Rightarrow> bool" where
  "wf_range r \<longleftrightarrow> 100 \<le> range_start r \<and> range_start r \<le> range_end r \<and> range_end r \<le> 599"

text \<open>Canonical lists: ascending, and with a gap of at least one code between neighbours.\<close>

definition separated :: "StatusCodeRange list \<Rightarrow> bool" where
  "separated rs \<longleftrightarrow> sorted_wrt (\<lambda>a b. range_end a + 1 < range_start b) rs"

section \<open>Merging\<close>

interpretation range_order: js_comparator range_le
  by unfold_locales (auto simp: range_le_def split: if_splits)

lemma covered_simps [simp]:
  "covered [] = {}" "covered (r # rs) = {range_start r..range_end r} \<union> covered rs"
  "covered (rs @ qs) = covered rs \<union> covered qs"
  by (auto simp: covered_def)

lemma separated_snoc:
  "separated (rs @ [r]) \<longleftrightarrow> separated rs \<and> (\<forall>a \<in> set rs. range_end a + 1 < range_start r)"
  by (auto simp: separated_def sorted_wrt_append)

text \<open>The loop invariant of the reducer, for ranges that come in order of their start.\<close>

definition merge_inv :: "StatusCodeRange list \<Rightarrow> nat \<Rightarrow> bool" where
  "merge_inv merged lo \<longleftrightarrow> separated merged \<and> (\<forall>r \<in> set merged. range_start r \<le> range_end r \<and>
     range_start r \<le> lo)"

lemma merge_step_snoc:
  "merge_step (ms @ [l]) c =
     (if range_start c > range_end l + 1 then (ms @ [l]) @ [c]
      else ms @ [l\<lparr>range_end := max (range_end l) (range_end c)\<rparr>])"
  by (simp add: merge_step_def)

lemma merge_step_inv:
  assumes "merge_inv ms lo" and "lo \<le> range_start c" and "range_start c \<le> range_end c"
  shows "merge_inv (merge_step ms c) (range_start c) \<and>
    covered (merge_step ms c) = covered ms \<union> {range_start c..range_end c}"
proof (cases ms rule: rev_cases)
  case Nil
  with assms show ?thesis
    by (simp add: merge_step_def merge_inv_def separated_def)
next
  case (snoc ns l)
  have l: "range_start l \<le> range_end l" "range_start l \<le> range_start c"
    using assms snoc by (auto simp: merge_inv_def)
  have gap: "range_end a + 1 < range_start l" if "a \<in> set ns" for a
    using assms(1) snoc that by (simp add: merge_inv_def separated_snoc)
  show ?thesis
  proof (cases "range_start c > range_end l + 1")
    case True
    have "range_end a + 1 < range_start c" if "a \<in> set ns" for a
      using gap [OF that] l by linarith
    then have "separated ((ns @ [l]) @ [c])"
      using True assms(1) snoc unfolding separated_snoc by (auto simp: merge_inv_def separated_snoc)
    with True assms snoc show ?thesis
      by (auto simp: merge_step_snoc merge_inv_def)
  next
    case False
    have "{range_start l..max (range_end l) (range_end c)} =
        {range_start l..range_end l} \<union> {range_start c..range_end c}"
      using l False assms(3) by (auto simp: max_def)
    with False assms snoc gap l show ?thesis
      by (auto simp: merge_step_snoc merge_inv_def separated_snoc)
  qed
qed

lemma foldl_merge_inv:
  assumes "merge_inv ms lo" and "sorted_wrt range_le cs"
    and "\<forall>c \<in> set cs. lo \<le> range_start c \<and> range_start c \<le> range_end c"
  shows "(\<exists>hi. merge_inv (foldl merge_step ms cs) hi) \<and>
    covered (foldl merge_step ms cs) = covered ms \<union> covered cs"
  using assms
proof (induction cs arbitrary: ms lo)
  case (Cons c cs)
  have step: "merge_inv (merge_step ms c) (range_start c)"
    and cov: "covered (merge_step ms c) = covered ms \<union> {range_start c..range_end c}"
    using merge_step_inv [OF Cons.prems(1)] Cons.prems(3) by auto
  have "\<forall>d \<in> set cs. range_start c \<le> range_start d \<and> range_start d \<le> range_end d"
    using Cons.prems by (auto simp: range_le_def split: if_splits)
  from Cons.IH [OF step _ this] Cons.prems(2) cov show ?case by auto
qed auto

lemma merge_ranges_correct:
  assumes "\<forall>r \<in> set rs. range_start r \<le> range_end r"
  shows "separated (mergeRanges rs)" and "covered (mergeRanges rs) = covered rs"
    and "\<forall>r \<in> set (mergeRanges rs). range_start r \<le> range_end r"
proof -
  have start: "merge_inv [] 0" by (simp add: merge_inv_def separated_def)
  have "covered (js_sort range_le rs) = covered rs" by (simp add: covered_def)
  with foldl_merge_inv [OF start range_order.sorted_js_sort, of rs] assms
  show "separated (mergeRanges rs)" "covered (mergeRanges rs) = covered rs"
    "\<forall>r \<in> set (mergeRanges rs). range_start r \<le> range_end r"
    by (auto simp: mergeRanges_def merge_inv_def separated_def)
qed

text \<open>A canonical list is determined by the codes it covers.\<close>

lemma separated_Cons:
  "separated (r # rs) \<longleftrightarrow> (\<forall>q \<in> set rs. range_end r + 1 < range_start q) \<and> separated rs"
  by (simp add: separated_def)

lemma covered_above: "\<forall>q \<in> set rs. m < range_start q \<Longrightarrow> c \<in> covered rs \<Longrightarrow> m < c"
  by (fastforce simp: covered_def)

lemma first_range_unique:
  assumes "separated (r # rs)" "separated (q # qs)"
    and "range_start r \<le> range_end r" "range_start q \<le> range_end q"
    and cov: "covered (r # rs) = covered (q # qs)"
  shows "range_start q \<le> range_start r" and "range_end q \<le> range_end r"
proof -
  have r: "\<forall>p \<in> set rs. range_end r + 1 < range_start p"
    and q: "\<forall>p \<in> set qs. range_end q + 1 < range_start p"
    using assms by (auto simp: separated_Cons)
  have "range_start r \<in> covered (q # qs)" using assms(3) cov [symmetric] by simp
  then show lo: "range_start q \<le> range_start r"
    using covered_above [OF q] assms(4) by fastforce
  show "range_end q \<le> range_end r"
  proof (rule ccontr)
    assume *: "\<not> range_end q \<le> range_end r"
    then have "range_end r + 1 \<in> covered (q # qs)" using lo assms(3) by simp
    then have "range_end r + 1 \<in> covered (r # rs)" using cov by blast
    then have "range_end r + 1 \<in> covered rs" by simp
    with covered_above [OF r, of "range_end r + 1"] show False by simp
  qed
qed

lemma separated_unique:
  assumes "separated rs" "separated qs" "\<forall>r \<in> set rs. range_start r \<le> range_end r"
    and "\<forall>r \<in> set qs. range_start r \<le> range_end r" and "covered rs = covered qs"
  shows "rs = qs"
  using assms
proof (induction rs arbitrary: qs)
  case Nil
  then show ?case by (cases qs) auto
next
  case (Cons r rs)
  then obtain q qs' where qs: "qs = q # qs'" by (cases qs) auto
  have "range_start r = range_start q" "range_end r = range_end q"
    using first_range_unique [of r rs q qs'] first_range_unique [of q qs' r rs] Cons.prems qs
    by (auto intro: antisym)
  then have rq: "r = q" by simp
  have out: "\<And>c. c \<in> covered ps \<Longrightarrow> range_end p < c"
    if "separated (p # ps)" for p ps
    using that covered_above [of ps "range_end p + 1"] by (fastforce simp: separated_Cons)
  have tail: "c \<in> covered ps \<longleftrightarrow> c \<in> covered (p # ps) \<and> range_end p < c"
    if "separated (p # ps)" for p ps c
    using out [OF that, of c] by auto
  have "covered rs = covered qs'"
    using tail [of r rs] tail [of q qs'] Cons.prems(1,2,5) qs rq by blast
  with Cons qs rq show ?case by (auto simp: separated_Cons)
qed

section \<open>Tokens\<close>

lemma filter_trim: "filter (\<lambda>c. \<not> is_ws c) s = s \<Longrightarrow> trim s = s"
  by (rule trim_no_ws) (auto simp: filter_id_conv)

lemma parseToken_wf: "parseToken t = Some r \<Longrightarrow> wf_range r"
  by (auto simp: parseToken_def Let_def isValidCode_def wf_range_def
      split: if_splits list.splits)

lemma nat_str_no:
  "44 \<notin> set (nat_str n)" "45 \<notin> set (nat_str n)" "65292 \<notin> set (nat_str n)"
  using nat_str_digits [of n] by (auto simp: is_digit_def)

lemma isNumber_nat_str [simp]: "isNumber (nat_str n)"
  using nat_str_digits [of n] by (simp add: isNumber_def list_all_iff)

lemma range_token_units: "c \<in> set (range_token r) \<Longrightarrow> is_digit c \<or> c = 45"
  using nat_str_digits by (auto simp: range_token_def js_lit split: if_splits)

lemma range_token_no_ws: "c \<in> set (range_token r) \<Longrightarrow> \<not> is_ws c"
  by (auto dest!: range_token_units digit_not_ws simp: is_ws_def)

lemma range_token_clean: "filter (\<lambda>c. \<not> is_ws c) (range_token r) = range_token r"
  by (simp add: filter_id_conv range_token_no_ws)

lemma str_includes_single: "str_includes [c] s \<longleftrightarrow> c \<in> set s"
  by (induction s) auto

lemma trim_range_token [simp]: "trim (range_token r) = range_token r"
  by (rule trim_no_ws) (simp add: range_token_no_ws)

lemma range_token_not_Nil [simp]: "range_token r \<noteq> []"
  by (simp add: range_token_def)

lemma parseToken_range_token: "wf_range r \<Longrightarrow> parseToken (range_token r) = Some r"
proof -
  assume wf: "wf_range r"
  have clean: "filter (\<lambda>c. \<not> is_ws c) (trim (range_token r)) = range_token r"
    by (simp add: range_token_clean)
  show ?thesis
    using wf unfolding parseToken_def clean Let_def
    by (cases "range_start r = range_end r")
      (auto simp: range_token_def wf_range_def isValidCode_def js_lit str_includes_single nat_str_no
        split_on_append)
qed

lemma range_token_no_comma: "44 \<notin> set (range_token r)" "65292 \<notin> set (range_token r)"
  by (auto dest!: range_token_units simp: is_digit_def)

lemma set_join: "set (join sep ws) \<subseteq> \<Union> (set ` set ws) \<union> set sep"
  by (induction sep ws rule: join.induct) auto

lemma range_tokens_not_Nil: "[] \<notin> set (map range_token rs)"
  by (metis ex_map_conv range_token_not_Nil)

lemma truthy_range_tokens: "truthy_strs (map range_token rs) = map range_token rs"
  by (rule truthy_strs_all) (rule range_tokens_not_Nil)

lemma rule_segments_tokens:
  "rs \<noteq> [] \<Longrightarrow> rule_segments (join [44] (map range_token rs)) = map range_token rs"
proof -
  assume "rs \<noteq> []"
  let ?s = "join [44] (map range_token rs)"
  have "65292 \<notin> set ?s"
    using set_join [of "[44]" "map range_token rs"] range_token_no_comma(2) by fastforce
  then have "map (\<lambda>c. if c = 65292 then 44 else c) ?s = ?s" by (intro map_idI) auto
  moreover have "split_on 44 ?s = map range_token rs"
    using \<open>rs \<noteq> []\<close> range_token_no_comma(1) by (intro split_join) auto
  ultimately show ?thesis
    by (simp add: rule_segments_def truthy_range_tokens o_def)
qed

lemma trim_join_tokens:
  "rs \<noteq> [] \<Longrightarrow> trim (join [44] (map range_token rs)) = join [44] (map range_token rs)"
proof (rule trim_no_ws)
  show "\<forall>c \<in> set (join [44] (map range_token rs)). \<not> is_ws c"
    using set_join [of "[44]" "map range_token rs"] range_token_no_ws
    by (fastforce simp: is_ws_def)
qed

section \<open>The whole parser\<close>

lemma merge_wf: "\<forall>r \<in> set rs. wf_range r \<Longrightarrow> \<forall>r \<in> set (mergeRanges rs). wf_range r"
proof -
  assume wf: "\<forall>r \<in> set rs. wf_range r"
  then have le: "\<forall>r \<in> set rs. range_start r \<le> range_end r" by (auto simp: wf_range_def)
  have "covered (mergeRanges rs) \<subseteq> {100..599}"
    using merge_ranges_correct(2) [OF le] wf by (fastforce simp: covered_def wf_range_def)
  then have "range_start r \<in> {100..599} \<and> range_end r \<in> {100..599}"
    if "r \<in> set (mergeRanges rs)" for r
    using merge_ranges_correct(3) [OF le] that by (fastforce simp: covered_def)
  then show ?thesis using merge_ranges_correct(3) [OF le] by (auto simp: wf_range_def)
qed

lemma map_filter_wf: "\<forall>r \<in> set (List.map_filter parseToken ts). wf_range r"
  by (auto simp: map_filter_def parseToken_wf)

lemma map_filter_tokens:
  "\<forall>r \<in> set rs. wf_range r \<Longrightarrow> List.map_filter parseToken (map range_token rs) = rs"
  by (induction rs) (auto simp: map_filter_def parseToken_range_token)

lemma merge_separated: "separated rs \<Longrightarrow> \<forall>r \<in> set rs. range_start r \<le> range_end r \<Longrightarrow> mergeRanges rs = rs"
  by (rule separated_unique) (auto simp: merge_ranges_correct)

lemma separated_Nil [simp]: "separated []"
  by (simp add: separated_def)

lemmas parse_rules_defs = parseHttpStatusCodeRules_def Let_def

text \<open>The value the parser returns for a list that is canonical already.\<close>

lemma parse_canonical:
  assumes "separated rs" and "\<forall>r \<in> set rs. wf_range r"
  shows "parseHttpStatusCodeRules (Some (join [44] (map range_token rs))) =
    \<lparr>rules_ok = True, rules_ranges = rs, rules_tokens = map range_token rs,
     rules_normalized = join [44] (map range_token rs), rules_invalidTokens = []\<rparr>"
proof (cases "rs = []")
  case False
  have ne: "join [44] (map range_token rs) \<noteq> []"
    using False by (simp add: join_eq_Nil [OF range_tokens_not_Nil])
  have inv: "filter (\<lambda>s. parseToken s = None) (map range_token rs) = []"
    using assms(2) by (auto simp: filter_empty_conv parseToken_range_token)
  have "mergeRanges rs = rs"
    using assms by (intro merge_separated) (auto simp: wf_range_def)
  with ne inv False assms(2) show ?thesis
    by (simp add: parse_rules_defs rule_segments_tokens trim_join_tokens map_filter_tokens js_lit
        del: filter_map)
qed (simp add: parse_rules_defs)

text \<open>What the parser returns when every segment parses.\<close>

lemma parse_ok_ranges:
  assumes "rules_ok (parseHttpStatusCodeRules inp)"
  obtains rs where "\<forall>r \<in> set rs. wf_range r"
    and "rs = List.map_filter parseToken (rule_segments (trim (case inp of None \<Rightarrow> [] | Some s \<Rightarrow> s)))"
    and "rules_ranges (parseHttpStatusCodeRules inp) = mergeRanges rs"
    and "rules_normalized (parseHttpStatusCodeRules inp) = join [44] (map range_token (mergeRanges rs))"
proof
  let ?raw = "trim (case inp of None \<Rightarrow> [] | Some s \<Rightarrow> s)"
  let ?rs = "List.map_filter parseToken (rule_segments ?raw)"
  have nil: "rule_segments [] = []" by (simp add: rule_segments_def truthy_strs_def)
  show "\<forall>r \<in> set ?rs. wf_range r" by (rule map_filter_wf)
  show "?rs = ?rs" ..
  show "rules_ranges (parseHttpStatusCodeRules inp) = mergeRanges ?rs"
    using assms nil by (auto simp: parse_rules_defs mergeRanges_def map_filter_def split: if_splits)
  show "rules_normalized (parseHttpStatusCodeRules inp) = join [44] (map range_token (mergeRanges ?rs))"
    using assms nil
    by (auto simp: parse_rules_defs mergeRanges_def map_filter_def js_lit split: if_splits)
qed

section \<open>Properties\<close>

definition rules_input :: "jsstr option \<Rightarrow> jsstr" where
  "rules_input inp = trim (case inp of None \<Rightarrow> [] | Some s \<Rightarrow> s)"

text \<open>C4: whenever the parser accepts, the ranges it returns are canonical: ascending, with a
  gap between neighbours, each inside 100..599, and they cover exactly the codes that the
  individual tokens of the input name.\<close>

theorem http_rules_canonical:
  assumes "rules_ok (parseHttpStatusCodeRules inp)"
  shows "separated (rules_ranges (parseHttpStatusCodeRules inp)) \<and>
    (\<forall>r \<in> set (rules_ranges (parseHttpStatusCodeRules inp)). wf_range r) \<and>
    covered (rules_ranges (parseHttpStatusCodeRules inp)) =
      covered (List.map_filter parseToken (rule_segments (rules_input inp)))"
proof -
  obtain rs where wf: "\<forall>r \<in> set rs. wf_range r"
    and rs: "rs = List.map_filter parseToken (rule_segments (rules_input inp))"
    and ranges: "rules_ranges (parseHttpStatusCodeRules inp) = mergeRanges rs"
    using parse_ok_ranges [OF assms] unfolding rules_input_def by metis
  have "\<forall>r \<in> set rs. range_start r \<le> range_end r" using wf by (auto simp: wf_range_def)
  from merge_ranges_correct [OF this] merge_wf [OF wf] rs ranges show ?thesis by simp
qed

theorem http_rules_canonical_witness:
  "separated (rules_ranges (parseHttpStatusCodeRules (Some (js ''500, 401-403,402-410'')))) \<and>
   map (\<lambda>r. (range_start r, range_end r))
     (rules_ranges (parseHttpStatusCodeRules (Some (js ''500, 401-403,402-410'')))) = [(401, 410), (500, 500)]"
proof -
  let ?p = "parseHttpStatusCodeRules (Some (js ''500, 401-403,402-410''))"
  have ok: "rules_ok ?p" by code_simp
  have "map (\<lambda>r. (range_start r, range_end r)) (rules_ranges ?p) = [(401, 410), (500, 500)]"
    by code_simp
  with http_rules_canonical [OF ok] show ?thesis by blast
qed

text \<open>C21: the normalised text is a normal form: two accepted inputs whose tokens cover the same
  status codes give the same ranges and the same normalised text.\<close>

theorem http_rules_normal_form:
  assumes "rules_ok (parseHttpStatusCodeRules a)" and "rules_ok (parseHttpStatusCodeRules b)"
    and "covered (rules_ranges (parseHttpStatusCodeRules a)) =
         covered (rules_ranges (parseHttpStatusCodeRules b))"
  shows "rules_ranges (parseHttpStatusCodeRules a) = rules_ranges (parseHttpStatusCodeRules b) \<and>
    rules_normalized (parseHttpStatusCodeRules a) = rules_normalized (parseHttpStatusCodeRules b)"
proof -
  obtain ra where a: "\<forall>r \<in> set ra. wf_range r"
    "rules_ranges (parseHttpStatusCodeRules a) = mergeRanges ra"
    "rules_normalized (parseHttpStatusCodeRules a) = join [44] (map range_token (mergeRanges ra))"
    using parse_ok_ranges [OF assms(1)] by metis
  obtain rb where b: "\<forall>r \<in> set rb. wf_range r"
    "rules_ranges (parseHttpStatusCodeRules b) = mergeRanges rb"
    "rules_normalized (parseHttpStatusCodeRules b) = join [44] (map range_token (mergeRanges rb))"
    using parse_ok_ranges [OF assms(2)] by metis
  have le: "\<forall>r \<in> set ra. range_start r \<le> range_end r" "\<forall>r \<in> set rb. range_start r \<le> range_end r"
    using a(1) b(1) by (auto simp: wf_range_def)
  have "mergeRanges ra = mergeRanges rb"
    using assms(3) a(2) b(2)
    by (intro separated_unique merge_ranges_correct(1,3) le) simp
  with a b show ?thesis by simp
qed

theorem http_rules_normal_form_witness:
  "rules_normalized (parseHttpStatusCodeRules (Some (js ''404,400-403''))) =
   rules_normalized (parseHttpStatusCodeRules (Some (js '' 400 - 404 , 401'')))"
proof -
  let ?a = "parseHttpStatusCodeRules (Some (js ''404,400-403''))"
  let ?b = "parseHttpStatusCodeRules (Some (js '' 400 - 404 , 401''))"
  have a: "rules_ok ?a" and b: "rules_ok ?b" by code_simp+
  have "rules_ranges ?a = rules_ranges ?b" by code_simp
  then have "covered (rules_ranges ?a) = covered (rules_ranges ?b)" by simp
  from http_rules_normal_form [OF a b this] show ?thesis by blast
qed

text \<open>C20: normalising is idempotent: parsing the normalised text of an accepted input succeeds
  and returns the very same ranges, tokens and text.\<close>

theorem http_rules_roundtrip:
  assumes "rules_ok (parseHttpStatusCodeRules inp)"
  shows "parseHttpStatusCodeRules (Some (rules_normalized (parseHttpStatusCodeRules inp))) =
    parseHttpStatusCodeRules inp"
proof -
  obtain rs where rs: "\<forall>r \<in> set rs. wf_range r"
    and ranges: "rules_ranges (parseHttpStatusCodeRules inp) = mergeRanges rs"
    and norm: "rules_normalized (parseHttpStatusCodeRules inp) = join [44] (map range_token (mergeRanges rs))"
    using parse_ok_ranges [OF assms] by metis
  have sep: "separated (mergeRanges rs)"
    using rs by (intro merge_ranges_correct) (auto simp: wf_range_def)
  have "parseHttpStatusCodeRules inp =
    \<lparr>rules_ok = True, rules_ranges = mergeRanges rs, rules_tokens = map range_token (mergeRanges rs),
     rules_normalized = join [44] (map range_token (mergeRanges rs)), rules_invalidTokens = []\<rparr>"
    using assms ranges norm by (auto simp: parse_rules_defs js_lit split: if_splits)
  with parse_canonical [OF sep merge_wf [OF rs]] norm show ?thesis by simp
qed

theorem http_rules_roundtrip_witness:
  "parseHttpStatusCodeRules (Some (js ''401-403,500'')) =
   parseHttpStatusCodeRules (Some (js ''500,402-403,401''))"
proof -
  let ?p = "parseHttpStatusCodeRules (Some (js ''500,402-403,401''))"
  have ok: "rules_ok ?p" by code_simp
  have "rules_normalized ?p = js ''401-403,500''" by code_simp
  with http_rules_roundtrip [OF ok] show ?thesis by simp
qed

text \<open>error reporting: the parser accepts exactly when every non-empty segment parses as a
  code or a range; otherwise it returns no range at all, the trimmed input as the normalised
  text, and precisely the segments that do not parse, in their order.\<close>

theorem http_rules_errors:
  "rules_ok (parseHttpStatusCodeRules inp) =
     (\<forall>s \<in> set (rule_segments (rules_input inp)). parseToken s \<noteq> None) \<and>
   rules_invalidTokens (parseHttpStatusCodeRules inp) =
     filter (\<lambda>s. parseToken s = None) (rule_segments (rules_input inp)) \<and>
   (rules_ok (parseHttpStatusCodeRules inp) \<or>
     rules_ranges (parseHttpStatusCodeRules inp) = [] \<and>
     rules_tokens (parseHttpStatusCodeRules inp) = [] \<and>
     rules_normalized (parseHttpStatusCodeRules inp) = rules_input inp)"
proof -
  have nil: "rule_segments [] = []" by (simp add: rule_segments_def truthy_strs_def)
  show ?thesis
    by (auto simp: parse_rules_defs rules_input_def nil filter_empty_conv)
qed

theorem http_rules_errors_witness:
  "\<not> rules_ok (parseHttpStatusCodeRules (Some (js ''404,99,600,5xx''))) \<and>
   rules_invalidTokens (parseHttpStatusCodeRules (Some (js ''404,99,600,5xx''))) =
     [js ''99'', js ''600'', js ''5xx'']"
proof -
  let ?i = "Some (js ''404,99,600,5xx'')"
  have "filter (\<lambda>s. parseToken s = None) (rule_segments (rules_input ?i)) =
      [js ''99'', js ''600'', js ''5xx'']"
    by code_simp
  moreover have "js ''99'' \<in> set (rule_segments (rules_input ?i)) \<and> parseToken (js ''99'') = None"
    by code_simp
  ultimately show ?thesis using http_rules_errors [of ?i] by metis
qed

end
