(* ===== verification/Js_Number.thy ===== *)
theory Js_Number
  imports Js_Prelude "HOL-Library.Log_Nat"
begin

text \<open>
  JavaScript numbers: IEEE 754 binary64 with round-to-nearest-even, written as exact
  rationals together with NaN, the infinities and the negative zero. Every arithmetic
  operation is the exact rational operation followed by \<open>rnd\<close>. Conversions from and to
  strings follow the \<open>Number(...)\<close> and \<open>String(...)\<close> functions of the language.
\<close>

section \<open>Values and rounding\<close>

datatype jsnum = NaN | PosInf | NegInf | NegZero | Fin rat

fun num_val :: "jsnum \<Rightarrow> rat" where
  "num_val (Fin r) = r"
| "num_val _ = 0"

fun is_finite :: "jsnum \<Rightarrow> bool" where
  "is_finite (Fin r) = True"
| "is_finite NegZero = True"
| "is_finite _ = False"

fun is_neg :: "jsnum \<Rightarrow> bool" where
  "is_neg (Fin r) = (r < 0)"
| "is_neg NegInf = True"
| "is_neg NegZero = True"
| "is_neg _ = False"

text \<open>The integer part of the binary logarithm of a positive rational.\<close>

definition ilog2 :: "rat \<Rightarrow> int" where
  "ilog2 r = (case quotient_of r of (p, q) \<Rightarrow>
     (let e = bitlen p - bitlen q in if 2 powi e \<le> r then e else e - 1))"

definition round_half_even :: "rat \<Rightarrow> int" where
  "round_half_even q =
     (let f = \<lfloor>q\<rfloor>; d = q - of_int f in
      if d < 1 / 2 then f else if d > 1 / 2 then f + 1 else if even f then f else f + 1)"

text \<open>The exponent of the last place of a binary64 number near \<open>r\<close>.\<close>

definition ulp_exp :: "rat \<Rightarrow> int" where
  "ulp_exp r = max (ilog2 r - 52) (- 1074)"

definition num_zero :: "bool \<Rightarrow> jsnum" where
  "num_zero neg = (if neg then NegZero else Fin 0)"

definition num_inf :: "bool \<Rightarrow> jsnum" where
  "num_inf neg = (if neg then NegInf else PosInf)"

definition rnd_ulp :: "rat \<Rightarrow> jsnum" where
  "rnd_ulp r =
     (if r = 0 then Fin 0
      else (let e = ulp_exp \<bar>r\<bar>; m = round_half_even (\<bar>r\<bar> / 2 powi e); v = of_int m * 2 powi e in
        if v \<ge> 2 ^ 1024 then num_inf (r < 0)
        else if m = 0 then num_zero (r < 0)
        else Fin (sgn r * v)))"

definition rnd :: "rat \<Rightarrow> jsnum" where
  "rnd r = rnd_ulp r"

section \<open>Arithmetic and comparison\<close>

fun js_neg :: "jsnum \<Rightarrow> jsnum" where
  "js_neg NaN = NaN"
| "js_neg PosInf = NegInf"
| "js_neg NegInf = PosInf"
| "js_neg NegZero = Fin 0"
| "js_neg (Fin r) = (if r = 0 then NegZero else Fin (- r))"

definition js_add :: "jsnum \<Rightarrow> jsnum \<Rightarrow> jsnum" where
  "js_add x y =
     (if x = NaN \<or> y = NaN then NaN
      else if x = PosInf then (if y = NegInf then NaN else PosInf)
      else if x = NegInf then (if y = PosInf then NaN else NegInf)
      else if y = PosInf \<or> y = NegInf then y
      else if x = NegZero \<and> y = NegZero then NegZero
      else rnd (num_val x + num_val y))"

definition js_sub :: "jsnum \<Rightarrow> jsnum \<Rightarrow> jsnum" where
  "js_sub x y = js_add x (js_neg y)"

definition js_mul :: "jsnum \<Rightarrow> jsnum \<Rightarrow> jsnum" where
  "js_mul x y =
     (let neg = (is_neg x \<noteq> is_neg y) in
      if x = NaN \<or> y = NaN then NaN
      else if \<not> is_finite x \<or> \<not> is_finite y then
        (if is_finite x \<and> num_val x = 0 \<or> is_finite y \<and> num_val y = 0 then NaN else num_inf neg)
      else if num_val x * num_val y = 0 then num_zero neg
      else rnd (num_val x * num_val y))"

definition js_div :: "jsnum \<Rightarrow> jsnum \<Rightarrow> jsnum" where
  "js_div x y =
     (let neg = (is_neg x \<noteq> is_neg y) in
      if x = NaN \<or> y = NaN then NaN
      else if \<not> is_finite x then (if \<not> is_finite y then NaN else num_inf neg)
      else if \<not> is_finite y then num_zero neg
      else if num_val y = 0 then (if num_val x = 0 then NaN else num_inf neg)
      else if num_val x = 0 then num_zero neg
      else rnd (num_val x / num_val y))"

text \<open>\<open>x <= y\<close>, \<open>x < y\<close> and \<open>x === y\<close>: false on NaN, and the two zeros are equal.\<close>

definition js_le :: "jsnum \<Rightarrow> jsnum \<Rightarrow> bool" where
  "js_le x y \<longleftrightarrow> x \<noteq> NaN \<and> y \<noteq> NaN \<and>
     (x = NegInf \<or> y = PosInf \<or> is_finite x \<and> is_finite y \<and> num_val x \<le> num_val y)"

definition js_lt :: "jsnum \<Rightarrow> jsnum \<Rightarrow> bool" where
  "js_lt x y \<longleftrightarrow> js_le x y \<and> \<not> js_le y x"

definition js_num_eq :: "jsnum \<Rightarrow> jsnum \<Rightarrow> bool" where
  "js_num_eq x y \<longleftrightarrow> js_le x y \<and> js_le y x"

text \<open>\<open>x || 0\<close>: NaN and the zeros are falsy.\<close>

definition num_truthy :: "jsnum \<Rightarrow> bool" where
  "num_truthy x \<longleftrightarrow> x \<noteq> NaN \<and> x \<noteq> NegZero \<and> x \<noteq> Fin 0"

definition num_or_zero :: "jsnum \<Rightarrow> jsnum" where
  "num_or_zero x = (if num_truthy x then x else Fin 0)"

definition is_integer :: "jsnum \<Rightarrow> bool" where
  "is_integer x \<longleftrightarrow> is_finite x \<and> of_int \<lfloor>num_val x\<rfloor> = num_val x"

definition math_floor :: "jsnum \<Rightarrow> jsnum" where
  "math_floor x = (case x of Fin r \<Rightarrow> Fin (of_int \<lfloor>r\<rfloor>) | _ \<Rightarrow> x)"

section \<open>Conversion from strings\<close>

text \<open>
  \<open>StrUnsignedDecimalLiteral\<close> without \<open>Infinity\<close>: digits with an optional fraction and an
  optional exponent; \<open>None\<close> where the text is not such a literal.
\<close>

definition parse_exponent :: "jsstr \<Rightarrow> int option" where
  "parse_exponent s =
     (let (neg, ds) = (case s of
         [] \<Rightarrow> (False, [])
       | c # r \<Rightarrow> if c = 43 then (False, r) else if c = 45 then (True, r) else (False, s)) in
      if ds \<noteq> [] \<and> list_all is_digit ds
      then Some (if neg then - int (digits_val ds) else int (digits_val ds)) else None)"

definition parse_decimal :: "jsstr \<Rightarrow> rat option" where
  "parse_decimal s =
     (let ip = takeWhile is_digit s; r1 = dropWhile is_digit s;
          (fp, r2) = (case r1 of
              [] \<Rightarrow> ([], [])
            | c # r \<Rightarrow> if c = 46 then (takeWhile is_digit r, dropWhile is_digit r) else ([], r1));
          mant = rat_of_nat (digits_val (ip @ fp)) in
      if ip = [] \<and> fp = [] then None
      else (case r2 of
         [] \<Rightarrow> Some (mant * 10 powi (- int (length fp)))
       | c # r \<Rightarrow>
           if c = 101 \<or> c = 69 then
             map_option (\<lambda>e. mant * 10 powi (e - int (length fp))) (parse_exponent r)
           else None))"

fun digit_in :: "nat \<Rightarrow> nat \<Rightarrow> nat option" where
  "digit_in b c =
     (let d = (if is_digit c then c - 48
               else if 97 \<le> c \<and> c \<le> 122 then c - 87
               else if 65 \<le> c \<and> c \<le> 90 then c - 55 else b) in
      if d < b then Some d else None)"

fun parse_radix :: "nat \<Rightarrow> nat \<Rightarrow> jsstr \<Rightarrow> nat option" where
  "parse_radix b acc [] = Some acc"
| "parse_radix b acc (c # s) =
     (case digit_in b c of None \<Rightarrow> None | Some d \<Rightarrow> parse_radix b (b * acc + d) s)"

definition num_of_radix :: "nat \<Rightarrow> jsstr \<Rightarrow> jsnum" where
  "num_of_radix b s =
     (if s = [] then NaN
      else case parse_radix b 0 s of None \<Rightarrow> NaN | Some n \<Rightarrow> rnd (of_nat n))"

definition num_of_decimal :: "jsstr \<Rightarrow> jsnum" where
  "num_of_decimal s =
     (if s = js ''Infinity'' then PosInf
      else case parse_decimal s of None \<Rightarrow> NaN | Some r \<Rightarrow> rnd r)"

text \<open>\<open>Number(s)\<close> for a string \<open>s\<close>.\<close>

definition to_number :: "jsstr \<Rightarrow> jsnum" where
  "to_number str =
     (case trim str of
        [] \<Rightarrow> Fin 0
      | c # s \<Rightarrow>
          if c = 48 \<and> s \<noteq> [] \<and> (hd s = 120 \<or> hd s = 88) then num_of_radix 16 (tl s)
          else if c = 48 \<and> s \<noteq> [] \<and> (hd s = 111 \<or> hd s = 79) then num_of_radix 8 (tl s)
          else if c = 48 \<and> s \<noteq> [] \<and> (hd s = 98 \<or> hd s = 66) then num_of_radix 2 (tl s)
          else if c = 45 then js_neg (num_of_decimal s)
          else if c = 43 then num_of_decimal s
          else num_of_decimal (c # s))"

section \<open>Conversion to strings\<close>

definition int_str :: "int \<Rightarrow> jsstr" where
  "int_str i = (if i < 0 then 45 # nat_str (nat (- i)) else nat_str (nat i))"

text \<open>
  \<open>Number::toString\<close>: the shortest digit string that rounds back to the number. The search
  over the number of digits \<open>k\<close> ends at 17, which is enough for every binary64 number.
  A safe integer is its own shortest representation, so it is printed directly.
\<close>

function ilog10_up :: "nat \<Rightarrow> rat \<Rightarrow> nat \<Rightarrow> int" where
  "ilog10_up fuel r n = (if fuel = 0 \<or> r < 10 ^ n then int n else ilog10_up (fuel - 1) r (n + 1))"
  by pat_completeness auto
termination
  by (relation "measure (\<lambda>(fuel, r, n). fuel)") auto

function ilog10_down :: "nat \<Rightarrow> rat \<Rightarrow> nat \<Rightarrow> int" where
  "ilog10_down fuel r n =
     (if fuel = 0 \<or> r * 10 ^ (n + 1) \<ge> 1 then - int n else ilog10_down (fuel - 1) r (n + 1))"
  by pat_completeness auto
termination
  by (relation "measure (\<lambda>(fuel, r, n). fuel)") auto

declare ilog10_up.simps [simp del] ilog10_down.simps [simp del]

text \<open>The \<open>n\<close> with \<open>10 ^ (n - 1) \<le> r < 10 ^ n\<close>; binary64 exponents stay within 330.\<close>

definition dec_exp :: "rat \<Rightarrow> int" where
  "dec_exp r = (if r \<ge> 1 then ilog10_up 330 r 0 else ilog10_down 330 r 0)"

definition digit_candidate :: "rat \<Rightarrow> int \<Rightarrow> nat \<Rightarrow> int option" where
  "digit_candidate r n k =
     (let q = r / 10 powi (n - int k);
          ok = (\<lambda>s. rnd (of_int s * 10 powi (n - int k)) = Fin r);
          a = round_half_even q; b = (if of_int a < q then a + 1 else a - 1) in
      if ok a then Some a else if ok b then Some b else None)"

fun shortest_digits :: "rat \<Rightarrow> int \<Rightarrow> nat \<Rightarrow> nat \<Rightarrow> nat \<times> int" where
  "shortest_digits r n k 0 = (k, round_half_even (r / 10 powi (n - int k)))"
| "shortest_digits r n k (Suc left) =
     (case digit_candidate r n k of
        Some s \<Rightarrow> (k, s) | None \<Rightarrow> shortest_digits r n (Suc k) left)"

definition format_digits :: "nat \<Rightarrow> int \<Rightarrow> jsstr \<Rightarrow> jsstr" where
  "format_digits k n ds =
     (if int k \<le> n \<and> n \<le> 21 then ds @ replicate (nat n - k) 48
      else if 0 < n \<and> n \<le> 21 then take (nat n) ds @ [46] @ drop (nat n) ds
      else if - 6 < n \<and> n \<le> 0 then [48, 46] @ replicate (nat (- n)) 48 @ ds
      else take 1 ds @ (if k = 1 then [] else [46] @ drop 1 ds) @ [101] @
        (if n - 1 < 0 then [45] else [43]) @ nat_str (nat \<bar>n - 1\<bar>))"

definition pos_num_str :: "rat \<Rightarrow> jsstr" where
  "pos_num_str r =
     (let n = dec_exp r; (k, s) = shortest_digits r n 1 16 in format_digits k n (nat_str (nat s)))"

definition num_str :: "jsnum \<Rightarrow> jsstr" where
  "num_str x =
     (case x of
        NaN \<Rightarrow> js ''NaN'' | PosInf \<Rightarrow> js ''Infinity'' | NegInf \<Rightarrow> js ''-Infinity''
      | NegZero \<Rightarrow> js ''0''
      | Fin r \<Rightarrow>
          if of_int \<lfloor>r\<rfloor> = r \<and> \<bar>r\<bar> \<le> 2 ^ 53 then int_str \<lfloor>r\<rfloor>
          else if r < 0 then 45 # pos_num_str (- r) else pos_num_str r)"

section \<open>Exactness on safe integers\<close>

lemma bitlen_rat_bounds:
  assumes "0 < p"
  shows "2 powi (bitlen p - 1) \<le> rat_of_int p" and "rat_of_int p < 2 powi (bitlen p)"
proof -
  have b: "2 ^ nat (bitlen p - 1) \<le> p \<and> p < 2 ^ nat (bitlen p)" using bitlen_bounds [OF assms] .
  have pos: "1 \<le> bitlen p" using assms bitlen_nonneg [of p] bitlen_eq_zero_iff [of p] by linarith
  have "rat_of_int (2 ^ nat (bitlen p - 1)) \<le> rat_of_int p" using b by linarith
  then show "2 powi (bitlen p - 1) \<le> rat_of_int p" using pos by (simp add: power_int_def)
  have "rat_of_int p < rat_of_int (2 ^ nat (bitlen p))" using b by linarith
  then show "rat_of_int p < 2 powi (bitlen p)" using pos by (simp add: power_int_def)
qed

lemma ilog2_bounds:
  assumes "0 < r"
  shows "2 powi ilog2 r \<le> r" and "r < 2 powi (ilog2 r + 1)"
proof -
  obtain p q where pq: "quotient_of r = (p, q)" by (cases "quotient_of r")
  then have q: "0 < q" and r: "r = of_int p / of_int q"
    using quotient_of_denom_pos quotient_of_div by auto
  with assms have p: "0 < p" by (simp add: zero_less_divide_iff)
  let ?e = "bitlen p - bitlen q"
  have qpos: "0 < rat_of_int q" using q by simp
  have "r * of_int q = of_int p" using r q by simp
  have lo: "2 powi (?e - 1) \<le> r"
  proof -
    have "2 powi (?e - 1) * rat_of_int q \<le> 2 powi (?e - 1) * 2 powi (bitlen q)"
      using bitlen_rat_bounds(2) [OF q] by (intro mult_left_mono) (auto intro: less_imp_le)
    also have "\<dots> = 2 powi (bitlen p - 1)" by (subst power_int_add [symmetric]) auto
    also have "\<dots> \<le> of_int p" by (rule bitlen_rat_bounds(1) [OF p])
    finally show ?thesis using qpos r by (simp add: pos_le_divide_eq)
  qed
  have hi: "r < 2 powi (?e + 1)"
  proof -
    have "rat_of_int p < 2 powi (bitlen p)" by (rule bitlen_rat_bounds(2) [OF p])
    also have "\<dots> = 2 powi (?e + 1) * 2 powi (bitlen q - 1)" by (subst power_int_add [symmetric]) auto
    also have "\<dots> \<le> 2 powi (?e + 1) * rat_of_int q"
      using bitlen_rat_bounds(1) [OF q] by (intro mult_left_mono) auto
    finally show ?thesis using qpos r by (simp add: pos_divide_less_eq)
  qed
  show "2 powi ilog2 r \<le> r" "r < 2 powi (ilog2 r + 1)"
    using lo hi by (auto simp: ilog2_def pq Let_def)
qed

lemma round_half_even_int [simp]: "round_half_even (of_int k) = k"
  by (simp add: round_half_even_def)

lemma rnd_exact:
  assumes "r \<noteq> 0" and "\<bar>r\<bar> = of_int k * 2 powi ulp_exp \<bar>r\<bar>" and "\<bar>r\<bar> < 2 ^ 1024"
  shows "rnd r = Fin r"
proof -
  have "\<bar>r\<bar> / 2 powi ulp_exp \<bar>r\<bar> = of_int k" using assms(2) by (simp add: field_simps)
  then have k: "round_half_even (\<bar>r\<bar> / 2 powi ulp_exp \<bar>r\<bar>) = k" by simp
  have "k \<noteq> 0" using assms(1,2) by auto
  with k assms show ?thesis
    by (simp add: rnd_def rnd_ulp_def Let_def assms(2) [symmetric] sgn_mult_abs del: power_Suc)
qed

lemma ilog2_int:
  assumes "n \<noteq> 0" and "\<bar>n\<bar> \<le> (2::int) ^ 53"
  shows "0 \<le> ilog2 \<bar>rat_of_int n\<bar>" and "ilog2 \<bar>rat_of_int n\<bar> \<le> 53"
proof -
  let ?r = "\<bar>rat_of_int n\<bar>"
  have pos: "0 < ?r" using assms(1) by simp
  have "1 \<le> \<bar>n\<bar>" using assms(1) by linarith
  then have one: "1 \<le> ?r" by (metis of_int_1_le_iff of_int_abs)
  show "0 \<le> ilog2 ?r"
  proof (rule ccontr)
    assume "\<not> 0 \<le> ilog2 ?r"
    then have "(2::rat) powi (ilog2 ?r + 1) \<le> 2 powi 0" by (intro power_int_increasing) auto
    with ilog2_bounds(2) [OF pos] one show False by simp
  qed
  have "?r = of_int \<bar>n\<bar>" by simp
  then have top: "?r \<le> 2 ^ 53" using assms(2) by (metis of_int_le_iff of_int_numeral of_int_power)
  show "ilog2 ?r \<le> 53"
  proof (rule ccontr)
    assume "\<not> ilog2 ?r \<le> 53"
    then have "(2::rat) powi 54 \<le> 2 powi (ilog2 ?r)" by (intro power_int_increasing) auto
    with ilog2_bounds(1) [OF pos] top show False by simp
  qed
qed

theorem rnd_int [simp]: "\<bar>n\<bar> \<le> (2::int) ^ 53 \<Longrightarrow> rnd (of_int n) = Fin (of_int n)"
proof (cases "n = 0")
  case True
  then show ?thesis by (simp add: rnd_def rnd_ulp_def)
next
  case False
  assume n: "\<bar>n\<bar> \<le> 2 ^ 53"
  let ?r = "rat_of_int n" and ?l = "ilog2 \<bar>rat_of_int n\<bar>"
  have l: "0 \<le> ?l" "?l \<le> 53" using ilog2_int [OF False n] by auto
  have e: "ulp_exp \<bar>?r\<bar> = ?l - 52" using l by (simp add: ulp_exp_def)
  have pos: "0 < \<bar>?r\<bar>" using False by simp
  have top: "\<bar>?r\<bar> \<le> 2 ^ 53" using n by (metis of_int_abs of_int_le_iff of_int_numeral of_int_power)
  have "\<exists>k. \<bar>?r\<bar> = of_int k * 2 powi ulp_exp \<bar>?r\<bar>"
  proof (cases "?l = 53")
    case True
    then have "\<bar>?r\<bar> = 2 ^ 53" using ilog2_bounds(1) [OF pos] top by simp
    then show ?thesis using e True by (intro exI [of _ "2 ^ 52"]) simp
  next
    case False
    then have "?l - 52 \<le> 0" using l by linarith
    then have "\<bar>?r\<bar> = of_int (\<bar>n\<bar> * 2 ^ nat (52 - ?l)) * 2 powi (?l - 52)"
      by (simp add: power_int_def power_mult_distrib [symmetric])
    then show ?thesis unfolding e by blast
  qed
  then obtain k where k: "\<bar>?r\<bar> = of_int k * 2 powi ulp_exp \<bar>?r\<bar>" ..
  have "\<bar>?r\<bar> < 2 ^ 1024"
  proof -
    have "(2::rat) ^ 53 < 2 ^ 1024" by (rule power_strict_increasing) auto
    with top show ?thesis by linarith
  qed
  with rnd_exact [OF _ k] False show ?thesis by simp
qed

text \<open>Evaluation takes the short way for safe integers.\<close>

declare rnd_def [code del]

lemma rnd_code [code]:
  "rnd r = (if of_int \<lfloor>r\<rfloor> = r \<and> \<bar>r\<bar> \<le> 2 ^ 53 then Fin r else rnd_ulp r)"
proof (cases "of_int \<lfloor>r\<rfloor> = r \<and> \<bar>r\<bar> \<le> 2 ^ 53")
  case True
  then have "rat_of_int \<bar>\<lfloor>r\<rfloor>\<bar> \<le> rat_of_int (2 ^ 53)" by (simp only: of_int_abs) simp
  then have "\<bar>\<lfloor>r\<rfloor>\<bar> \<le> 2 ^ 53" by (simp only: of_int_le_iff)
  from rnd_int [OF this] True show ?thesis by simp
qed (auto simp: rnd_def)

lemma nat_le_int: "n \<le> 2 ^ 53 \<Longrightarrow> \<bar>int n\<bar> \<le> 2 ^ 53"
  by (metis abs_of_nat of_nat_le_iff of_nat_numeral of_nat_power)

lemma rnd_nat [simp]: "n \<le> 2 ^ 53 \<Longrightarrow> rnd (of_nat n) = Fin (of_nat n)"
  using rnd_int [of "int n"] nat_le_int [of n] by simp

lemma js_add_int:
  "\<bar>a + b\<bar> \<le> 2 ^ 53 \<Longrightarrow> js_add (Fin (of_int a)) (Fin (of_int b)) = Fin (of_int (a + b))"
  using rnd_int [of "a + b"] by (simp add: js_add_def del: rnd_int)

lemma js_le_Fin [simp]: "js_le (Fin a) (Fin b) \<longleftrightarrow> a \<le> b"
  by (simp add: js_le_def)

lemma js_lt_Fin [simp]: "js_lt (Fin a) (Fin b) \<longleftrightarrow> a < b"
  by (auto simp: js_lt_def)

lemma js_num_eq_Fin [simp]: "js_num_eq (Fin a) (Fin b) \<longleftrightarrow> a = b"
  by (auto simp: js_num_eq_def)

lemma num_str_int: "\<bar>i\<bar> \<le> 2 ^ 53 \<Longrightarrow> num_str (Fin (of_int i)) = int_str i"
proof -
  assume "\<bar>i\<bar> \<le> 2 ^ 53"
  then have "\<bar>rat_of_int i\<bar> \<le> 2 ^ 53" by (metis of_int_abs of_int_le_iff of_int_numeral of_int_power)
  then show ?thesis by (simp add: num_str_def)
qed

lemma parse_decimal_nat: "parse_decimal (nat_str n) = Some (of_nat n)"
proof -
  have whole: "takeWhile is_digit (nat_str n) = nat_str n" "dropWhile is_digit (nat_str n) = []"
    using nat_str_digits [of n] by auto
  show ?thesis unfolding parse_decimal_def Let_def whole by simp
qed

lemma nat_str_head: "\<exists>d t. nat_str n = d # t \<and> is_digit d \<and> (t = [] \<or> is_digit (hd t))"
  using nat_str_digits [of n] by (cases "nat_str n") (auto dest: list.set_sel(1))

lemma num_of_decimal_nat: "n \<le> 2 ^ 53 \<Longrightarrow> num_of_decimal (nat_str n) = Fin (of_nat n)"
proof -
  assume n: "n \<le> 2 ^ 53"
  have "nat_str n \<noteq> js ''Infinity''"
    using nat_str_head [of n] by (auto simp: js_lit is_digit_def)
  with n show ?thesis by (simp add: num_of_decimal_def parse_decimal_nat)
qed

text \<open>Reading back the decimal text of a safe integer gives the integer.\<close>

lemma to_number_nat [simp]:
  assumes n: "n \<le> 2 ^ 53"
  shows "to_number (nat_str n) = Fin (of_nat n)"
proof -
  obtain d t where dt: "nat_str n = d # t" "is_digit d" "t = [] \<or> is_digit (hd t)"
    using nat_str_head by blast
  then have "t = [] \<or> hd t \<notin> {120, 88, 111, 79, 98, 66}" "d \<noteq> 45" "d \<noteq> 43"
    by (auto simp: is_digit_def)
  then have "to_number (nat_str n) = num_of_decimal (nat_str n)"
    using trim_nat_str [of n] unfolding to_number_def dt(1) by (cases "t = []") auto
  with num_of_decimal_nat [OF n] show ?thesis by simp
qed

lemma num_str_nat [simp]: "n \<le> 2 ^ 53 \<Longrightarrow> num_str (Fin (of_nat n)) = nat_str n"
  using num_str_int [OF nat_le_int] by (simp add: int_str_def)

end
