(* ===== verification/Js_Json.thy ===== *)
theory Js_Json
  imports Js_Number
begin

text \<open>
  JSON values, \<open>JSON.parse\<close> (a recursive descent over the grammar of ECMA-404, with the
  language's treatment of duplicate keys), the string form of \<open>JSON.stringify\<close>, the
  order in which \<open>Object.keys\<close> and \<open>Object.entries\<close> list properties, and
  \<open>String(v)\<close> on parsed values.
\<close>

section \<open>Values\<close>

text \<open>The properties of an object are listed in the order of their creation.\<close>

datatype json =
    JNull
  | JBool bool
  | JNum jsnum
  | JStr jsstr
  | JArr "json list"
  | JObj "(jsstr \<times> json) list"

fun json_truthy :: "json \<Rightarrow> bool" where
  "json_truthy JNull = False"
| "json_truthy (JBool b) = b"
| "json_truthy (JNum x) = num_truthy x"
| "json_truthy (JStr s) = (s \<noteq> [])"
| "json_truthy (JArr xs) = True"
| "json_truthy (JObj ps) = True"

text \<open>Array indices come first, in ascending order; then the other keys as created.\<close>

definition is_index_key :: "jsstr \<Rightarrow> bool" where
  "is_index_key k \<longleftrightarrow> k \<noteq> [] \<and> list_all is_digit k \<and> nat_str (digits_val k) = k \<and>
     digits_val k < 4294967295"

definition obj_entries :: "(jsstr \<times> 'v) list \<Rightarrow> (jsstr \<times> 'v) list" where
  "obj_entries ps =
     js_sort (\<lambda>a b. digits_val (fst a) \<le> digits_val (fst b)) (filter (\<lambda>p. is_index_key (fst p)) ps) @
     filter (\<lambda>p. \<not> is_index_key (fst p)) ps"

definition obj_keys :: "(jsstr \<times> 'v) list \<Rightarrow> jsstr list" where
  "obj_keys ps = map fst (obj_entries ps)"

definition obj_values :: "(jsstr \<times> 'v) list \<Rightarrow> 'v list" where
  "obj_values ps = map snd (obj_entries ps)"

lemma set_obj_entries [simp]: "set (obj_entries ps) = set ps"
  by (auto simp: obj_entries_def)

lemma mset_obj_entries [simp]: "mset (obj_entries ps) = mset ps"
  by (simp add: obj_entries_def)

lemma set_obj_keys [simp]: "set (obj_keys ps) = fst ` set ps"
  by (simp add: obj_keys_def)

lemma set_obj_values [simp]: "set (obj_values ps) = snd ` set ps"
  by (simp add: obj_values_def)

section \<open>Strings\<close>

definition hex_digit :: "nat \<Rightarrow> nat" where
  "hex_digit d = (if d < 10 then 48 + d else 87 + d)"

definition hex_val :: "nat \<Rightarrow> nat option" where
  "hex_val c = digit_in 16 c"

definition unicode_escape :: "nat \<Rightarrow> jsstr" where
  "unicode_escape c =
     [92, 117, hex_digit (c div 4096 mod 16), hex_digit (c div 256 mod 16),
      hex_digit (c div 16 mod 16), hex_digit (c mod 16)]"

definition is_high :: "nat \<Rightarrow> bool" where
  "is_high c \<longleftrightarrow> 55296 \<le> c \<and> c \<le> 56319"

definition is_low :: "nat \<Rightarrow> bool" where
  "is_low c \<longleftrightarrow> 56320 \<le> c \<and> c \<le> 57343"

definition short_escape :: "nat \<Rightarrow> nat option" where
  "short_escape c =
     (if c = 8 then Some 98 else if c = 9 then Some 116 else if c = 10 then Some 110
      else if c = 12 then Some 102 else if c = 13 then Some 114
      else if c = 34 then Some 34 else if c = 92 then Some 92 else None)"

text \<open>\<open>QuoteJSONString\<close> without the quotes: a lone surrogate is escaped, a pair is kept.\<close>

fun quote_units :: "jsstr \<Rightarrow> jsstr" where
  "quote_units [] = []"
| "quote_units (c # s) =
     (case short_escape c of
        Some e \<Rightarrow> 92 # e # quote_units s
      | None \<Rightarrow>
          if c < 32 then unicode_escape c @ quote_units s
          else if is_high c then
            (case s of
               d # s' \<Rightarrow> if is_low d then c # d # quote_units s' else unicode_escape c @ quote_units s
             | [] \<Rightarrow> unicode_escape c)
          else if is_low c then unicode_escape c @ quote_units s
          else c # quote_units s)"

definition json_quote :: "jsstr \<Rightarrow> jsstr" where
  "json_quote s = 34 # quote_units s @ [34]"

definition unescape :: "nat \<Rightarrow> nat option" where
  "unescape e =
     (if e = 34 then Some 34 else if e = 92 then Some 92 else if e = 47 then Some 47
      else if e = 98 then Some 8 else if e = 102 then Some 12 else if e = 110 then Some 10
      else if e = 114 then Some 13 else if e = 116 then Some 9 else None)"

definition hex4 :: "nat \<Rightarrow> nat \<Rightarrow> nat \<Rightarrow> nat \<Rightarrow> nat option" where
  "hex4 a b c d =
     (case (hex_val a, hex_val b, hex_val c, hex_val d) of
        (Some w, Some x, Some y, Some z) \<Rightarrow> Some (4096 * w + 256 * x + 16 * y + z)
      | _ \<Rightarrow> None)"

text \<open>The characters of a string after its opening quote, and what follows the closing one.\<close>

fun json_chars :: "jsstr \<Rightarrow> (jsstr \<times> jsstr) option" where
  "json_chars [] = None"
| "json_chars (c # s) =
     (if c = 34 then Some ([], s)
      else if c = 92 then
        (case s of
           [] \<Rightarrow> None
         | e # s' \<Rightarrow>
             if e = 117 then
               (case s' of
                  h1 # h2 # h3 # h4 # s'' \<Rightarrow>
                    (case hex4 h1 h2 h3 h4 of
                       None \<Rightarrow> None
                     | Some u \<Rightarrow> map_option (\<lambda>(w, r). (u # w, r)) (json_chars s''))
                | _ \<Rightarrow> None)
             else (case unescape e of
                  None \<Rightarrow> None
                | Some u \<Rightarrow> map_option (\<lambda>(w, r). (u # w, r)) (json_chars s')))
      else if c < 32 then None
      else map_option (\<lambda>(w, r). (c # w, r)) (json_chars s))"

section \<open>The parser\<close>

definition json_ws :: "nat \<Rightarrow> bool" where
  "json_ws c \<longleftrightarrow> c = 9 \<or> c = 10 \<or> c = 13 \<or> c = 32"

definition skip_ws :: "jsstr \<Rightarrow> jsstr" where
  "skip_ws s = dropWhile json_ws s"

definition eat_digits :: "jsstr \<Rightarrow> (jsstr \<times> jsstr) option" where
  "eat_digits s =
     (if takeWhile is_digit s = [] then None else Some (takeWhile is_digit s, dropWhile is_digit s))"

text \<open>The text of a number token: no leading zeros, digits around the point and in the exponent.\<close>

definition number_token :: "jsstr \<Rightarrow> (jsstr \<times> jsstr) option" where
  "number_token s =
     (let (sign, s1) = (case s of [] \<Rightarrow> ([], []) | c # r \<Rightarrow> if c = 45 then ([45], r) else ([], s)) in
      case eat_digits s1 of
        None \<Rightarrow> None
      | Some (ip, s2) \<Rightarrow>
          if hd ip = 48 \<and> length ip > 1 then None
          else
            (case (case s2 of
                     [] \<Rightarrow> Some ([], [])
                   | c # r \<Rightarrow>
                       if c = 46 then map_option (\<lambda>(d, r'). (46 # d, r')) (eat_digits r)
                       else Some ([], s2)) of
               None \<Rightarrow> None
             | Some (fp, s3) \<Rightarrow>
                 (case s3 of
                    [] \<Rightarrow> Some (sign @ ip @ fp, [])
                  | c # r \<Rightarrow>
                      if c = 101 \<or> c = 69 then
                        (let (es, r1) = (case r of
                             [] \<Rightarrow> ([], [])
                           | x # r' \<Rightarrow> if x = 43 \<or> x = 45 then ([x], r') else ([], r)) in
                         map_option (\<lambda>(d, r'). (sign @ ip @ fp @ [c] @ es @ d, r')) (eat_digits r1))
                      else Some (sign @ ip @ fp, s3))))"

definition eat_lit :: "string \<Rightarrow> jsstr \<Rightarrow> jsstr option" where
  "eat_lit w s = (if starts_with (js w) s then Some (drop (length w) s) else None)"

text \<open>
  Values, the elements of an array after \<open>[\<close> or a comma, and the members of an object after
  \<open>{\<close> or a comma. Every call spends one unit of fuel; \<open>json_fuel_enough\<close> below shows that
  twice the length of the text plus one is enough.
\<close>

fun json_value :: "nat \<Rightarrow> jsstr \<Rightarrow> (json \<times> jsstr) option"
and json_elems :: "nat \<Rightarrow> jsstr \<Rightarrow> (json list \<times> jsstr) option"
and json_members :: "nat \<Rightarrow> (jsstr \<times> json) list \<Rightarrow> jsstr \<Rightarrow> ((jsstr \<times> json) list \<times> jsstr) option" where
  "json_value 0 s = None"
| "json_value (Suc n) s =
     (case skip_ws s of
        [] \<Rightarrow> None
      | c # r \<Rightarrow>
          if c = 34 then map_option (\<lambda>(w, r'). (JStr w, r')) (json_chars r)
          else if c = 91 then
            (case skip_ws r of
               [] \<Rightarrow> None
             | d # r' \<Rightarrow>
                 if d = 93 then Some (JArr [], r')
                 else map_option (\<lambda>(xs, q). (JArr xs, q)) (json_elems n r))
          else if c = 123 then
            (case skip_ws r of
               [] \<Rightarrow> None
             | d # r' \<Rightarrow>
                 if d = 125 then Some (JObj [], r')
                 else map_option (\<lambda>(ps, q). (JObj ps, q)) (json_members n [] r))
          else if c = 116 then map_option (\<lambda>q. (JBool True, q)) (eat_lit ''true'' (c # r))
          else if c = 102 then map_option (\<lambda>q. (JBool False, q)) (eat_lit ''false'' (c # r))
          else if c = 110 then map_option (\<lambda>q. (JNull, q)) (eat_lit ''null'' (c # r))
          else map_option (\<lambda>(t, q). (JNum (to_number t), q)) (number_token (c # r)))"
| "json_elems 0 s = None"
| "json_elems (Suc n) s =
     (case json_value n s of
        None \<Rightarrow> None
      | Some (x, r) \<Rightarrow>
          (case skip_ws r of
             [] \<Rightarrow> None
           | d # r' \<Rightarrow>
               if d = 93 then Some ([x], r')
               else if d = 44 then map_option (\<lambda>(xs, q). (x # xs, q)) (json_elems n r')
               else None))"
| "json_members 0 acc s = None"
| "json_members (Suc n) acc s =
     (case skip_ws s of
        [] \<Rightarrow> None
      | c # r \<Rightarrow>
          if c \<noteq> 34 then None
          else
            (case json_chars r of
               None \<Rightarrow> None
             | Some (k, r1) \<Rightarrow>
                 (case skip_ws r1 of
                    [] \<Rightarrow> None
                  | d # r2 \<Rightarrow>
                      if d \<noteq> 58 then None
                      else
                        (case json_value n r2 of
                           None \<Rightarrow> None
                         | Some (v, r3) \<Rightarrow>
                             (case skip_ws r3 of
                                [] \<Rightarrow> None
                              | e # r4 \<Rightarrow>
                                  if e = 125 then Some (AList.update k v acc, r4)
                                  else if e = 44 then json_members n (AList.update k v acc) r4
                                  else None)))))"

text \<open>\<open>JSON.parse(s)\<close>; \<open>None\<close> is the \<open>SyntaxError\<close> it throws.\<close>

definition json_parse :: "jsstr \<Rightarrow> json option" where
  "json_parse s =
     (case json_value (Suc (2 * length s)) s of
        None \<Rightarrow> None
      | Some (v, r) \<Rightarrow> if skip_ws r = [] then Some v else None)"

section \<open>String conversion\<close>

text \<open>\<open>String(v)\<close>: an array joins its elements with commas, null elements as the empty string.\<close>

fun json_string :: "json \<Rightarrow> jsstr" where
  "json_string JNull = js ''null''"
| "json_string (JBool b) = js (if b then ''true'' else ''false'')"
| "json_string (JNum x) = num_str x"
| "json_string (JStr s) = s"
| "json_string (JArr xs) = join [44] (map (\<lambda>x. if x = JNull then [] else json_string x) xs)"
| "json_string (JObj ps) = js ''[object Object]''"

section \<open>Quoting is undone by parsing\<close>

lemma hex_val_digit: "d < 16 \<Longrightarrow> hex_val (hex_digit d) = Some d"
  by (auto simp: hex_val_def hex_digit_def is_digit_def)

lemma unicode_escape_chars:
  assumes "c < 65536"
  shows "json_chars (unicode_escape c @ s) = map_option (\<lambda>(w, r). (c # w, r)) (json_chars s)"
proof -
  have split: "4096 * (c div 4096 mod 16) + 256 * (c div 256 mod 16) + 16 * (c div 16 mod 16) + c mod 16 = c"
  proof -
    have a: "c = 16 * (c div 16) + c mod 16" by simp
    have b: "c div 16 = 16 * (c div 256) + c div 16 mod 16"
      using mult_div_mod_eq [of 16 "c div 16"] by (simp only: div_mult2_eq [symmetric]) simp
    have d: "c div 256 = 16 * (c div 4096) + c div 256 mod 16"
      using mult_div_mod_eq [of 16 "c div 256"] by (simp only: div_mult2_eq [symmetric]) simp
    have "c div 4096 < 16" using assms by (simp add: less_mult_imp_div_less)
    then have "c div 4096 mod 16 = c div 4096" by simp
    with a b d show ?thesis by linarith
  qed
  have "hex4 (hex_digit (c div 4096 mod 16)) (hex_digit (c div 256 mod 16))
      (hex_digit (c div 16 mod 16)) (hex_digit (c mod 16)) = Some c"
    unfolding hex4_def by (subst (1 2 3 4) hex_val_digit, simp_all only: split prod.case option.case)
  then show ?thesis by (simp add: unicode_escape_def)
qed

lemma short_escape_unescape: "short_escape c = Some e \<Longrightarrow> unescape e = Some c \<and> e \<noteq> 117"
  by (auto simp: short_escape_def unescape_def split: if_splits)

lemma short_escape_None: "short_escape c = None \<Longrightarrow> c \<noteq> 34 \<and> c \<noteq> 92"
  by (auto simp: short_escape_def split: if_splits)

lemma json_chars_plain:
  "c \<noteq> 34 \<Longrightarrow> c \<noteq> 92 \<Longrightarrow> \<not> c < 32 \<Longrightarrow>
   json_chars (c # s) = map_option (\<lambda>(w, r). (c # w, r)) (json_chars s)"
  by simp

text \<open>
  One step of the quoting: a unit without a short escape is escaped or copied, and a surrogate
  pair is copied whole.
\<close>

lemma json_chars_quote_unit:
  assumes c: "c < 65536" and None: "short_escape c = None"
    and u: "json_chars (quote_units u @ 34 # t) = Some (u, t)"
    and pair: "\<And>d v. u = d # v \<Longrightarrow> json_chars (quote_units v @ 34 # t) = Some (v, t)"
  shows "json_chars (quote_units (c # u) @ 34 # t) = Some (c # u, t)"
proof -
  have esc: "json_chars (unicode_escape c @ quote_units u @ 34 # t) = Some (c # u, t)"
    using u by (simp add: unicode_escape_chars [OF c])
  note plain = json_chars_plain [OF short_escape_None [OF None, THEN conjunct1]
      short_escape_None [OF None, THEN conjunct2]]
  consider (escaped) "c < 32 \<or> is_high c \<and> (u = [] \<or> \<not> is_low (hd u)) \<or> \<not> is_high c \<and> is_low c"
    | (pair) d v where "\<not> c < 32" "is_high c" "u = d # v" "is_low d"
    | (copied) "\<not> c < 32" "\<not> is_high c" "\<not> is_low c"
    by (cases u) auto
  then show ?thesis
  proof cases
    case escaped
    with None esc show ?thesis by (cases u) (auto simp del: json_chars.simps)
  next
    case (pair d v)
    have "d \<noteq> 34" "d \<noteq> 92" "\<not> d < 32" using \<open>is_low d\<close> by (auto simp: is_low_def)
    with pair None assms(4) [of d v] plain [OF pair(1), of "d # quote_units v @ 34 # t"] show ?thesis
      by (simp del: json_chars.simps add: json_chars_plain)
  next
    case copied
    with None u plain [OF copied(1), of "quote_units u @ 34 # t"] show ?thesis
      by (simp del: json_chars.simps)
  qed
qed

theorem json_chars_quote:
  "\<forall>c \<in> set s. c < 65536 \<Longrightarrow> json_chars (quote_units s @ 34 # t) = Some (s, t)"
proof (induction s rule: length_induct)
  case (1 s)
  show ?case
  proof (cases s)
    case (Cons c u)
    have c: "c < 65536" and u: "json_chars (quote_units u @ 34 # t) = Some (u, t)"
      using 1 Cons by auto
    show ?thesis
    proof (cases "short_escape c")
      case (Some e)
      with Cons u short_escape_unescape [OF Some] show ?thesis by simp
    next
      case None
      show ?thesis unfolding Cons
        by (rule json_chars_quote_unit [OF c None u]) (use 1 Cons in auto)
    qed
  qed simp
qed

section \<open>The fuel of the parser is enough\<close>

lemma skip_ws_length: "length (skip_ws s) \<le> length s"
  by (simp add: skip_ws_def length_dropWhile_le)

lemma skip_ws_Cons: "skip_ws s = c # r \<Longrightarrow> length r < length s"
  using skip_ws_length [of s] by simp

lemma json_chars_shorter: "json_chars s = Some (w, r) \<Longrightarrow> length r < length s"
proof (induction s arbitrary: w rule: length_induct)
  case (1 s)
  then have IH: "length r < n" if "json_chars t = Some (w', r)" "length t < length s" "length t \<le> n" for t w' n
    using that by (meson less_le_trans)
  from "1.prems" show ?case
    by (cases s) (auto split: if_splits list.splits option.splits intro: IH)
qed

lemma eat_digits_shorter: "eat_digits s = Some (d, r) \<Longrightarrow> length r < length s"
proof -
  assume "eat_digits s = Some (d, r)"
  then have "d \<noteq> []" "s = d @ r" by (auto simp: eat_digits_def split: if_splits)
  then show ?thesis by (cases d) auto
qed

lemma number_token_shorter: "number_token s = Some (t, r) \<Longrightarrow> length r < length s"
  by (auto simp: number_token_def Let_def split: list.splits if_splits option.splits
      dest!: eat_digits_shorter)

lemma eat_lit_shorter: "w \<noteq> [] \<Longrightarrow> eat_lit w s = Some r \<Longrightarrow> length r < length s"
  by (auto simp: eat_lit_def starts_with_iff split: if_splits)

lemmas json_shorter = json_chars_shorter number_token_shorter skip_ws_Cons eat_lit_shorter

lemma json_rest_shorter_all:
  "(\<forall>s v r. json_value n s = Some (v, r) \<longrightarrow> length r < length s) \<and>
   (\<forall>s xs r. json_elems n s = Some (xs, r) \<longrightarrow> length r < length s) \<and>
   (\<forall>acc s ps r. json_members n acc s = Some (ps, r) \<longrightarrow> length r < length s)"
proof (induction n)
  case (Suc n)
  have val: "length r < length s" if v: "json_value (Suc n) s = Some (v, r)" for s v r
  proof -
    obtain c q where q: "skip_ws s = c # q" using v by (cases "skip_ws s") auto
    have "length r < length (c # q)"
      using v q Suc.IH eat_lit_shorter [of "''true''" "c # q" r] eat_lit_shorter [of "''false''" "c # q" r]
        eat_lit_shorter [of "''null''" "c # q" r] number_token_shorter [of "c # q" _ r]
      by (auto split: if_splits list.splits dest!: json_chars_shorter skip_ws_Cons intro: less_SucI less_trans_Suc)
    with skip_ws_length [of s] q show ?thesis by simp
  qed
  have elems: "length r < length s" if e: "json_elems (Suc n) s = Some (xs, r)" for s xs r
  proof -
    obtain x q where x: "json_value n s = Some (x, q)" using e by (auto split: option.splits)
    then have q: "length q < length s" using Suc.IH by blast
    obtain d q' where d: "skip_ws q = d # q'" using e x by (cases "skip_ws q") auto
    have "r = q' \<or> (\<exists>ys. json_elems n q' = Some (ys, r))" using e x d by (auto split: if_splits)
    with Suc.IH skip_ws_Cons [OF d] q show ?thesis by (metis less_trans)
  qed
  have members: "length r < length s" if m: "json_members (Suc n) acc s = Some (ps, r)" for acc s ps r
  proof -
    obtain q where q: "skip_ws s = 34 # q" using m by (cases "skip_ws s") (auto split: if_splits)
    then obtain k q1 where k: "json_chars q = Some (k, q1)" using m by (auto split: option.splits)
    then obtain q2 where q2: "skip_ws q1 = 58 # q2"
      using m q by (cases "skip_ws q1") (auto split: if_splits)
    then obtain v q3 where v: "json_value n q2 = Some (v, q3)" using m q k by (auto split: option.splits)
    then obtain e q4 where q4: "skip_ws q3 = e # q4" using m q k q2 by (cases "skip_ws q3") auto
    have "r = q4 \<or> (\<exists>acc. json_members n acc q4 = Some (ps, r))"
      using m q k q2 v q4 by (auto split: if_splits)
    then have "length r \<le> length q4" using Suc.IH by (metis less_imp_le order_refl)
    moreover have "length q3 < length q2" using v Suc.IH by blast
    ultimately show ?thesis
      using skip_ws_Cons [OF q] skip_ws_Cons [OF q2] skip_ws_Cons [OF q4] json_chars_shorter [OF k] by simp
  qed
  show ?case using val elems members by blast
qed simp

lemma json_value_shorter: "json_value n s = Some (v, r) \<Longrightarrow> length r < length s"
  using json_rest_shorter_all [of n] by blast

lemma two_Suc: "a < n \<Longrightarrow> b < m \<Longrightarrow> \<exists>n' m'. n = Suc n' \<and> m = Suc m'"
  by (cases n; cases m) auto

text \<open>Above the bound, the amount of fuel does not matter.\<close>

lemma json_value_stable_step:
  assumes "\<And>n m r. length r < length s \<Longrightarrow> 2 * length s \<le> n \<Longrightarrow> 2 * length s \<le> m \<Longrightarrow>
      json_elems n r = json_elems m r"
    and "\<And>n m r acc. length r < length s \<Longrightarrow> 2 * length s \<le> n \<Longrightarrow> 2 * length s \<le> m \<Longrightarrow>
      json_members n acc r = json_members m acc r"
    and bound: "2 * length s < n" "2 * length s < m"
  shows "json_value n s = json_value m s"
proof -
  obtain n' m' where nm: "n = Suc n'" "m = Suc m'" using two_Suc [OF bound] by blast
  show ?thesis
  proof (cases "skip_ws s")
    case (Cons c r)
    with nm bound skip_ws_Cons [OF Cons] assms(1) [of r n' m'] assms(2) [of r n' m'] show ?thesis
      by (simp split: list.split)
  qed (simp add: nm)
qed

lemma json_elems_stable_step:
  assumes "\<And>n m r. length r < length s \<Longrightarrow> 2 * length s \<le> n \<Longrightarrow> 2 * length s \<le> m \<Longrightarrow>
      json_elems n r = json_elems m r"
    and "\<And>n m. 2 * length s < n \<Longrightarrow> 2 * length s < m \<Longrightarrow> json_value n s = json_value m s"
    and bound: "2 * length s + 1 < n" "2 * length s + 1 < m"
  shows "json_elems n s = json_elems m s"
proof -
  obtain n' m' where nm: "n = Suc n'" "m = Suc m'" using two_Suc [OF bound] by blast
  have v: "json_value n' s = json_value m' s" using bound nm by (intro assms(2)) auto
  show ?thesis
  proof (cases "json_value m' s")
    case (Some xr)
    obtain x r where xr: "xr = (x, r)" by (cases xr)
    have "length r < length s" using json_value_shorter Some xr by blast
    then have "skip_ws r = d # r' \<Longrightarrow> json_elems n' r' = json_elems m' r'" for d r'
      using skip_ws_Cons [of r d r'] bound nm by (intro assms(1)) auto
    with Some xr v nm show ?thesis by (auto split: list.splits)
  qed (use v nm in simp)
qed

lemma json_members_stable_step:
  assumes "\<And>n m r. length r < length s \<Longrightarrow> 2 * length s \<le> n \<Longrightarrow> 2 * length s \<le> m \<Longrightarrow>
      json_value n r = json_value m r"
    and "\<And>n m r acc. length r < length s \<Longrightarrow> 2 * length s \<le> n \<Longrightarrow> 2 * length s \<le> m \<Longrightarrow>
      json_members n acc r = json_members m acc r"
    and bound: "2 * length s < n" "2 * length s < m"
  shows "json_members n acc s = json_members m acc s"
proof -
  obtain n' m' where nm: "n = Suc n'" "m = Suc m'" using two_Suc [OF bound] by blast
  have v: "json_value n' q2 = json_value m' q2"
    if "skip_ws s = c # q" "json_chars q = Some (k, q1)" "skip_ws q1 = d # q2" for c q k q1 d q2
    using json_chars_shorter [OF that(2)] skip_ws_Cons [OF that(1)] skip_ws_Cons [OF that(3)]
      bound nm by (intro assms(1)) auto
  have r: "json_members n' acc' q4 = json_members m' acc' q4"
    if "skip_ws s = c # q" "json_chars q = Some (k, q1)" "skip_ws q1 = d # q2"
      "json_value m' q2 = Some (x, q3)" "skip_ws q3 = e # q4" for c q k q1 d q2 x q3 e q4 acc'
    using json_chars_shorter [OF that(2)] skip_ws_Cons [OF that(1)] skip_ws_Cons [OF that(3)]
      json_value_shorter [OF that(4)] skip_ws_Cons [OF that(5)]
      bound nm by (intro assms(2)) auto
  show ?thesis using v r nm by (auto split: list.splits option.splits)
qed

lemma json_fuel_stable:
  "(\<forall>n m. 2 * length s < n \<longrightarrow> 2 * length s < m \<longrightarrow> json_value n s = json_value m s) \<and>
   (\<forall>n m. 2 * length s + 1 < n \<longrightarrow> 2 * length s + 1 < m \<longrightarrow> json_elems n s = json_elems m s) \<and>
   (\<forall>n m acc. 2 * length s < n \<longrightarrow> 2 * length s < m \<longrightarrow> json_members n acc s = json_members m acc s)"
proof (induction s rule: length_induct)
  case (1 s)
  have IHe: "json_elems n r = json_elems m r" if "length r < length s" "2 * length s \<le> n" "2 * length s \<le> m" for n m r
    using 1 that by force
  have IHm: "json_members n acc r = json_members m acc r" if "length r < length s" "2 * length s \<le> n" "2 * length s \<le> m" for n m r acc
    using 1 that by force
  have IHv: "json_value n r = json_value m r" if "length r < length s" "2 * length s \<le> n" "2 * length s \<le> m" for n m r
    using 1 that by force
  have val: "json_value n s = json_value m s" if "2 * length s < n" "2 * length s < m" for n m
    by (rule json_value_stable_step [OF IHe IHm that])
  have elems: "json_elems n s = json_elems m s" if "2 * length s + 1 < n" "2 * length s + 1 < m" for n m
    by (rule json_elems_stable_step [OF IHe val that])
  have members: "json_members n acc s = json_members m acc s" if "2 * length s < n" "2 * length s < m" for n m acc
    by (rule json_members_stable_step [OF IHv IHm that])
  show ?case using val elems members by blast
qed

text \<open>
  So a text that parses with any amount of fuel parses with the fuel \<open>json_parse\<close> gives: the
  model reports a \<open>SyntaxError\<close> only where the grammar does.
\<close>

theorem json_fuel_enough:
  "2 * length s < n \<Longrightarrow> json_value n s = json_value (Suc (2 * length s)) s"
  using json_fuel_stable [of s] by blast

section \<open>Parsing a quoted string\<close>

lemma json_parse_quote:
  assumes "\<forall>c \<in> set s. c < 65536"
  shows "json_parse (json_quote s) = Some (JStr s)"
proof -
  have "json_value (Suc n) (json_quote s) = Some (JStr s, [])" for n
    using json_chars_quote [OF assms, of "[]"]
    by (simp add: json_quote_def skip_ws_def json_ws_def del: json_chars.simps)
  then show ?thesis by (simp add: json_parse_def skip_ws_def del: json_value.simps)
qed

end
