(* ===== verification/Js_Regex.thy ===== *)
theory Js_Regex
  imports Js_Prelude
begin

text \<open>
  Regular expressions of the language: a backtracking matcher with captures, back
  references, anchors and word boundaries. \<open>rmatch r st\<close> lists every way \<open>r\<close> can match
  from the state \<open>st\<close>, in the order in which the backtracking matcher of ECMAScript
  tries them (greedy quantifiers first, alternatives from left to right), so that the
  head of the list is the match the language reports.
\<close>

section \<open>Syntax and matcher\<close>

datatype regex =
    REps
  | RCls "nat \<Rightarrow> bool"
  | RSeq regex regex
  | RAlt regex regex
  | RStar regex
  | RGroup nat regex
  | RRef nat
  | RBol
  | REol
  | RWordB

text \<open>A matcher state: the unit before the position, the rest of the input, the captures.\<close>

type_synonym rstate = "nat option \<times> jsstr \<times> (nat \<Rightarrow> jsstr option)"

abbreviation rest_of :: "rstate \<Rightarrow> jsstr" where
  "rest_of st \<equiv> fst (snd st)"

abbreviation caps_of :: "rstate \<Rightarrow> nat \<Rightarrow> jsstr option" where
  "caps_of st \<equiv> snd (snd st)"

definition is_word :: "nat \<Rightarrow> bool" where
  "is_word c \<longleftrightarrow> is_digit c \<or> 65 \<le> c \<and> c \<le> 90 \<or> c = 95 \<or> 97 \<le> c \<and> c \<le> 122"

definition word_boundary :: "nat option \<Rightarrow> jsstr \<Rightarrow> bool" where
  "word_boundary b s \<longleftrightarrow>
     (case b of None \<Rightarrow> False | Some c \<Rightarrow> is_word c) \<noteq> (case s of [] \<Rightarrow> False | c # _ \<Rightarrow> is_word c)"

definition set_cap :: "nat \<Rightarrow> jsstr \<Rightarrow> rstate \<Rightarrow> rstate" where
  "set_cap n s st =
     (fst st, rest_of st, (caps_of st)(n \<mapsto> take (length s - length (rest_of st)) s))"

function (sequential) rmatch :: "regex \<Rightarrow> rstate \<Rightarrow> rstate list" where
  "rmatch REps st = [st]"
| "rmatch (RCls p) st =
     (case rest_of st of [] \<Rightarrow> [] | x # xs \<Rightarrow> if p x then [(Some x, xs, caps_of st)] else [])"
| "rmatch (RSeq a b) st = concat (map (rmatch b) (rmatch a st))"
| "rmatch (RAlt a b) st = rmatch a st @ rmatch b st"
| "rmatch (RStar a) st =
     concat (map (rmatch (RStar a))
       (filter (\<lambda>st'. length (rest_of st') < length (rest_of st)) (rmatch a st))) @ [st]"
| "rmatch (RGroup n a) st = map (set_cap n (rest_of st)) (rmatch a st)"
| "rmatch (RRef n) st =
     (case caps_of st n of
        None \<Rightarrow> [st]
      | Some w \<Rightarrow>
          if starts_with w (rest_of st)
          then [(if w = [] then fst st else Some (last w), drop (length w) (rest_of st), caps_of st)]
          else [])"
| "rmatch RBol st = (if fst st = None then [st] else [])"
| "rmatch REol st = (if rest_of st = [] then [st] else [])"
| "rmatch RWordB st = (if word_boundary (fst st) (rest_of st) then [st] else [])"
  by pat_completeness auto
termination
  by (relation "(\<lambda>(r, st). size r) <*mlex*> measure (\<lambda>(r, st). length (rest_of st))")
    (auto simp: mlex_prod_def)

declare rmatch.simps(5) [simp del]

definition first_match :: "regex \<Rightarrow> rstate \<Rightarrow> rstate option" where
  "first_match r st = (case rmatch r st of [] \<Rightarrow> None | v # _ \<Rightarrow> Some v)"

definition no_caps :: "nat \<Rightarrow> jsstr option" where
  "no_caps = (\<lambda>_. None)"

text \<open>The leftmost match at or after a position, with the input from the match on.\<close>

fun rsearch :: "regex \<Rightarrow> nat option \<Rightarrow> jsstr \<Rightarrow> (jsstr \<times> rstate) option" where
  "rsearch r b s =
     (case first_match r (b, s, no_caps) of
        Some st \<Rightarrow> Some (s, st)
      | None \<Rightarrow> (case s of [] \<Rightarrow> None | x # xs \<Rightarrow> rsearch r (Some x) xs))"

declare rsearch.simps [simp del]

text \<open>\<open>s.match(re)\<close> without the global flag: the captures of the first match.\<close>

definition re_match :: "regex \<Rightarrow> jsstr \<Rightarrow> (nat \<Rightarrow> jsstr option) option" where
  "re_match r s = map_option (\<lambda>(_, st). caps_of st) (rsearch r None s)"

definition re_test :: "regex \<Rightarrow> jsstr \<Rightarrow> bool" where
  "re_test r s \<longleftrightarrow> rsearch r None s \<noteq> None"

text \<open>
  \<open>while ((m = re.exec(s)) !== null)\<close> with the global flag: the captures of the successive
  matches. An empty match would make the loop of the source run forever; the recursion
  stops there, and \<open>find_all_progress\<close> below shows that it does not happen for an
  expression that consumes at least one unit.
\<close>

function find_all :: "regex \<Rightarrow> nat option \<Rightarrow> jsstr \<Rightarrow> (nat \<Rightarrow> jsstr option) list" where
  "find_all r b s =
     (case rsearch r b s of
        None \<Rightarrow> []
      | Some (s', st) \<Rightarrow>
          caps_of st # (if length (rest_of st) < length s then find_all r (fst st) (rest_of st) else []))"
  by pat_completeness auto
termination
  by (relation "measure (\<lambda>(r, b, s). length s)") auto

declare find_all.simps [simp del]

text \<open>Abbreviations for the notation of the sources.\<close>

definition rchr :: "char \<Rightarrow> regex" where
  "rchr c = RCls (\<lambda>x. x = of_char c)"

definition rlit :: "string \<Rightarrow> regex" where
  "rlit s = foldr (\<lambda>c. RSeq (rchr c)) s REps"

definition rseq :: "regex list \<Rightarrow> regex" where
  "rseq rs = foldr RSeq rs REps"

definition ralt :: "regex list \<Rightarrow> regex" where
  "ralt rs = foldr RAlt (butlast rs) (last rs)"

definition rplus :: "regex \<Rightarrow> regex" where
  "rplus r = RSeq r (RStar r)"

definition ropt :: "regex \<Rightarrow> regex" where
  "ropt r = RAlt r REps"

definition one_of :: "string \<Rightarrow> nat \<Rightarrow> bool" where
  "one_of cs c \<longleftrightarrow> c \<in> set (js cs)"

text \<open>\<open>.\<close> without the dot-all flag excludes the line terminators.\<close>

definition dot :: "nat \<Rightarrow> bool" where
  "dot c \<longleftrightarrow> c \<noteq> 10 \<and> c \<noteq> 13 \<and> c \<noteq> 8232 \<and> c \<noteq> 8233"

lemmas regex_defs = rseq_def ralt_def rplus_def ropt_def

section \<open>Matching literals, classes and sequences\<close>

lemma rmatch_Eps_seq [simp]: "rmatch (RSeq REps r) st = rmatch r st"
  by simp

lemma rmatch_lit_Nil [simp]: "rmatch (rlit []) st = [st]"
  by (simp add: rlit_def)

lemma rmatch_lit_Cons [simp]:
  "rmatch (rlit (c # w)) (b, x # s, cs) =
     (if x = of_char c then rmatch (rlit w) (Some x, s, cs) else [])"
  "rmatch (rlit (c # w)) (b, [], cs) = []"
  by (simp_all add: rlit_def rchr_def)

definition prev_after :: "nat option \<Rightarrow> jsstr \<Rightarrow> nat option" where
  "prev_after b w = (if w = [] then b else Some (last w))"

lemma prev_after_simps [simp]:
  "prev_after b [] = b" "prev_after b (x # w) = prev_after (Some x) w"
  "prev_after (prev_after b u) w = prev_after b (u @ w)"
  by (auto simp: prev_after_def)

lemma rmatch_lit_js: "rmatch (rlit w) (b, js w @ s, cs) = [(prev_after b (js w), s, cs)]"
  by (induction w arbitrary: b) (auto simp: js_lit)

lemma first_match_seq:
  "first_match a st = Some st' \<Longrightarrow> first_match b st' = Some v \<Longrightarrow> first_match (RSeq a b) st = Some v"
  by (auto simp: first_match_def split: list.splits)

lemma first_match_alt:
  "first_match (RAlt a b) st = (case first_match a st of None \<Rightarrow> first_match b st | Some v \<Rightarrow> Some v)"
  by (auto simp: first_match_def split: list.splits)

lemma first_match_None: "first_match r st = None \<longleftrightarrow> rmatch r st = []"
  by (simp add: first_match_def split: list.splits)

lemma rmatch_seq_Nil: "rmatch a st = [] \<Longrightarrow> rmatch (RSeq a b) st = []"
  by simp

lemma rmatch_star_cls [simp]:
  "rmatch (RStar (RCls p)) (b, [], cs) = [(b, [], cs)]"
  "rmatch (RStar (RCls p)) (b, x # s, cs) =
     (if p x then rmatch (RStar (RCls p)) (Some x, s, cs) @ [(b, x # s, cs)] else [(b, x # s, cs)])"
  by (simp_all add: rmatch.simps(5) [of "RCls p"])

text \<open>A starred class takes all it can first.\<close>

lemma rmatch_star_ne: "rmatch (RStar r) st \<noteq> []"
  by (subst rmatch.simps(5)) simp

lemma first_match_star_cls:
  assumes "\<forall>x \<in> set w. p x" and "s = [] \<or> \<not> p (hd s)"
  shows "first_match (RStar (RCls p)) (b, w @ s, cs) = Some (prev_after b w, s, cs)"
  using assms
proof (induction w arbitrary: b)
  case Nil
  then show ?case by (cases s) (auto simp: first_match_def)
next
  case (Cons x w)
  then have "first_match (RStar (RCls p)) (Some x, w @ s, cs) = Some (prev_after (Some x) w, s, cs)"
    by simp
  with Cons.prems show ?case by (auto simp: first_match_def split: list.splits)
qed

lemma first_match_plus_cls:
  assumes "w \<noteq> []" and "\<forall>x \<in> set w. p x" and "s = [] \<or> \<not> p (hd s)"
  shows "first_match (rplus (RCls p)) (b, w @ s, cs) = Some (prev_after b w, s, cs)"
proof -
  obtain x v where w: "w = x # v" using assms(1) by (cases w) auto
  have "first_match (RCls p) (b, w @ s, cs) = Some (Some x, v @ s, cs)"
    using assms(2) w by (simp add: first_match_def)
  moreover have "first_match (RStar (RCls p)) (Some x, v @ s, cs) = Some (prev_after (Some x) v, s, cs)"
    using assms w by (intro first_match_star_cls) auto
  ultimately show ?thesis unfolding rplus_def w by (simp add: first_match_seq)
qed

lemma first_match_group:
  "first_match a (b, w @ s, cs) = Some (b', s, cs') \<Longrightarrow>
   first_match (RGroup n a) (b, w @ s, cs) = Some (b', s, cs'(n \<mapsto> w))"
  by (auto simp: first_match_def set_cap_def split: list.splits)

lemma first_match_lit: "first_match (rlit w) (b, js w @ s, cs) = Some (prev_after b (js w), s, cs)"
  by (simp add: first_match_def rmatch_lit_js)

lemma first_match_Eps [simp]: "first_match REps st = Some st"
  by (simp add: first_match_def)

lemma first_match_Eol [simp]: "first_match REol (b, [], cs) = Some (b, [], cs)"
  by (simp add: first_match_def)

lemma rmatch_plus_cls_fail: "s = [] \<or> \<not> p (hd s) \<Longrightarrow> rmatch (rplus (RCls p)) (b, s, cs) = []"
  by (cases s) (auto simp: rplus_def)

section \<open>Anchored expressions\<close>

lemma rmatch_bol_later: "rmatch (RSeq RBol r) (Some x, s, cs) = []"
  by simp

lemma rsearch_bol_later: "rsearch (RSeq RBol r) (Some x) s = None"
  by (induction s arbitrary: x)
    (subst rsearch.simps, simp add: first_match_def)+

text \<open>An expression that starts with \<open>^\<close> can only match at the start.\<close>

lemma rsearch_bol:
  "rsearch (RSeq RBol r) None s = map_option (\<lambda>st. (s, st)) (first_match r (None, s, no_caps))"
  by (subst rsearch.simps)
    (auto simp: first_match_def rsearch_bol_later split: list.splits option.splits)

lemma re_match_bol: "re_match (RSeq RBol r) s = map_option caps_of (first_match r (None, s, no_caps))"
  by (cases "first_match r (None, s, no_caps)") (auto simp: re_match_def rsearch_bol)

lemma re_test_bol: "re_test (RSeq RBol r) s \<longleftrightarrow> first_match r (None, s, no_caps) \<noteq> None"
  by (simp add: re_test_def rsearch_bol)

section \<open>Matches consume a prefix\<close>

lemma rmatch_suffix: "st' \<in> set (rmatch r st) \<Longrightarrow> \<exists>w. rest_of st = w @ rest_of st'"
proof (induction r st arbitrary: st' rule: rmatch.induct)
  case (2 p st)
  then show ?case by (cases "rest_of st") (auto split: if_splits)
next
  case (3 a b st)
  then obtain m where m: "m \<in> set (rmatch a st)" "st' \<in> set (rmatch b m)" by auto
  from "3.IH"(1) [OF m(1)] "3.IH"(2) [OF m] show ?case by (metis append.assoc)
next
  case (5 a st)
  from 5(3) consider "st' = st"
    | m where "m \<in> set (rmatch a st)" "length (rest_of m) < length (rest_of st)"
        "st' \<in> set (rmatch (RStar a) m)"
    by (subst (asm) rmatch.simps(5)) auto
  then show ?case
  proof cases
    case 1
    then show ?thesis by simp
  next
    case 2
    then have "m \<in> set (filter (\<lambda>st'. length (rest_of st') < length (rest_of st)) (rmatch a st))" by simp
    from "5.IH"(2) [OF this 2(3)] "5.IH"(1) [OF 2(1)] show ?thesis by (metis append.assoc)
  qed
next
  case (6 n a st)
  then obtain m where m: "m \<in> set (rmatch a st)" "st' = set_cap n (rest_of st) m" by auto
  from "6.IH" [OF m(1)] m(2) show ?case by (simp add: set_cap_def)
next
  case (7 n st)
  then show ?case
    by (auto simp: starts_with_iff split: option.splits if_splits)
qed (auto split: if_splits)

fun min_len :: "regex \<Rightarrow> nat" where
  "min_len (RCls p) = 1"
| "min_len (RSeq a b) = min_len a + min_len b"
| "min_len (RAlt a b) = min (min_len a) (min_len b)"
| "min_len (RGroup n a) = min_len a"
| "min_len _ = 0"

lemma rmatch_min_len: "st' \<in> set (rmatch r st) \<Longrightarrow> length (rest_of st') + min_len r \<le> length (rest_of st)"
proof (induction r st arbitrary: st' rule: rmatch.induct)
  case (2 p st)
  then show ?case by (cases "rest_of st") (auto split: if_splits)
next
  case (3 a b st)
  then obtain m where m: "m \<in> set (rmatch a st)" "st' \<in> set (rmatch b m)" by auto
  from "3.IH"(1) [OF m(1)] "3.IH"(2) [OF m] show ?case by simp
next
  case (4 a b st)
  then show ?case by (fastforce simp: min_def)
next
  case (5 a st)
  then have "length (rest_of st') \<le> length (rest_of st)"
    using rmatch_suffix [OF 5(3)] by auto
  then show ?case by simp
next
  case (6 n a st)
  then obtain m where m: "m \<in> set (rmatch a st)" "st' = set_cap n (rest_of st) m" by auto
  from "6.IH" [OF m(1)] m(2) show ?case by (simp add: set_cap_def)
next
  case (7 n st)
  then show ?case
    by (auto simp: starts_with_iff split: option.splits if_splits)
qed (auto split: if_splits)

lemma rsearch_suffix: "rsearch r b s = Some (s', st) \<Longrightarrow> (\<exists>w. s = w @ s') \<and> st \<in> set (rmatch r (prev_after b (take (length s - length s') s), s', no_caps))"
proof (induction s arbitrary: b)
  case Nil
  then show ?case
    by (subst (asm) rsearch.simps)
      (auto simp: first_match_def split: list.splits option.splits)
next
  case (Cons x s)
  show ?case
  proof (cases "first_match r (b, x # s, no_caps)")
    case None
    with Cons.prems have r: "rsearch r (Some x) s = Some (s', st)"
      by (subst (asm) rsearch.simps) simp
    then obtain w where w: "s = w @ s'" using Cons.IH by blast
    then have "take (length (x # s) - length s') (x # s) = x # take (length s - length s') s" by simp
    with Cons.IH [OF r] w show ?thesis by (metis append_Cons prev_after_simps(2))
  next
    case (Some v)
    with Cons.prems have "s' = x # s" "st = v" by (subst (asm) rsearch.simps, simp)+
    with Some show ?thesis by (auto simp: first_match_def split: list.splits)
  qed
qed

text \<open>The loop over all matches makes progress when an expression consumes something.\<close>

lemma find_all_progress:
  assumes "0 < min_len r" and "rsearch r b s = Some (s', st)"
  shows "length (rest_of st) < length s"
  using rmatch_min_len rsearch_suffix [OF assms(2)] assms(1) by fastforce

section \<open>Deterministic captures\<close>

text \<open>
  A captured run of a class followed by an expression that cannot start with a unit of the
  class matches in exactly one way: the run is taken as far as it goes.
\<close>

definition rejects :: "regex \<Rightarrow> (nat \<Rightarrow> bool) \<Rightarrow> bool" where
  "rejects r p \<longleftrightarrow> (\<forall>b y s cs. p y \<longrightarrow> rmatch r (b, y # s, cs) = [])"

lemma concat_star_cls:
  assumes "\<forall>x \<in> set w. p x" and "s = [] \<or> \<not> p (hd s)"
    and "\<And>b y t. p y \<Longrightarrow> f (b, y # t, cs) = []"
  shows "concat (map f (rmatch (RStar (RCls p)) (b, w @ s, cs))) = f (prev_after b w, s, cs)"
  using assms(1)
proof (induction w arbitrary: b)
  case Nil
  then show ?case using assms(2) by (cases s) auto
next
  case (Cons x w)
  then show ?case using assms(3) by simp
qed

lemma rmatch_capture:
  assumes "w \<noteq> []" and "\<forall>x \<in> set w. p x" and "s = [] \<or> \<not> p (hd s)" and "rejects r p"
  shows "rmatch (RSeq (RGroup n (rplus (RCls p))) r) (b, w @ s, cs) =
    rmatch r (prev_after b w, s, cs(n \<mapsto> w))"
proof -
  obtain x v where w: "w = x # v" using assms(1) by (cases w) auto
  let ?f = "\<lambda>st. rmatch r (set_cap n (w @ s) st)"
  have rej: "?f (b', y # t, cs') = []" if "p y" for b' y t cs'
    using assms(4) that by (simp add: rejects_def set_cap_def)
  have "concat (map ?f (rmatch (RStar (RCls p)) (Some x, v @ s, cs))) = ?f (prev_after (Some x) v, s, cs)"
    using assms w rej by (intro concat_star_cls) auto
  then show ?thesis using assms(2) w by (simp add: rplus_def o_def set_cap_def)
qed

lemma rejects_lit: "\<not> p (of_char c) \<Longrightarrow> rejects (RSeq (rlit (c # w)) r) p"
  by (auto simp: rejects_def)

lemma rejects_Eol: "rejects (RSeq REol r) p"
  by (simp add: rejects_def)

text \<open>A starred choice between a class and an escape is the starred class where no escape occurs.\<close>

lemma rmatch_star_alt_cls:
  "c \<notin> set s \<Longrightarrow>
   rmatch (RStar (RAlt (RCls p) (RSeq (RCls (\<lambda>x. x = c)) q))) (b, s, cs) = rmatch (RStar (RCls p)) (b, s, cs)"
proof (induction s arbitrary: b)
  case Nil
  show ?case by (subst rmatch.simps(5)) simp
next
  case (Cons x s)
  then show ?case by (subst rmatch.simps(5)) simp
qed

text \<open>
  \<open>(.+)\<close> with the dot-all flag backtracks from the end: the first match splits the input at
  the last place where the rest of the expression matches.
\<close>

lemma first_star_any:
  assumes "f (prev_after b w, s, cs) = v # vs"
    and "\<And>b' u t. s = u @ t \<Longrightarrow> u \<noteq> [] \<Longrightarrow> f (b', t, cs) = []"
  shows "\<exists>vs. concat (map f (rmatch (RStar (RCls (\<lambda>_. True))) (b, w @ s, cs))) = v # vs"
  using assms(1)
proof (induction w arbitrary: b)
  case Nil
  have later: "concat (map f (rmatch (RStar (RCls (\<lambda>_. True))) (b', t, cs))) = []"
    if "s = u @ t" "u \<noteq> []" for b' u t
    using that
  proof (induction t arbitrary: b' u)
    case (Cons y t)
    then have "concat (map f (rmatch (RStar (RCls (\<lambda>_. True))) (Some y, t, cs))) = []"
      using Cons.IH [of "u @ [y]"] by simp
    with assms(2) [OF Cons.prems] show ?case by simp
  qed (use assms(2) in auto)
  show ?case
  proof (cases s)
    case (Cons y t)
    then have tail: "concat (map f (rmatch (RStar (RCls (\<lambda>_. True))) (Some y, t, cs))) = []"
      by (intro later [of "[y]"]) auto
    have "concat (map f (rmatch (RStar (RCls (\<lambda>_. True))) (b, [] @ s, cs))) = v # vs"
      using Cons Nil.prems tail by (simp del: concat_eq_Nil_conv)
    then show ?thesis ..
  qed (use Nil.prems in simp)
next
  case (Cons x w)
  then obtain vs where "concat (map f (rmatch (RStar (RCls (\<lambda>_. True))) (Some x, w @ s, cs))) = v # vs"
    by auto
  then show ?case by simp
qed

lemma first_match_capture_any:
  assumes "w \<noteq> []" and "first_match r (prev_after b w, s, cs(n \<mapsto> w)) = Some v"
    and "\<And>b' u t cs'. s = u @ t \<Longrightarrow> u \<noteq> [] \<Longrightarrow> rmatch r (b', t, cs') = []"
  shows "first_match (RSeq (RGroup n (rplus (RCls (\<lambda>_. True)))) r) (b, w @ s, cs) = Some v"
proof -
  obtain x u where w: "w = x # u" using assms(1) by (cases w) auto
  let ?f = "\<lambda>st. rmatch r (set_cap n (w @ s) st)"
  obtain vs where "rmatch r (prev_after b w, s, cs(n \<mapsto> w)) = v # vs"
    using assms(2) by (auto simp: first_match_def split: list.splits)
  then have "?f (prev_after (Some x) u, s, cs) = v # vs" using w by (simp add: set_cap_def)
  from first_star_any [of ?f, OF this] assms(3)
  obtain ws where "concat (map ?f (rmatch (RStar (RCls (\<lambda>_. True))) (Some x, u @ s, cs))) = v # ws"
    by (auto simp: set_cap_def)
  then show ?thesis using w by (simp add: rplus_def o_def first_match_def)
qed

section \<open>Running an expression on a symbolic input\<close>

text \<open>
  One rule per form of the first element of a sequence; with these the simplifier runs an
  expression along an input that is given as literals and named pieces.
\<close>

named_theorems re_step \<open>run the first element of a sequence\<close>

lemma rmatch_seq_lit [re_step]:
  "rmatch (RSeq (rlit []) r) st = rmatch r st"
  "rmatch (RSeq (rlit (c # w)) r) (b, x # s, cs) =
     (if x = of_char c then rmatch (RSeq (rlit w) r) (Some x, s, cs) else [])"
  "rmatch (RSeq (rlit (c # w)) r) (b, [], cs) = []"
  by simp_all

lemma rmatch_seq_anchor [re_step]:
  "rmatch (RSeq REol r) (b, [], cs) = rmatch r (b, [], cs)"
  "rmatch (RSeq REol r) (b, x # s, cs) = []"
  "rmatch (RSeq RBol r) (None, s, cs) = rmatch r (None, s, cs)"
  "rmatch REps st = [st]"
  by simp_all

lemma rmatch_seq_ref [re_step]:
  "cs n = Some w \<Longrightarrow> rmatch (RSeq (RRef n) r) (b, w @ s, cs) = rmatch r (prev_after b w, s, cs)"
  by (simp add: prev_after_def)

lemma rmatch_seq_alts:
  "rmatch (RSeq (RGroup n (RAlt a1 a2)) r) (b, s, cs) =
     rmatch (RSeq (RGroup n a1) r) (b, s, cs) @ rmatch (RSeq (RGroup n a2) r) (b, s, cs)"
  by simp

lemma rmatch_lit_shape:
  "rmatch (rlit w) (b, s, cs) =
     (if starts_with (js w) s then [(prev_after b (js w), drop (length w) s, cs)] else [])"
proof (induction w arbitrary: b s)
  case (Cons c w)
  then show ?case by (cases s) (auto simp: js_lit)
qed simp

lemma rmatch_seq_group_lit:
  "rmatch (RSeq (RGroup n (rlit w)) r) (b, s, cs) =
     (if starts_with (js w) s then rmatch r (prev_after b (js w), drop (length w) s, cs(n \<mapsto> js w)) else [])"
  by (auto simp: rmatch_lit_shape set_cap_def starts_with_iff)

lemmas re_alts = rmatch_seq_alts rmatch_seq_group_lit ralt_def

section \<open>The units an expression can consume\<close>

primrec units_in :: "(nat \<Rightarrow> bool) \<Rightarrow> regex \<Rightarrow> bool" where
  "units_in P REps = True"
| "units_in P (RCls p) = (\<forall>c. p c \<longrightarrow> P c)"
| "units_in P (RSeq a b) = (units_in P a \<and> units_in P b)"
| "units_in P (RAlt a b) = (units_in P a \<and> units_in P b)"
| "units_in P (RStar a) = units_in P a"
| "units_in P (RGroup n a) = units_in P a"
| "units_in P (RRef n) = False"
| "units_in P RBol = True"
| "units_in P REol = True"
| "units_in P RWordB = True"

definition consumes :: "(nat \<Rightarrow> bool) \<Rightarrow> rstate \<Rightarrow> rstate \<Rightarrow> bool" where
  "consumes P st st' \<longleftrightarrow> (\<exists>w. rest_of st = w @ rest_of st' \<and> (\<forall>c \<in> set w. P c))"

lemma consumes_refl [simp]: "consumes P st st"
  by (simp add: consumes_def)

lemma consumes_trans: "consumes P a b \<Longrightarrow> consumes P b c \<Longrightarrow> consumes P a c"
  by (force simp: consumes_def)

lemma rmatch_consumes: "units_in P r \<Longrightarrow> st' \<in> set (rmatch r st) \<Longrightarrow> consumes P st st'"
proof (induction r st arbitrary: st' rule: rmatch.induct)
  case (2 p st)
  then show ?case
    by (cases "rest_of st") (auto simp: consumes_def split: if_splits)
next
  case (3 a b st)
  then obtain m where m: "m \<in> set (rmatch a st)" "st' \<in> set (rmatch b m)" by auto
  from "3.IH"(1) [OF _ m(1)] "3.IH"(2) [OF m(1) _ m(2)] "3.prems"(1) show ?case
    by (auto intro: consumes_trans)
next
  case (5 a st)
  from 5(4) consider "st' = st"
    | m where "m \<in> set (rmatch a st)" "length (rest_of m) < length (rest_of st)"
        "st' \<in> set (rmatch (RStar a) m)"
    by (subst (asm) rmatch.simps(5)) auto
  then show ?case
  proof cases
    case 2
    then have "m \<in> set (filter (\<lambda>st'. length (rest_of st') < length (rest_of st)) (rmatch a st))" by simp
    from "5.IH"(2) [OF this _ 2(3)] "5.IH"(1) [OF _ 2(1)] "5.prems"(1) show ?thesis
      by (auto intro: consumes_trans)
  qed simp
next
  case (6 n a st)
  then obtain m where m: "m \<in> set (rmatch a st)" "st' = set_cap n (rest_of st) m" by auto
  from "6.IH" [OF _ m(1)] "6.prems"(1) m(2) show ?case by (simp add: set_cap_def consumes_def)
qed (auto split: if_splits)

lemma first_match_consumes: "units_in P r \<Longrightarrow> first_match r st = Some st' \<Longrightarrow> consumes P st st'"
  by (auto simp: first_match_def intro: rmatch_consumes split: list.splits)

text \<open>An expression that ends in \<open>$\<close> leaves nothing.\<close>

lemma rmatch_rseq_eol: "st' \<in> set (rmatch (rseq (rs @ [REol])) st) \<Longrightarrow> rest_of st' = []"
proof (induction rs arbitrary: st)
  case Nil
  then show ?case by (auto simp: rseq_def split: if_splits)
next
  case (Cons r rs)
  then obtain m where "st' \<in> set (rmatch (rseq (rs @ [REol])) m)" by (auto simp: rseq_def)
  then show ?case by (rule Cons.IH)
qed

end
