(* ===== verification/Billing_Rules.thy ===== *)
theory Billing_Rules
  imports Js_Json Js_Regex
begin

text \<open>
  Request rules of billing expressions
  (\<open>src/web/default/src/features/pricing/lib/billing-expr.ts\<close>): the conditional
  multipliers \<open>(cond && cond ? m : 1)\<close> that the pricing editor builds from a form,
  parses back into the form, and splits from the base expression.
\<close>

section \<open>Constants and types\<close>

definition SOURCE_PARAM :: jsstr where
  "SOURCE_PARAM = js ''param''"

definition SOURCE_HEADER :: jsstr where
  "SOURCE_HEADER = js ''header''"

definition SOURCE_TIME :: jsstr where
  "SOURCE_TIME = js ''time''"

definition MATCH_EQ :: jsstr where
  "MATCH_EQ = js ''eq''"

definition MATCH_CONTAINS :: jsstr where
  "MATCH_CONTAINS = js ''contains''"

definition MATCH_GT :: jsstr where
  "MATCH_GT = js ''gt''"

definition MATCH_GTE :: jsstr where
  "MATCH_GTE = js ''gte''"

definition MATCH_LT :: jsstr where
  "MATCH_LT = js ''lt''"

definition MATCH_LTE :: jsstr where
  "MATCH_LTE = js ''lte''"

definition MATCH_EXISTS :: jsstr where
  "MATCH_EXISTS = js ''exists''"

definition MATCH_RANGE :: jsstr where
  "MATCH_RANGE = js ''range''"

definition TIME_FUNCS :: "jsstr list" where
  "TIME_FUNCS = [js ''hour'', js ''minute'', js ''weekday'', js ''month'', js ''day'']"

record ParamHeaderCondition =
  ph_source :: jsstr
  ph_path :: jsstr
  ph_mode :: jsstr
  ph_value :: jsstr

record TimeCondition =
  tc_timeFunc :: jsstr
  tc_timezone :: jsstr
  tc_mode :: jsstr
  tc_value :: jsstr
  tc_rangeStart :: jsstr
  tc_rangeEnd :: jsstr

datatype RequestCondition = CTime TimeCondition | CParamHeader ParamHeaderCondition

record RequestRuleGroup =
  grp_conditions :: "RequestCondition list"
  grp_multiplier :: jsstr

text \<open>\<open>/^-?(?:\d+\.?\d*|\.\d+)(?:[eE][+-]?\d+)?$/\<close>\<close>

definition NUMERIC_LITERAL_REGEX :: regex where
  "NUMERIC_LITERAL_REGEX = rseq [RBol, ropt (rchr CHR ''-''),
     RAlt (rseq [rplus (RCls is_digit), ropt (rchr CHR ''.''), RStar (RCls is_digit)])
          (rseq [rchr CHR ''.'', rplus (RCls is_digit)]),
     ropt (rseq [RCls (one_of ''eE''), ropt (RCls (one_of ''+-'')), rplus (RCls is_digit)]),
     REol]"

definition numeric_literal :: "jsstr \<Rightarrow> bool" where
  "numeric_literal s = re_test NUMERIC_LITERAL_REGEX s"

text \<open>\<open>[\d.eE+-]\<close> and \<open>[^"]\<close>\<close>

definition num_unit :: "nat \<Rightarrow> bool" where
  "num_unit c \<longleftrightarrow> is_digit c \<or> one_of ''.eE+-'' c"

definition not_quote :: "nat \<Rightarrow> bool" where
  "not_quote c \<longleftrightarrow> c \<noteq> 34"

definition cap :: "(nat \<Rightarrow> jsstr option) \<Rightarrow> nat \<Rightarrow> jsstr" where
  "cap m n = (case m n of None \<Rightarrow> [] | Some w \<Rightarrow> w)"

section \<open>Splitting at the top level\<close>

definition paren_step :: "int \<Rightarrow> nat \<Rightarrow> int" where
  "paren_step d c = (if c = 40 then d + 1 else if c = 41 then d - 1 else d)"

text \<open>
  The loop of \<open>splitTopLevelMultiply\<close> and \<open>splitTopLevelAnd\<close>, which differ in the separator
  only: \<open>cur\<close> is the part since \<open>start\<close>, reversed; \<open>skip\<close> counts the units of a
  separator that are still to be jumped over.
\<close>

fun split_top :: "jsstr \<Rightarrow> int \<Rightarrow> nat \<Rightarrow> jsstr \<Rightarrow> jsstr \<Rightarrow> jsstr list" where
  "split_top sep d skip cur [] = [trim (rev cur)]"
| "split_top sep d skip cur (c # s) =
     (if skip > 0 then split_top sep d (skip - 1) cur s
      else
        (let d' = paren_step d c in
         if d' = 0 \<and> starts_with sep (c # s)
         then trim (rev cur) # split_top sep d' (length sep - 1) [] s
         else split_top sep d' 0 (c # cur) s))"

definition splitTopLevelMultiply :: "jsstr \<Rightarrow> jsstr list" where
  "splitTopLevelMultiply expr = truthy_strs (split_top (js '' * '') 0 0 [] expr)"

definition splitTopLevelAnd :: "jsstr \<Rightarrow> jsstr list" where
  "splitTopLevelAnd expr = truthy_strs (split_top (js '' && '') 0 0 [] expr)"

section \<open>Parsing conditions\<close>

text \<open>A \<open>SyntaxError\<close> of \<open>JSON.parse\<close> outside a \<open>try\<close> block leaves the function: \<open>Inl\<close>.\<close>

datatype js_error = SyntaxError

text \<open>\<open>None\<close> is the value \<open>null\<close>, also when the text is the JSON literal \<open>null\<close>.\<close>

definition parseExprLiteral :: "jsstr \<Rightarrow> json option" where
  "parseExprLiteral raw =
     (let text = trim raw in
      if text = js ''true'' \<or> text = js ''false'' then Some (JStr text)
      else if numeric_literal text then Some (JStr text)
      else case json_parse text of
          None \<Rightarrow> None
        | Some v \<Rightarrow> if v = JNull then None else Some v)"

definition time_func_re :: regex where
  "time_func_re = ralt [rlit ''hour'', rlit ''minute'', rlit ''weekday'', rlit ''month'', rlit ''day'']"

definition time_range_body :: "regex list" where
  "time_range_body =
     [RGroup 1 time_func_re, rlit ''(\"'', RGroup 2 (rplus (RCls not_quote)), rlit ''\") >= '',
      RGroup 3 (rplus (RCls num_unit)), rlit '' || '', RRef 1, rlit ''(\"'', RRef 2, rlit ''\") < '',
      RGroup 4 (rplus (RCls num_unit))]"

definition time_range_re :: regex where
  "time_range_re = rseq (RBol # time_range_body @ [REol])"

definition time_range_paren_re :: regex where
  "time_range_paren_re = rseq (RBol # rlit ''('' # time_range_body @ [rlit '')'', REol])"

definition time_cmp_re :: regex where
  "time_cmp_re = rseq
     [RBol, RGroup 1 time_func_re, rlit ''(\"'', RGroup 2 (rplus (RCls not_quote)), rlit ''\") '',
      RGroup 3 (ralt [rlit ''=='', rlit ''>='', rlit ''<'']), rlit '' '',
      RGroup 4 (rplus (RCls num_unit)), REol]"

definition time_range_cond :: "(nat \<Rightarrow> jsstr option) \<Rightarrow> RequestCondition" where
  "time_range_cond m = CTime \<lparr>tc_timeFunc = cap m 1, tc_timezone = cap m 2, tc_mode = MATCH_RANGE,
     tc_value = [], tc_rangeStart = cap m 3, tc_rangeEnd = cap m 4\<rparr>"

definition time_op_mode :: "jsstr \<Rightarrow> jsstr" where
  "time_op_mode op = (if op = js ''=='' then MATCH_EQ else if op = js ''>='' then MATCH_GTE
     else if op = js ''<'' then MATCH_LT else MATCH_EQ)"

definition tryParseTimeCondition :: "jsstr \<Rightarrow> RequestCondition option" where
  "tryParseTimeCondition expr =
     (case re_match time_range_re expr of
        Some m \<Rightarrow> Some (time_range_cond m)
      | None \<Rightarrow>
     (case re_match time_range_paren_re expr of
        Some m \<Rightarrow> Some (time_range_cond m)
      | None \<Rightarrow>
     (case re_match time_cmp_re expr of
        Some m \<Rightarrow> Some (CTime \<lparr>tc_timeFunc = cap m 1, tc_timezone = cap m 2,
          tc_mode = time_op_mode (cap m 3), tc_value = cap m 4, tc_rangeStart = [], tc_rangeEnd = []\<rparr>)
      | None \<Rightarrow> None)))"

text \<open>\<open>((?:"(?:[^"\\]|\\.)*"))\<close>: a quoted string with escapes, captured.\<close>

definition quoted_re :: "nat \<Rightarrow> regex" where
  "quoted_re n = RGroup n (rseq [rlit ''\"'',
     RStar (RAlt (RCls (\<lambda>c. c \<noteq> 34 \<and> c \<noteq> 92)) (RSeq (RCls (\<lambda>c. c = 92)) (RCls dot))), rlit ''\"''])"

definition header_exists_re :: regex where
  "header_exists_re = rseq [RBol, rlit ''header(\"'', RGroup 1 (rplus (RCls not_quote)),
     rlit ''\") != \"\"'', REol]"

definition param_exists_re :: regex where
  "param_exists_re = rseq [RBol, rlit ''param(\"'', RGroup 1 (rplus (RCls not_quote)),
     rlit ''\") != nil'', REol]"

definition header_has_re :: regex where
  "header_has_re = rseq [RBol, rlit ''has(header(\"'', RGroup 1 (rplus (RCls not_quote)),
     rlit ''\"), '', quoted_re 2, rlit '')'', REol]"

definition param_has_re :: regex where
  "param_has_re = rseq [RBol, rlit ''param(\"'', RGroup 1 (rplus (RCls not_quote)),
     rlit ''\") != nil && has(param(\"'', RGroup 2 (rplus (RCls not_quote)),
     rlit ''\"), '', quoted_re 3, rlit '')'', REol]"

definition param_cmp_re :: regex where
  "param_cmp_re = rseq [RBol, rlit ''param(\"'', RGroup 1 (rplus (RCls not_quote)),
     rlit ''\") != nil && param(\"'', RGroup 2 (rplus (RCls not_quote)), rlit ''\") '',
     RGroup 3 (ralt [rlit ''>'', rlit ''>='', rlit ''<'', rlit ''<='']), rlit '' '',
     RGroup 4 (rplus (RCls num_unit)), REol]"

definition source_eq_re :: regex where
  "source_eq_re = rseq [RBol, RGroup 1 (ralt [rlit ''param'', rlit ''header'']), rlit ''(\"'',
     RGroup 2 (rplus (RCls not_quote)), rlit ''\") == '', RGroup 3 (rplus (RCls dot)), REol]"

definition param_op_mode :: "jsstr \<Rightarrow> jsstr" where
  "param_op_mode op = (if op = js ''>'' then MATCH_GT else if op = js ''>='' then MATCH_GTE
     else if op = js ''<'' then MATCH_LT else MATCH_LTE)"

text \<open>\<open>JSON.parse(text) as string\<close> outside a \<open>try\<close> block.\<close>

definition contains_cond :: "jsstr \<Rightarrow> jsstr \<Rightarrow> jsstr \<Rightarrow> js_error + RequestCondition option" where
  "contains_cond source path text =
     (case json_parse text of
        None \<Rightarrow> Inl SyntaxError
      | Some v \<Rightarrow> Inr (Some (CParamHeader
          \<lparr>ph_source = source, ph_path = path, ph_mode = MATCH_CONTAINS, ph_value = json_string v\<rparr>)))"

definition exists_cond :: "jsstr \<Rightarrow> jsstr \<Rightarrow> RequestCondition" where
  "exists_cond source path = CParamHeader
     \<lparr>ph_source = source, ph_path = path, ph_mode = MATCH_EXISTS, ph_value = []\<rparr>"

definition try_param_or_eq :: "jsstr \<Rightarrow> js_error + RequestCondition option" where
  "try_param_or_eq expr =
     (let eq = (case re_match source_eq_re expr of
          None \<Rightarrow> Inr None
        | Some m \<Rightarrow>
            (case parseExprLiteral (cap m 3) of
               None \<Rightarrow> Inr None
             | Some v \<Rightarrow> Inr (Some (CParamHeader \<lparr>ph_source = cap m 1, ph_path = cap m 2,
                 ph_mode = MATCH_EQ, ph_value = json_string v\<rparr>))));
          cmp = (case re_match param_cmp_re expr of
            Some m \<Rightarrow> if cap m 1 = cap m 2
              then Inr (Some (CParamHeader \<lparr>ph_source = SOURCE_PARAM, ph_path = cap m 1,
                ph_mode = param_op_mode (cap m 3), ph_value = cap m 4\<rparr>)) else eq
          | None \<Rightarrow> eq) in
      case re_match param_has_re expr of
        Some m \<Rightarrow> if cap m 1 = cap m 2 then contains_cond SOURCE_PARAM (cap m 1) (cap m 3) else cmp
      | None \<Rightarrow> cmp)"

definition tryParseRequestCondition :: "jsstr \<Rightarrow> js_error + RequestCondition option" where
  "tryParseRequestCondition expr =
     (case tryParseTimeCondition expr of
        Some tc \<Rightarrow> Inr (Some tc)
      | None \<Rightarrow>
     (case re_match header_exists_re expr of
        Some m \<Rightarrow> Inr (Some (exists_cond SOURCE_HEADER (cap m 1)))
      | None \<Rightarrow>
     (case re_match param_exists_re expr of
        Some m \<Rightarrow> Inr (Some (exists_cond SOURCE_PARAM (cap m 1)))
      | None \<Rightarrow>
     (case re_match header_has_re expr of
        Some m \<Rightarrow> contains_cond SOURCE_HEADER (cap m 1) (cap m 2)
      | None \<Rightarrow> try_param_or_eq expr))))"

text \<open>The loop that collects conditions or groups: it stops at the first null or error.\<close>

fun collect_parsed :: "('a \<Rightarrow> js_error + 'b option) \<Rightarrow> 'a list \<Rightarrow> js_error + 'b list option" where
  "collect_parsed f [] = Inr (Some [])"
| "collect_parsed f (x # xs) =
     (case f x of
        Inl e \<Rightarrow> Inl e
      | Inr None \<Rightarrow> Inr None
      | Inr (Some y) \<Rightarrow>
          (case collect_parsed f xs of
             Inl e \<Rightarrow> Inl e | Inr None \<Rightarrow> Inr None | Inr (Some ys) \<Rightarrow> Inr (Some (y # ys))))"

text \<open>\<open>/^\((.+) \? ([\d.eE+-]+) : 1\)$/s\<close>\<close>

definition rule_factor_re :: regex where
  "rule_factor_re = rseq [RBol, rlit ''('', RGroup 1 (rplus (RCls (\<lambda>_. True))), rlit '' ? '',
     RGroup 2 (rplus (RCls num_unit)), rlit '' : 1)'', REol]"

definition tryParseRuleGroupFactor :: "jsstr \<Rightarrow> js_error + RequestRuleGroup option" where
  "tryParseRuleGroupFactor part =
     (case re_match rule_factor_re part of
        None \<Rightarrow> Inr None
      | Some m \<Rightarrow>
          (case collect_parsed (\<lambda>ap. tryParseRequestCondition (trim ap)) (splitTopLevelAnd (cap m 1)) of
             Inl e \<Rightarrow> Inl e
           | Inr None \<Rightarrow> Inr None
           | Inr (Some conditions) \<Rightarrow>
               if conditions = [] then Inr None
               else Inr (Some \<lparr>grp_conditions = conditions, grp_multiplier = cap m 2\<rparr>)))"

definition tryParseRequestRuleExpr :: "jsstr \<Rightarrow> js_error + RequestRuleGroup list option" where
  "tryParseRequestRuleExpr expr =
     (let trimmed = trim expr in
      if trimmed = [] then Inr (Some [])
      else collect_parsed tryParseRuleGroupFactor (splitTopLevelMultiply trimmed))"

section \<open>Combining and splitting expressions\<close>

fun outer_parens_loop :: "int \<Rightarrow> jsstr \<Rightarrow> bool" where
  "outer_parens_loop d [] = (d = 0)"
| "outer_parens_loop d (c # s) =
     (let d' = paren_step d c in if d' = 0 \<and> s \<noteq> [] then False else outer_parens_loop d' s)"

definition hasFullOuterParens :: "jsstr \<Rightarrow> bool" where
  "hasFullOuterParens expr \<longleftrightarrow>
     starts_with (js ''('') expr \<and> ends_with (js '')'') expr \<and> outer_parens_loop 0 expr"

definition slice_inner :: "jsstr \<Rightarrow> jsstr" where
  "slice_inner s = butlast (drop 1 s)"

lemma length_trim: "length (trim s) \<le> length s"
  by (metis length_dropWhile_le le_trans length_rev trim_def)

lemma starts_with_length: "starts_with p s \<Longrightarrow> length p \<le> length s"
  by (auto simp: starts_with_iff)

function unwrap_loop :: "jsstr \<Rightarrow> jsstr" where
  "unwrap_loop current =
     (if hasFullOuterParens current then unwrap_loop (trim (slice_inner current)) else current)"
  by pat_completeness auto
termination
proof (relation "measure length")
  fix current
  assume "hasFullOuterParens current"
  then have "0 < length current"
    by (auto simp: hasFullOuterParens_def js_lit dest: starts_with_length)
  then have "length (slice_inner current) < length current" by (simp add: slice_inner_def)
  then show "(trim (slice_inner current), current) \<in> measure length"
    using length_trim [of "slice_inner current"] by simp
qed simp

declare unwrap_loop.simps [simp del]

definition unwrapOuterParens :: "jsstr \<Rightarrow> jsstr" where
  "unwrapOuterParens expr = unwrap_loop (trim expr)"

text \<open>Sorting the parts of the product into rules and the rest; an error of the parser escapes.\<close>

fun partition_parts :: "jsstr list \<Rightarrow> js_error + jsstr list \<times> jsstr list" where
  "partition_parts [] = Inr ([], [])"
| "partition_parts (part # parts) =
     (case tryParseRequestRuleExpr part of
        Inl e \<Rightarrow> Inl e
      | Inr parsed \<Rightarrow>
          (case partition_parts parts of
             Inl e \<Rightarrow> Inl e
           | Inr (rules, base) \<Rightarrow>
               if (case parsed of None \<Rightarrow> False | Some gs \<Rightarrow> gs \<noteq> [])
               then Inr (part # rules, base) else Inr (rules, part # base)))"

record SplitExpr =
  split_billingExpr :: jsstr
  split_requestRuleExpr :: jsstr

definition splitBillingExprAndRequestRules :: "jsstr \<Rightarrow> js_error + SplitExpr" where
  "splitBillingExprAndRequestRules expr =
     (let trimmed = trim expr in
      if trimmed = [] then Inr \<lparr>split_billingExpr = [], split_requestRuleExpr = []\<rparr>
      else
        (let parts = splitTopLevelMultiply trimmed in
         if length parts \<le> 1 then Inr \<lparr>split_billingExpr = trimmed, split_requestRuleExpr = []\<rparr>
         else
           (case partition_parts parts of
              Inl e \<Rightarrow> Inl e
            | Inr (ruleParts, baseParts) \<Rightarrow>
                if ruleParts = [] \<or> length baseParts \<noteq> 1
                then Inr \<lparr>split_billingExpr = trimmed, split_requestRuleExpr = []\<rparr>
                else Inr \<lparr>split_billingExpr = unwrapOuterParens (hd baseParts),
                  split_requestRuleExpr = join (js '' * '') ruleParts\<rparr>)))"

definition combineBillingExpr :: "jsstr \<Rightarrow> jsstr \<Rightarrow> jsstr" where
  "combineBillingExpr baseExpr requestRuleExpr =
     (let base = trim baseExpr; rules = trim requestRuleExpr in
      if base = [] then [] else if rules = [] then base
      else js ''('' @ base @ js '') * '' @ rules)"

section \<open>The editor: empty conditions, match options, normalisation\<close>

definition createEmptyCondition :: ParamHeaderCondition where
  "createEmptyCondition =
     \<lparr>ph_source = SOURCE_PARAM, ph_path = [], ph_mode = MATCH_EQ, ph_value = []\<rparr>"

definition createEmptyTimeCondition :: TimeCondition where
  "createEmptyTimeCondition =
     \<lparr>tc_timeFunc = js ''hour'', tc_timezone = js ''Asia/Shanghai'', tc_mode = MATCH_GTE,
      tc_value = [], tc_rangeStart = [], tc_rangeEnd = []\<rparr>"

definition createEmptyRuleGroup :: RequestRuleGroup where
  "createEmptyRuleGroup =
     \<lparr>grp_conditions = [CParamHeader createEmptyCondition], grp_multiplier = []\<rparr>"

definition createEmptyTimeRuleGroup :: RequestRuleGroup where
  "createEmptyTimeRuleGroup =
     \<lparr>grp_conditions = [CTime createEmptyTimeCondition], grp_multiplier = []\<rparr>"

text \<open>The options as pairs of a value and a label key.\<close>

definition getRequestRuleMatchOptions :: "jsstr \<Rightarrow> (jsstr \<times> string) list" where
  "getRequestRuleMatchOptions source =
     (if source = SOURCE_TIME then
        [(MATCH_EQ, ''Equals''), (MATCH_GTE, ''Greater than or equal''), (MATCH_LT, ''Less than''),
         (MATCH_RANGE, ''Overnight range'')]
      else
        (let base = [(MATCH_EQ, ''Equals''), (MATCH_CONTAINS, ''Contains''), (MATCH_EXISTS, ''Exists'')] in
         if source = SOURCE_HEADER then base
         else base @ [(MATCH_GT, ''Greater than''), (MATCH_GTE, ''Greater than or equal''),
           (MATCH_LT, ''Less than''), (MATCH_LTE, ''Less than or equal'')]))"

definition isTimeFunc :: "jsstr \<Rightarrow> bool" where
  "isTimeFunc v \<longleftrightarrow> v \<in> set TIME_FUNCS"

text \<open>
  The argument of \<open>normalizeCondition\<close> is a partial condition: every field may be missing;
  a null or undefined argument has none.
\<close>

record PartialCondition =
  pc_source :: "jsstr option"
  pc_path :: "jsstr option"
  pc_mode :: "jsstr option"
  pc_value :: "jsstr option"
  pc_timeFunc :: "jsstr option"
  pc_timezone :: "jsstr option"
  pc_rangeStart :: "jsstr option"
  pc_rangeEnd :: "jsstr option"

definition opt_str :: "jsstr option \<Rightarrow> jsstr" where
  "opt_str v = (case v of None \<Rightarrow> [] | Some s \<Rightarrow> s)"

definition option_mode :: "jsstr \<Rightarrow> jsstr option \<Rightarrow> jsstr \<Rightarrow> jsstr" where
  "option_mode source mode dflt =
     (case mode of
        None \<Rightarrow> dflt
      | Some m \<Rightarrow> if m \<in> fst ` set (getRequestRuleMatchOptions source) then m else dflt)"

definition normalizeCondition :: "PartialCondition \<Rightarrow> RequestCondition" where
  "normalizeCondition cond =
     (let source = (case pc_source cond of
          None \<Rightarrow> SOURCE_PARAM
        | Some s \<Rightarrow> if s = SOURCE_TIME \<or> s = SOURCE_HEADER then s else SOURCE_PARAM) in
      if source = SOURCE_TIME then
        CTime \<lparr>tc_timeFunc = (case pc_timeFunc cond of
              None \<Rightarrow> js ''hour'' | Some f \<Rightarrow> if isTimeFunc f then f else js ''hour''),
          tc_timezone = opt_or (pc_timezone cond) (js ''Asia/Shanghai''),
          tc_mode = option_mode SOURCE_TIME (pc_mode cond) MATCH_GTE,
          tc_value = opt_str (pc_value cond), tc_rangeStart = opt_str (pc_rangeStart cond),
          tc_rangeEnd = opt_str (pc_rangeEnd cond)\<rparr>
      else
        CParamHeader \<lparr>ph_source = source, ph_path = opt_or (pc_path cond) [],
          ph_mode = option_mode source (pc_mode cond) MATCH_EQ, ph_value = opt_str (pc_value cond)\<rparr>)"

fun partial_of :: "RequestCondition \<Rightarrow> PartialCondition" where
  "partial_of (CTime c) =
     \<lparr>pc_source = Some SOURCE_TIME, pc_path = None, pc_mode = Some (tc_mode c),
      pc_value = Some (tc_value c), pc_timeFunc = Some (tc_timeFunc c),
      pc_timezone = Some (tc_timezone c), pc_rangeStart = Some (tc_rangeStart c),
      pc_rangeEnd = Some (tc_rangeEnd c)\<rparr>"
| "partial_of (CParamHeader c) =
     \<lparr>pc_source = Some (ph_source c), pc_path = Some (ph_path c), pc_mode = Some (ph_mode c),
      pc_value = Some (ph_value c), pc_timeFunc = None, pc_timezone = None,
      pc_rangeStart = None, pc_rangeEnd = None\<rparr>"

section \<open>The editor: building expressions\<close>

definition buildExprLiteral :: "jsstr \<Rightarrow> jsstr \<Rightarrow> jsstr" where
  "buildExprLiteral mode v =
     (let text = trim v in
      if mode = MATCH_CONTAINS then json_quote text
      else if text = js ''true'' \<or> text = js ''false'' then text
      else if numeric_literal text then text
      else json_quote text)"

definition time_mode_op :: "jsstr \<Rightarrow> jsstr" where
  "time_mode_op mode = (if mode = MATCH_EQ then js ''=='' else if mode = MATCH_GTE then js ''>=''
     else if mode = MATCH_LT then js ''<'' else js ''=='')"

definition build_time :: "TimeCondition \<Rightarrow> jsstr" where
  "build_time c =
     (let fn = tc_timeFunc c @ js ''('' @ json_quote (tc_timezone c) @ js '')'' in
      if tc_mode c = MATCH_RANGE then
        (let s = trim (tc_rangeStart c); e = trim (tc_rangeEnd c) in
         if \<not> numeric_literal s \<or> \<not> numeric_literal e then []
         else fn @ js '' >= '' @ s @ js '' || '' @ fn @ js '' < '' @ e)
      else
        (let v = trim (tc_value c) in
         if \<not> numeric_literal v then []
         else fn @ js '' '' @ time_mode_op (tc_mode c) @ js '' '' @ v))"

definition buildTimeConditionExpr :: "TimeCondition \<Rightarrow> jsstr" where
  "buildTimeConditionExpr cond =
     (case normalizeCondition (partial_of (CTime cond)) of
        CTime c \<Rightarrow> build_time c | CParamHeader _ \<Rightarrow> [])"

definition param_mode_op :: "jsstr \<Rightarrow> jsstr" where
  "param_mode_op mode = (if mode = MATCH_GT then js ''>'' else if mode = MATCH_GTE then js ''>=''
     else if mode = MATCH_LT then js ''<'' else js ''<='')"

definition build_param_header :: "ParamHeaderCondition \<Rightarrow> jsstr" where
  "build_param_header c =
     (let path = trim (ph_path c) in
      if path = [] then []
      else
        (let hdr = (ph_source c = SOURCE_HEADER);
             sourceExpr = (if hdr then js ''header('' else js ''param('') @ json_quote path @ js '')'' in
         if ph_mode c = MATCH_EXISTS then
           sourceExpr @ (if hdr then js '' != \"\"'' else js '' != nil'')
         else if ph_mode c = MATCH_CONTAINS then
           (let has = js ''has('' @ sourceExpr @ js '', '' @ buildExprLiteral (ph_mode c) (ph_value c) @ js '')'' in
            if hdr then has else sourceExpr @ js '' != nil && '' @ has)
         else if ph_mode c \<in> {MATCH_GT, MATCH_GTE, MATCH_LT, MATCH_LTE} then
           (let numText = trim (ph_value c) in
            if \<not> numeric_literal numText then []
            else sourceExpr @ js '' != nil && '' @ sourceExpr @ js '' '' @ param_mode_op (ph_mode c) @
              js '' '' @ numText)
         else sourceExpr @ js '' == '' @ buildExprLiteral (ph_mode c) (ph_value c)))"

definition buildRequestConditionExpr :: "RequestCondition \<Rightarrow> jsstr" where
  "buildRequestConditionExpr cond =
     (case cond of
        CTime c \<Rightarrow> buildTimeConditionExpr c
      | CParamHeader c \<Rightarrow>
          (case normalizeCondition (partial_of cond) of
             CParamHeader n \<Rightarrow> build_param_header n | CTime _ \<Rightarrow> []))"

definition buildRuleGroupFactor :: "RequestRuleGroup \<Rightarrow> jsstr" where
  "buildRuleGroupFactor grp =
     (let multiplier = trim (grp_multiplier grp) in
      if \<not> numeric_literal multiplier then []
      else
        (let condExprs = truthy_strs (map buildRequestConditionExpr (grp_conditions grp)) in
         if length condExprs = 0 then []
         else
           (let combined = (if length condExprs = 1 then hd condExprs
                else join (js '' && '')
                  (map (\<lambda>e. if str_includes (js '' || '') e then js ''('' @ e @ js '')'' else e) condExprs)) in
            js ''('' @ combined @ js '' ? '' @ multiplier @ js '' : 1)'')))"

definition buildRequestRuleExpr :: "RequestRuleGroup list \<Rightarrow> jsstr" where
  "buildRequestRuleExpr groups = join (js '' * '') (truthy_strs (map buildRuleGroupFactor groups))"

end
