(* ===== verification/Billing_Roundtrip.thy ===== *)
theory Billing_Roundtrip
  imports Billing_Rules
begin

text \<open>
  The request rules that the pricing editor writes are read back unchanged, with the
  exception of comparisons of a parameter and searches in one: their expressions contain a top-level
  \<open>&&\<close>, and a list of rules with such a condition is lost as a whole.
\<close>

section \<open>Numeric literals\<close>

lemma one_of_iff [simp]: "one_of cs c \<longleftrightarrow> (\<exists>x \<in> set cs. c = of_char x)"
  by (auto simp: one_of_def js_def)

lemma numeric_literal_units:
  assumes "numeric_literal s"
  shows "s \<noteq> [] \<and> (\<forall>c \<in> set s. num_unit c)"
proof -
  let ?body = "[ropt (rchr CHR ''-''),
     RAlt (rseq [rplus (RCls is_digit), ropt (rchr CHR ''.''), RStar (RCls is_digit)])
          (rseq [rchr CHR ''.'', rplus (RCls is_digit)]),
     ropt (rseq [RCls (one_of ''eE''), ropt (RCls (one_of ''+-'')), rplus (RCls is_digit)]), REol]"
  have re: "NUMERIC_LITERAL_REGEX = RSeq RBol (rseq ?body)"
    by (simp add: NUMERIC_LITERAL_REGEX_def rseq_def)
  obtain st where st: "first_match (rseq ?body) (None, s, no_caps) = Some st"
    using assms unfolding numeric_literal_def re re_test_bol by blast
  then have mem: "st \<in> set (rmatch (rseq ?body) (None, s, no_caps))"
    by (auto simp: first_match_def split: list.splits)
  have units: "units_in num_unit (rseq ?body)"
    by (auto simp: regex_defs rchr_def num_unit_def)
  have "1 \<le> min_len (rseq ?body)" by (simp add: regex_defs rchr_def)
  with rmatch_min_len [OF mem] have "1 \<le> length s" by simp
  moreover have "rest_of st = []"
    using rmatch_rseq_eol [of st "butlast ?body"] mem by simp
  moreover have "consumes num_unit (None, s, no_caps) st" by (rule rmatch_consumes [OF units mem])
  ultimately show ?thesis by (auto simp: consumes_def)
qed

lemma num_unit_not_ws: "num_unit c \<Longrightarrow> \<not> is_ws c"
  by (auto simp: num_unit_def is_digit_def is_ws_def)

lemma trim_numeric: "numeric_literal s \<Longrightarrow> trim s = s"
  using numeric_literal_units by (auto intro!: trim_no_ws dest: num_unit_not_ws)

section \<open>Plain text\<close>

text \<open>
  Text that needs no escape in a JSON string and holds neither a parenthesis nor a bar: the
  splitting functions count every parenthesis, also inside a quoted string, and the editor
  recognises an overnight range by a bar.
\<close>

definition plain_unit :: "nat \<Rightarrow> bool" where
  "plain_unit c \<longleftrightarrow> 32 \<le> c \<and> c < 55296 \<and> c \<notin> {34, 40, 41, 92, 124, 8232, 8233}"

definition plain :: "jsstr \<Rightarrow> bool" where
  "plain s \<longleftrightarrow> (\<forall>c \<in> set s. plain_unit c)"

lemma plain_simps [simp]:
  "plain []" "plain (c # s) \<longleftrightarrow> plain_unit c \<and> plain s" "plain (s @ t) \<longleftrightarrow> plain s \<and> plain t"
  by (auto simp: plain_def)

lemma plain_unit_units:
  assumes "plain_unit c"
  shows "short_escape c = None" "\<not> c < 32" "\<not> is_high c" "\<not> is_low c" "not_quote c" "dot c" "c \<noteq> 92"
    "c \<noteq> 34" "c \<noteq> 40" "c \<noteq> 41" "c \<noteq> 124"
  using assms by (auto simp: plain_unit_def short_escape_def is_high_def is_low_def not_quote_def dot_def)

lemma quote_units_plain: "plain s \<Longrightarrow> quote_units s = s"
  by (induction s) (auto simp: plain_unit_units)

lemma json_quote_plain: "plain s \<Longrightarrow> json_quote s = 34 # s @ [34]"
  by (simp add: json_quote_def quote_units_plain)

lemma num_unit_plain: "num_unit c \<Longrightarrow> plain_unit c"
  by (auto simp: num_unit_def is_digit_def plain_unit_def)

lemma plain_numeric: "numeric_literal s \<Longrightarrow> plain s"
  using numeric_literal_units by (auto simp: plain_def num_unit_plain)

lemma plain_not_quote: "plain s \<Longrightarrow> \<forall>c \<in> set s. not_quote c"
  by (auto simp: plain_def plain_unit_units)

lemma plain_unit_less: "plain_unit c \<Longrightarrow> c < 55296"
  unfolding plain_unit_def by blast

lemma plain_small: "plain v \<Longrightarrow> \<forall>c \<in> set v. c < 65536"
  using plain_unit_less by (fastforce simp: plain_def)

declare rmatch.simps(3,6) [simp del] One_nat_def [simp del]

section \<open>Time conditions\<close>

lemma rmatch_time_func:
  assumes "tf \<in> set TIME_FUNCS"
  shows "rmatch (RSeq (RGroup 1 time_func_re) r) (b, tf @ 40 # s, cs) =
    rmatch r (prev_after b tf, 40 # s, cs(1 \<mapsto> tf))"
  using assms unfolding TIME_FUNCS_def time_func_re_def
  by (auto simp: re_alts js_lit)

lemma capture_quoted [re_step]:
  "s \<noteq> [] \<Longrightarrow> plain s \<Longrightarrow>
   rmatch (RSeq (RGroup n (rplus (RCls not_quote))) (RSeq (rlit (CHR 0x22 # w)) r)) (b, s @ 34 # t, cs) =
   rmatch (RSeq (rlit (CHR 0x22 # w)) r) (prev_after b s, 34 # t, cs(n \<mapsto> s))"
  using plain_not_quote [of s]
  by (intro rmatch_capture rejects_lit) (auto simp: not_quote_def)

lemma capture_num_lit [re_step]:
  "numeric_literal s \<Longrightarrow> \<not> num_unit (of_char c) \<Longrightarrow> x = of_char c \<Longrightarrow>
   rmatch (RSeq (RGroup n (rplus (RCls num_unit))) (RSeq (rlit (c # w)) r)) (b, s @ x # t, cs) =
   rmatch (RSeq (rlit (c # w)) r) (prev_after b s, x # t, cs(n \<mapsto> s))"
  using numeric_literal_units [of s] rmatch_capture [of s num_unit "x # t" "RSeq (rlit (c # w)) r" n b cs]
  by (simp add: rejects_lit)

lemma capture_num_end [re_step]:
  "numeric_literal s \<Longrightarrow>
   rmatch (RSeq (RGroup n (rplus (RCls num_unit))) (RSeq REol r)) (b, s, cs) =
   rmatch (RSeq REol r) (prev_after b s, [], cs(n \<mapsto> s))"
  "numeric_literal s \<Longrightarrow> \<not> num_unit (of_char c) \<Longrightarrow>
   rmatch (RSeq (RGroup n (rplus (RCls num_unit))) (RSeq (rlit (c # w)) r)) (b, s, cs) = []"
  using numeric_literal_units [of s] rmatch_capture [of s num_unit "[]" "RSeq REol r" n b cs]
    rmatch_capture [of s num_unit "[]" "RSeq (rlit (c # w)) r" n b cs]
  by (simp_all add: rejects_Eol rejects_lit rmatch_seq_lit)

lemma capture_string [re_step]:
  assumes "plain v" and "92 \<notin> set t"
  shows "rmatch (RSeq (quoted_re n) r) (b, 34 # v @ 34 # t, cs) =
    rmatch r (Some 34, t, cs(n \<mapsto> 34 # v @ [34]))"
proof -
  let ?q = "rlit [CHR 0x22]" and ?p = "\<lambda>c::nat. c \<noteq> 34 \<and> c \<noteq> 92"
  let ?star = "RStar (RAlt (RCls ?p) (RSeq (RCls (\<lambda>c. c = 92)) (RCls dot)))"
  have units: "\<forall>x \<in> set v. ?p x" using assms(1) by (auto simp: plain_def plain_unit_units)
  have "rmatch ?star (Some 34, v @ 34 # t, cs) = rmatch (RStar (RCls ?p)) (Some 34, v @ 34 # t, cs)"
    using assms(2) units by (intro rmatch_star_alt_cls) auto
  moreover have "concat (map (rmatch (RSeq ?q REps)) (rmatch (RStar (RCls ?p)) (Some 34, v @ 34 # t, cs)))
      = rmatch (RSeq ?q REps) (prev_after (Some 34) v, 34 # t, cs)"
    using units by (intro concat_star_cls) (auto simp: re_step)
  ultimately have "rmatch (rseq [?q, ?star, ?q]) (b, 34 # v @ 34 # t, cs) = [(Some 34, t, cs)]"
    by (simp add: rseq_def re_step rmatch.simps(3) [of ?star])
  then show ?thesis
    by (simp add: quoted_re_def rmatch.simps(3) [of "RGroup n x" for x] rmatch.simps(6) set_cap_def)
qed

lemma capture_dots [re_step]:
  assumes "\<forall>c \<in> set s. plain_unit c \<or> c = 34" and "s \<noteq> []"
  shows "rmatch (RSeq (RGroup n (rplus (RCls dot))) (RSeq REol r)) (b, s, cs) =
    rmatch (RSeq REol r) (prev_after b s, [], cs(n \<mapsto> s))"
proof -
  have "dot 34" by (simp add: dot_def)
  then show ?thesis
    using assms rmatch_capture [of s dot "[]" "RSeq REol r" n b cs]
    by (fastforce simp: rejects_Eol plain_unit_units)
qed

lemma num_unit_simps [simp]:
  "\<not> num_unit 32" "\<not> num_unit 38" "\<not> num_unit 41" "\<not> num_unit 42" "\<not> num_unit 63" "\<not> num_unit 124"
  by (auto simp: num_unit_def is_digit_def)

lemmas run_regex = re_step first_match_def re_match_bol rseq_def rmatch_time_func js_lit cap_def

lemma time_func_paren:
  "tf \<in> set TIME_FUNCS \<Longrightarrow> rmatch (RSeq (rlit (CHR ''('' # w)) r) (b, tf @ s, cs) = []"
  by (auto simp: TIME_FUNCS_def js_lit re_step)

lemma time_func_fail:
  "rmatch (RSeq (RGroup n time_func_re) r) (b, 40 # s, cs) = []"
  "rmatch (RSeq (RGroup n time_func_re) r) (b, 112 # s, cs) = []"
  "rmatch (RSeq (RGroup n time_func_re) r) (b, 104 # 101 # s, cs) = []"
  "rmatch (RSeq (RGroup n time_func_re) r) (b, 104 # 97 # s, cs) = []"
  by (simp_all add: time_func_re_def re_alts js_lit)

lemma parse_time_range:
  assumes "tf \<in> set TIME_FUNCS" and "plain tz" and "tz \<noteq> []"
    and "numeric_literal s" and "numeric_literal e"
  shows "tryParseTimeCondition (tf @ js ''(\"'' @ tz @ js ''\") >= '' @ s @ js '' || '' @
      tf @ js ''(\"'' @ tz @ js ''\") < '' @ e) =
    Some (CTime \<lparr>tc_timeFunc = tf, tc_timezone = tz, tc_mode = MATCH_RANGE, tc_value = [],
      tc_rangeStart = s, tc_rangeEnd = e\<rparr>)"
  unfolding tryParseTimeCondition_def time_range_re_def time_range_body_def
  using assms
  by (simp add: run_regex time_range_cond_def)

lemma rmatch_time_cmp:
  assumes "op \<in> {js ''=='', js ''>='', js ''<''}"
  shows "rmatch (RSeq (RGroup n (ralt [rlit ''=='', rlit ''>='', rlit ''<''])) r) (b, op @ 32 # s, cs) =
    rmatch r (prev_after b op, 32 # s, cs(n \<mapsto> op))"
  using assms by (auto simp: re_alts js_lit)

lemma parse_time_cmp:
  assumes "tf \<in> set TIME_FUNCS" and "plain tz" and "tz \<noteq> []" and "numeric_literal v"
    and "op \<in> {js ''=='', js ''>='', js ''<''}"
  shows "tryParseTimeCondition (tf @ js ''(\"'' @ tz @ js ''\") '' @ op @ js '' '' @ v) =
    Some (CTime \<lparr>tc_timeFunc = tf, tc_timezone = tz, tc_mode = time_op_mode op, tc_value = v,
      tc_rangeStart = [], tc_rangeEnd = []\<rparr>)"
proof -
  let ?e = "tf @ js ''(\"'' @ tz @ js ''\") '' @ op @ js '' '' @ v"
  have "re_match time_range_re ?e = None"
    using assms by (auto simp: run_regex time_range_re_def time_range_body_def)
  moreover have "re_match time_range_paren_re ?e = None"
    using assms by (simp add: run_regex time_range_paren_re_def time_func_paren)
  ultimately show ?thesis
    using assms rmatch_time_cmp [OF assms(5)]
    by (simp add: tryParseTimeCondition_def run_regex time_cmp_re_def)
qed

lemma parse_time_range_paren:
  assumes "tf \<in> set TIME_FUNCS" and "plain tz" and "tz \<noteq> []"
    and "numeric_literal s" and "numeric_literal e"
  shows "tryParseTimeCondition (js ''('' @ tf @ js ''(\"'' @ tz @ js ''\") >= '' @ s @ js '' || '' @
      tf @ js ''(\"'' @ tz @ js ''\") < '' @ e @ js '')'') =
    Some (CTime \<lparr>tc_timeFunc = tf, tc_timezone = tz, tc_mode = MATCH_RANGE, tc_value = [],
      tc_rangeStart = s, tc_rangeEnd = e\<rparr>)"
  using assms
  by (simp add: run_regex time_range_cond_def tryParseTimeCondition_def time_range_re_def
      time_range_paren_re_def time_range_body_def time_func_fail)

section \<open>Conditions on parameters and headers\<close>

lemma not_time:
  assumes "c = 112 \<and> e = [] \<or> c = 104 \<and> (e = [101] \<or> e = [97])"
  shows "tryParseTimeCondition (c # e @ s) = None"
  using assms
  by (auto simp: tryParseTimeCondition_def run_regex time_range_re_def time_range_paren_re_def
      time_range_body_def time_cmp_re_def time_func_fail)

lemma not_time_literal:
  "tryParseTimeCondition (js ''param'' @ s) = None"
  "tryParseTimeCondition (js ''header'' @ s) = None"
  "tryParseTimeCondition (js ''has'' @ s) = None"
  using not_time [of 112 "[]"] not_time [of 104 "[101]"] not_time [of 104 "[97]"]
  by (simp_all add: js_lit)

lemma parse_header_exists:
  assumes "plain p" and "p \<noteq> []"
  shows "tryParseRequestCondition (js ''header(\"'' @ p @ js ''\") != \"\"'') =
    Inr (Some (exists_cond SOURCE_HEADER p))"
proof -
  have "tryParseTimeCondition (js ''header(\"'' @ p @ js ''\") != \"\"'') = None"
    using not_time_literal(2) [of "js ''(\"'' @ p @ js ''\") != \"\"''"] by (simp add: js_lit)
  then show ?thesis
    using assms by (simp add: tryParseRequestCondition_def run_regex header_exists_re_def)
qed

lemma parse_param_exists:
  assumes "plain p" and "p \<noteq> []"
  shows "tryParseRequestCondition (js ''param(\"'' @ p @ js ''\") != nil'') =
    Inr (Some (exists_cond SOURCE_PARAM p))"
proof -
  have "tryParseTimeCondition (js ''param(\"'' @ p @ js ''\") != nil'') = None"
    using not_time_literal(1) [of "js ''(\"'' @ p @ js ''\") != nil''"] by (simp add: js_lit)
  then show ?thesis
    using assms by (simp add: tryParseRequestCondition_def run_regex header_exists_re_def param_exists_re_def)
qed

lemma json_parse_plain: "plain v \<Longrightarrow> json_parse (34 # v @ [34]) = Some (JStr v)"
  using json_parse_quote [of v] plain_small [of v] by (simp add: json_quote_plain)

lemma parse_header_contains:
  assumes "plain p" and "p \<noteq> []" and "plain v"
  shows "tryParseRequestCondition (js ''has(header(\"'' @ p @ js ''\"), \"'' @ v @ js ''\")'') =
    Inr (Some (CParamHeader \<lparr>ph_source = SOURCE_HEADER, ph_path = p, ph_mode = MATCH_CONTAINS, ph_value = v\<rparr>))"
proof -
  have "tryParseTimeCondition (js ''has(header(\"'' @ p @ js ''\"), \"'' @ v @ js ''\")'') = None"
    using not_time_literal(3) [of "js ''(header(\"'' @ p @ js ''\"), \"'' @ v @ js ''\")''"] by (simp add: js_lit)
  then show ?thesis
    using assms by (simp add: json_parse_plain tryParseRequestCondition_def run_regex header_exists_re_def
        param_exists_re_def header_has_re_def contains_cond_def)
qed

subsection \<open>Literals\<close>

lemma quoted_not_numeric: "\<not> numeric_literal (34 # v)"
  using numeric_literal_units [of "34 # v"] by (auto simp: num_unit_def is_digit_def)

lemma trim_quoted [simp]: "trim (34 # v @ [34]) = 34 # v @ [34]"
  by (rule trim_id) (simp add: is_ws_def)

lemma literal_parses:
  assumes "plain (trim v)"
  shows "parseExprLiteral (buildExprLiteral MATCH_EQ v) = Some (JStr (trim v))"
proof -
  have "MATCH_EQ \<noteq> MATCH_CONTAINS" by (simp add: MATCH_EQ_def MATCH_CONTAINS_def inj_js)
  then consider "trim v = js ''true'' \<or> trim v = js ''false''" "buildExprLiteral MATCH_EQ v = trim v"
    | "numeric_literal (trim v)" "buildExprLiteral MATCH_EQ v = trim v"
    | "buildExprLiteral MATCH_EQ v = 34 # trim v @ [34]"
    using assms by (fastforce simp: buildExprLiteral_def Let_def json_quote_plain split: if_splits)
  then show ?thesis
    using assms
    by cases (auto simp: parseExprLiteral_def Let_def js_lit quoted_not_numeric json_parse_plain)
qed

lemma literal_units:
  assumes "plain (trim v)"
  shows "buildExprLiteral MATCH_EQ v \<noteq> []" "\<forall>c \<in> set (buildExprLiteral MATCH_EQ v). plain_unit c \<or> c = 34"
  using assms numeric_literal_units [of "trim v"]
  by (auto simp: buildExprLiteral_def Let_def json_quote_plain plain_def js_lit)

lemma parse_eq:
  assumes "plain p" and "p \<noteq> []" and "plain (trim v)" and "src \<in> {SOURCE_PARAM, SOURCE_HEADER}"
  shows "tryParseRequestCondition (src @ js ''(\"'' @ p @ js ''\") == '' @ buildExprLiteral MATCH_EQ v) =
    Inr (Some (CParamHeader \<lparr>ph_source = src, ph_path = p, ph_mode = MATCH_EQ, ph_value = trim v\<rparr>))"
    (is "tryParseRequestCondition ?e = _")
proof -
  note lits = run_regex SOURCE_PARAM_def SOURCE_HEADER_def
  have "tryParseTimeCondition ?e = None"
    using assms(4) not_time_literal by (auto simp: SOURCE_PARAM_def SOURCE_HEADER_def)
  moreover have "re_match header_exists_re ?e = None" "re_match param_exists_re ?e = None"
    "re_match header_has_re ?e = None" "re_match param_has_re ?e = None" "re_match param_cmp_re ?e = None"
    using assms(1,2,4)
    by (auto simp: lits header_exists_re_def param_exists_re_def header_has_re_def param_has_re_def
        param_cmp_re_def)
  moreover have "try_param_or_eq ?e =
      Inr (Some (CParamHeader \<lparr>ph_source = src, ph_path = p, ph_mode = MATCH_EQ, ph_value = trim v\<rparr>))"
    if "re_match param_has_re ?e = None" "re_match param_cmp_re ?e = None"
    using that assms literal_parses [OF assms(3)] literal_units [OF assms(3)]
    by (auto simp: try_param_or_eq_def Let_def source_eq_re_def lits re_alts)
  ultimately show ?thesis by (simp add: tryParseRequestCondition_def)
qed

section \<open>A condition the editor writes is read back\<close>

text \<open>
  The conditions whose expression can be read back: the fields the mode does not use are
  empty, numbers are numeric literals, and texts are plain. A comparison of a parameter,
  a search in one and a value with an ampersand are left out: the reader cuts their expression
  at \<open>&&\<close>.
\<close>

fun editor_cond :: "RequestCondition \<Rightarrow> bool" where
  "editor_cond (CTime c) \<longleftrightarrow>
     tc_timeFunc c \<in> set TIME_FUNCS \<and> plain (tc_timezone c) \<and> tc_timezone c \<noteq> [] \<and>
     (tc_mode c = MATCH_RANGE \<and> tc_value c = [] \<and>
        numeric_literal (tc_rangeStart c) \<and> numeric_literal (tc_rangeEnd c) \<or>
      tc_mode c \<in> {MATCH_EQ, MATCH_GTE, MATCH_LT} \<and> numeric_literal (tc_value c) \<and>
        tc_rangeStart c = [] \<and> tc_rangeEnd c = [])"
| "editor_cond (CParamHeader c) \<longleftrightarrow>
     ph_source c \<in> {SOURCE_PARAM, SOURCE_HEADER} \<and>
     plain (ph_path c) \<and> ph_path c \<noteq> [] \<and> trim (ph_path c) = ph_path c \<and>
     plain (ph_value c) \<and> trim (ph_value c) = ph_value c \<and>
     (ph_mode c = MATCH_EXISTS \<and> ph_value c = [] \<or>
      ph_mode c = MATCH_EQ \<and> 38 \<notin> set (ph_value c) \<or>
      ph_mode c = MATCH_CONTAINS \<and> ph_source c = SOURCE_HEADER)"

lemmas const_defs = SOURCE_PARAM_def SOURCE_HEADER_def SOURCE_TIME_def MATCH_EQ_def MATCH_CONTAINS_def
  MATCH_GT_def MATCH_GTE_def MATCH_LT_def MATCH_LTE_def MATCH_EXISTS_def MATCH_RANGE_def inj_js

text \<open>The five forms an expression of such a condition takes.\<close>

inductive cond_text :: "RequestCondition \<Rightarrow> jsstr \<Rightarrow> bool" where
  range: "\<lbrakk>tf \<in> set TIME_FUNCS; plain tz; tz \<noteq> []; numeric_literal s; numeric_literal e\<rbrakk> \<Longrightarrow>
    cond_text (CTime \<lparr>tc_timeFunc = tf, tc_timezone = tz, tc_mode = MATCH_RANGE, tc_value = [],
        tc_rangeStart = s, tc_rangeEnd = e\<rparr>)
      (tf @ js ''(\"'' @ tz @ js ''\") >= '' @ s @ js '' || '' @ tf @ js ''(\"'' @ tz @ js ''\") < '' @ e)"
| cmp: "\<lbrakk>tf \<in> set TIME_FUNCS; plain tz; tz \<noteq> []; numeric_literal v; op \<in> {js ''=='', js ''>='', js ''<''}\<rbrakk> \<Longrightarrow>
    cond_text (CTime \<lparr>tc_timeFunc = tf, tc_timezone = tz, tc_mode = time_op_mode op, tc_value = v,
        tc_rangeStart = [], tc_rangeEnd = []\<rparr>)
      (tf @ js ''(\"'' @ tz @ js ''\") '' @ op @ js '' '' @ v)"
| hexists: "\<lbrakk>plain p; p \<noteq> []\<rbrakk> \<Longrightarrow>
    cond_text (exists_cond SOURCE_HEADER p) (js ''header(\"'' @ p @ js ''\") != \"\"'')"
| pexists: "\<lbrakk>plain p; p \<noteq> []\<rbrakk> \<Longrightarrow>
    cond_text (exists_cond SOURCE_PARAM p) (js ''param(\"'' @ p @ js ''\") != nil'')"
| contains: "\<lbrakk>plain p; p \<noteq> []; plain v\<rbrakk> \<Longrightarrow>
    cond_text (CParamHeader \<lparr>ph_source = SOURCE_HEADER, ph_path = p, ph_mode = MATCH_CONTAINS, ph_value = v\<rparr>)
      (js ''has(header(\"'' @ p @ js ''\"), \"'' @ v @ js ''\")'')"
| eq: "\<lbrakk>plain p; p \<noteq> []; plain v; trim v = v; 38 \<notin> set v; src \<in> {SOURCE_PARAM, SOURCE_HEADER}\<rbrakk> \<Longrightarrow>
    cond_text (CParamHeader \<lparr>ph_source = src, ph_path = p, ph_mode = MATCH_EQ, ph_value = v\<rparr>)
      (src @ js ''(\"'' @ p @ js ''\") == '' @ buildExprLiteral MATCH_EQ v)"

lemma cond_text_parses: "cond_text c e \<Longrightarrow> tryParseRequestCondition e = Inr (Some c)"
proof (induction rule: cond_text.induct)
  case (eq p v src)
  then show ?case using parse_eq [of p v src] by simp
next
  case (range tf tz s e)
  then show ?case by (simp add: tryParseRequestCondition_def parse_time_range)
next
  case (cmp tf tz v op)
  then show ?case using parse_time_cmp [of tf tz v op] by (simp add: tryParseRequestCondition_def)
qed (simp_all add: parse_header_exists parse_param_exists parse_header_contains)

lemma normalize_time:
  assumes "editor_cond (CTime c)"
  shows "normalizeCondition (partial_of (CTime c)) = CTime c"
  using assms
  by (auto simp: normalizeCondition_def Let_def isTimeFunc_def opt_or_def str_or_def option_mode_def
      getRequestRuleMatchOptions_def opt_str_def const_defs)

lemma normalize_param:
  assumes "editor_cond (CParamHeader c)"
  shows "normalizeCondition (partial_of (CParamHeader c)) = CParamHeader c"
  using assms
  by (auto simp: normalizeCondition_def Let_def opt_or_def str_or_def option_mode_def
      getRequestRuleMatchOptions_def opt_str_def const_defs)

lemma build_time_text:
  assumes "editor_cond (CTime c)"
  shows "cond_text (CTime c) (build_time c)"
proof (cases "tc_mode c = MATCH_RANGE")
  case True
  with assms cond_text.range [of "tc_timeFunc c" "tc_timezone c" "tc_rangeStart c" "tc_rangeEnd c"]
  show ?thesis
    by (cases c) (auto simp: build_time_def Let_def trim_numeric json_quote_plain const_defs js_lit)
next
  case False
  then have "time_op_mode (time_mode_op (tc_mode c)) = tc_mode c"
    "time_mode_op (tc_mode c) \<in> {js ''=='', js ''>='', js ''<''}"
    using assms by (auto simp: time_op_mode_def time_mode_op_def const_defs)
  with False assms cond_text.cmp [of "tc_timeFunc c" "tc_timezone c" "tc_value c" "time_mode_op (tc_mode c)"]
  show ?thesis
    by (cases c) (auto simp: build_time_def Let_def trim_numeric json_quote_plain js_lit)
qed

lemma build_param_text:
  assumes "editor_cond (CParamHeader c)"
  shows "cond_text (CParamHeader c) (build_param_header c)"
proof -
  obtain src p mode v where c: "c = \<lparr>ph_source = src, ph_path = p, ph_mode = mode, ph_value = v\<rparr>"
    by (cases c)
  have pc: "plain p" "p \<noteq> []" "trim p = p" "plain v" "trim v = v" using assms c by auto
  from assms c consider "mode = MATCH_EXISTS" "v = []" "src = SOURCE_HEADER"
    | "mode = MATCH_EXISTS" "v = []" "src = SOURCE_PARAM"
    | "mode = MATCH_EQ" "38 \<notin> set v" "src \<in> {SOURCE_PARAM, SOURCE_HEADER}"
    | "mode = MATCH_CONTAINS" "src = SOURCE_HEADER"
    by auto
  then show ?thesis
  proof cases
    case 1
    with pc c cond_text.hexists [of p] show ?thesis
      by (simp add: build_param_header_def exists_cond_def json_quote_plain js_lit)
  next
    case 2
    with pc c cond_text.pexists [of p] show ?thesis
      by (simp add: build_param_header_def exists_cond_def json_quote_plain js_lit const_defs)
  next
    case 3
    with pc c cond_text.eq [of p v src] show ?thesis
      by (auto simp: build_param_header_def Let_def json_quote_plain const_defs js_lit)
  next
    case 4
    with pc c cond_text.contains [of p v] show ?thesis
      by (simp add: build_param_header_def Let_def json_quote_plain buildExprLiteral_def const_defs js_lit)
  qed
qed

lemma build_cond_text: "editor_cond c \<Longrightarrow> cond_text c (buildRequestConditionExpr c)"
  by (cases c)
    (simp_all add: buildRequestConditionExpr_def buildTimeConditionExpr_def normalize_time normalize_param
      build_time_text build_param_text del: editor_cond.simps partial_of.simps)

section \<open>Splitting finds the parts again\<close>

definition depth_after :: "int \<Rightarrow> jsstr \<Rightarrow> int" where
  "depth_after d s = foldl paren_step d s"

text \<open>The unit \<open>k\<close> does not occur at depth 0, and the depth does not fall below 0.\<close>

fun calm :: "nat \<Rightarrow> int \<Rightarrow> jsstr \<Rightarrow> bool" where
  "calm k d [] = True"
| "calm k d (c # s) = ((paren_step d c = 0 \<longrightarrow> c \<noteq> k) \<and> 0 \<le> paren_step d c \<and> calm k (paren_step d c) s)"

lemma depth_after_simps [simp]:
  "depth_after d [] = d" "depth_after d (c # s) = depth_after (paren_step d c) s"
  "depth_after d (s @ t) = depth_after (depth_after d s) t"
  by (simp_all add: depth_after_def)

lemma calm_append [simp]: "calm k d (s @ t) \<longleftrightarrow> calm k d s \<and> calm k (depth_after d s) t"
  by (induction s arbitrary: d) auto

lemma depth_after_flat: "40 \<notin> set s \<Longrightarrow> 41 \<notin> set s \<Longrightarrow> depth_after d s = d"
  by (induction s) (auto simp: paren_step_def)

lemma calm_flat:
  "40 \<notin> set s \<Longrightarrow> 41 \<notin> set s \<Longrightarrow> 0 < d \<or> 0 \<le> d \<and> k \<notin> set s \<Longrightarrow> calm k d s"
  by (induction s) (auto simp: paren_step_def)

lemma calm_deeper: "calm k d s \<Longrightarrow> calm k' (d + 1) s \<and> depth_after (d + 1) s = depth_after d s + 1"
proof (induction s arbitrary: d)
  case (Cons c s)
  have "paren_step (d + 1) c = paren_step d c + 1" by (simp add: paren_step_def)
  with Cons show ?case by auto
qed simp

lemma split_calm:
  assumes "calm k d e" and "k \<noteq> 40" and "k \<noteq> 41" and "rest = [] \<or> hd rest \<noteq> k"
  shows "split_top (32 # k # r) d 0 cur (e @ rest) = split_top (32 # k # r) (depth_after d e) 0 (rev e @ cur) rest"
  using assms(1)
proof (induction e arbitrary: d cur)
  case (Cons c e)
  let ?d = "paren_step d c"
  have "\<not> (?d = 0 \<and> starts_with (32 # k # r) (c # e @ rest))"
  proof
    assume a: "?d = 0 \<and> starts_with (32 # k # r) (c # e @ rest)"
    then have "e @ rest \<noteq> []" "hd (e @ rest) = k" by (cases "e @ rest"; auto)+
    then show False
      using a Cons.prems assms(2-4) by (cases e) (auto simp: paren_step_def)
  qed
  with Cons show ?case by (auto simp: Let_def)
qed simp

lemma split_skip: "split_top sep d (length w) cur (w @ s) = split_top sep d 0 cur s"
  by (induction w) auto

lemma split_at_sep:
  "split_top (32 # w) 0 0 cur (32 # w @ rest) = trim (rev cur) # split_top (32 # w) 0 0 [] rest"
  using split_skip [of "32 # w" 0 w "[]" rest] by (simp add: paren_step_def)

definition calm_part :: "nat \<Rightarrow> jsstr \<Rightarrow> bool" where
  "calm_part k e \<longleftrightarrow> calm k 0 e \<and> depth_after 0 e = 0 \<and> trim e = e \<and> e \<noteq> []"

lemma split_parts:
  assumes "k \<noteq> 40" and "k \<noteq> 41" and "k \<noteq> 32" and sep: "sep = 32 # k # r"
    and "ps \<noteq> []" and "\<forall>e \<in> set ps. calm_part k e"
  shows "split_top sep 0 0 [] (join sep ps) = ps"
proof -
  have last: "split_top sep 0 0 [] e = [e]" if "calm_part k e" for e
    using split_calm [of k 0 e "[]" r "[]"] that assms(1,2) sep by (simp add: calm_part_def)
  have step: "split_top sep 0 0 [] (e @ sep @ rest) = e # split_top sep 0 0 [] rest" if "calm_part k e" for e rest
    using split_calm [of k 0 e "sep @ rest" r "[]"] split_at_sep [of "k # r" "rev e" rest] that assms(1-3) sep
    by (simp add: calm_part_def del: split_top.simps)
  show ?thesis
    using assms(5,6) by (induction ps rule: induct_list012) (simp_all add: last step)
qed

lemma truthy_parts: "\<forall>e \<in> set ps. calm_part k e \<Longrightarrow> truthy_strs ps = ps"
  by (rule truthy_strs_all) (auto simp: calm_part_def)

subsection \<open>The parts of built expressions are calm\<close>

lemma plain_flat: "plain s \<Longrightarrow> 40 \<notin> set s \<and> 41 \<notin> set s"
  by (auto simp: plain_def dest: plain_unit_units(9,10))

lemma plain_calm: "plain s \<Longrightarrow> depth_after d s = d" "plain s \<Longrightarrow> 0 < d \<Longrightarrow> calm k d s"
  using plain_flat [of s] by (auto simp: depth_after_flat calm_flat)

lemma numeric_calm: "numeric_literal s \<Longrightarrow> 0 \<le> d \<Longrightarrow> \<not> num_unit k \<Longrightarrow> calm k d s"
  using plain_numeric [of s] plain_flat [of s] numeric_literal_units [of s] by (auto intro!: calm_flat)

lemma time_func_calm:
  "tf \<in> set TIME_FUNCS \<Longrightarrow> depth_after d tf = d"
  "tf \<in> set TIME_FUNCS \<Longrightarrow> 0 \<le> d \<Longrightarrow> calm 38 d tf"
  by (auto simp: TIME_FUNCS_def js_lit paren_step_def)

lemma numeric_flat: "numeric_literal s \<Longrightarrow> depth_after d s = d"
  by (rule plain_calm(1)) (rule plain_numeric)

lemma bar_units: "plain s \<Longrightarrow> 124 \<notin> set s" "tf \<in> set TIME_FUNCS \<Longrightarrow> 124 \<notin> set tf"
  by (auto simp: plain_def TIME_FUNCS_def js_lit dest: plain_unit_units(11))

lemma ws_units [simp]: "\<not> is_ws 34" "\<not> is_ws 40" "\<not> is_ws 41" "\<not> is_ws 104" "\<not> is_ws 108" "\<not> is_ws 112"
  by (simp_all add: is_ws_def)

lemma literal_form:
  assumes "plain (trim v)"
  shows "buildExprLiteral MATCH_EQ v = trim v \<and> trim v \<noteq> [] \<or>
    buildExprLiteral MATCH_EQ v = 34 # trim v @ [34]"
  using assms numeric_literal_units [of "trim v"]
  by (auto simp: buildExprLiteral_def Let_def json_quote_plain const_defs js_lit)

lemma literal_calm:
  assumes "plain v" and "trim v = v" and "38 \<notin> set v"
  shows "calm 38 0 (buildExprLiteral MATCH_EQ v)" "depth_after 0 (buildExprLiteral MATCH_EQ v) = 0"
    "\<not> is_ws (last (buildExprLiteral MATCH_EQ v))" "124 \<notin> set (buildExprLiteral MATCH_EQ v)"
proof -
  let ?e = "buildExprLiteral MATCH_EQ v"
  from literal_form [of v] assms have "?e = v \<and> v \<noteq> [] \<or> ?e = 34 # v @ [34]" by simp
  then have units: "38 \<notin> set ?e" "40 \<notin> set ?e" "41 \<notin> set ?e" "124 \<notin> set ?e" "\<not> is_ws (last ?e)"
    using assms plain_flat [of v] trim_ends [of v]
    by (auto simp: bar_units)
  then show "calm 38 0 ?e" "depth_after 0 ?e = 0" "\<not> is_ws (last ?e)" "124 \<notin> set ?e"
    by (simp_all add: calm_flat depth_after_flat)
qed

lemma numeric_last: "numeric_literal s \<Longrightarrow> s \<noteq> [] \<and> \<not> is_ws (last s)"
  using numeric_literal_units [of s] by (auto dest: num_unit_not_ws)

lemma time_func_hd: "tf \<in> set TIME_FUNCS \<Longrightarrow> tf \<noteq> [] \<and> \<not> is_ws (hd tf)"
  by (auto simp: TIME_FUNCS_def js_lit is_ws_def)

lemmas calm_rules = plain_calm numeric_calm numeric_flat time_func_calm literal_calm paren_step_def

lemma cond_text_ends: "cond_text c e \<Longrightarrow> e \<noteq> [] \<and> \<not> is_ws (hd e) \<and> \<not> is_ws (last e)"
proof (induction rule: cond_text.induct)
  case (eq p v src)
  then show ?case
    using literal_units(1) [of v] literal_calm(3) [of v]
    by (auto simp: SOURCE_PARAM_def SOURCE_HEADER_def js_lit)
qed (auto simp: js_lit dest!: numeric_last time_func_hd)

lemma cond_text_calm: "cond_text c e \<Longrightarrow> calm 38 0 e \<and> depth_after 0 e = 0"
proof (induction rule: cond_text.induct)
  case (eq p v src)
  then show ?case by (auto simp: calm_rules SOURCE_PARAM_def SOURCE_HEADER_def js_lit)
qed (auto simp: calm_rules js_lit)

lemma cond_text_part: "cond_text c e \<Longrightarrow> calm_part 38 e"
  using cond_text_ends cond_text_calm by (auto simp: calm_part_def intro: trim_id)

definition wrap_or :: "jsstr \<Rightarrow> jsstr" where
  "wrap_or e = (if str_includes (js '' || '') e then js ''('' @ e @ js '')'' else e)"

lemma cond_text_bar:
  "cond_text c e \<Longrightarrow> 124 \<in> set e \<Longrightarrow> \<exists>tf tz s r. tf \<in> set TIME_FUNCS \<and> plain tz \<and> tz \<noteq> [] \<and>
     numeric_literal s \<and> numeric_literal r \<and>
     c = CTime \<lparr>tc_timeFunc = tf, tc_timezone = tz, tc_mode = MATCH_RANGE, tc_value = [],
        tc_rangeStart = s, tc_rangeEnd = r\<rparr> \<and>
     e = tf @ js ''(\"'' @ tz @ js ''\") >= '' @ s @ js '' || '' @ tf @ js ''(\"'' @ tz @ js ''\") < '' @ r"
proof (induction rule: cond_text.induct)
  case (range tf tz s e)
  then show ?case by blast
next
  case (eq p v src)
  then show ?case using literal_calm(4) [of v] bar_units(1) [of p] by (auto simp: SOURCE_PARAM_def SOURCE_HEADER_def js_lit)
qed (auto simp: js_lit bar_units plain_numeric)

lemma wrap_or_parses:
  assumes "cond_text c e"
  shows "tryParseRequestCondition (wrap_or e) = Inr (Some c)"
proof (cases "str_includes (js '' || '') e")
  case True
  then have "124 \<in> set e" by (auto simp: str_includes_iff js_lit)
  from cond_text_bar [OF assms this] True show ?thesis
    using parse_time_range_paren
    by (auto simp: wrap_or_def tryParseRequestCondition_def)
qed (use assms cond_text_parses in \<open>simp add: wrap_or_def\<close>)

lemma wrap_or_part:
  assumes "cond_text c e"
  shows "calm_part 38 (wrap_or e)"
proof -
  have "calm_part 38 (40 # e @ [41])"
    using calm_deeper [of 38 0 e 38] cond_text_calm [OF assms]
    by (auto simp: calm_part_def paren_step_def intro: trim_id)
  then show ?thesis using cond_text_part [OF assms] by (simp add: wrap_or_def js_lit)
qed

section \<open>A group and a list of groups are read back\<close>

definition editor_group :: "RequestRuleGroup \<Rightarrow> bool" where
  "editor_group g \<longleftrightarrow> numeric_literal (grp_multiplier g) \<and> grp_conditions g \<noteq> [] \<and>
     (\<forall>c \<in> set (grp_conditions g). editor_cond c)"

text \<open>\<open>(.+)\<close> takes everything up to the last \<open>?\<close>, which is the one before the multiplier.\<close>

lemma rule_factor_match:
  assumes "w \<noteq> []" and "numeric_literal m"
  shows "re_match rule_factor_re (js ''('' @ w @ js '' ? '' @ m @ js '' : 1)'') =
    Some (no_caps(1 \<mapsto> w, 2 \<mapsto> m))"
proof -
  let ?r = "rseq [rlit '' ? '', RGroup 2 (rplus (RCls num_unit)), rlit '' : 1)'', REol]"
  let ?s = "32 # 63 # 32 # m @ [32, 58, 32, 49, 41]"
  have m: "63 \<notin> set m" using numeric_literal_units [OF assms(2)] by auto
  have "rmatch ?r (b, t, cs) = []" if st: "?s = u @ t" "u \<noteq> []" for b u t cs
  proof (rule ccontr)
    assume "rmatch ?r (b, t, cs) \<noteq> []"
    then have "starts_with (js '' ? '') t"
      by (auto simp: rseq_def rmatch.simps(3) rmatch_lit_shape split: if_splits)
    then obtain t' where t: "t = 32 # 63 # t'" by (auto simp: starts_with_iff js_lit)
    obtain u' where u: "u = 32 # u'" "63 # 32 # m @ [32, 58, 32, 49, 41] = u' @ t"
      using st by (cases u) auto
    with t have "63 \<in> set (32 # m @ [32, 58, 32, 49, 41])"
      by (cases u') (auto simp: append_eq_Cons_conv)
    with m show False by simp
  qed
  moreover have "first_match ?r (prev_after (Some 40) w, ?s, no_caps(1 \<mapsto> w)) =
      Some (Some 41, [], no_caps(1 \<mapsto> w, 2 \<mapsto> m))"
    using assms(2) by (simp add: run_regex)
  ultimately have "first_match (RSeq (RGroup 1 (rplus (RCls (\<lambda>_. True)))) ?r) (Some 40, w @ ?s, no_caps) =
      Some (Some 41, [], no_caps(1 \<mapsto> w, 2 \<mapsto> m))"
    by (intro first_match_capture_any [OF assms(1)]) auto
  then show ?thesis
    by (simp add: rule_factor_re_def re_match_bol first_match_def re_step js_lit rseq_def)
qed

lemma collect_parsed_map:
  "\<forall>x \<in> set xs. f (g x) = Inr (Some x) \<Longrightarrow> collect_parsed f (map g xs) = Inr (Some xs)"
  by (induction xs) auto

lemma collect_all: "\<forall>x \<in> set xs. f (g x) = Inr (Some x) \<Longrightarrow> ys = map g xs \<Longrightarrow>
    collect_parsed f ys = Inr (Some xs)"
  by (simp add: collect_parsed_map)

text \<open>The conditions of a group as they stand in its expression.\<close>

definition group_parts :: "RequestRuleGroup \<Rightarrow> jsstr list" where
  "group_parts g = (case grp_conditions g of
     [c] \<Rightarrow> [buildRequestConditionExpr c]
   | cs \<Rightarrow> map (\<lambda>c. wrap_or (buildRequestConditionExpr c)) cs)"

lemma group_parts_cases:
  "\<exists>h. group_parts g = map h (grp_conditions g) \<and>
     (\<forall>c. editor_cond c \<longrightarrow> calm_part 38 (h c) \<and> tryParseRequestCondition (h c) = Inr (Some c))"
proof (cases "\<exists>c. grp_conditions g = [c]")
  case True
  then have "group_parts g = map buildRequestConditionExpr (grp_conditions g)"
    by (auto simp: group_parts_def)
  then show ?thesis using build_cond_text cond_text_part cond_text_parses by blast
next
  case False
  then have "group_parts g = map (\<lambda>c. wrap_or (buildRequestConditionExpr c)) (grp_conditions g)"
    by (auto simp: group_parts_def split: list.splits)
  then show ?thesis using build_cond_text wrap_or_part wrap_or_parses by blast
qed

lemma build_factor:
  assumes "numeric_literal (grp_multiplier g)" and "grp_conditions g \<noteq> []"
    and "\<forall>c \<in> set (grp_conditions g). buildRequestConditionExpr c \<noteq> []"
  shows "buildRuleGroupFactor g =
    js ''('' @ join (js '' && '') (group_parts g) @ js '' ? '' @ grp_multiplier g @ js '' : 1)''"
proof -
  let ?es = "map buildRequestConditionExpr (grp_conditions g)"
  have "truthy_strs ?es = ?es" using assms(3) by (intro truthy_strs_all) auto
  moreover have "(if length ?es = 1 then hd ?es else join (js '' && '')
      (map (\<lambda>e. if str_includes (js '' || '') e then js ''('' @ e @ js '')'' else e) ?es)) =
      join (js '' && '') (group_parts g)"
    by (auto simp: group_parts_def wrap_or_def o_def length_Suc_conv One_nat_def split: list.splits)
  ultimately show ?thesis
    using assms by (simp add: buildRuleGroupFactor_def Let_def trim_numeric del: length_map)
qed

lemma build_group:
  assumes "editor_group g"
  shows "buildRuleGroupFactor g =
    js ''('' @ join (js '' && '') (group_parts g) @ js '' ? '' @ grp_multiplier g @ js '' : 1)''"
  using assms build_cond_text cond_text_part
  by (intro build_factor) (auto simp: editor_group_def calm_part_def)

lemma group_parts_calm:
  assumes "editor_group g"
  shows "group_parts g \<noteq> []" "\<forall>e \<in> set (group_parts g). calm_part 38 e"
  using group_parts_cases [of g] assms by (auto simp: editor_group_def)

lemma group_roundtrip:
  assumes "editor_group g"
  shows "tryParseRuleGroupFactor (buildRuleGroupFactor g) = Inr (Some g)"
proof -
  let ?w = "join (js '' && '') (group_parts g)"
  note parts = group_parts_calm [OF assms]
  obtain h where h: "group_parts g = map h (grp_conditions g)"
    "\<forall>c. editor_cond c \<longrightarrow> calm_part 38 (h c) \<and> tryParseRequestCondition (h c) = Inr (Some c)"
    using group_parts_cases by blast
  have "splitTopLevelAnd ?w = group_parts g"
    using split_parts [of 38 "js '' && ''" "[38, 32]" "group_parts g"] truthy_parts [of "group_parts g" 38] parts
    by (simp add: splitTopLevelAnd_def js_lit)
  moreover have "collect_parsed (\<lambda>ap. tryParseRequestCondition (trim ap)) (group_parts g) =
      Inr (Some (grp_conditions g))"
    using h assms by (intro collect_all [OF _ h(1)]) (auto simp: editor_group_def calm_part_def)
  moreover have "?w \<noteq> []" using parts by (intro join_not_Nil) (auto simp: calm_part_def)
  ultimately show ?thesis
    using assms rule_factor_match [of ?w "grp_multiplier g"]
    by (simp add: tryParseRuleGroupFactor_def build_group editor_group_def cap_def)
qed

lemma calm_join:
  "\<forall>e \<in> set ps. calm k d e \<and> depth_after d e = d \<Longrightarrow> calm k d sep \<Longrightarrow> depth_after d sep = d \<Longrightarrow>
   calm k d (join sep ps) \<and> depth_after d (join sep ps) = d"
  by (induction sep ps rule: join.induct) auto

lemma factor_part:
  assumes "editor_group g"
  shows "calm_part 42 (buildRuleGroupFactor g)"
proof -
  have "\<forall>e \<in> set (group_parts g). calm 42 1 e \<and> depth_after 1 e = 1"
    using group_parts_calm [OF assms] calm_deeper [of 38 0 _ 42] by (auto simp: calm_part_def)
  then have "calm 42 1 (join (js '' && '') (group_parts g)) \<and> depth_after 1 (join (js '' && '') (group_parts g)) = 1"
    by (rule calm_join) (simp_all add: js_lit paren_step_def)
  moreover have "numeric_literal (grp_multiplier g)" using assms by (simp add: editor_group_def)
  ultimately show ?thesis
    by (auto simp: build_group [OF assms] calm_part_def js_lit paren_step_def numeric_calm numeric_flat
        intro: trim_id)
qed

lemma join_ends: "ws \<noteq> [] \<Longrightarrow> \<forall>w \<in> set ws. w \<noteq> [] \<Longrightarrow> hd (join sep ws) = hd (hd ws) \<and> last (join sep ws) = last (last ws)"
  by (induction sep ws rule: join.induct) (auto simp: join_not_Nil)

lemma trim_join:
  assumes "ps \<noteq> []" and "\<forall>e \<in> set ps. calm_part k e"
  shows "trim (join sep ps) = join sep ps"
proof -
  have ends: "e \<noteq> [] \<and> \<not> is_ws (hd e) \<and> \<not> is_ws (last e)" if "calm_part k e" for e
    using that trim_ends [of e] by (auto simp: calm_part_def)
  show ?thesis
    using assms ends join_ends [of ps sep] by (intro trim_id) simp
qed

lemma split_built:
  assumes "gs \<noteq> []" and "\<forall>g \<in> set gs. calm_part 42 (buildRuleGroupFactor g)"
  shows "splitTopLevelMultiply (buildRequestRuleExpr gs) = map buildRuleGroupFactor gs"
    and "trim (buildRequestRuleExpr gs) = buildRequestRuleExpr gs"
    and "buildRequestRuleExpr gs \<noteq> []"
proof -
  let ?fs = "map buildRuleGroupFactor gs"
  have parts: "\<forall>e \<in> set ?fs. calm_part 42 e" and ne: "?fs \<noteq> []" using assms by auto
  then have e: "buildRequestRuleExpr gs = join (js '' * '') ?fs"
    by (simp add: buildRequestRuleExpr_def truthy_parts [OF parts])
  show "splitTopLevelMultiply (buildRequestRuleExpr gs) = ?fs"
    using split_parts [of 42 "js '' * ''" "[32]" ?fs] parts ne truthy_parts [OF parts]
    by (simp add: splitTopLevelMultiply_def e js_lit)
  show "trim (buildRequestRuleExpr gs) = buildRequestRuleExpr gs" unfolding e by (rule trim_join [OF ne parts])
  show "buildRequestRuleExpr gs \<noteq> []"
    unfolding e using ne parts by (intro join_not_Nil) (auto simp: calm_part_def)
qed

lemma split_factors:
  assumes "gs \<noteq> []" and "\<forall>g \<in> set gs. editor_group g"
  shows "splitTopLevelMultiply (buildRequestRuleExpr gs) = map buildRuleGroupFactor gs"
    and "trim (buildRequestRuleExpr gs) = buildRequestRuleExpr gs"
    and "buildRequestRuleExpr gs \<noteq> []"
  using split_built [OF assms(1)] assms(2) factor_part by blast+

lemma rules_read_back:
  assumes "\<forall>g \<in> set gs. editor_group g"
  shows "tryParseRequestRuleExpr (buildRequestRuleExpr gs) = Inr (Some gs)"
proof (cases "gs = []")
  case True
  then show ?thesis
    by (simp add: buildRequestRuleExpr_def truthy_strs_def tryParseRequestRuleExpr_def)
next
  case False
  with split_factors [OF False assms] collect_parsed_map [of gs tryParseRuleGroupFactor buildRuleGroupFactor]
    group_roundtrip assms
  show ?thesis by (simp add: tryParseRequestRuleExpr_def)
qed

section \<open>Combining with a base expression and splitting again\<close>

text \<open>
  A base expression: it has no outer white space, is not empty, its parentheses are balanced,
  it is not wrapped as a whole, and it does not end like a rule.
\<close>

fun balanced :: "int \<Rightarrow> jsstr \<Rightarrow> bool" where
  "balanced d [] = (d = 0)"
| "balanced d (c # s) = (0 \<le> paren_step d c \<and> balanced (paren_step d c) s)"

definition base_expr :: "jsstr \<Rightarrow> bool" where
  "base_expr b \<longleftrightarrow> trim b = b \<and> b \<noteq> [] \<and> balanced 0 b \<and> \<not> hasFullOuterParens b \<and>
     \<not> ends_with (js '' : 1'') b"

lemma balanced_step: "paren_step (d + 1) c = paren_step d c + 1"
  by (simp add: paren_step_def)

lemma balanced_calm: "balanced d s \<Longrightarrow> 0 \<le> d \<Longrightarrow> calm k (d + 1) s \<and> depth_after (d + 1) s = 1"
  by (induction s arbitrary: d) (auto simp: balanced_step)

lemma balanced_outer: "balanced d s \<Longrightarrow> 0 \<le> d \<Longrightarrow> outer_parens_loop (d + 1) (s @ [41])"
proof (induction s arbitrary: d)
  case (Cons c s)
  then have "outer_parens_loop (paren_step d c + 1) (s @ [41])" by simp
  with Cons.prems show ?case by (simp add: balanced_step Let_def)
qed (simp add: paren_step_def)

lemma wrapped_base:
  assumes "base_expr b"
  shows "calm_part 42 (40 # b @ [41])" and "hasFullOuterParens (40 # b @ [41])"
  using assms balanced_calm [of 0 b 42] balanced_outer [of 0 b]
  by (auto simp: base_expr_def calm_part_def paren_step_def hasFullOuterParens_def ends_with_def js_lit
      intro: trim_id)

lemma unwrap_base:
  assumes "base_expr b"
  shows "unwrapOuterParens (40 # b @ [41]) = b"
proof -
  have "trim (40 # b @ [41]) = 40 # b @ [41]" by (rule trim_id) simp
  moreover have "unwrap_loop b = b" using assms by (subst unwrap_loop.simps) (simp add: base_expr_def)
  ultimately show ?thesis
    using assms wrapped_base(2) [OF assms]
    by (simp add: unwrapOuterParens_def unwrap_loop.simps [of "40 # _"] slice_inner_def One_nat_def base_expr_def)
qed

lemma rmatch_ends_in:
  "st' \<in> set (rmatch (rseq (rs @ [rlit w, REol])) st) \<Longrightarrow> \<exists>u. rest_of st = u @ js w"
proof (induction rs arbitrary: st)
  case Nil
  obtain b s cs where "st = (b, s, cs)" by (metis prod.exhaust)
  with Nil show ?case
    by (auto simp: rseq_def rmatch.simps(3) rmatch_lit_shape starts_with_iff split: if_splits)
next
  case (Cons r rs)
  then obtain m where m: "m \<in> set (rmatch r st)" "st' \<in> set (rmatch (rseq (rs @ [rlit w, REol])) m)"
    by (auto simp: rseq_def rmatch.simps(3))
  from rmatch_suffix [OF m(1)] Cons.IH [OF m(2)] show ?case by (metis append.assoc)
qed

lemma re_match_mem: "re_match (RSeq RBol r) s = Some m \<Longrightarrow> \<exists>st. st \<in> set (rmatch r (None, s, no_caps))"
  by (auto simp: re_match_bol first_match_def split: list.splits)

lemma not_rule_factor:
  assumes "\<not> ends_with (js '' : 1'') b"
  shows "re_match rule_factor_re (40 # b @ [41]) = None"
proof (rule ccontr)
  let ?rs = "[rlit ''('', RGroup 1 (rplus (RCls (\<lambda>_. True))), rlit '' ? '', RGroup 2 (rplus (RCls num_unit))]"
  assume "re_match rule_factor_re (40 # b @ [41]) \<noteq> None"
  moreover have "rule_factor_re = RSeq RBol (rseq (?rs @ [rlit '' : 1)'', REol]))"
    by (simp add: rule_factor_re_def rseq_def)
  ultimately obtain st where "st \<in> set (rmatch (rseq (?rs @ [rlit '' : 1)'', REol])) (None, 40 # b @ [41], no_caps))"
    using re_match_mem by fastforce
  from rmatch_ends_in [OF this] obtain u where "40 # b @ [41] = u @ [32, 58, 32, 49, 41]" by (auto simp: js_lit)
  then have "40 # b = u @ [32, 58, 32, 49]" by (simp add: append_eq_append_conv2 flip: append_Cons)
  then have "\<exists>v. b = v @ [32, 58, 32, 49]" by (cases u) auto
  with assms show False by (auto simp: ends_with_def js_lit)
qed

lemma wrapped_not_rule:
  assumes "base_expr b"
  shows "tryParseRequestRuleExpr (40 # b @ [41]) = Inr None"
proof -
  have part: "calm_part 42 (40 # b @ [41])" by (rule wrapped_base(1) [OF assms])
  then have "splitTopLevelMultiply (40 # b @ [41]) = [40 # b @ [41]]"
    using split_parts [of 42 "js '' * ''" "[32]" "[40 # b @ [41]]"]
    by (simp add: splitTopLevelMultiply_def js_lit truthy_strs_def)
  moreover have "re_match rule_factor_re (40 # b @ [41]) = None"
    using assms by (intro not_rule_factor) (simp add: base_expr_def)
  ultimately show ?thesis
    using part by (simp add: tryParseRequestRuleExpr_def tryParseRuleGroupFactor_def calm_part_def)
qed

lemma factor_is_rule: "editor_group g \<Longrightarrow> tryParseRequestRuleExpr (buildRuleGroupFactor g) = Inr (Some [g])"
  using rules_read_back [of "[g]"] factor_part [of g]
  by (simp add: buildRequestRuleExpr_def truthy_strs_def calm_part_def)

lemma partition_factors:
  "\<forall>g \<in> set gs. editor_group g \<Longrightarrow>
   partition_parts (map buildRuleGroupFactor gs) = Inr (map buildRuleGroupFactor gs, [])"
  by (induction gs) (auto simp: factor_is_rule)

lemma combined_splits:
  assumes "base_expr b" and "gs \<noteq> []" and "\<forall>g \<in> set gs. editor_group g"
  shows "splitBillingExprAndRequestRules (combineBillingExpr b (buildRequestRuleExpr gs)) =
    Inr \<lparr>split_billingExpr = b, split_requestRuleExpr = buildRequestRuleExpr gs\<rparr>"
proof -
  let ?w = "40 # b @ [41]" and ?fs = "map buildRuleGroupFactor gs"
  have fs: "\<forall>e \<in> set ?fs. calm_part 42 e" using assms(3) factor_part by auto
  have parts: "\<forall>e \<in> set (?w # ?fs). calm_part 42 e" using fs wrapped_base(1) [OF assms(1)] by simp
  have rules: "buildRequestRuleExpr gs = join (js '' * '') ?fs"
    by (simp add: buildRequestRuleExpr_def truthy_parts [OF fs])
  have "combineBillingExpr b (buildRequestRuleExpr gs) = ?w @ js '' * '' @ buildRequestRuleExpr gs"
    using assms split_factors(2,3) [OF assms(2,3)] by (simp add: combineBillingExpr_def base_expr_def js_lit)
  also have "\<dots> = join (js '' * '') (?w # ?fs)" using assms(2) rules by (cases gs) auto
  finally have comb: "combineBillingExpr b (buildRequestRuleExpr gs) = join (js '' * '') (?w # ?fs)" .
  have "splitTopLevelMultiply (join (js '' * '') (?w # ?fs)) = ?w # ?fs"
    using split_parts [of 42 "js '' * ''" "[32]" "?w # ?fs"] parts truthy_parts [OF parts]
    by (simp add: splitTopLevelMultiply_def js_lit del: join.simps)
  moreover have "trim (join (js '' * '') (?w # ?fs)) = join (js '' * '') (?w # ?fs)"
    by (rule trim_join [OF _ parts]) simp
  moreover have "join (js '' * '') (?w # ?fs) \<noteq> []"
    using parts by (intro join_not_Nil) (auto simp: calm_part_def)
  moreover have "partition_parts (?w # ?fs) = Inr (?fs, [?w])"
    using wrapped_not_rule [OF assms(1)] partition_factors [OF assms(3)] by simp
  ultimately show ?thesis
    using assms(2) unwrap_base [OF assms(1)]
    unfolding comb by (simp add: splitBillingExprAndRequestRules_def rules del: join.simps partition_parts.simps)
qed

section \<open>Conditions on parameters that cannot be read back\<close>

text \<open>
  A comparison of a parameter and a search in it are written as two tests, the first of which
  asks whether the parameter is there.
\<close>

fun guarded_cond :: "RequestCondition \<Rightarrow> bool" where
  "guarded_cond (CTime c) \<longleftrightarrow> False"
| "guarded_cond (CParamHeader c) \<longleftrightarrow>
     ph_source c = SOURCE_PARAM \<and> plain (ph_path c) \<and> ph_path c \<noteq> [] \<and> trim (ph_path c) = ph_path c \<and>
     (ph_mode c \<in> {MATCH_GT, MATCH_GTE, MATCH_LT, MATCH_LTE} \<and> numeric_literal (ph_value c) \<or>
      ph_mode c = MATCH_CONTAINS \<and> plain (ph_value c) \<and> trim (ph_value c) = ph_value c)"

definition exists_text :: "jsstr \<Rightarrow> jsstr" where
  "exists_text p = js ''param(\"'' @ p @ js ''\") != nil''"

text \<open>The second test, after \<open>&&\<close>.\<close>

inductive second_text :: "RequestCondition \<Rightarrow> jsstr \<Rightarrow> jsstr \<Rightarrow> bool" where
  compared: "\<lbrakk>plain p; p \<noteq> []; numeric_literal v; op \<in> {js ''>'', js ''>='', js ''<'', js ''<=''}\<rbrakk> \<Longrightarrow>
    second_text (CParamHeader \<lparr>ph_source = SOURCE_PARAM, ph_path = p, ph_mode = param_op_mode op, ph_value = v\<rparr>)
      p (js ''param(\"'' @ p @ js ''\") '' @ op @ js '' '' @ v)"
| searched: "\<lbrakk>plain p; p \<noteq> []; plain v\<rbrakk> \<Longrightarrow>
    second_text (CParamHeader \<lparr>ph_source = SOURCE_PARAM, ph_path = p, ph_mode = MATCH_CONTAINS, ph_value = v\<rparr>)
      p (js ''has(param(\"'' @ p @ js ''\"), \"'' @ v @ js ''\")'')"

lemma normalize_guarded:
  assumes "guarded_cond (CParamHeader c)"
  shows "normalizeCondition (partial_of (CParamHeader c)) = CParamHeader c"
  using assms
  by (auto simp: normalizeCondition_def Let_def opt_or_def str_or_def option_mode_def
      getRequestRuleMatchOptions_def opt_str_def const_defs)

lemma guarded_text:
  assumes "guarded_cond c"
  shows "\<exists>p e. second_text c p e \<and> buildRequestConditionExpr c = exists_text p @ js '' && '' @ e"
proof -
  from assms obtain h where h: "c = CParamHeader h" by (cases c) auto
  obtain src p mode v where c: "h = \<lparr>ph_source = src, ph_path = p, ph_mode = mode, ph_value = v\<rparr>"
    by (cases h)
  have p: "src = SOURCE_PARAM" "plain p" "p \<noteq> []" "trim p = p" using assms h c by auto
  have b: "buildRequestConditionExpr c = build_param_header h"
    using assms normalize_guarded [of h] by (simp add: buildRequestConditionExpr_def h del: guarded_cond.simps partial_of.simps)
  let ?s = "js ''param(\"'' @ p @ js ''\")''"
  have src: "(if src = SOURCE_HEADER then js ''header('' else js ''param('') @ json_quote p @ js '')'' = ?s"
    "src \<noteq> SOURCE_HEADER" using p by (simp_all add: const_defs json_quote_plain js_lit)
  from assms h c consider "mode \<in> {MATCH_GT, MATCH_GTE, MATCH_LT, MATCH_LTE}" "numeric_literal v"
    | "mode = MATCH_CONTAINS" "plain v" "trim v = v" by auto
  then show ?thesis
  proof cases
    case 1
    let ?op = "param_mode_op mode"
    have op: "param_op_mode ?op = mode" "?op \<in> {js ''>'', js ''>='', js ''<'', js ''<=''}"
      using 1(1) by (auto simp: param_op_mode_def param_mode_op_def const_defs)
    have "mode \<noteq> MATCH_EXISTS" "mode \<noteq> MATCH_CONTAINS" using 1(1) by (auto simp: const_defs)
    then have "build_param_header h = exists_text p @ js '' && '' @ ?s @ js '' '' @ ?op @ js '' '' @ v"
      using 1 p src by (simp add: build_param_header_def c trim_numeric exists_text_def js_lit del: insert_iff)
    with second_text.compared [OF p(2,3) 1(2) op(2)] show ?thesis unfolding b by (auto simp: h c p(1) op(1) js_lit)
  next
    case 2
    then have "build_param_header h = exists_text p @ js '' && '' @ js ''has(param(\"'' @ p @ js ''\"), \"'' @ v @ js ''\")''"
      using p src by (simp add: build_param_header_def c json_quote_plain buildExprLiteral_def exists_text_def const_defs js_lit)
    with second_text.searched [OF p(2,3) 2(2)] 2(1) show ?thesis unfolding b by (auto simp: h c p(1))
  qed
qed

lemma rmatch_param_cmp:
  assumes "op \<in> {js ''>'', js ''>='', js ''<'', js ''<=''}"
  shows "rmatch (RSeq (RGroup n (ralt [rlit ''>'', rlit ''>='', rlit ''<'', rlit ''<=''])) (RSeq (rlit '' '') r)) (b, op @ 32 # s, cs) =
    rmatch (RSeq (rlit '' '') r) (prev_after b op, 32 # s, cs(n \<mapsto> op))"
  using assms by (auto simp: re_alts re_step js_lit)

lemma not_time_param:
  "tryParseTimeCondition (112 # s) = None" "tryParseTimeCondition (104 # 97 # s) = None"
  using not_time [of 112 "[]"] not_time [of 104 "[97]"] by simp_all

lemmas cond_res = header_exists_re_def param_exists_re_def header_has_re_def param_has_re_def param_cmp_re_def source_eq_re_def

text \<open>The two tests are read back as one condition, but the second alone is not a condition.\<close>

lemma compared_parses:
  assumes "plain p" and "p \<noteq> []" and "numeric_literal v" and "op \<in> {js ''>'', js ''>='', js ''<'', js ''<=''}"
  shows "tryParseRequestCondition (exists_text p @ js '' && param(\"'' @ p @ js ''\") '' @ op @ js '' '' @ v) =
    Inr (Some (CParamHeader \<lparr>ph_source = SOURCE_PARAM, ph_path = p, ph_mode = param_op_mode op, ph_value = v\<rparr>))"
  using assms rmatch_param_cmp [OF assms(4)]
  by (simp add: tryParseRequestCondition_def not_time_param exists_text_def cond_res try_param_or_eq_def run_regex)

lemma compared_alone:
  assumes "plain p" and "p \<noteq> []" and "op \<in> {js ''>'', js ''>='', js ''<'', js ''<=''}"
  shows "tryParseRequestCondition (js ''param(\"'' @ p @ js ''\") '' @ op @ js '' '' @ v) = Inr None"
  using assms
  by (auto simp: tryParseRequestCondition_def not_time_param cond_res try_param_or_eq_def run_regex re_alts)

lemma searched_parses:
  assumes "plain p" and "p \<noteq> []" and "plain v"
  shows "tryParseRequestCondition (exists_text p @ js '' && has(param(\"'' @ p @ js ''\"), \"'' @ v @ js ''\")'') =
    Inr (Some (CParamHeader \<lparr>ph_source = SOURCE_PARAM, ph_path = p, ph_mode = MATCH_CONTAINS, ph_value = v\<rparr>))"
  using assms
  by (simp add: tryParseRequestCondition_def not_time_param exists_text_def cond_res try_param_or_eq_def run_regex
      contains_cond_def json_parse_plain)

lemma searched_alone:
  assumes "plain p" and "p \<noteq> []"
  shows "tryParseRequestCondition (js ''has(param(\"'' @ p @ js ''\"), \"'' @ v @ js ''\")'') = Inr None"
  using assms
  by (simp add: tryParseRequestCondition_def not_time_param cond_res try_param_or_eq_def run_regex re_alts)

lemma join_append: "ps \<noteq> [] \<Longrightarrow> qs \<noteq> [] \<Longrightarrow> join sep (ps @ qs) = join sep ps @ sep @ join sep qs"
  by (induction sep ps rule: join.induct) (auto simp: neq_Nil_conv)

lemma join_concat:
  "\<forall>x \<in> set xs. f x = join sep (P x) \<and> P x \<noteq> [] \<Longrightarrow> join sep (map f xs) = join sep (concat (map P xs))"
proof (induction xs rule: induct_list012)
  case (3 x y zs)
  then have "concat (map P (y # zs)) \<noteq> []" by auto
  with 3 join_append [of "P x" "concat (map P (y # zs))" sep] show ?case by simp
qed auto

lemma second_text_part: "second_text c p e \<Longrightarrow> calm_part 38 e \<and> 124 \<notin> set e"
proof (induction rule: second_text.induct)
  case (compared p v op)
  then have "e \<noteq> [] \<and> \<not> is_ws (hd e) \<and> \<not> is_ws (last e)" if "e = js ''param(\"'' @ p @ js ''\") '' @ op @ js '' '' @ v" for e
    using numeric_last [of v] that by (auto simp: js_lit)
  then show ?case using compared
    by (auto simp: calm_part_def calm_rules js_lit bar_units plain_numeric intro: trim_id)
next
  case (searched p v)
  then show ?case
    by (auto simp: calm_part_def calm_rules js_lit bar_units intro: trim_id)
qed

lemma second_text_parses:
  "second_text c p e \<Longrightarrow> plain p \<and> p \<noteq> [] \<and> tryParseRequestCondition e = Inr None \<and>
     tryParseRequestCondition (exists_text p @ js '' && '' @ e) = Inr (Some c)"
proof (induction rule: second_text.induct)
  case (compared p v op)
  with compared_parses [of p v op] compared_alone [of p op v] show ?case by (simp add: js_lit)
next
  case (searched p v)
  with searched_parses [of p v] searched_alone [of p v] show ?case by (simp add: js_lit)
qed

lemma guarded_pieces:
  assumes "guarded_cond c"
  shows "\<exists>x e. buildRequestConditionExpr c = join (js '' && '') [x, e] \<and> calm_part 38 x \<and> calm_part 38 e \<and>
    wrap_or (buildRequestConditionExpr c) = buildRequestConditionExpr c \<and>
    (\<exists>d. tryParseRequestCondition x = Inr (Some d)) \<and> tryParseRequestCondition e = Inr None"
proof -
  from guarded_text [OF assms] obtain p e where e: "second_text c p e" "buildRequestConditionExpr c = exists_text p @ js '' && '' @ e"
    by blast
  have p: "cond_text (exists_cond SOURCE_PARAM p) (exists_text p)"
    using second_text_parses [OF e(1)] cond_text.pexists by (simp add: exists_text_def)
  have "124 \<notin> set (exists_text p)" using second_text_parses [OF e(1)] by (auto simp: exists_text_def bar_units js_lit)
  then have "124 \<notin> set (buildRequestConditionExpr c)" using second_text_part [OF e(1)] by (auto simp: e(2) js_lit)
  then have "\<not> str_includes (js '' || '') (buildRequestConditionExpr c)" by (auto simp: str_includes_iff js_lit)
  then show ?thesis
    using second_text_part [OF e(1)] second_text_parses [OF e(1)] cond_text_part [OF p] cond_text_parses [OF p] e(2)
    by (intro exI [of _ "exists_text p"] exI [of _ e]) (auto simp: wrap_or_def)
qed

definition written_group :: "RequestRuleGroup \<Rightarrow> bool" where
  "written_group g \<longleftrightarrow> numeric_literal (grp_multiplier g) \<and> grp_conditions g \<noteq> [] \<and>
     (\<forall>c \<in> set (grp_conditions g). editor_cond c \<or> guarded_cond c)"

definition pieces_of :: "RequestCondition \<Rightarrow> jsstr \<Rightarrow> jsstr list \<Rightarrow> bool" where
  "pieces_of c e ps \<longleftrightarrow> e = join (js '' && '') ps \<and> ps \<noteq> [] \<and>
     (\<forall>q \<in> set ps. calm_part 38 q \<and> (\<exists>r. tryParseRequestCondition q = Inr r)) \<and>
     (guarded_cond c \<longrightarrow> (\<exists>q \<in> set ps. tryParseRequestCondition q = Inr None))"

lemma written_pieces:
  assumes "editor_cond c \<or> guarded_cond c" and "h = (\<lambda>e. e) \<or> h = wrap_or"
  shows "\<exists>ps. pieces_of c (h (buildRequestConditionExpr c)) ps"
proof (cases "guarded_cond c")
  case True
  from guarded_pieces [OF this] obtain x e where "buildRequestConditionExpr c = join (js '' && '') [x, e]"
    "calm_part 38 x" "calm_part 38 e" "wrap_or (buildRequestConditionExpr c) = buildRequestConditionExpr c"
    "\<exists>d. tryParseRequestCondition x = Inr (Some d)" "tryParseRequestCondition e = Inr None" by blast
  with assms(2) show ?thesis by (intro exI [of _ "[x, e]"]) (auto simp: pieces_of_def)
next
  case False
  with assms have "editor_cond c" by blast
  with build_cond_text have t: "cond_text c (buildRequestConditionExpr c)" by blast
  show ?thesis
    using assms(2) False wrap_or_parses [OF t] wrap_or_part [OF t] cond_text_parses [OF t] cond_text_part [OF t]
    by (intro exI [of _ "[h (buildRequestConditionExpr c)]"]) (auto simp: pieces_of_def)
qed

lemma pieces_not_Nil: "pieces_of c e ps \<Longrightarrow> e \<noteq> []"
  using join_not_Nil [of ps] by (auto simp: pieces_of_def calm_part_def)

lemma group_parts_map:
  "\<exists>h. (h = (\<lambda>e. e) \<or> h = wrap_or) \<and> group_parts g = map (\<lambda>c. h (buildRequestConditionExpr c)) (grp_conditions g)"
proof (cases "\<exists>c. grp_conditions g = [c]")
  case True
  then show ?thesis by (intro exI [of _ "\<lambda>e. e"]) (auto simp: group_parts_def)
next
  case False
  then show ?thesis by (intro exI [of _ wrap_or]) (auto simp: group_parts_def split: list.splits)
qed

lemma group_pieces:
  assumes "written_group g"
  shows "\<exists>ps. join (js '' && '') (group_parts g) = join (js '' && '') ps \<and> ps \<noteq> [] \<and>
     (\<forall>q \<in> set ps. calm_part 38 q \<and> (\<exists>r. tryParseRequestCondition q = Inr r)) \<and>
     ((\<exists>c \<in> set (grp_conditions g). guarded_cond c) \<longrightarrow> (\<exists>q \<in> set ps. tryParseRequestCondition q = Inr None))"
proof -
  obtain h where h: "h = (\<lambda>e. e) \<or> h = wrap_or" "group_parts g = map (\<lambda>c. h (buildRequestConditionExpr c)) (grp_conditions g)"
    using group_parts_map by blast
  have "\<forall>c \<in> set (grp_conditions g). \<exists>ps. pieces_of c (h (buildRequestConditionExpr c)) ps"
    using assms written_pieces [OF _ h(1)] by (simp add: written_group_def)
  then obtain P where P: "\<forall>c \<in> set (grp_conditions g). pieces_of c (h (buildRequestConditionExpr c)) (P c)" by metis
  then have "join (js '' && '') (group_parts g) = join (js '' && '') (concat (map P (grp_conditions g)))"
    unfolding h(2) by (intro join_concat) (simp add: pieces_of_def)
  moreover have "concat (map P (grp_conditions g)) \<noteq> []"
    using assms P by (cases "grp_conditions g") (auto simp: written_group_def pieces_of_def)
  moreover have "\<exists>q \<in> set (concat (map P (grp_conditions g))). tryParseRequestCondition q = Inr None"
    if "c \<in> set (grp_conditions g)" "guarded_cond c" for c
  proof -
    have "pieces_of c (h (buildRequestConditionExpr c)) (P c)" using P that(1) by blast
    then show ?thesis using that by (auto simp: pieces_of_def)
  qed
  moreover have "\<forall>q \<in> set (concat (map P (grp_conditions g))). calm_part 38 q \<and> (\<exists>r. tryParseRequestCondition q = Inr r)"
    using P by (auto simp: pieces_of_def)
  ultimately show ?thesis by blast
qed

lemma collect_None:
  "\<forall>x \<in> set xs. \<exists>r. f x = Inr r \<Longrightarrow> \<exists>x \<in> set xs. f x = Inr None \<Longrightarrow> collect_parsed f xs = Inr None"
proof (induction xs)
  case (Cons a xs)
  then obtain r where "f a = Inr r" by auto
  with Cons show ?case by (cases r) auto
qed simp

lemma written_factor:
  assumes "written_group g"
  shows "calm_part 42 (buildRuleGroupFactor g)"
    and "\<exists>c \<in> set (grp_conditions g). guarded_cond c \<Longrightarrow> tryParseRuleGroupFactor (buildRuleGroupFactor g) = Inr None"
proof -
  from group_pieces [OF assms] obtain ps where ps: "join (js '' && '') (group_parts g) = join (js '' && '') ps" "ps \<noteq> []"
    "\<forall>q \<in> set ps. calm_part 38 q" "\<forall>q \<in> set ps. \<exists>r. tryParseRequestCondition q = Inr r"
    "(\<exists>c \<in> set (grp_conditions g). guarded_cond c) \<longrightarrow> (\<exists>q \<in> set ps. tryParseRequestCondition q = Inr None)" by blast
  have m: "numeric_literal (grp_multiplier g)" using assms by (simp add: written_group_def)
  have "buildRequestConditionExpr c \<noteq> []" if "c \<in> set (grp_conditions g)" for c
    using assms that written_pieces [of c "\<lambda>e. e"] pieces_not_Nil by (auto simp: written_group_def)
  then have built: "buildRuleGroupFactor g = js ''('' @ join (js '' && '') ps @ js '' ? '' @ grp_multiplier g @ js '' : 1)''"
    using build_factor [OF m] assms by (simp add: written_group_def ps(1))
  have "\<forall>e \<in> set ps. calm 42 1 e \<and> depth_after 1 e = 1"
    using ps(3) calm_deeper [of 38 0 _ 42] by (auto simp: calm_part_def)
  then have "calm 42 1 (join (js '' && '') ps) \<and> depth_after 1 (join (js '' && '') ps) = 1"
    by (rule calm_join) (simp_all add: js_lit paren_step_def)
  then show "calm_part 42 (buildRuleGroupFactor g)"
    using m by (auto simp: built calm_part_def js_lit paren_step_def numeric_calm numeric_flat intro: trim_id)
  show "tryParseRuleGroupFactor (buildRuleGroupFactor g) = Inr None" if "\<exists>c \<in> set (grp_conditions g). guarded_cond c"
  proof -
    have "splitTopLevelAnd (join (js '' && '') ps) = ps"
      using split_parts [of 38 "js '' && ''" "[38, 32]" ps] truthy_parts [OF ps(3)] ps(2,3)
      by (simp add: splitTopLevelAnd_def js_lit)
    moreover have "collect_parsed (\<lambda>ap. tryParseRequestCondition (trim ap)) ps = Inr None"
      using ps(3-5) that by (intro collect_None) (auto simp: calm_part_def)
    moreover have "join (js '' && '') ps \<noteq> []" using ps(2,3) by (intro join_not_Nil) (auto simp: calm_part_def)
    ultimately show ?thesis
      using m rule_factor_match [of "join (js '' && '') ps" "grp_multiplier g"]
      by (simp add: tryParseRuleGroupFactor_def built cap_def)
  qed
qed

section \<open>Properties\<close>

text \<open>C1: Request rules survive a save and a reload of the pricing editor: for every list of
  groups whose multipliers are numeric literals and whose conditions are in the form the editor
  produces (all time conditions, header conditions, existence and equality of parameters),
  parsing the expression that is built from them gives the same groups back.\<close>

theorem request_rules_roundtrip:
  assumes "\<forall>g \<in> set gs. editor_group g"
  shows "tryParseRequestRuleExpr (buildRequestRuleExpr gs) = Inr (Some gs)"
  by (rule rules_read_back [OF assms])

definition sample_time :: RequestCondition where
  "sample_time = CTime \<lparr>tc_timeFunc = js ''hour'', tc_timezone = js ''Asia/Shanghai'',
     tc_mode = MATCH_RANGE, tc_value = [], tc_rangeStart = js ''22'', tc_rangeEnd = js ''6''\<rparr>"

definition sample_header :: RequestCondition where
  "sample_header = CParamHeader \<lparr>ph_source = SOURCE_HEADER, ph_path = js ''x-tier'',
     ph_mode = MATCH_EQ, ph_value = js ''gold''\<rparr>"

definition sample_groups :: "RequestRuleGroup list" where
  "sample_groups = [\<lparr>grp_conditions = [sample_time, sample_header], grp_multiplier = js ''0.5''\<rparr>,
     \<lparr>grp_conditions = [sample_header], grp_multiplier = js ''2''\<rparr>]"

lemma sample_editor: "\<forall>g \<in> set sample_groups. editor_group g"
  by code_simp

lemma request_rules_roundtrip_witness:
  "list_all editor_group sample_groups \<and>
   tryParseRequestRuleExpr (buildRequestRuleExpr sample_groups) = Inr (Some sample_groups)"
  using request_rules_roundtrip [OF sample_editor] sample_editor by (simp add: list_all_iff)

text \<open>C17: Splitting undoes combining: let a base expression be balanced, without outer white space,
  not wrapped in parentheses as a whole and not ending in \<open> : 1\<close>, and let there be at least one group
  of rules, all of them in the form that is read back (time and header conditions, existence and
  equality of parameters, with numeric literals and plain texts, but no comparison of a parameter and
  no search in one). Then the combined expression is split into exactly
  that base expression and exactly those rules.\<close>

theorem combine_split_roundtrip:
  assumes "base_expr b" and "gs \<noteq> []" and "\<forall>g \<in> set gs. editor_group g"
  shows "splitBillingExprAndRequestRules (combineBillingExpr b (buildRequestRuleExpr gs)) =
    Inr \<lparr>split_billingExpr = b, split_requestRuleExpr = buildRequestRuleExpr gs\<rparr>"
  by (rule combined_splits [OF assms])

definition sample_base :: jsstr where
  "sample_base = js ''tier(base, p * 2 + c * 8)''"

lemma combine_split_roundtrip_witness:
  "base_expr sample_base \<and> sample_groups \<noteq> [] \<and> list_all editor_group sample_groups \<and>
   splitBillingExprAndRequestRules (combineBillingExpr sample_base (buildRequestRuleExpr sample_groups)) =
   Inr \<lparr>split_billingExpr = sample_base, split_requestRuleExpr = buildRequestRuleExpr sample_groups\<rparr>"
proof -
  have b: "base_expr sample_base" by code_simp
  have "sample_groups \<noteq> []" by (simp add: sample_groups_def)
  with combine_split_roundtrip [OF b this sample_editor] b sample_editor show ?thesis
    by (simp add: list_all_iff)
qed

definition param_gt :: RequestCondition where
  "param_gt = CParamHeader \<lparr>ph_source = SOURCE_PARAM, ph_path = js ''n'', ph_mode = MATCH_GT, ph_value = js ''5''\<rparr>"

text \<open>C33: A comparison of a parameter, and a search for a text in a parameter, is lost on reload. Take
  any such condition with a path and a value of plain text (no quotes, backslashes, parentheses
  or bars; a numeric literal for a comparison): the editor offers it, and its own expression is
  parsed back to it. But if a list of groups holds it anywhere, among other conditions and groups the
  editor writes, then the expression of the list is not parsed at all, because the expression of the
  condition contains a top-level \<open>&&\<close> that the group parser takes for a separator.\<close>

theorem param_comparison_lost:
  assumes "guarded_cond (CParamHeader c)" and "CParamHeader c \<in> set (grp_conditions g)" and "g \<in> set gs"
    and "\<forall>k \<in> set gs. written_group k"
  shows "ph_mode c \<in> fst ` set (getRequestRuleMatchOptions (ph_source c)) \<and>
    tryParseRequestCondition (buildRequestConditionExpr (CParamHeader c)) = Inr (Some (CParamHeader c)) \<and>
    tryParseRequestRuleExpr (buildRequestRuleExpr gs) = Inr None"
proof (intro conjI)
  show "ph_mode c \<in> fst ` set (getRequestRuleMatchOptions (ph_source c))"
    using assms(1) by (auto simp: getRequestRuleMatchOptions_def const_defs)
  from guarded_text [OF assms(1)] show "tryParseRequestCondition (buildRequestConditionExpr (CParamHeader c)) = Inr (Some (CParamHeader c))"
    using second_text_parses by fastforce
  have part: "\<forall>g \<in> set gs. calm_part 42 (buildRuleGroupFactor g)" using assms(4) written_factor(1) by blast
  have "\<exists>r. tryParseRuleGroupFactor (buildRuleGroupFactor k) = Inr r" if "k \<in> set gs" for k
  proof (cases "editor_group k")
    case False
    then show ?thesis using written_factor(2) [of k] assms(4) that by (auto simp: editor_group_def written_group_def)
  qed (simp add: group_roundtrip)
  moreover have "tryParseRuleGroupFactor (buildRuleGroupFactor g) = Inr None"
    using written_factor(2) [of g] assms by blast
  ultimately have "collect_parsed tryParseRuleGroupFactor (map buildRuleGroupFactor gs) = Inr None"
    using assms(3) by (intro collect_None) auto
  then show "tryParseRequestRuleExpr (buildRequestRuleExpr gs) = Inr None"
    using split_built [OF _ part] assms(3) by (cases "gs = []") (simp_all add: tryParseRequestRuleExpr_def)
qed

theorem param_comparison_lost_witness:
  "tryParseRequestCondition (buildRequestConditionExpr param_gt) = Inr (Some param_gt) \<and>
   tryParseRequestRuleExpr (buildRequestRuleExpr
     (\<lparr>grp_conditions = [sample_header, param_gt], grp_multiplier = js ''2''\<rparr> # sample_groups)) = Inr None"
proof -
  let ?g = "\<lparr>grp_conditions = [sample_header, param_gt], grp_multiplier = js ''2''\<rparr>"
  obtain c where c: "param_gt = CParamHeader c" by (simp add: param_gt_def)
  have g: "guarded_cond param_gt" by code_simp
  have "list_all written_group (?g # sample_groups)" by code_simp
  then have "\<forall>k \<in> set (?g # sample_groups). written_group k" by (simp only: list_all_iff)
  from param_comparison_lost [OF g [unfolded c] _ _ this, of ?g] show ?thesis by (simp add: c)
qed

definition bad_escape_rule :: jsstr where
  "bad_escape_rule = js ''(has(header(\"a\"), \"'' @ [92] @ js ''q\") ? 2 : 1)''"

text \<open>The parser of request rules can throw: a rule whose quoted text holds an escape that
  JSON does not know makes it leave with a \<open>SyntaxError\<close>, and so does the split of an
  expression that contains it.\<close>

theorem request_rules_can_throw:
  "tryParseRequestRuleExpr bad_escape_rule = Inl SyntaxError \<and>
   splitBillingExprAndRequestRules (js ''(p) * '' @ bad_escape_rule) = Inl SyntaxError"
  by code_simp

end
