(* ===== verification/Billing_Tiers.thy ===== *)
theory Billing_Tiers
  imports Billing_Rules
begin

text \<open>
  Tiered prices of billing expressions: the variable registry and the tier parser of
  \<open>src/web/default/src/features/pricing/lib/billing-expr.ts\<close>, and the visual editor of
  \<open>tier-expr.ts\<close> in the same directory, which generates an expression from a list of tiers
  and parses it back, refusing an expression it would not regenerate.
\<close>

section \<open>The variable registry\<close>

record BillingVar =
  bv_key :: string
  bv_field :: "string option"
  bv_tierField :: "string option"
  bv_label :: string
  bv_shortLabel :: string
  bv_side :: string
  bv_isBase :: bool
  bv_isConditionOnly :: bool
  bv_group :: "string option"

definition price_var :: "string \<Rightarrow> string \<Rightarrow> string \<Rightarrow> string \<Rightarrow> string \<Rightarrow> string \<Rightarrow> bool \<Rightarrow> string option \<Rightarrow> BillingVar" where
  "price_var key fld tierFld label short side base grp =
     \<lparr>bv_key = key, bv_field = Some fld, bv_tierField = Some tierFld, bv_label = label,
      bv_shortLabel = short, bv_side = side, bv_isBase = base, bv_isConditionOnly = False, bv_group = grp\<rparr>"

definition BILLING_VARS :: "BillingVar list" where
  "BILLING_VARS =
     [price_var ''p'' ''inputPrice'' ''input_unit_cost'' ''Input price'' ''Input'' ''input'' True None,
      price_var ''c'' ''outputPrice'' ''output_unit_cost'' ''Completion price'' ''Output'' ''output'' True None,
      \<lparr>bv_key = ''len'', bv_field = None, bv_tierField = None, bv_label = ''Input length'',
       bv_shortLabel = ''Length'', bv_side = ''condition'', bv_isBase = False, bv_isConditionOnly = True,
       bv_group = None\<rparr>,
      price_var ''cr'' ''cacheReadPrice'' ''cache_read_unit_cost'' ''Cache read price'' ''Cache Read''
        ''input'' False (Some ''cache''),
      price_var ''cc'' ''cacheCreatePrice'' ''cache_create_unit_cost'' ''Cache create price'' ''Cache Write''
        ''input'' False (Some ''cache''),
      price_var ''cc1h'' ''cacheCreate1hPrice'' ''cache_create_1h_unit_cost'' ''Cache create (1h) price''
        ''Cache Write (1h)'' ''input'' False (Some ''cache''),
      price_var ''img'' ''imagePrice'' ''image_unit_cost'' ''Image input price'' ''Image In''
        ''input'' False (Some ''media''),
      price_var ''img_o'' ''imageOutputPrice'' ''image_output_unit_cost'' ''Image output price'' ''Image Out''
        ''output'' False (Some ''media''),
      price_var ''ai'' ''audioInputPrice'' ''audio_input_unit_cost'' ''Audio input price'' ''Audio In''
        ''input'' False (Some ''media''),
      price_var ''ao'' ''audioOutputPrice'' ''audio_output_unit_cost'' ''Audio output price'' ''Audio Out''
        ''output'' False (Some ''media'')]"

definition BILLING_PRICING_VARS :: "BillingVar list" where
  "BILLING_PRICING_VARS = filter (\<lambda>v. \<not> bv_isConditionOnly v) BILLING_VARS"

definition BILLING_CONDITION_VARS :: "string list" where
  "BILLING_CONDITION_VARS = map bv_key (filter (\<lambda>v. bv_isBase v \<or> bv_isConditionOnly v) BILLING_VARS)"

definition BILLING_VAR_KEY_TO_FIELD :: "(string \<times> string) list" where
  "BILLING_VAR_KEY_TO_FIELD = map (\<lambda>v. (bv_key v, the (bv_field v))) BILLING_PRICING_VARS"

definition BILLING_EXTRA_VARS :: "BillingVar list" where
  "BILLING_EXTRA_VARS = filter (\<lambda>v. \<not> bv_isBase v \<and> \<not> bv_isConditionOnly v) BILLING_VARS"

text \<open>Pairs of the tier field and the variable in the expression.\<close>

definition BILLING_CACHE_VAR_MAP :: "(string \<times> string) list" where
  "BILLING_CACHE_VAR_MAP = map (\<lambda>v. (the (bv_tierField v), bv_key v)) BILLING_EXTRA_VARS"

definition ws_star :: regex where
  "ws_star = RStar (RCls is_ws)"

definition BILLING_VAR_REGEX :: regex where
  "BILLING_VAR_REGEX = rseq [RWordB, RGroup 1 (ralt (map (\<lambda>v. rlit (bv_key v)) BILLING_PRICING_VARS)),
     ws_star, rlit ''*'', ws_star, RGroup 2 (rplus (RCls num_unit))]"

section \<open>The tier parser\<close>

record TierCondition =
  tier_var :: jsstr
  tier_op :: jsstr
  tier_value :: jsnum

record ParsedTier =
  pt_label :: jsstr
  pt_conditions :: "TierCondition list"
  pt_prices :: "(string \<times> jsnum) list"

text \<open>\<open>/^v(\d+):([\s\S]*)$/\<close>\<close>

definition version_re :: regex where
  "version_re = rseq [RBol, rlit ''v'', RGroup 1 (rplus (RCls is_digit)), rlit '':'',
     RGroup 2 (RStar (RCls (\<lambda>_. True))), REol]"

definition stripExprVersion :: "jsstr \<Rightarrow> jsnum \<times> jsstr" where
  "stripExprVersion exprStr =
     (if exprStr = [] then (Fin 1, [])
      else case re_match version_re exprStr of
        Some m \<Rightarrow> (to_number (cap m 1), cap m 2)
      | None \<Rightarrow> (Fin 1, exprStr))"

text \<open>The loop over the matches keeps the first coefficient of each variable.\<close>

fun first_coeffs :: "(nat \<Rightarrow> jsstr option) list \<Rightarrow> (jsstr \<times> jsnum) list \<Rightarrow> (jsstr \<times> jsnum) list" where
  "first_coeffs [] coeffs = coeffs"
| "first_coeffs (m # ms) coeffs =
     first_coeffs ms (if cap m 1 \<in> set (map fst coeffs) then coeffs
                      else coeffs @ [(cap m 1, to_number (cap m 2))])"

definition coeff_or_zero :: "(jsstr \<times> jsnum) list \<Rightarrow> jsstr \<Rightarrow> jsnum" where
  "coeff_or_zero coeffs v = (case map_of coeffs v of None \<Rightarrow> Fin 0 | Some x \<Rightarrow> num_or_zero x)"

definition parseTierBody :: "jsstr \<Rightarrow> (string \<times> jsnum) list" where
  "parseTierBody bodyStr =
     (let coeffs = first_coeffs (find_all BILLING_VAR_REGEX None bodyStr) [] in
      map (\<lambda>(varName, fld). (fld, coeff_or_zero coeffs (js varName))) BILLING_VAR_KEY_TO_FIELD)"

text \<open>\<open>[\d.eE+]\<close>, \<open>(?:p|c|len)\s*(?:<|<=|>|>=)\s*[\d.eE+]+\<close>\<close>

definition cond_num_unit :: "nat \<Rightarrow> bool" where
  "cond_num_unit c \<longleftrightarrow> is_digit c \<or> one_of ''.eE+'' c"

definition cond_var_re :: regex where
  "cond_var_re = ralt [rlit ''p'', rlit ''c'', rlit ''len'']"

definition cond_op_re :: regex where
  "cond_op_re = ralt [rlit ''<'', rlit ''<='', rlit ''>'', rlit ''>='']"

definition cond_one_re :: regex where
  "cond_one_re = rseq [cond_var_re, ws_star, cond_op_re, ws_star, rplus (RCls cond_num_unit)]"

definition and_sep_re :: regex where
  "and_sep_re = rseq [ws_star, rlit ''&&'', ws_star]"

definition cond_group_re :: regex where
  "cond_group_re = RGroup 1 (rseq [cond_one_re, RStar (rseq [and_sep_re, cond_one_re])])"

definition cond_prefix_re :: regex where
  "cond_prefix_re = ropt (rseq [cond_group_re, ws_star, rlit ''?'', ws_star])"

definition tier_re :: regex where
  "tier_re = rseq [cond_prefix_re, rlit ''tier(\"'', RGroup 2 (RStar (RCls not_quote)), rlit ''\",'',
     ws_star, RGroup 3 (rplus (RCls (\<lambda>c. c \<noteq> 41))), rlit '')'']"

text \<open>\<open>/^(p|c|len)\s*(<|<=|>|>=)\s*([\d.eE+]+)$/\<close>\<close>

definition tier_cond_re :: regex where
  "tier_cond_re = rseq [RBol, RGroup 1 cond_var_re, ws_star, RGroup 2 cond_op_re, ws_star,
     RGroup 3 (rplus (RCls cond_num_unit)), REol]"

text \<open>\<open>s.split(re)\<close> for an expression that does not match the empty string.\<close>

function re_split :: "regex \<Rightarrow> nat option \<Rightarrow> jsstr \<Rightarrow> jsstr list" where
  "re_split r b s =
     (case rsearch r b s of
        None \<Rightarrow> [s]
      | Some (s', st) \<Rightarrow>
          if length (rest_of st) < length s
          then take (length s - length s') s # re_split r (fst st) (rest_of st) else [s])"
  by pat_completeness auto
termination
  by (relation "measure (\<lambda>(r, b, s). length s)") auto

declare re_split.simps [simp del]

definition parse_tier_conditions :: "jsstr \<Rightarrow> TierCondition list" where
  "parse_tier_conditions condStr =
     (if condStr = [] then []
      else concat (map (\<lambda>cp. case re_match tier_cond_re (trim cp) of
          None \<Rightarrow> []
        | Some cm \<Rightarrow> [\<lparr>tier_var = cap cm 1, tier_op = cap cm 2, tier_value = to_number (cap cm 3)\<rparr>])
        (re_split and_sep_re None condStr)))"

definition parseTiersFromExpr :: "jsstr \<Rightarrow> ParsedTier list" where
  "parseTiersFromExpr exprStr =
     (if exprStr = [] then []
      else map (\<lambda>m. \<lparr>pt_label = cap m 2, pt_conditions = parse_tier_conditions (cap m 1),
          pt_prices = parseTierBody (cap m 3)\<rparr>)
        (find_all tier_re None (snd (stripExprVersion exprStr))))"

text \<open>
  \<open>normalizeTierLabel\<close>; the case mapping of Unicode is the argument \<open>lower\<close>. The replacement
  of \<open>/<[=\<dots>]?|\<dots>/g\<close> by one character: \<open>op\<close> and \<open>wide\<close> are the ASCII and the full-width
  sign, \<open>oreq\<close> the one-character sign with equality.
\<close>

fun fold_sign :: "nat \<Rightarrow> nat \<Rightarrow> nat \<Rightarrow> jsstr \<Rightarrow> jsstr" where
  "fold_sign op wide oreq [] = []"
| "fold_sign op wide oreq (c # s) =
     (if c = op \<or> c = wide then
        (case s of
           d # s' \<Rightarrow> if d = 61 \<or> d = 65309 then op # fold_sign op wide oreq s' else op # fold_sign op wide oreq s
         | [] \<Rightarrow> [op])
      else if c = oreq then op # fold_sign op wide oreq s
      else c # fold_sign op wide oreq s)"

definition remove_ws :: "jsstr \<Rightarrow> jsstr" where
  "remove_ws s = filter (\<lambda>c. \<not> is_ws c) s"

definition normalizeTierLabel :: "(jsstr \<Rightarrow> jsstr) \<Rightarrow> jsstr option \<Rightarrow> jsstr" where
  "normalizeTierLabel lower label =
     (case label of
        None \<Rightarrow> []
      | Some l \<Rightarrow> if l = [] then []
          else lower (remove_ws (fold_sign 62 65310 8805 (fold_sign 60 65308 8804 l))))"

section \<open>The visual editor\<close>

definition CACHE_MODE_TIMED :: jsstr where
  "CACHE_MODE_TIMED = js ''timed''"

definition CACHE_MODE_GENERIC :: jsstr where
  "CACHE_MODE_GENERIC = js ''generic''"

datatype cond_value = CNum jsnum | CText jsstr

record TierConditionInput =
  ci_var :: jsstr
  ci_op :: jsstr
  ci_value :: "cond_value option"

record VisualTier =
  vt_label :: jsstr
  vt_conditions :: "TierConditionInput list"
  vt_input_unit_cost :: jsnum
  vt_output_unit_cost :: jsnum
  vt_cache_mode :: jsstr
  vt_extra :: "string \<Rightarrow> jsnum option"

text \<open>
  \<open>vt_extra\<close> holds the optional costs by the name of their field: \<open>cache_read_unit_cost\<close> and
  the six others. A partial tier may lack every field.
\<close>

record PartialTier =
  pv_label :: "jsstr option"
  pv_conditions :: "TierConditionInput list option"
  pv_input_unit_cost :: "jsnum option"
  pv_output_unit_cost :: "jsnum option"
  pv_cache_mode :: "jsstr option"
  pv_extra :: "string \<Rightarrow> jsnum option"

definition extra_fields :: "string list" where
  "extra_fields = [''cache_read_unit_cost'', ''cache_create_unit_cost'', ''cache_create_1h_unit_cost'',
     ''image_unit_cost'', ''image_output_unit_cost'', ''audio_input_unit_cost'', ''audio_output_unit_cost'']"

text \<open>\<open>Number(x)\<close> and \<open>Number(x) || 0\<close> of an optional number.\<close>

definition opt_num :: "jsnum option \<Rightarrow> jsnum" where
  "opt_num x = (case x of None \<Rightarrow> NaN | Some v \<Rightarrow> v)"

definition opt_num_or_zero :: "jsnum option \<Rightarrow> jsnum" where
  "opt_num_or_zero x = num_or_zero (opt_num x)"

definition getTierCacheMode :: "PartialTier \<Rightarrow> jsstr" where
  "getTierCacheMode tier =
     (if pv_cache_mode tier = Some CACHE_MODE_TIMED then CACHE_MODE_TIMED
      else if pv_cache_mode tier = Some CACHE_MODE_GENERIC then CACHE_MODE_GENERIC
      else if js_lt (Fin 0) (opt_num (pv_extra tier ''cache_create_1h_unit_cost''))
      then CACHE_MODE_TIMED else CACHE_MODE_GENERIC)"

definition if_given :: "'a option \<Rightarrow> 'a \<Rightarrow> 'a" where
  "if_given x d = (case x of None \<Rightarrow> d | Some v \<Rightarrow> v)"

definition normalizeVisualTier :: "PartialTier \<Rightarrow> VisualTier" where
  "normalizeVisualTier tier =
     \<lparr>vt_label = if_given (pv_label tier) [],
      vt_conditions = if_given (pv_conditions tier) [],
      vt_input_unit_cost = if_given (pv_input_unit_cost tier) (opt_num_or_zero (pv_input_unit_cost tier)),
      vt_output_unit_cost = if_given (pv_output_unit_cost tier) (opt_num_or_zero (pv_output_unit_cost tier)),
      vt_cache_mode = if_given (pv_cache_mode tier) (getTierCacheMode tier),
      vt_extra = (\<lambda>f. if f \<in> set extra_fields then Some (opt_num_or_zero (pv_extra tier f)) else pv_extra tier f)\<rparr>"

definition partial_tier :: "VisualTier \<Rightarrow> PartialTier" where
  "partial_tier t = \<lparr>pv_label = Some (vt_label t), pv_conditions = Some (vt_conditions t),
     pv_input_unit_cost = Some (vt_input_unit_cost t), pv_output_unit_cost = Some (vt_output_unit_cost t),
     pv_cache_mode = Some (vt_cache_mode t), pv_extra = vt_extra t\<rparr>"

type_synonym VisualConfig = "VisualTier list"

definition createDefaultVisualConfig :: VisualConfig where
  "createDefaultVisualConfig = [normalizeVisualTier
     \<lparr>pv_label = Some (js ''base''), pv_conditions = Some [], pv_input_unit_cost = Some (Fin 0),
      pv_output_unit_cost = Some (Fin 0), pv_cache_mode = Some CACHE_MODE_GENERIC, pv_extra = (\<lambda>_. None)\<rparr>]"

definition normalizeVisualConfig :: "VisualConfig option \<Rightarrow> VisualConfig" where
  "normalizeVisualConfig config =
     (case config of
        None \<Rightarrow> createDefaultVisualConfig
      | Some tiers \<Rightarrow> if length tiers = 0 then createDefaultVisualConfig
          else map (\<lambda>t. normalizeVisualTier (partial_tier t)) tiers)"

fun cond_value_str :: "cond_value \<Rightarrow> jsstr" where
  "cond_value_str (CNum x) = num_str x"
| "cond_value_str (CText s) = s"

definition cond_complete :: "TierConditionInput \<Rightarrow> bool" where
  "cond_complete c \<longleftrightarrow> ci_var c \<noteq> [] \<and> ci_op c \<noteq> [] \<and> ci_value c \<noteq> None \<and> ci_value c \<noteq> Some (CText [])"

definition buildConditionStr :: "TierConditionInput list \<Rightarrow> jsstr" where
  "buildConditionStr conditions =
     join (js '' && '') (map (\<lambda>c. ci_var c @ js '' '' @ ci_op c @ js '' '' @ cond_value_str (the (ci_value c)))
       (filter cond_complete conditions))"

definition buildTierBodyExpr :: "VisualTier \<Rightarrow> jsstr" where
  "buildTierBodyExpr tier =
     join (js '' + '')
       ([js ''p * '' @ num_str (num_or_zero (vt_input_unit_cost tier)),
         js ''c * '' @ num_str (num_or_zero (vt_output_unit_cost tier))] @
        concat (map (\<lambda>(fld, exprVar).
            let v = opt_num_or_zero (vt_extra tier fld) in
            if v \<noteq> Fin 0 then [js exprVar @ js '' * '' @ num_str v] else [])
          BILLING_CACHE_VAR_MAP))"

definition tier_call :: "jsstr \<Rightarrow> VisualTier \<Rightarrow> jsstr" where
  "tier_call label tier = js ''tier(\"'' @ label @ js ''\", '' @ buildTierBodyExpr tier @ js '')''"

text \<open>The loop over several tiers; the last one has no condition.\<close>

fun tier_parts :: "nat \<Rightarrow> VisualTier list \<Rightarrow> jsstr list" where
  "tier_parts i [] = []"
| "tier_parts i (tier # tiers) =
     (let label = str_or (vt_label tier) (js ''tier_'' @ nat_str (i + 1));
          body = tier_call label tier;
          cond = buildConditionStr (vt_conditions tier) in
      (if tiers \<noteq> [] \<and> cond \<noteq> [] then cond @ js '' ? '' @ body else body) # tier_parts (i + 1) tiers)"

definition generateExprFromVisualConfig :: "VisualConfig option \<Rightarrow> jsstr" where
  "generateExprFromVisualConfig config =
     (case config of
        None \<Rightarrow> js ''p * 0 + c * 0''
      | Some [] \<Rightarrow> js ''p * 0 + c * 0''
      | Some [tier] \<Rightarrow>
          (let body = tier_call (str_or (vt_label tier) (js ''default'')) tier;
               cond = buildConditionStr (vt_conditions tier) in
           if cond \<noteq> [] then cond @ js '' ? '' @ body @ js '' : p * 0 + c * 0'' else body)
      | Some tiers \<Rightarrow> join (js '' : '') (tier_parts 0 tiers))"

text \<open>The pattern of a tier body; its groups start at \<open>n\<close>.\<close>

definition coeff_re :: "nat \<Rightarrow> string \<Rightarrow> regex" where
  "coeff_re n v = rseq [rlit v, ws_star, rlit ''*'', ws_star, RGroup n (rplus (RCls num_unit))]"

definition opt_cache_re :: "nat \<Rightarrow> string \<Rightarrow> regex" where
  "opt_cache_re n v = ropt (rseq [ws_star, rlit ''+'', ws_star, coeff_re n v])"

definition tier_body_re :: "nat \<Rightarrow> regex list" where
  "tier_body_re n =
     [coeff_re n ''p'', ws_star, rlit ''+'', ws_star, coeff_re (n + 1) ''c''] @
     map (\<lambda>(i, (fld, v)). opt_cache_re (n + 2 + i) v) (zip [0..<7] BILLING_CACHE_VAR_MAP)"

definition single_tier_re :: regex where
  "single_tier_re = rseq ([RBol, rlit ''tier(\"'', RGroup 1 (RStar (RCls not_quote)), rlit ''\",'', ws_star] @
     tier_body_re 2 @ [rlit '')'', REol])"

definition multi_tier_re :: regex where
  "multi_tier_re = rseq ([cond_prefix_re, rlit ''tier(\"'', RGroup 2 (RStar (RCls not_quote)), rlit ''\",'', ws_star] @
     tier_body_re 3 @ [rlit '')''])"

text \<open>The tier a match stands for; \<open>n\<close> is the group of the first coefficient.\<close>

definition matched_tier :: "nat \<Rightarrow> jsstr \<Rightarrow> TierConditionInput list \<Rightarrow> (nat \<Rightarrow> jsstr option) \<Rightarrow> VisualTier" where
  "matched_tier n label conds m = normalizeVisualTier
     \<lparr>pv_label = Some label, pv_conditions = Some conds,
      pv_input_unit_cost = Some (to_number (cap m n)), pv_output_unit_cost = Some (to_number (cap m (n + 1))),
      pv_cache_mode = None,
      pv_extra = map_of (concat (map (\<lambda>(i, (fld, v)). case m (n + 2 + i) of
          None \<Rightarrow> [] | Some val \<Rightarrow> [(fld, to_number val)]) (zip [0..<7] BILLING_CACHE_VAR_MAP)))\<rparr>"

definition parsed_conditions :: "jsstr \<Rightarrow> TierConditionInput list" where
  "parsed_conditions condStr =
     map (\<lambda>c. \<lparr>ci_var = tier_var c, ci_op = tier_op c, ci_value = Some (CNum (tier_value c))\<rparr>)
       (parse_tier_conditions condStr)"

definition tryParseVisualConfig :: "jsstr option \<Rightarrow> VisualConfig option" where
  "tryParseVisualConfig exprStr =
     (case exprStr of
        None \<Rightarrow> None
      | Some e \<Rightarrow> if e = [] then None
        else
          (let body = (case re_match version_re e of Some m \<Rightarrow> cap m 2 | None \<Rightarrow> e) in
           case re_match single_tier_re body of
             Some m \<Rightarrow> Some (normalizeVisualConfig (Some [matched_tier 2 (cap m 1) [] m]))
           | None \<Rightarrow>
               (let tiers = map (\<lambda>m. matched_tier 3 (cap m 2) (parsed_conditions (cap m 1)) m)
                      (find_all multi_tier_re None body) in
                if length tiers = 0 then None
                else
                  (let cfg = normalizeVisualConfig (Some tiers) in
                   if remove_ws (generateExprFromVisualConfig (Some cfg)) \<noteq> remove_ws body
                   then None else Some cfg))))"

section \<open>The estimator\<close>

definition ESTIMATOR_VARS :: "(string \<times> string) list" where
  "ESTIMATOR_VARS =
     [(''cr'', ''cacheReadTokens''), (''cc'', ''cacheCreateTokens''), (''cc1h'', ''cacheCreate1hTokens''),
      (''img'', ''imageTokens''), (''img_o'', ''imageOutputTokens''),
      (''ai'', ''audioInputTokens''), (''ao'', ''audioOutputTokens'')]"

record EvalResult =
  er_cost :: jsnum
  er_matchedTier :: jsstr
  er_error :: "jsstr option"

text \<open>
  \<open>run\<close> stands for \<open>new Function\<close> and the call of its result: from the expression and the
  numeric variables it gives the message of the exception, or the value and the name of the last
  \<open>tier\<close> call (empty when there was none).
\<close>

definition estimator_env :: "jsnum \<Rightarrow> jsnum \<Rightarrow> (string \<Rightarrow> jsnum) \<Rightarrow> (string \<times> jsnum) list" where
  "estimator_env promptTokens completionTokens extra =
     (let len = js_add (js_add (js_add promptTokens (num_or_zero (extra ''cacheReadTokens'')))
            (num_or_zero (extra ''cacheCreateTokens''))) (num_or_zero (extra ''cacheCreate1hTokens'')) in
      [(''p'', promptTokens), (''c'', completionTokens), (''len'', len)] @
      map (\<lambda>(v, stateKey). (v, num_or_zero (extra stateKey))) ESTIMATOR_VARS)"

definition evalExprLocally ::
    "(jsstr \<Rightarrow> (string \<times> jsnum) list \<Rightarrow> jsstr + jsnum \<times> jsstr) \<Rightarrow>
     jsstr \<Rightarrow> jsnum \<Rightarrow> jsnum \<Rightarrow> (string \<Rightarrow> jsnum) \<Rightarrow> EvalResult" where
  "evalExprLocally run exprStr promptTokens completionTokens extra =
     (if exprStr = [] \<or> trim exprStr = [] then \<lparr>er_cost = Fin 0, er_matchedTier = [], er_error = None\<rparr>
      else case run exprStr (estimator_env promptTokens completionTokens extra) of
        Inl message \<Rightarrow> \<lparr>er_cost = Fin 0, er_matchedTier = [], er_error = Some message\<rparr>
      | Inr (v, tier) \<Rightarrow> \<lparr>er_cost = num_or_zero v, er_matchedTier = tier, er_error = None\<rparr>)"

definition exprUsesExtraVars :: "jsstr \<Rightarrow> bool" where
  "exprUsesExtraVars exprStr \<longleftrightarrow>
     exprStr \<noteq> [] \<and>
     re_test (rseq [RWordB, RGroup 1 (ralt (map (\<lambda>(v, k). rlit v) ESTIMATOR_VARS)), RWordB]) exprStr"

end
