(* ===== verification/Billing_Tiers_Props.thy ===== *)
theory Billing_Tiers_Props
  imports Billing_Tiers
begin

text \<open>
  Properties of the tier parser and of the visual tier editor: the price fields of a parsed
  tier, the round trip of a tier body, normalisation, and the guard that keeps the visual
  editor from changing an expression it does not understand completely.
\<close>

section \<open>The registry\<close>

definition price_keys :: "string list" where
  "price_keys = [''p'', ''c'', ''cr'', ''cc'', ''cc1h'', ''img'', ''img_o'', ''ai'', ''ao'']"

lemma pricing_keys: "map bv_key BILLING_PRICING_VARS = price_keys"
  by (simp add: BILLING_PRICING_VARS_def BILLING_VARS_def price_var_def price_keys_def)

lemma key_fields: "map fst BILLING_VAR_KEY_TO_FIELD = price_keys"
  by (simp add: BILLING_VAR_KEY_TO_FIELD_def o_def flip: pricing_keys)

lemma cache_vars: "map snd BILLING_CACHE_VAR_MAP = drop 2 price_keys"
  "map fst BILLING_CACHE_VAR_MAP = extra_fields"
  by (simp_all add: BILLING_CACHE_VAR_MAP_def BILLING_EXTRA_VARS_def BILLING_VARS_def price_var_def
      price_keys_def extra_fields_def)

section \<open>Reading a tier body\<close>

lemma ws_then [re_step]:
  assumes "is_ws x" and "\<not> is_ws y" and "\<not> is_ws (of_char c)"
  shows "rmatch (RSeq ws_star (RSeq (rlit (c # w)) r)) (b, x # y # s, cs) =
    rmatch (RSeq (rlit (c # w)) r) (Some x, y # s, cs)"
  using assms unfolding ws_star_def by (auto simp: rmatch_seq_lit)

lemma ws_none:
  assumes "\<not> is_ws y"
  shows "rmatch (RSeq ws_star r) (b, y # s, cs) = rmatch r (b, y # s, cs)"
  using assms unfolding ws_star_def by simp

lemma num_unit_no_ws: "num_unit x \<Longrightarrow> \<not> is_ws x"
  by (auto simp: num_unit_def is_digit_def is_ws_def one_of_def js_def)

lemma ws_before_num [re_step]:
  assumes "is_ws x" and "s \<noteq> []" and "\<not> is_ws (hd s)"
  shows "rmatch (RSeq ws_star (RSeq (RGroup n (rplus (RCls num_unit))) r)) (b, x # s, cs) =
    rmatch (RSeq (RGroup n (rplus (RCls num_unit))) r) (Some x, s, cs)"
proof -
  obtain y s' where s: "s = y # s'" using assms(2) by (cases s) auto
  have "\<not> num_unit x" using assms(1) num_unit_no_ws by blast
  then show ?thesis using assms s unfolding ws_star_def by (simp add: rplus_def)
qed

definition printed :: "jsnum \<Rightarrow> bool" where
  "printed x \<longleftrightarrow> num_str x \<noteq> [] \<and> (\<forall>c \<in> set (num_str x). num_unit c) \<and> to_number (num_str x) = x"

lemma printed_nat: "n \<le> 2 ^ 53 \<Longrightarrow> printed (Fin (of_nat n))"
  using nat_str_digits [of n] by (auto simp: printed_def num_unit_def)

text \<open>A coefficient at the start of the input is the first match.\<close>

definition num_text :: "jsstr \<Rightarrow> bool" where
  "num_text n \<longleftrightarrow> n \<noteq> [] \<and> (\<forall>c \<in> set n. num_unit c)"

lemma first_num:
  assumes "num_text n" and "t = [] \<or> \<not> num_unit (hd t)"
  shows "first_match (RSeq (RGroup k (rplus (RCls num_unit))) REps) (b, n @ t, cs) =
    Some (prev_after b n, t, cs(k \<mapsto> n))"
proof -
  have "first_match (RGroup k (rplus (RCls num_unit))) (b, n @ t, cs) = Some (prev_after b n, t, cs(k \<mapsto> n))"
    using assms by (intro first_match_group first_match_plus_cls) (auto simp: num_text_def)
  then show ?thesis by (rule first_match_seq) simp
qed

declare rmatch.simps(3,6) [simp del] One_nat_def [simp del]

lemma word_units [simp]:
  "is_ws 32" "\<not> is_ws 42" "\<not> is_word 32" "\<not> is_word 43" "\<not> num_unit 32"
  by (simp_all add: is_ws_def is_word_def is_digit_def num_unit_def one_of_def js_lit)

lemma rmatch_wordb [re_step]:
  "rmatch (RSeq RWordB r) (b, s, cs) = (if word_boundary b s then rmatch r (b, s, cs) else [])"
  by (simp add: rmatch.simps(3))

lemma letters_no_ws: "49 \<le> c \<Longrightarrow> c \<le> 122 \<Longrightarrow> \<not> is_ws c"
  by (auto simp: is_ws_def)

lemma key_cases:
  assumes "v \<in> set price_keys"
  obtains "v = ''p''" | "v = ''c''" | "v = ''cr''" | "v = ''cc''" | "v = ''cc1h''" | "v = ''img''" | "v = ''img_o''"
    | "v = ''ai''" | "v = ''ao''"
  using assms by (auto simp: price_keys_def)

lemma key_regex:
  assumes "v \<in> set price_keys" and "num_text n"
  shows "rmatch (RSeq (RGroup 1 (ralt (map (\<lambda>v. rlit (bv_key v)) BILLING_PRICING_VARS)))
      (RSeq ws_star (RSeq (rlit ''*'') (RSeq ws_star (RSeq (RGroup 2 (rplus (RCls num_unit))) REps)))))
      (b, js v @ js '' * '' @ n @ t, cs) =
    rmatch (RSeq (RGroup 2 (rplus (RCls num_unit))) REps) (Some 32, n @ t, cs(1 \<mapsto> js v))"
proof -
  have alts: "map (\<lambda>v. rlit (bv_key v)) BILLING_PRICING_VARS = map rlit price_keys"
    by (simp flip: pricing_keys)
  have n: "n @ t \<noteq> []" "\<not> is_ws (hd (n @ t))"
    using assms(2) num_unit_no_ws by (auto simp: num_text_def hd_append)
  show ?thesis
    using assms(1) n unfolding alts
    by (elim key_cases) (simp_all add: price_keys_def re_alts js_lit re_step ws_none letters_no_ws)
qed

lemma key_start: "v \<in> set price_keys \<Longrightarrow> \<exists>c w. js v = c # w \<and> is_word c"
  by (auto simp: price_keys_def js_lit is_word_def)

lemma coeff_search:
  assumes "v \<in> set price_keys" and "num_text n" and "t = [] \<or> hd t = 32" and "b = None \<or> b = Some 32"
  shows "rsearch BILLING_VAR_REGEX b (js v @ js '' * '' @ n @ t) =
    Some (js v @ js '' * '' @ n @ t, (Some (last n), t, no_caps(1 \<mapsto> js v, 2 \<mapsto> n)))"
proof -
  have "first_match (RSeq (RGroup 2 (rplus (RCls num_unit))) REps) (Some 32, n @ t, no_caps(1 \<mapsto> js v)) =
      Some (Some (last n), t, no_caps(1 \<mapsto> js v, 2 \<mapsto> n))"
    using first_num [OF assms(2), of t 2 "Some 32"] assms(2,3) by (auto simp: prev_after_def num_text_def)
  moreover have "word_boundary b (js v @ js '' * '' @ n @ t)"
    using key_start [OF assms(1)] assms(4) by (auto simp: word_boundary_def)
  ultimately have "first_match BILLING_VAR_REGEX (b, js v @ js '' * '' @ n @ t, no_caps) =
      Some (Some (last n), t, no_caps(1 \<mapsto> js v, 2 \<mapsto> n))"
    using key_regex [OF assms(1,2)] by (simp add: BILLING_VAR_REGEX_def rseq_def first_match_def re_step)
  then show ?thesis by (subst rsearch.simps) simp
qed

lemma no_key_start:
  assumes "s = [] \<or> hd s = 32 \<or> hd s = 43"
  shows "first_match BILLING_VAR_REGEX (b, s, no_caps) = None"
proof -
  have alts: "map (\<lambda>v. rlit (bv_key v)) BILLING_PRICING_VARS = map rlit price_keys"
    by (simp flip: pricing_keys)
  show ?thesis
    using assms unfolding BILLING_VAR_REGEX_def rseq_def alts first_match_None
    by (cases s) (auto simp: price_keys_def re_alts js_lit re_step)
qed

lemma skip_plus: "rsearch BILLING_VAR_REGEX b (32 # 43 # 32 # s) = rsearch BILLING_VAR_REGEX (Some 32) s"
  by (simp add: rsearch.simps [of _ _ "32 # _"] rsearch.simps [of _ _ "43 # _"] no_key_start)

text \<open>The sum of the coefficients \<open>v * n\<close> is read as the list of its terms.\<close>

definition term_text :: "string \<times> jsstr \<Rightarrow> jsstr" where
  "term_text p = js (fst p) @ js '' * '' @ snd p"

definition term_caps :: "string \<times> jsstr \<Rightarrow> nat \<Rightarrow> jsstr option" where
  "term_caps p = no_caps(1 \<mapsto> js (fst p), 2 \<mapsto> snd p)"

definition term_ok :: "string \<times> jsstr \<Rightarrow> bool" where
  "term_ok p \<longleftrightarrow> fst p \<in> set price_keys \<and> num_text (snd p)"

lemma find_all_skip_plus:
  assumes "term_ok p" and "t = [] \<or> hd t = 32"
  shows "find_all BILLING_VAR_REGEX b (32 # 43 # 32 # term_text p @ t) =
    find_all BILLING_VAR_REGEX (Some 32) (term_text p @ t)"
  using assms coeff_search [of "fst p" "snd p" t "Some 32"]
  by (subst (1 2) find_all.simps) (simp add: skip_plus term_text_def term_ok_def)

lemma find_all_terms:
  assumes "\<forall>p \<in> set ps. term_ok p" and "b = None \<or> b = Some 32" and "ps \<noteq> []"
  shows "find_all BILLING_VAR_REGEX b (join (js '' + '') (map term_text ps)) = map term_caps ps"
  using assms
proof (induction ps arbitrary: b rule: induct_list012)
  case (2 p)
  have "rsearch BILLING_VAR_REGEX b' [] = None" for b'
    by (simp add: rsearch.simps no_key_start)
  then have "find_all BILLING_VAR_REGEX b' [] = []" for b' by (simp add: find_all.simps)
  with 2 coeff_search [of "fst p" "snd p" "[]" b] show ?case
    by (subst find_all.simps) (simp add: term_text_def term_caps_def term_ok_def)
next
  case (3 p q ps)
  let ?rest = "join (js '' + '') (map term_text (q # ps))"
  obtain t where rest: "?rest = term_text q @ t" and t: "t = [] \<or> hd t = 32"
    by (cases ps) (auto simp: js_lit)
  have len: "length (32 # 43 # 32 # ?rest) < length (term_text p @ 32 # 43 # 32 # ?rest)"
    by (simp add: term_text_def)
  have "find_all BILLING_VAR_REGEX b (term_text p @ 32 # 43 # 32 # ?rest) =
      term_caps p # find_all BILLING_VAR_REGEX (Some (last (snd p))) (32 # 43 # 32 # ?rest)"
    using 3(3,4) coeff_search [of "fst p" "snd p" "32 # 43 # 32 # ?rest" b] len
    by (subst find_all.simps) (simp add: term_text_def term_caps_def term_ok_def)
  also have "find_all BILLING_VAR_REGEX (Some (last (snd p))) (32 # 43 # 32 # ?rest) =
      find_all BILLING_VAR_REGEX (Some 32) ?rest"
    using 3(3) t unfolding rest by (intro find_all_skip_plus) auto
  also have "\<dots> = map term_caps (q # ps)" using 3(3) by (intro "3.IH"(2)) auto
  finally show ?case by (simp add: js_lit)
qed simp

lemma first_coeffs_terms:
  "distinct (map fst ps) \<Longrightarrow> (\<forall>p \<in> set ps. js (fst p) \<notin> set (map fst acc)) \<Longrightarrow>
   first_coeffs (map term_caps ps) acc = acc @ map (\<lambda>p. (js (fst p), to_number (snd p))) ps"
proof (induction ps arbitrary: acc)
  case (Cons p ps)
  have "fst q \<noteq> fst p" if "q \<in> set ps" for q
    using Cons.prems(1) that by (metis distinct.simps(2) image_eqI list.set_map list.simps(9))
  with Cons.prems have "\<forall>q \<in> set ps. js (fst q) \<notin> set (map fst (acc @ [(js (fst p), to_number (snd p))]))"
    by (simp add: inj_js)
  from Cons.IH [OF _ this] Cons.prems show ?case by (simp add: term_caps_def cap_def)
qed simp

lemma coeff_lookup:
  "distinct (map fst ps) \<Longrightarrow>
   coeff_or_zero (map (\<lambda>p. (js (fst p), to_number (snd p))) ps) (js v) =
   (case map_of ps v of None \<Rightarrow> Fin 0 | Some n \<Rightarrow> num_or_zero (to_number n))"
  by (induction ps) (auto simp: coeff_or_zero_def inj_js)

text \<open>The prices of a tier by the key of their variable, and the terms the editor writes.\<close>

definition tier_prices :: "VisualTier \<Rightarrow> (string \<times> jsnum) list" where
  "tier_prices t = (''p'', num_or_zero (vt_input_unit_cost t)) # (''c'', num_or_zero (vt_output_unit_cost t)) #
     map (\<lambda>(fld, v). (v, opt_num_or_zero (vt_extra t fld))) BILLING_CACHE_VAR_MAP"

definition written :: "string \<times> jsnum \<Rightarrow> bool" where
  "written p \<longleftrightarrow> fst p \<in> {''p'', ''c''} \<or> snd p \<noteq> Fin 0"

definition tier_terms :: "VisualTier \<Rightarrow> (string \<times> jsstr) list" where
  "tier_terms t = map (\<lambda>(v, x). (v, num_str x)) (filter written (tier_prices t))"

lemma tier_prices_keys: "map fst (tier_prices t) = price_keys"
  by (simp add: tier_prices_def o_def split_def cache_vars price_keys_def)

lemma num_or_zero_idem [simp]: "num_or_zero (num_or_zero x) = num_or_zero x"
  by (simp add: num_or_zero_def num_truthy_def)

lemma build_body_terms: "buildTierBodyExpr t = join (js '' + '') (map term_text (tier_terms t))"
proof -
  have one: "(let v = x in if v \<noteq> Fin 0 then [js e @ js '' * '' @ num_str v] else []) =
      map term_text (map (\<lambda>(v, x). (v, num_str x)) (filter written [(e, x)]))"
    if "e \<notin> {''p'', ''c''}" for e x
    using that by (auto simp: written_def term_text_def)
  have "concat (map (\<lambda>(fld, exprVar). let v = opt_num_or_zero (vt_extra t fld) in
      if v \<noteq> Fin 0 then [js exprVar @ js '' * '' @ num_str v] else []) BILLING_CACHE_VAR_MAP) =
    map term_text (map (\<lambda>(v, x). (v, num_str x)) (filter written
      (map (\<lambda>(fld, v). (v, opt_num_or_zero (vt_extra t fld))) BILLING_CACHE_VAR_MAP)))"
    by (simp add: BILLING_CACHE_VAR_MAP_def BILLING_EXTRA_VARS_def BILLING_VARS_def price_var_def one
        written_def term_text_def)
  then show ?thesis
    by (simp add: buildTierBodyExpr_def tier_terms_def tier_prices_def written_def term_text_def js_lit)
qed

lemma tier_terms_ok:
  assumes "\<forall>p \<in> set (tier_prices t). printed (snd p)"
  shows "\<forall>p \<in> set (tier_terms t). term_ok p" and "distinct (map fst (tier_terms t))"
proof -
  have "fst p \<in> set price_keys" if "p \<in> set (tier_prices t)" for p
    using that tier_prices_keys [of t] by (metis list.set_map image_eqI)
  with assms show "\<forall>p \<in> set (tier_terms t). term_ok p"
    by (auto simp: tier_terms_def term_ok_def num_text_def printed_def)
  have "distinct (map fst (filter written (tier_prices t)))"
    using tier_prices_keys [of t] by (intro distinct_map_filter) (simp add: price_keys_def)
  then show "distinct (map fst (tier_terms t))" by (simp add: tier_terms_def o_def split_def)
qed

lemma tier_terms_lookup:
  assumes "(v, x) \<in> set (tier_prices t)" and "\<forall>p \<in> set (tier_prices t). printed (snd p)"
  shows "(case map_of (tier_terms t) v of None \<Rightarrow> Fin 0 | Some n \<Rightarrow> num_or_zero (to_number n)) = num_or_zero x"
proof (cases "written (v, x)")
  case True
  then have "(v, num_str x) \<in> set (tier_terms t)" using assms(1) by (force simp: tier_terms_def)
  then have "map_of (tier_terms t) v = Some (num_str x)"
    using tier_terms_ok(2) [OF assms(2)] by simp
  with assms show ?thesis by (auto simp: printed_def)
next
  case False
  have d: "distinct (map fst (tier_prices t))" by (simp add: tier_prices_keys price_keys_def)
  have "v \<notin> set (map fst (tier_terms t))"
  proof
    assume "v \<in> set (map fst (tier_terms t))"
    then obtain y where y: "(v, y) \<in> set (tier_prices t)" "written (v, y)" by (auto simp: tier_terms_def)
    with d assms(1) have "y = x" by (meson eq_key_imp_eq_value)
    with y False show False by simp
  qed
  then have "map_of (tier_terms t) v = None" by (simp add: map_of_eq_None_iff)
  with False show ?thesis by (simp add: written_def num_or_zero_def num_truthy_def)
qed

lemma parse_built_body:
  assumes "\<forall>p \<in> set (tier_prices t). printed (snd p)"
  shows "parseTierBody (buildTierBodyExpr t) =
    map2 (\<lambda>(k, fld) (v, x). (fld, x)) BILLING_VAR_KEY_TO_FIELD (tier_prices t)"
proof -
  have "tier_terms t \<noteq> []" by (simp add: tier_terms_def tier_prices_def written_def)
  with find_all_terms [of "tier_terms t" None] tier_terms_ok [OF assms]
  have all: "find_all BILLING_VAR_REGEX None (buildTierBodyExpr t) = map term_caps (tier_terms t)"
    by (simp add: build_body_terms)
  have "coeff_or_zero (first_coeffs (map term_caps (tier_terms t)) []) (js v) = num_or_zero x"
    if "(v, x) \<in> set (tier_prices t)" for v x
    using first_coeffs_terms [of "tier_terms t" "[]"] coeff_lookup [of "tier_terms t" v]
      tier_terms_ok(2) [OF assms] tier_terms_lookup [OF that assms] by simp
  then have look: "coeff_or_zero (first_coeffs (map term_caps (tier_terms t)) []) (js (fst p)) = snd p"
    if "p \<in> set (tier_prices t)" for p
    using that by (cases p) (auto simp: tier_prices_def opt_num_or_zero_def)
  have "map (\<lambda>(k, fld). (fld, f (js k))) KF = map2 (\<lambda>(k, fld) (v, x). (fld, x)) KF TP"
    if "map fst KF = map fst TP" "\<forall>p \<in> set TP. f (js (fst p)) = snd p"
    for f :: "jsstr \<Rightarrow> jsnum" and KF :: "(string \<times> string) list" and TP :: "(string \<times> jsnum) list"
    using that by (induction KF TP rule: list_induct2') auto
  then show ?thesis
    using look by (simp add: parseTierBody_def all key_fields tier_prices_keys)
qed

section \<open>Properties\<close>

text \<open>C18: The prices of a tier are read back from the expression the editor writes for it: the
  parser of the pricing page gives every price field the price of the tier, also those that
  the editor leaves out because they are zero.\<close>

theorem tier_body_roundtrip:
  assumes "\<forall>p \<in> set (tier_prices t). printed (snd p)"
  shows "parseTierBody (buildTierBodyExpr t) =
    map2 (\<lambda>(k, fld) (v, x). (fld, x)) BILLING_VAR_KEY_TO_FIELD (tier_prices t)"
  by (rule parse_built_body [OF assms])

definition sample_tier :: VisualTier where
  "sample_tier = \<lparr>vt_label = js ''base'', vt_conditions = [], vt_input_unit_cost = Fin 3,
     vt_output_unit_cost = Fin 15, vt_cache_mode = CACHE_MODE_GENERIC,
     vt_extra = [''cache_read_unit_cost'' \<mapsto> Fin 2, ''image_unit_cost'' \<mapsto> NaN]\<rparr>"

lemma sample_tier_prices:
  "map snd (tier_prices sample_tier) = [Fin 3, Fin 15, Fin 2, Fin 0, Fin 0, Fin 0, Fin 0, Fin 0, Fin 0]"
  by (simp add: tier_prices_def sample_tier_def BILLING_CACHE_VAR_MAP_def BILLING_EXTRA_VARS_def BILLING_VARS_def
      price_var_def opt_num_or_zero_def opt_num_def num_or_zero_def num_truthy_def)

lemma sample_printed: "\<forall>p \<in> set (tier_prices sample_tier). printed (snd p)"
proof -
  have "\<forall>x \<in> set [Fin 3, Fin 15, Fin 2, Fin 0, Fin 0, Fin 0, Fin 0, Fin 0, Fin 0]. printed x"
    using printed_nat [of 3] printed_nat [of 15] printed_nat [of 2] printed_nat [of 0] by simp
  then show ?thesis unfolding sample_tier_prices [symmetric] by simp
qed

lemma tier_body_roundtrip_witness:
  "list_all (\<lambda>p. printed (snd p)) (tier_prices sample_tier) \<and>
   map snd (parseTierBody (buildTierBodyExpr sample_tier)) =
     [Fin 3, Fin 15, Fin 2, Fin 0, Fin 0, Fin 0, Fin 0, Fin 0, Fin 0]"
proof -
  have "map snd (map2 (\<lambda>(k, fld) (v, x). (fld, x)) BILLING_VAR_KEY_TO_FIELD (tier_prices sample_tier)) =
      map snd (tier_prices sample_tier)"
    using arg_cong [OF key_fields, of length] arg_cong [OF tier_prices_keys [of sample_tier], of length]
    by (intro nth_equalityI) (auto simp: split_def)
  then show ?thesis
    using tier_body_roundtrip [OF sample_printed] sample_printed sample_tier_prices by (simp add: list_all_iff)
qed

lemma first_coeffs_lookup:
  "map_of (first_coeffs (map term_caps ps) acc) (js v) =
   (case map_of acc (js v) of Some x \<Rightarrow> Some x | None \<Rightarrow> map_option to_number (map_of ps v))"
proof (induction ps arbitrary: acc)
  case (Cons p ps)
  have "js (fst p) \<in> set (map fst acc) \<longleftrightarrow> map_of acc (js (fst p)) \<noteq> None" by (simp add: map_of_eq_None_iff)
  with Cons.IH show ?case
    by (cases "fst p = v") (auto simp: term_caps_def cap_def inj_js map_add_def split: option.splits)
qed (simp split: option.split)

text \<open>C24: A sum of terms \<open>v * n\<close>, in any order and with any repetitions, is read as the price of every
  variable: the field of a variable gets the number of its first term, zero if there is none or if
  the text of the number is none.\<close>

theorem tier_body_sum:
  assumes "ps \<noteq> []" and "\<forall>p \<in> set ps. fst p \<in> set price_keys \<and> num_text (snd p)"
  shows "parseTierBody (join (js '' + '') (map (\<lambda>p. js (fst p) @ js '' * '' @ snd p) ps)) =
    map (\<lambda>(v, fld). (fld, case map_of ps v of None \<Rightarrow> Fin 0 | Some n \<Rightarrow> num_or_zero (to_number n)))
      BILLING_VAR_KEY_TO_FIELD"
proof -
  have "\<forall>p \<in> set ps. term_ok p" using assms(2) by (simp add: term_ok_def)
  then have "find_all BILLING_VAR_REGEX None (join (js '' + '') (map term_text ps)) = map term_caps ps"
    using assms(1) by (intro find_all_terms) simp_all
  moreover have "(\<lambda>p. js (fst p) @ js '' * '' @ snd p) = term_text" by (simp add: fun_eq_iff term_text_def)
  ultimately show ?thesis
    by (auto simp: parseTierBody_def coeff_or_zero_def first_coeffs_lookup split: option.split)
qed

theorem tier_body_sum_witness:
  "map (\<lambda>p. snd p) (take 3 (parseTierBody (js ''c * 8 + p * 3 + c * 5''))) = [Fin 3, Fin 8, Fin 0]"
proof -
  let ?ps = "[(''c'', js ''8''), (''p'', js ''3''), (''c'', js ''5'')]"
  have e: "join (js '' + '') (map (\<lambda>p. js (fst p) @ js '' * '' @ snd p) ?ps) = js ''c * 8 + p * 3 + c * 5''" by code_simp
  have "\<forall>p \<in> set ?ps. fst p \<in> set price_keys \<and> num_text (snd p)" by code_simp
  from tier_body_sum [OF _ this] have "parseTierBody (js ''c * 8 + p * 3 + c * 5'') =
      map (\<lambda>(v, fld). (fld, case map_of ?ps v of None \<Rightarrow> Fin 0 | Some n \<Rightarrow> num_or_zero (to_number n))) BILLING_VAR_KEY_TO_FIELD"
    unfolding e by simp
  moreover have "map snd (take 3 (map (\<lambda>(v, fld). (fld, case map_of ?ps v of None \<Rightarrow> Fin 0 | Some n \<Rightarrow> num_or_zero (to_number n))) BILLING_VAR_KEY_TO_FIELD)) =
      [Fin 3, Fin 8, Fin 0]" by code_simp
  ultimately show ?thesis by simp
qed

text \<open>The visual editor accepts an expression that is not a single tier only when the configuration it
  shows generates that expression again, up to white space.\<close>

lemma visual_config_lossless:
  assumes "tryParseVisualConfig (Some e) = Some cfg"
    and "re_match single_tier_re (case re_match version_re e of Some m \<Rightarrow> cap m 2 | None \<Rightarrow> e) = None"
  shows "remove_ws (generateExprFromVisualConfig (Some cfg)) =
      remove_ws (case re_match version_re e of Some m \<Rightarrow> cap m 2 | None \<Rightarrow> e) \<and> cfg \<noteq> []"
  using assms
  by (auto simp: tryParseVisualConfig_def Let_def normalizeVisualConfig_def split: if_splits)

text \<open>A single tier escapes this guard: for a tier with an empty label the visual editor
  accepts the expression but generates another one, with the label \<open>default\<close>.\<close>

theorem single_tier_unguarded:
  "map_option (\<lambda>cfg. remove_ws (generateExprFromVisualConfig (Some cfg)))
     (tryParseVisualConfig (Some (js ''tier(\"\",p*1+c*1)''))) = Some (js ''tier(\"default\",p*1+c*1)'')"
  by code_simp

lemma normalize_tier_idem: "normalizeVisualTier (partial_tier (normalizeVisualTier t)) = normalizeVisualTier t"
  by (auto simp: normalizeVisualTier_def partial_tier_def if_given_def opt_num_or_zero_def opt_num_def)

lemma normalize_config_tiers: "\<exists>ts. ts \<noteq> [] \<and> normalizeVisualConfig c = map normalizeVisualTier ts"
proof (cases "c = None \<or> c = Some []")
  case True
  then have "normalizeVisualConfig c = createDefaultVisualConfig" by (auto simp: normalizeVisualConfig_def)
  then show ?thesis unfolding createDefaultVisualConfig_def by (metis list.simps(3,8,9))
next
  case False
  then obtain ts where "c = Some ts" "ts \<noteq> []" by auto
  then have "normalizeVisualConfig c = map normalizeVisualTier (map partial_tier ts)"
    by (simp add: normalizeVisualConfig_def)
  with \<open>ts \<noteq> []\<close> show ?thesis by blast
qed

text \<open>Normalising is idempotent, leaves at least one tier, and gives every tier each optional cost as a
  number that is not \<open>NaN\<close>.\<close>

lemma normalize_config_stable:
  "normalizeVisualConfig (Some (normalizeVisualConfig c)) = normalizeVisualConfig c \<and>
   normalizeVisualConfig c \<noteq> [] \<and>
   (\<forall>t \<in> set (normalizeVisualConfig c). \<forall>f \<in> set extra_fields.
      \<exists>x. vt_extra t f = Some x \<and> x \<noteq> NaN \<and> x \<noteq> NegZero)"
proof -
  obtain ts where ts: "ts \<noteq> []" "normalizeVisualConfig c = map normalizeVisualTier ts"
    using normalize_config_tiers by blast
  then have "normalizeVisualConfig (Some (map normalizeVisualTier ts)) = map normalizeVisualTier ts"
    by (simp add: normalizeVisualConfig_def normalize_tier_idem o_def)
  moreover have "\<forall>f \<in> set extra_fields. \<exists>x. vt_extra (normalizeVisualTier t) f = Some x \<and> x \<noteq> NaN \<and> x \<noteq> NegZero" for t
    by (auto simp: normalizeVisualTier_def opt_num_or_zero_def num_or_zero_def num_truthy_def)
  ultimately show ?thesis using ts by auto
qed

text \<open>The estimator never fails: an exception becomes an error with cost zero, a result is never \<open>NaN\<close>.\<close>

lemma estimator_total:
  "er_cost (evalExprLocally run e p c x) \<noteq> NaN \<and>
   (er_error (evalExprLocally run e p c x) \<noteq> None \<longrightarrow>
      er_cost (evalExprLocally run e p c x) = Fin 0 \<and> er_matchedTier (evalExprLocally run e p c x) = []) \<and>
   (trim e = [] \<longrightarrow> evalExprLocally run e p c x = \<lparr>er_cost = Fin 0, er_matchedTier = [], er_error = None\<rparr>)"
  by (auto simp: evalExprLocally_def num_or_zero_def num_truthy_def split: sum.splits)

end
