(* ===== verification/Advanced_Custom.thy ===== *)
theory Advanced_Custom
  imports Js_Prelude
begin

text \<open>
  Advanced custom channels (\<open>src/web/default/src/features/channels/lib/advanced-custom.ts\<close>):
  routes from an incoming path to an upstream path with a converter, a list of model rules and
  an authentication, the tables the editor offers, normalisation and validation. The URL parser
  of the platform is the argument \<open>url\<close>: host and protocol of a valid URL.
\<close>

section \<open>Types and tables\<close>

record RouteAuth =
  auth_type :: "jsstr option"
  auth_name :: "jsstr option"
  auth_value :: "jsstr option"

record Route =
  rt_incoming_path :: "jsstr option"
  rt_upstream_path :: "jsstr option"
  rt_converter :: "jsstr option"
  rt_models :: "jsstr list option"
  rt_auth :: "RouteAuth option"

text \<open>A configuration is its optional list of routes.\<close>

record AdvancedCustomConfig =
  advanced_routes :: "Route list option"

record ConverterOption =
  cv_value :: jsstr
  cv_label :: string
  cv_triggerLabel :: string

definition ADVANCED_CUSTOM_CONVERTER_OPTIONS :: "ConverterOption list" where
  "ADVANCED_CUSTOM_CONVERTER_OPTIONS =
     [\<lparr>cv_value = js ''none'',
        cv_label = ''Native forwarding'', cv_triggerLabel = ''Native forwarding''\<rparr>,
      \<lparr>cv_value = js ''anthropic_messages_to_openai_chat_completions'',
        cv_label = ''Anthropic Messages to OpenAI Chat'', cv_triggerLabel = ''To OpenAI Chat''\<rparr>,
      \<lparr>cv_value = js ''openai_chat_completions_to_anthropic_messages'',
        cv_label = ''OpenAI Chat to Anthropic Messages'', cv_triggerLabel = ''To Anthropic Messages''\<rparr>,
      \<lparr>cv_value = js ''openai_chat_completions_to_openai_responses'',
        cv_label = ''OpenAI Chat to OpenAI Responses'', cv_triggerLabel = ''To OpenAI Responses''\<rparr>,
      \<lparr>cv_value = js ''openai_responses_to_openai_chat_completions'',
        cv_label = ''OpenAI Responses to OpenAI Chat'', cv_triggerLabel = ''To OpenAI Chat''\<rparr>,
      \<lparr>cv_value = js ''openai_responses_to_gemini_generate_content'',
        cv_label = ''OpenAI Responses to Gemini Generate Content'', cv_triggerLabel = ''To Gemini Generate Content''\<rparr>,
      \<lparr>cv_value = js ''gemini_generate_content_to_openai_chat_completions'',
        cv_label = ''Gemini Generate Content to OpenAI Chat'', cv_triggerLabel = ''To OpenAI Chat''\<rparr>,
      \<lparr>cv_value = js ''openai_chat_completions_to_gemini_generate_content'',
        cv_label = ''OpenAI Chat to Gemini Generate Content'', cv_triggerLabel = ''To Gemini Generate Content''\<rparr>]"

definition ADVANCED_CUSTOM_AUTH_MODE_OPTIONS :: "(jsstr \<times> string) list" where
  "ADVANCED_CUSTOM_AUTH_MODE_OPTIONS =
     [(js ''default'', ''Default Bearer''), (js ''none'', ''No Auth''), (js ''header'', ''Header''),
      (js ''query'', ''Query'')]"

definition ADVANCED_CUSTOM_INCOMING_PATH_OPTIONS :: "(jsstr \<times> jsstr) list" where
  "ADVANCED_CUSTOM_INCOMING_PATH_OPTIONS =
     [(js ''/v1/chat/completions'', js ''OpenAI Chat''),
      (js ''/v1/responses'', js ''OpenAI Responses''),
      (js ''/v1/responses/compact'', js ''OpenAI Responses Compact''),
      (js ''/v1/embeddings'', js ''OpenAI Embeddings''),
      (js ''/v1/images/generations'', js ''OpenAI Image Generations''),
      (js ''/v1/images/edits'', js ''OpenAI Image Edits''),
      (js ''/v1/completions'', js ''OpenAI Completions''),
      (js ''/v1/audio/speech'', js ''OpenAI Audio Speech''),
      (js ''/v1/audio/transcriptions'', js ''OpenAI Audio Transcriptions''),
      (js ''/v1/audio/translations'', js ''OpenAI Audio Translations''),
      (js ''/v1/rerank'', js ''OpenAI Rerank''),
      (js ''/v1/realtime'', js ''OpenAI Realtime''),
      (js ''/v1/messages'', js ''Claude Messages''),
      (js ''/v1beta/models/{model}:generateContent'', js ''Gemini Generate Content''),
      (js ''/v1beta/models/{model}:embedContent'', js ''Gemini Embed Content''),
      (js ''/v1beta/models/{model}:batchEmbedContents'', js ''Gemini Batch Embed Contents'')]"

definition ADVANCED_CUSTOM_ROUTE_SUMMARY_LABELS :: "(jsstr \<times> jsstr) list" where
  "ADVANCED_CUSTOM_ROUTE_SUMMARY_LABELS = [(js ''/v1/chat/completions'', js ''OpenAI Chat'')]"

definition ADVANCED_CUSTOM_MODEL_REGEX_PREFIX :: jsstr where
  "ADVANCED_CUSTOM_MODEL_REGEX_PREFIX = js ''re:''"

definition openAIChatPath :: jsstr where
  "openAIChatPath = js ''/v1/chat/completions''"

definition openAIResponsesPath :: jsstr where
  "openAIResponsesPath = js ''/v1/responses''"

definition claudeMessagesPath :: jsstr where
  "claudeMessagesPath = js ''/v1/messages''"

definition geminiGenerateContentPath :: jsstr where
  "geminiGenerateContentPath = js ''/v1beta/models/{model}:generateContent''"

definition bearerHeaderAuth :: RouteAuth where
  "bearerHeaderAuth = \<lparr>auth_type = Some (js ''header''), auth_name = Some (js ''Authorization''),
     auth_value = Some (js ''Bearer {api_key}'')\<rparr>"

definition apiKeyHeaderAuth :: RouteAuth where
  "apiKeyHeaderAuth = \<lparr>auth_type = Some (js ''header''), auth_name = Some (js ''x-api-key''),
     auth_value = Some (js ''{api_key}'')\<rparr>"

definition geminiQueryAuth :: RouteAuth where
  "geminiQueryAuth = \<lparr>auth_type = Some (js ''query''), auth_name = Some (js ''key''),
     auth_value = Some (js ''{api_key}'')\<rparr>"

definition full_route :: "string \<Rightarrow> string \<Rightarrow> string \<Rightarrow> RouteAuth option \<Rightarrow> Route" where
  "full_route incoming upstream converter auth =
     \<lparr>rt_incoming_path = Some (js incoming), rt_upstream_path = Some (js upstream),
      rt_converter = Some (js converter), rt_models = None, rt_auth = auth\<rparr>"

record TemplateOption =
  tpl_value :: jsstr
  tpl_label :: string
  tpl_config :: AdvancedCustomConfig

definition ADVANCED_CUSTOM_TEMPLATE_OPTIONS :: "TemplateOption list" where
  "ADVANCED_CUSTOM_TEMPLATE_OPTIONS =
     [\<lparr>tpl_value = js ''official_openai_chat'', tpl_label = ''Official OpenAI Chat'',
        tpl_config = \<lparr>advanced_routes = Some
         [full_route ''/v1/chat/completions'' ''/v1/chat/completions'' ''none''
            (Some bearerHeaderAuth)]\<rparr>\<rparr>,
      \<lparr>tpl_value = js ''official_openai_responses'', tpl_label = ''Official OpenAI Responses'',
        tpl_config = \<lparr>advanced_routes = Some
         [full_route ''/v1/responses'' ''/v1/responses'' ''none''
            (Some bearerHeaderAuth)]\<rparr>\<rparr>,
      \<lparr>tpl_value = js ''official_openai_embeddings'', tpl_label = ''Official OpenAI Embeddings'',
        tpl_config = \<lparr>advanced_routes = Some
         [full_route ''/v1/embeddings'' ''/v1/embeddings'' ''none''
            (Some bearerHeaderAuth)]\<rparr>\<rparr>,
      \<lparr>tpl_value = js ''official_openai_images'', tpl_label = ''Official OpenAI Images'',
        tpl_config = \<lparr>advanced_routes = Some
         [full_route ''/v1/images/generations'' ''/v1/images/generations'' ''none''
            (Some bearerHeaderAuth),
          full_route ''/v1/images/edits'' ''/v1/images/edits'' ''none''
            (Some bearerHeaderAuth)]\<rparr>\<rparr>,
      \<lparr>tpl_value = js ''official_claude_messages'', tpl_label = ''Official Claude Messages'',
        tpl_config = \<lparr>advanced_routes = Some
         [full_route ''/v1/messages'' ''/v1/messages'' ''none''
            (Some apiKeyHeaderAuth)]\<rparr>\<rparr>,
      \<lparr>tpl_value = js ''official_gemini_native'', tpl_label = ''Official Gemini Native'',
        tpl_config = \<lparr>advanced_routes = Some
         [full_route ''/v1beta/models/{model}:generateContent'' ''/v1beta/models/{model}:generateContent'' ''none''
            (Some geminiQueryAuth),
          full_route ''/v1beta/models/{model}:embedContent'' ''/v1beta/models/{model}:embedContent'' ''none''
            (Some geminiQueryAuth),
          full_route ''/v1beta/models/{model}:batchEmbedContents'' ''/v1beta/models/{model}:batchEmbedContents'' ''none''
            (Some geminiQueryAuth)]\<rparr>\<rparr>,
      \<lparr>tpl_value = js ''official_gemini_from_openai_chat'', tpl_label = ''Official Gemini from OpenAI Chat'',
        tpl_config = \<lparr>advanced_routes = Some
         [full_route ''/v1/chat/completions'' ''/v1beta/models/{model}:generateContent'' ''openai_chat_completions_to_gemini_generate_content''
            (Some geminiQueryAuth)]\<rparr>\<rparr>]"

text \<open>The copy through JSON of \<open>cloneAdvancedCustomConfig\<close> keeps every field that is present.\<close>

definition cloneAdvancedCustomConfig :: "AdvancedCustomConfig \<Rightarrow> AdvancedCustomConfig" where
  "cloneAdvancedCustomConfig config = config"

definition getAdvancedCustomTemplateConfig :: "jsstr \<Rightarrow> AdvancedCustomConfig" where
  "getAdvancedCustomTemplateConfig templateKey =
     cloneAdvancedCustomConfig (tpl_config
       (case find (\<lambda>t. tpl_value t = templateKey) ADVANCED_CUSTOM_TEMPLATE_OPTIONS of
          Some t \<Rightarrow> t | None \<Rightarrow> hd ADVANCED_CUSTOM_TEMPLATE_OPTIONS))"

definition createAdvancedCustomRoute :: Route where
  "createAdvancedCustomRoute =
     \<lparr>rt_incoming_path = Some openAIChatPath, rt_upstream_path = Some openAIChatPath,
      rt_converter = Some (js ''none''), rt_models = None, rt_auth = None\<rparr>"

definition createAdvancedCustomConfig :: AdvancedCustomConfig where
  "createAdvancedCustomConfig = \<lparr>advanced_routes = Some [createAdvancedCustomRoute]\<rparr>"

section \<open>Converters and paths\<close>

definition CV_NONE :: jsstr where
  "CV_NONE = js ''none''"

definition CV_ANTHROPIC_CHAT :: jsstr where
  "CV_ANTHROPIC_CHAT = js ''anthropic_messages_to_openai_chat_completions''"

definition CV_CHAT_ANTHROPIC :: jsstr where
  "CV_CHAT_ANTHROPIC = js ''openai_chat_completions_to_anthropic_messages''"

definition CV_CHAT_RESPONSES :: jsstr where
  "CV_CHAT_RESPONSES = js ''openai_chat_completions_to_openai_responses''"

definition CV_RESPONSES_CHAT :: jsstr where
  "CV_RESPONSES_CHAT = js ''openai_responses_to_openai_chat_completions''"

definition CV_RESPONSES_GEMINI :: jsstr where
  "CV_RESPONSES_GEMINI = js ''openai_responses_to_gemini_generate_content''"

definition CV_GEMINI_CHAT :: jsstr where
  "CV_GEMINI_CHAT = js ''gemini_generate_content_to_openai_chat_completions''"

definition CV_CHAT_GEMINI :: jsstr where
  "CV_CHAT_GEMINI = js ''openai_chat_completions_to_gemini_generate_content''"

definition isConverterPathAllowed :: "jsstr \<Rightarrow> jsstr \<Rightarrow> bool" where
  "isConverterPathAllowed incomingPath converter =
     (if converter = CV_NONE then True
      else if converter = CV_ANTHROPIC_CHAT then incomingPath = js ''/v1/messages''
      else if converter = CV_CHAT_ANTHROPIC \<or> converter = CV_CHAT_RESPONSES \<or> converter = CV_CHAT_GEMINI
      then incomingPath = js ''/v1/chat/completions''
      else if converter = CV_RESPONSES_CHAT then incomingPath = js ''/v1/responses''
      else if converter = CV_RESPONSES_GEMINI then incomingPath = js ''/v1/responses''
      else str_includes (js '':generateContent'') incomingPath \<or>
           str_includes (js '':streamGenerateContent'') incomingPath)"

definition getAdvancedCustomNativeAuth :: "jsstr \<Rightarrow> RouteAuth" where
  "getAdvancedCustomNativeAuth incomingPath =
     (if incomingPath = claudeMessagesPath then apiKeyHeaderAuth
      else if str_includes (js '':generateContent'') incomingPath \<or>
              str_includes (js '':streamGenerateContent'') incomingPath \<or>
              str_includes (js '':embedContent'') incomingPath \<or>
              str_includes (js '':batchEmbedContents'') incomingPath
      then geminiQueryAuth else bearerHeaderAuth)"

definition getAdvancedCustomIncomingPathOptions :: "jsstr \<Rightarrow> (jsstr \<times> jsstr) list" where
  "getAdvancedCustomIncomingPathOptions converter =
     filter (\<lambda>option. isConverterPathAllowed (fst option) converter) ADVANCED_CUSTOM_INCOMING_PATH_OPTIONS"

definition getDefaultAdvancedCustomIncomingPath :: "jsstr \<Rightarrow> jsstr" where
  "getDefaultAdvancedCustomIncomingPath converter =
     (case getAdvancedCustomIncomingPathOptions converter of
        [] \<Rightarrow> js ''/v1/chat/completions''
      | p # _ \<Rightarrow> str_or (fst p) (js ''/v1/chat/completions''))"

definition isAdvancedCustomIncomingPathAllowed :: "jsstr \<Rightarrow> jsstr \<Rightarrow> bool" where
  "isAdvancedCustomIncomingPathAllowed incomingPath converter = isConverterPathAllowed incomingPath converter"

record ConverterDefaults =
  cd_upstream_path :: jsstr
  cd_auth :: "RouteAuth option"

definition getAdvancedCustomConverterDefaults :: "jsstr \<Rightarrow> jsstr \<Rightarrow> ConverterDefaults" where
  "getAdvancedCustomConverterDefaults converter incomingPath =
     (let normalizedIncomingPath = str_or (trim incomingPath) (getDefaultAdvancedCustomIncomingPath converter) in
      if converter = CV_NONE then
        \<lparr>cd_upstream_path = normalizedIncomingPath,
         cd_auth = Some (getAdvancedCustomNativeAuth normalizedIncomingPath)\<rparr>
      else if converter = CV_ANTHROPIC_CHAT \<or> converter = CV_GEMINI_CHAT \<or> converter = CV_RESPONSES_CHAT then
        \<lparr>cd_upstream_path = openAIChatPath, cd_auth = Some bearerHeaderAuth\<rparr>
      else if converter = CV_CHAT_RESPONSES then
        \<lparr>cd_upstream_path = openAIResponsesPath, cd_auth = Some bearerHeaderAuth\<rparr>
      else if converter = CV_CHAT_ANTHROPIC then
        \<lparr>cd_upstream_path = claudeMessagesPath, cd_auth = Some apiKeyHeaderAuth\<rparr>
      else if converter = CV_CHAT_GEMINI \<or> converter = CV_RESPONSES_GEMINI then
        \<lparr>cd_upstream_path = geminiGenerateContentPath, cd_auth = Some geminiQueryAuth\<rparr>
      else
        \<lparr>cd_upstream_path = str_or normalizedIncomingPath openAIChatPath,
         cd_auth = Some (getAdvancedCustomNativeAuth normalizedIncomingPath)\<rparr>)"

definition getAdvancedCustomUpstreamPathPlaceholder :: "jsstr \<Rightarrow> jsstr option \<Rightarrow> jsstr" where
  "getAdvancedCustomUpstreamPathPlaceholder converter incomingPath =
     cd_upstream_path (getAdvancedCustomConverterDefaults converter
       (case incomingPath of None \<Rightarrow> getDefaultAdvancedCustomIncomingPath converter | Some p \<Rightarrow> p))"

definition getAdvancedCustomConverterOptions :: "jsstr \<Rightarrow> ConverterOption list" where
  "getAdvancedCustomConverterOptions incomingPath =
     (let normalizedIncomingPath = trim incomingPath in
      filter (\<lambda>option. cv_value option = CV_NONE \<or> isConverterPathAllowed normalizedIncomingPath (cv_value option))
        ADVANCED_CUSTOM_CONVERTER_OPTIONS)"

definition getAdvancedCustomIncomingPathLabel :: "jsstr \<Rightarrow> jsstr" where
  "getAdvancedCustomIncomingPathLabel v =
     opt_or (map_of ADVANCED_CUSTOM_INCOMING_PATH_OPTIONS v) v"

section \<open>Normalisation\<close>

definition getAdvancedCustomRouteUpstreamPath :: "Route \<Rightarrow> jsstr" where
  "getAdvancedCustomRouteUpstreamPath route = trim (opt_or (rt_upstream_path route) [])"

definition normalizeAdvancedCustomRouteModels :: "jsstr list option \<Rightarrow> jsstr list" where
  "normalizeAdvancedCustomRouteModels models =
     (case models of None \<Rightarrow> [] | Some ms \<Rightarrow> truthy_strs (map trim ms))"

definition normalizeAdvancedCustomRoute :: "Route \<Rightarrow> Route" where
  "normalizeAdvancedCustomRoute route =
     (let models = normalizeAdvancedCustomRouteModels (rt_models route) in
      \<lparr>rt_incoming_path = Some (opt_or (rt_incoming_path route) []),
       rt_upstream_path = Some (getAdvancedCustomRouteUpstreamPath route),
       rt_converter = Some (opt_or (rt_converter route) CV_NONE),
       rt_models = (if length models > 0 then Some models else None),
       rt_auth = (case rt_auth route of
           None \<Rightarrow> None
         | Some auth \<Rightarrow> Some \<lparr>auth_type = auth_type auth, auth_name = Some (opt_or (auth_name auth) []),
             auth_value = Some (opt_or (auth_value auth) [])\<rparr>)\<rparr>)"

definition normalizeAdvancedCustomConfig :: "AdvancedCustomConfig \<Rightarrow> AdvancedCustomConfig" where
  "normalizeAdvancedCustomConfig config =
     \<lparr>advanced_routes = Some (case advanced_routes config of
        None \<Rightarrow> [] | Some routes \<Rightarrow> map normalizeAdvancedCustomRoute routes)\<rparr>"

definition config_routes :: "AdvancedCustomConfig \<Rightarrow> Route list" where
  "config_routes config = (case advanced_routes config of None \<Rightarrow> [] | Some rs \<Rightarrow> rs)"

definition parseAdvancedCustomRouteModels :: "jsstr \<Rightarrow> jsstr list" where
  "parseAdvancedCustomRouteModels v = uniq (truthy_strs (map trim (split_on 44 v)))"

definition is_regex_rule :: "jsstr \<Rightarrow> bool" where
  "is_regex_rule modelRule = starts_with ADVANCED_CUSTOM_MODEL_REGEX_PREFIX modelRule"

text \<open>\<open>getAdvancedCustomModelRuleKind\<close> has the two values regex and exact.\<close>

definition getAdvancedCustomModelRuleKind :: "jsstr \<Rightarrow> jsstr" where
  "getAdvancedCustomModelRuleKind modelRule = (if is_regex_rule modelRule then js ''regex'' else js ''exact'')"

definition getAdvancedCustomRegexModelPattern :: "jsstr \<Rightarrow> jsstr" where
  "getAdvancedCustomRegexModelPattern modelRule = drop (length ADVANCED_CUSTOM_MODEL_REGEX_PREFIX) modelRule"

section \<open>Validation\<close>

datatype message =
    ConfigRequired | RouteRequired | IncomingRequired | IncomingSlash | IncomingQuery
  | OneCatchAll | CatchAllLast | EmptyRegex | DuplicateInRoute | DuplicateInPath
  | UpstreamRequired | UpstreamForm | ConverterUnknown | ConverterMismatch
  | AuthTypeInvalid | AuthNameRequired | AuthValueRequired

record ValidationError =
  ve_message :: message
  ve_routeIndex :: "nat option"

record PathState =
  ps_catchAllIndex :: "nat option"
  ps_models :: "(jsstr, nat) jsmap"

text \<open>The loop over the model rules of a route; the state of the path is changed also on an error.\<close>

fun check_models :: "nat \<Rightarrow> jsstr list \<Rightarrow> jsstr set \<Rightarrow> (jsstr, nat) jsmap \<Rightarrow> message option \<times> (jsstr, nat) jsmap" where
  "check_models i [] seen known = (None, known)"
| "check_models i (model # models) seen known =
     (if getAdvancedCustomModelRuleKind model = js ''regex'' \<and> getAdvancedCustomRegexModelPattern model = []
      then (Some EmptyRegex, known)
      else if model \<in> seen then (Some DuplicateInRoute, known)
      else if map_of known model \<noteq> None then (Some DuplicateInPath, known)
      else check_models i models (insert model seen) (AList.update model i known))"

definition path_state :: "(jsstr, PathState) jsmap \<Rightarrow> jsstr \<Rightarrow> PathState" where
  "path_state byPath p =
     (case map_of byPath p of None \<Rightarrow> \<lparr>ps_catchAllIndex = None, ps_models = []\<rparr> | Some st \<Rightarrow> st)"

definition validateAdvancedCustomRouteModels ::
    "nat \<Rightarrow> jsstr \<Rightarrow> jsstr list \<Rightarrow> (jsstr, PathState) jsmap \<Rightarrow> message option \<times> (jsstr, PathState) jsmap" where
  "validateAdvancedCustomRouteModels routeIndex incomingPath models byPath =
     (let st = path_state byPath incomingPath in
      if length models = 0 then
        (if ps_catchAllIndex st \<noteq> None
         then (Some OneCatchAll, AList.update incomingPath st byPath)
         else (None, AList.update incomingPath (st\<lparr>ps_catchAllIndex := Some routeIndex\<rparr>) byPath))
      else if ps_catchAllIndex st \<noteq> None
      then (Some CatchAllLast, AList.update incomingPath st byPath)
      else
        (let (err, known) = check_models routeIndex models {} (ps_models st) in
         (err, AList.update incomingPath (st\<lparr>ps_models := known\<rparr>) byPath)))"

definition isFullHttpURLOrAbsolutePath :: "(jsstr \<Rightarrow> (jsstr \<times> jsstr) option) \<Rightarrow> jsstr \<Rightarrow> bool" where
  "isFullHttpURLOrAbsolutePath url v =
     (if starts_with (js ''/'') v then \<not> starts_with (js ''//'') v
      else case url v of
        None \<Rightarrow> False
      | Some (host, protocol) \<Rightarrow> host \<noteq> [] \<and> (protocol = js ''http:'' \<or> protocol = js ''https:''))"

definition isAdvancedCustomConverter :: "jsstr \<Rightarrow> bool" where
  "isAdvancedCustomConverter v = list_ex (\<lambda>option. cv_value option = v) ADVANCED_CUSTOM_CONVERTER_OPTIONS"

definition validateRouteAuth :: "RouteAuth option \<Rightarrow> message option" where
  "validateRouteAuth auth =
     (case auth of
        None \<Rightarrow> None
      | Some a \<Rightarrow>
          if auth_type a = Some (js ''none'') then None
          else if auth_type a \<noteq> Some (js ''header'') \<and> auth_type a \<noteq> Some (js ''query'') then Some AuthTypeInvalid
          else if trim (opt_or (auth_name a) []) = [] then Some AuthNameRequired
          else if trim (opt_or (auth_value a) []) = [] then Some AuthValueRequired
          else None)"

text \<open>The checks of one route before and after the check of its models.\<close>

definition incoming_error :: "jsstr \<Rightarrow> message option" where
  "incoming_error incomingPath =
     (if incomingPath = [] then Some IncomingRequired
      else if \<not> starts_with (js ''/'') incomingPath then Some IncomingSlash
      else if str_includes (js ''?'') incomingPath then Some IncomingQuery
      else None)"

definition target_error :: "(jsstr \<Rightarrow> (jsstr \<times> jsstr) option) \<Rightarrow> jsstr \<Rightarrow> Route \<Rightarrow> message option" where
  "target_error url incomingPath route =
     (let upstreamPath = getAdvancedCustomRouteUpstreamPath route;
          converter = opt_or (rt_converter route) CV_NONE in
      if upstreamPath = [] then Some UpstreamRequired
      else if \<not> isFullHttpURLOrAbsolutePath url upstreamPath then Some UpstreamForm
      else if \<not> isAdvancedCustomConverter converter then Some ConverterUnknown
      else if \<not> isConverterPathAllowed incomingPath converter then Some ConverterMismatch
      else validateRouteAuth (rt_auth route))"

definition route_path :: "Route \<Rightarrow> jsstr" where
  "route_path route = trim (opt_or (rt_incoming_path route) [])"

fun validate_routes ::
    "(jsstr \<Rightarrow> (jsstr \<times> jsstr) option) \<Rightarrow> nat \<Rightarrow> Route list \<Rightarrow> (jsstr, PathState) jsmap \<Rightarrow> ValidationError option" where
  "validate_routes url i [] byPath = None"
| "validate_routes url i (route # routes) byPath =
     (let incomingPath = route_path route;
          routeModels = normalizeAdvancedCustomRouteModels (rt_models route) in
      case incoming_error incomingPath of
        Some msg \<Rightarrow> Some \<lparr>ve_message = msg, ve_routeIndex = Some i\<rparr>
      | None \<Rightarrow>
          (case validateAdvancedCustomRouteModels i incomingPath routeModels byPath of
             (Some msg, _) \<Rightarrow> Some \<lparr>ve_message = msg, ve_routeIndex = Some i\<rparr>
           | (None, byPath') \<Rightarrow>
               (case target_error url incomingPath route of
                  Some msg \<Rightarrow> Some \<lparr>ve_message = msg, ve_routeIndex = Some i\<rparr>
                | None \<Rightarrow> validate_routes url (i + 1) routes byPath')))"

definition validateAdvancedCustomConfig ::
    "(jsstr \<Rightarrow> (jsstr \<times> jsstr) option) \<Rightarrow> AdvancedCustomConfig option \<Rightarrow> ValidationError option" where
  "validateAdvancedCustomConfig url config =
     (case config of
        None \<Rightarrow> Some \<lparr>ve_message = ConfigRequired, ve_routeIndex = None\<rparr>
      | Some c \<Rightarrow>
          (let routes = config_routes (normalizeAdvancedCustomConfig c) in
           if length routes = 0 then Some \<lparr>ve_message = RouteRequired, ve_routeIndex = None\<rparr>
           else validate_routes url 0 routes []))"

definition advancedCustomConfigUsesRelativeUpstreamPath :: "AdvancedCustomConfig option \<Rightarrow> bool" where
  "advancedCustomConfigUsesRelativeUpstreamPath config =
     (case config of
        None \<Rightarrow> False
      | Some c \<Rightarrow> list_ex (\<lambda>route. starts_with (js ''/'') (getAdvancedCustomRouteUpstreamPath route))
          (config_routes (normalizeAdvancedCustomConfig c)))"

section \<open>Summaries and authentication modes\<close>

definition getAdvancedCustomRouteSummaryLabel :: "Route \<Rightarrow> jsstr option" where
  "getAdvancedCustomRouteSummaryLabel route =
     (let incomingPath = route_path route in
      if incomingPath = [] then None
      else Some (opt_or (map_of ADVANCED_CUSTOM_ROUTE_SUMMARY_LABELS incomingPath)
        (getAdvancedCustomIncomingPathLabel incomingPath)))"

record AdvancedCustomStats =
  st_routeCount :: nat
  st_valid :: bool
  st_routeTypeLabels :: "jsstr list"

text \<open>The labels in the order of their first occurrence; empty labels are skipped.\<close>

fun type_labels :: "Route list \<Rightarrow> jsstr list \<Rightarrow> jsstr list" where
  "type_labels [] labels = labels"
| "type_labels (route # routes) labels =
     (case getAdvancedCustomRouteSummaryLabel route of
        None \<Rightarrow> type_labels routes labels
      | Some label \<Rightarrow>
          if label = [] \<or> label \<in> set labels then type_labels routes labels
          else type_labels routes (labels @ [label]))"

text \<open>The statistics of the configuration that \<open>parseAdvancedCustomConfig\<close> has read.\<close>

definition getAdvancedCustomStats ::
    "(jsstr \<Rightarrow> (jsstr \<times> jsstr) option) \<Rightarrow> AdvancedCustomConfig option \<Rightarrow> AdvancedCustomStats" where
  "getAdvancedCustomStats url parsed =
     (case parsed of
        None \<Rightarrow> \<lparr>st_routeCount = 0, st_valid = False, st_routeTypeLabels = []\<rparr>
      | Some config \<Rightarrow>
          (let normalized = normalizeAdvancedCustomConfig config; routes = config_routes normalized in
           \<lparr>st_routeCount = length routes,
            st_valid = (validateAdvancedCustomConfig url (Some normalized) = None),
            st_routeTypeLabels = type_labels routes []\<rparr>))"

definition getAdvancedCustomAuthMode :: "Route \<Rightarrow> jsstr" where
  "getAdvancedCustomAuthMode route =
     (case rt_auth route of None \<Rightarrow> js ''default'' | Some a \<Rightarrow> opt_or (auth_type a) (js ''default''))"

definition buildAdvancedCustomAuth :: "jsstr \<Rightarrow> RouteAuth option \<Rightarrow> RouteAuth option" where
  "buildAdvancedCustomAuth mode previousAuth =
     (let prev = (\<lambda>sel d. opt_or (case previousAuth of None \<Rightarrow> None | Some a \<Rightarrow> sel a) (js d)) in
      if mode = js ''default'' then None
      else if mode = js ''none'' then Some \<lparr>auth_type = Some (js ''none''), auth_name = None, auth_value = None\<rparr>
      else if mode = js ''header'' then
        Some \<lparr>auth_type = Some (js ''header''), auth_name = Some (prev auth_name ''Authorization''),
          auth_value = Some (prev auth_value ''Bearer {api_key}'')\<rparr>
      else
        Some \<lparr>auth_type = Some (js ''query''), auth_name = Some (prev auth_name ''api_key''),
          auth_value = Some (prev auth_value ''{api_key}'')\<rparr>)"

section \<open>What a valid configuration is\<close>

abbreviation rules :: "Route \<Rightarrow> jsstr list" where
  "rules r \<equiv> normalizeAdvancedCustomRouteModels (rt_models r)"

definition route_ok :: "(jsstr \<Rightarrow> (jsstr \<times> jsstr) option) \<Rightarrow> Route \<Rightarrow> bool" where
  "route_ok url r \<longleftrightarrow> incoming_error (route_path r) = None \<and> target_error url (route_path r) r = None \<and>
     distinct (rules r) \<and> js ''re:'' \<notin> set (rules r)"

text \<open>
  An earlier route \<open>q\<close> leaves a later one \<open>r\<close> reachable and unambiguous: on the same path it is
  not a catch-all, and shares no model rule with it.
\<close>

definition compatible :: "Route \<Rightarrow> Route \<Rightarrow> bool" where
  "compatible q r \<longleftrightarrow> (route_path q = route_path r \<longrightarrow> rules q \<noteq> [] \<and> set (rules q) \<inter> set (rules r) = {})"

definition valid_routes :: "(jsstr \<Rightarrow> (jsstr \<times> jsstr) option) \<Rightarrow> Route list \<Rightarrow> bool" where
  "valid_routes url rs \<longleftrightarrow> (\<forall>r \<in> set rs. route_ok url r) \<and> sorted_wrt compatible rs"

section \<open>The validator decides it\<close>

lemma empty_regex:
  "getAdvancedCustomModelRuleKind m = js ''regex'' \<and> getAdvancedCustomRegexModelPattern m = [] \<longleftrightarrow> m = js ''re:''"
  by (auto simp: getAdvancedCustomModelRuleKind_def is_regex_rule_def getAdvancedCustomRegexModelPattern_def
      ADVANCED_CUSTOM_MODEL_REGEX_PREFIX_def starts_with_iff inj_js split: if_splits)

lemma check_models_cases:
  "case check_models i ms seen known of (err, known') \<Rightarrow>
     (err = None \<longleftrightarrow> distinct ms \<and> js ''re:'' \<notin> set ms \<and> set ms \<inter> seen = {} \<and> set ms \<inter> dom (map_of known) = {}) \<and>
     (err = None \<longrightarrow> dom (map_of known') = dom (map_of known) \<union> set ms)"
proof (induction ms arbitrary: seen known)
  case (Cons m ms)
  let ?stop = "m = js ''re:'' \<or> m \<in> seen \<or> m \<in> dom (map_of known)"
  have dom: "dom (map_of (AList.update m i known)) = insert m (dom (map_of known))"
    by (auto simp: dom_def)
  have step: "check_models i (m # ms) seen known =
      (if ?stop then (Some (if m = js ''re:'' then EmptyRegex else if m \<in> seen then DuplicateInRoute
         else DuplicateInPath), known)
       else check_models i ms (insert m seen) (AList.update m i known))"
    using empty_regex [of m] by (auto simp: domIff)
  show ?case
  proof (cases ?stop)
    case True
    then show ?thesis unfolding step by auto
  next
    case False
    with Cons.IH [of "insert m seen" "AList.update m i known"] show ?thesis
      unfolding step dom by (auto split: prod.splits)
  qed
qed auto

text \<open>The map of the loop knows the catch-all routes and the rules of the routes seen so far.\<close>

definition tracks :: "Route list \<Rightarrow> (jsstr, PathState) jsmap \<Rightarrow> bool" where
  "tracks qs byPath \<longleftrightarrow> (\<forall>p.
     (ps_catchAllIndex (path_state byPath p) \<noteq> None \<longleftrightarrow> (\<exists>q \<in> set qs. route_path q = p \<and> rules q = [])) \<and>
     dom (map_of (ps_models (path_state byPath p))) = \<Union> ((\<lambda>q. set (rules q)) ` {q \<in> set qs. route_path q = p}))"

lemma path_state_update: "path_state (AList.update p st by) p' = (if p' = p then st else path_state by p')"
  by (simp add: path_state_def)

lemma tracks_Nil: "tracks [] []"
  by (simp add: tracks_def path_state_def)

lemma tracks_step:
  assumes "tracks qs byPath"
  shows "case validateAdvancedCustomRouteModels i (route_path r) (rules r) byPath of (err, byPath') \<Rightarrow>
    (err = None \<longleftrightarrow> distinct (rules r) \<and> js ''re:'' \<notin> set (rules r) \<and> (\<forall>q \<in> set qs. compatible q r)) \<and>
    (err = None \<longrightarrow> tracks (qs @ [r]) byPath')"
proof -
  let ?p = "route_path r" and ?st = "path_state byPath (route_path r)"
  have catch_all: "ps_catchAllIndex ?st \<noteq> None \<longleftrightarrow> (\<exists>q \<in> set qs. route_path q = ?p \<and> rules q = [])"
    and known: "dom (map_of (ps_models ?st)) = \<Union> ((\<lambda>q. set (rules q)) ` {q \<in> set qs. route_path q = ?p})"
    using assms by (auto simp: tracks_def)
  show ?thesis
  proof (cases "rules r = []")
    case True
    have "tracks (qs @ [r]) (AList.update ?p (?st\<lparr>ps_catchAllIndex := Some i\<rparr>) byPath)"
      using assms True by (auto simp: tracks_def path_state_update)
    then show ?thesis
      using True catch_all by (auto simp: validateAdvancedCustomRouteModels_def Let_def compatible_def)
  next
    case False
    obtain err known' where c: "check_models i (rules r) {} (ps_models ?st) = (err, known')" by fastforce
    from check_models_cases [where i = i and ms = "rules r" and seen = "{}" and known = "ps_models ?st"] c
    have err: "err = None \<longleftrightarrow> distinct (rules r) \<and> js ''re:'' \<notin> set (rules r) \<and>
        set (rules r) \<inter> dom (map_of (ps_models ?st)) = {}"
      and new: "err = None \<Longrightarrow> dom (map_of known') = dom (map_of (ps_models ?st)) \<union> set (rules r)"
      by auto
    have "tracks (qs @ [r]) (AList.update ?p (?st\<lparr>ps_models := known'\<rparr>) byPath)" if "err = None"
      using assms False new [OF that] known
      by (auto simp: tracks_def path_state_update)
    then show ?thesis
      using False c err known catch_all
      by (auto simp: validateAdvancedCustomRouteModels_def Let_def compatible_def)
  qed
qed

lemma validate_routes_iff:
  "tracks qs byPath \<Longrightarrow>
   validate_routes url i rs byPath = None \<longleftrightarrow>
     valid_routes url rs \<and> (\<forall>r \<in> set rs. \<forall>q \<in> set qs. compatible q r)"
proof (induction rs arbitrary: i qs byPath)
  case Nil
  then show ?case by (simp add: valid_routes_def)
next
  case (Cons r rs)
  obtain err byPath' where v: "validateAdvancedCustomRouteModels i (route_path r) (rules r) byPath = (err, byPath')"
    by fastforce
  from tracks_step [OF Cons.prems, where i = i and r = r] v
  have err: "err = None \<longleftrightarrow> distinct (rules r) \<and> js ''re:'' \<notin> set (rules r) \<and> (\<forall>q \<in> set qs. compatible q r)"
    and tr: "err = None \<Longrightarrow> tracks (qs @ [r]) byPath'" by auto
  have "validate_routes url i (r # rs) byPath = None \<longleftrightarrow>
      incoming_error (route_path r) = None \<and> err = None \<and> target_error url (route_path r) r = None \<and>
      validate_routes url (i + 1) rs byPath' = None"
    using v by (auto simp: Let_def split: option.splits)
  also have "\<dots> \<longleftrightarrow> incoming_error (route_path r) = None \<and> err = None \<and> target_error url (route_path r) r = None \<and>
      valid_routes url rs \<and> (\<forall>s \<in> set rs. \<forall>q \<in> set (qs @ [r]). compatible q s)"
    using Cons.IH [OF tr] by blast
  also have "\<dots> \<longleftrightarrow> valid_routes url (r # rs) \<and> (\<forall>s \<in> set (r # rs). \<forall>q \<in> set qs. compatible q s)"
    by (auto simp: valid_routes_def route_ok_def err)
  finally show ?case .
qed

lemma validate_from_start: "validate_routes url 0 rs [] = None \<longleftrightarrow> valid_routes url rs"
  using validate_routes_iff [OF tracks_Nil] by simp

lemma validate_routes_error:
  "validate_routes url k rs byPath = Some e \<Longrightarrow>
   \<exists>j < length rs. ve_routeIndex e = Some (k + j) \<and> validate_routes url k (take j rs) byPath = None \<and>
     validate_routes url k (take (Suc j) rs) byPath = Some e"
proof (induction rs arbitrary: k byPath)
  case (Cons r rs)
  obtain err byPath' where v: "validateAdvancedCustomRouteModels k (route_path r) (rules r) byPath = (err, byPath')"
    by fastforce
  show ?case
  proof (cases "incoming_error (route_path r) = None \<and> err = None \<and> target_error url (route_path r) r = None")
    case True
    then have step: "validate_routes url k (r # xs) byPath = validate_routes url (k + 1) xs byPath'" for xs
      using v by simp
    from Cons.IH [of "k + 1" byPath'] Cons.prems step obtain j where
      "j < length rs" "ve_routeIndex e = Some (k + 1 + j)" "validate_routes url (k + 1) (take j rs) byPath' = None"
      "validate_routes url (k + 1) (take (Suc j) rs) byPath' = Some e" by auto
    then show ?thesis using step by (intro exI [of _ "Suc j"]) auto
  next
    case False
    then have same: "validate_routes url k (r # rs) byPath = validate_routes url k [r] byPath"
      and idx: "ve_routeIndex (the (validate_routes url k [r] byPath)) = Some k"
      using v by (auto simp: Let_def split: option.splits)
    from Cons.prems same have one: "validate_routes url k [r] byPath = Some e" by (rule subst [rotated])
    with idx show ?thesis by (intro exI [of _ 0]) (simp del: validate_routes.simps(2))
  qed
qed simp

section \<open>Properties\<close>

text \<open>C2: The validator accepts exactly the configurations with at least one route in which every
  route is well formed (path, upstream, converter, authentication, distinct rules without an empty
  pattern) and no earlier route hides or clashes with a later one on the same path: a catch-all is
  unique and last, and no model rule occurs twice.\<close>

theorem advanced_custom_validation:
  "validateAdvancedCustomConfig url (Some c) = None \<longleftrightarrow>
     config_routes (normalizeAdvancedCustomConfig c) \<noteq> [] \<and>
     valid_routes url (config_routes (normalizeAdvancedCustomConfig c))"
  by (simp add: validateAdvancedCustomConfig_def Let_def validate_from_start)

text \<open>A reported route index is that of the first offending route: the routes before it form a
  valid list, and with it they do not.\<close>

theorem advanced_custom_first_error:
  assumes "validateAdvancedCustomConfig url (Some c) = Some e" and "ve_routeIndex e = Some i"
  shows "i < length (config_routes (normalizeAdvancedCustomConfig c)) \<and>
    valid_routes url (take i (config_routes (normalizeAdvancedCustomConfig c))) \<and>
    \<not> valid_routes url (take (Suc i) (config_routes (normalizeAdvancedCustomConfig c)))"
proof -
  let ?rs = "config_routes (normalizeAdvancedCustomConfig c)"
  have "validate_routes url 0 ?rs [] = Some e"
    using assms by (auto simp: validateAdvancedCustomConfig_def Let_def split: if_splits)
  from validate_routes_error [OF this] assms(2) show ?thesis
    by (auto simp flip: validate_from_start)
qed

definition clash_config :: AdvancedCustomConfig where
  "clash_config = \<lparr>advanced_routes = Some [createAdvancedCustomRoute, createAdvancedCustomRoute]\<rparr>"

lemma clash_error: "validateAdvancedCustomConfig (\<lambda>_. None) (Some clash_config) =
    Some \<lparr>ve_message = OneCatchAll, ve_routeIndex = Some 1\<rparr>"
  by code_simp

lemma advanced_custom_first_error_witness:
  "validateAdvancedCustomConfig (\<lambda>_. None) (Some clash_config) =
     Some \<lparr>ve_message = OneCatchAll, ve_routeIndex = Some 1\<rparr> \<and>
   1 < length (config_routes (normalizeAdvancedCustomConfig clash_config)) \<and>
   valid_routes (\<lambda>_. None) (take 1 (config_routes (normalizeAdvancedCustomConfig clash_config))) \<and>
   \<not> valid_routes (\<lambda>_. None) (take (Suc 1) (config_routes (normalizeAdvancedCustomConfig clash_config)))"
proof -
  have i: "ve_routeIndex \<lparr>ve_message = OneCatchAll, ve_routeIndex = Some 1\<rparr> = Some 1" by simp
  from advanced_custom_first_error [OF clash_error i] clash_error show ?thesis by blast
qed

lemma opt_or_idem [simp]: "opt_or (Some (opt_or x d)) d = opt_or x d"
  by (auto simp: opt_or_def str_or_def split: option.splits)

lemma opt_or_Nil: "opt_or (Some x) [] = x"
  by (simp add: opt_or_def str_or_def)

lemma truthy_trim_idem: "truthy_strs (map trim (truthy_strs (map trim ms))) = truthy_strs (map trim ms)"
proof -
  have "map trim (truthy_strs (map trim ms)) = truthy_strs (map trim ms)"
    by (rule map_idI) (auto simp: truthy_strs_def)
  then show ?thesis by simp
qed

lemma normalize_route_idem: "normalizeAdvancedCustomRoute (normalizeAdvancedCustomRoute r) = normalizeAdvancedCustomRoute r"
  by (auto simp: normalizeAdvancedCustomRoute_def Let_def getAdvancedCustomRouteUpstreamPath_def
      normalizeAdvancedCustomRouteModels_def truthy_trim_idem opt_or_Nil split: option.splits)

text \<open>Normalisation is idempotent, so a configuration and its normal form get the same verdict
  of the validator.\<close>

theorem advanced_custom_normal_form:
  "normalizeAdvancedCustomConfig (normalizeAdvancedCustomConfig c) = normalizeAdvancedCustomConfig c \<and>
   validateAdvancedCustomConfig url (Some (normalizeAdvancedCustomConfig c)) =
     validateAdvancedCustomConfig url (Some c)"
proof -
  have "normalizeAdvancedCustomConfig (normalizeAdvancedCustomConfig c) = normalizeAdvancedCustomConfig c"
    by (simp add: normalizeAdvancedCustomConfig_def normalize_route_idem split: option.splits)
  then show ?thesis by (simp add: validateAdvancedCustomConfig_def)
qed

text \<open>The route the editor makes of a converter and an incoming path.\<close>

definition default_route :: "jsstr \<Rightarrow> jsstr \<Rightarrow> Route" where
  "default_route converter p =
     (let d = getAdvancedCustomConverterDefaults converter p in
      \<lparr>rt_incoming_path = Some p, rt_upstream_path = Some (cd_upstream_path d),
       rt_converter = Some converter, rt_models = None, rt_auth = cd_auth d\<rparr>)"

lemma defaults_upstream:
  assumes "isAdvancedCustomConverter cv" and "trim p \<noteq> []"
  shows "cd_upstream_path (getAdvancedCustomConverterDefaults cv p) \<in>
    {trim p, openAIChatPath, openAIResponsesPath, claudeMessagesPath, geminiGenerateContentPath}"
  using assms(2) by (simp add: getAdvancedCustomConverterDefaults_def Let_def str_or_def)

lemma defaults_auth:
  "cd_auth (getAdvancedCustomConverterDefaults cv p) \<in> Some ` {bearerHeaderAuth, apiKeyHeaderAuth, geminiQueryAuth}"
  by (simp add: getAdvancedCustomConverterDefaults_def Let_def getAdvancedCustomNativeAuth_def)

lemma fixed_upstreams:
  assumes "u \<in> {openAIChatPath, openAIResponsesPath, claudeMessagesPath, geminiGenerateContentPath}"
  shows "trim u = u \<and> u \<noteq> [] \<and> isFullHttpURLOrAbsolutePath url u"
proof -
  have "list_all (\<lambda>u. trim u = u \<and> u \<noteq> [] \<and> starts_with (js ''/'') u \<and> \<not> starts_with (js ''//'') u)
      [openAIChatPath, openAIResponsesPath, claudeMessagesPath, geminiGenerateContentPath]"
    by code_simp
  with assms show ?thesis by (auto simp: isFullHttpURLOrAbsolutePath_def)
qed

lemma fixed_auths:
  assumes "a \<in> {bearerHeaderAuth, apiKeyHeaderAuth, geminiQueryAuth}"
  shows "validateRouteAuth (Some a) = None"
proof -
  have "list_all (\<lambda>a. validateRouteAuth (Some a) = None) [bearerHeaderAuth, apiKeyHeaderAuth, geminiQueryAuth]"
    by code_simp
  with assms show ?thesis by auto
qed

lemma normal_auth: "validateRouteAuth (rt_auth (normalizeAdvancedCustomRoute r)) = validateRouteAuth (rt_auth r)"
  by (auto simp: validateRouteAuth_def normalizeAdvancedCustomRoute_def Let_def opt_or_Nil split: option.splits)

text \<open>The defaults the editor fills in are always valid: for a registered converter and a
  well-formed incoming path it accepts (that does not start with two slashes), the configuration
  with the default upstream path and authentication passes the validator, whatever the URL parser.\<close>

theorem advanced_custom_defaults_valid:
  assumes "isAdvancedCustomConverter cv" and "incoming_error (trim p) = None"
    and "isConverterPathAllowed (trim p) cv" and "\<not> starts_with (js ''//'') (trim p)"
  shows "validateAdvancedCustomConfig url (Some \<lparr>advanced_routes = Some [default_route cv p]\<rparr>) = None"
proof -
  let ?r = "normalizeAdvancedCustomRoute (default_route cv p)"
  let ?u = "cd_upstream_path (getAdvancedCustomConverterDefaults cv p)"
  have p: "trim p \<noteq> []" "starts_with (js ''/'') (trim p)"
    using assms(2) by (auto simp: incoming_error_def split: if_splits)
  then have pne: "p \<noteq> []" by auto
  have cv: "cv \<noteq> []"
    using assms(1) by (auto simp: isAdvancedCustomConverter_def ADVANCED_CUSTOM_CONVERTER_OPTIONS_def js_lit)
  have "?u = trim p \<or> ?u \<in> {openAIChatPath, openAIResponsesPath, claudeMessagesPath, geminiGenerateContentPath}"
    using defaults_upstream [OF assms(1) p(1)] by blast
  then have u: "trim ?u = ?u \<and> ?u \<noteq> [] \<and> isFullHttpURLOrAbsolutePath url ?u"
  proof
    assume "?u = trim p"
    with p assms(4) show ?thesis by (simp add: isFullHttpURLOrAbsolutePath_def)
  next
    assume "?u \<in> {openAIChatPath, openAIResponsesPath, claudeMessagesPath, geminiGenerateContentPath}"
    then show ?thesis by (rule fixed_upstreams)
  qed
  have auth: "validateRouteAuth (rt_auth ?r) = None"
    unfolding normal_auth using defaults_auth [of cv p] fixed_auths by (auto simp: default_route_def Let_def)
  have path: "route_path ?r = trim p"
    by (simp add: route_path_def normalizeAdvancedCustomRoute_def default_route_def Let_def opt_or_Nil)
  have fields: "getAdvancedCustomRouteUpstreamPath ?r = ?u" "opt_or (rt_converter ?r) CV_NONE = cv" "rules ?r = []"
    using u cv by (simp_all add: getAdvancedCustomRouteUpstreamPath_def normalizeAdvancedCustomRoute_def
        default_route_def Let_def normalizeAdvancedCustomRouteModels_def opt_or_def str_or_def)
  have "route_ok url ?r"
    using assms u auth by (simp add: route_ok_def target_error_def Let_def path fields)
  then show ?thesis
    by (simp add: validateAdvancedCustomConfig_def normalizeAdvancedCustomConfig_def config_routes_def
        validate_from_start valid_routes_def del: validate_routes.simps)
qed

lemma advanced_custom_defaults_valid_witness:
  "validateAdvancedCustomConfig (\<lambda>_. None)
     (Some \<lparr>advanced_routes = Some [default_route CV_ANTHROPIC_CHAT (js '' /v1/messages '')]\<rparr>) = None"
proof -
  have "isAdvancedCustomConverter CV_ANTHROPIC_CHAT" by code_simp
  moreover have "incoming_error (trim (js '' /v1/messages '')) = None" by code_simp
  moreover have "isConverterPathAllowed (trim (js '' /v1/messages '')) CV_ANTHROPIC_CHAT" by code_simp
  moreover have "\<not> starts_with (js ''//'') (trim (js '' /v1/messages ''))" by code_simp
  ultimately show ?thesis by (rule advanced_custom_defaults_valid)
qed

text \<open>Every template the editor offers passes the validator, and so does the configuration it
  starts with, whatever the URL parser of the platform is.\<close>

theorem advanced_custom_templates_valid:
  "list_all (\<lambda>t. validateAdvancedCustomConfig url (Some (tpl_config t)) = None) ADVANCED_CUSTOM_TEMPLATE_OPTIONS \<and>
   validateAdvancedCustomConfig url (Some createAdvancedCustomConfig) = None"
  by code_simp

lemma trim_no_comma: "44 \<notin> set s \<Longrightarrow> 44 \<notin> set (trim s)"
  using set_trim by blast

text \<open>The list of models typed into the editor is read as distinct, trimmed, non-empty rules,
  and a list of that form is read back from its comma-separated text.\<close>

theorem route_models_roundtrip:
  "distinct (parseAdvancedCustomRouteModels v) \<and>
   (\<forall>m \<in> set (parseAdvancedCustomRouteModels v). trim m = m \<and> m \<noteq> [] \<and> 44 \<notin> set m) \<and>
   (distinct ms \<and> (\<forall>m \<in> set ms. trim m = m \<and> m \<noteq> [] \<and> 44 \<notin> set m) \<longrightarrow>
      parseAdvancedCustomRouteModels (join [44] ms) = ms)"
proof (intro conjI impI)
  show "distinct (parseAdvancedCustomRouteModels v)" by (simp add: parseAdvancedCustomRouteModels_def)
  show "\<forall>m \<in> set (parseAdvancedCustomRouteModels v). trim m = m \<and> m \<noteq> [] \<and> 44 \<notin> set m"
    using split_on_no_sep [of 44 v] trim_no_comma
    by (auto simp: parseAdvancedCustomRouteModels_def truthy_strs_def)
next
  assume ms: "distinct ms \<and> (\<forall>m \<in> set ms. trim m = m \<and> m \<noteq> [] \<and> 44 \<notin> set m)"
  then have t: "map trim ms = ms" "truthy_strs ms = ms" by (auto intro: map_idI truthy_strs_all)
  show "parseAdvancedCustomRouteModels (join [44] ms) = ms"
  proof (cases "ms = []")
    case True
    then show ?thesis by (simp add: parseAdvancedCustomRouteModels_def truthy_strs_def)
  next
    case False
    with ms have "split_on 44 (join [44] ms) = ms" by (intro split_join) auto
    with t ms show ?thesis by (simp add: parseAdvancedCustomRouteModels_def uniq_distinct)
  qed
qed

lemma route_models_roundtrip_witness:
  "distinct [js ''gpt-4o'', js ''re:claude''] \<and>
   parseAdvancedCustomRouteModels (join [44] [js ''gpt-4o'', js ''re:claude'']) = [js ''gpt-4o'', js ''re:claude'']"
proof -
  have d: "distinct [js ''gpt-4o'', js ''re:claude'']" by code_simp
  have "list_all (\<lambda>m. trim m = m \<and> m \<noteq> [] \<and> 44 \<notin> set m) [js ''gpt-4o'', js ''re:claude'']" by code_simp
  then have "\<forall>m \<in> set [js ''gpt-4o'', js ''re:claude'']. trim m = m \<and> m \<noteq> [] \<and> 44 \<notin> set m"
    by (simp only: list_all_iff)
  with d route_models_roundtrip [of "[]" "[js ''gpt-4o'', js ''re:claude'']"] show ?thesis by blast
qed

end
