(* ===== verification/Json_Roundtrip.thy ===== *)
theory Json_Roundtrip
  imports Js_Json
begin

text \<open>
  \<open>JSON.stringify(v)\<close> and \<open>JSON.stringify(v, null, gap)\<close>, and that \<open>JSON.parse\<close> reads back what they write:
  the values are objects with distinct keys that are not array indices, strings of 16 bit code
  units and numbers whose decimal text reads back (\<open>printable\<close>). The stores that keep
  their state in the browser's storage rely on it.
\<close>

section \<open>JSON.stringify\<close>

fun json_stringify :: "json \<Rightarrow> jsstr" where
  "json_stringify JNull = js ''null''"
| "json_stringify (JBool b) = js (if b then ''true'' else ''false'')"
| "json_stringify (JNum x) = (if is_finite x then num_str x else js ''null'')"
| "json_stringify (JStr s) = json_quote s"
| "json_stringify (JArr xs) = [91] @ join [44] (map json_stringify xs) @ [93]"
| "json_stringify (JObj ps) =
     [123] @ join [44] (map (\<lambda>p. json_quote (fst p) @ [58] @ json_stringify (snd p)) (obj_entries ps)) @ [125]"

text \<open>
  \<open>JSON.stringify(v, null, gap)\<close>: with a gap, every element and member starts a line of its
  own; \<open>ind\<close> is the current indentation.
\<close>

definition newline :: "nat \<Rightarrow> nat \<Rightarrow> jsstr" where
  "newline gap ind = (if gap = 0 then [] else 10 # replicate ind 32)"

definition bracketed :: "nat \<Rightarrow> nat \<Rightarrow> nat \<Rightarrow> jsstr list \<Rightarrow> nat \<Rightarrow> jsstr" where
  "bracketed gap ind l ws r =
     (if ws = [] then [l, r]
      else l # newline gap (ind + gap) @ join (44 # newline gap (ind + gap)) ws @ newline gap ind @ [r])"

fun json_text :: "nat \<Rightarrow> nat \<Rightarrow> json \<Rightarrow> jsstr" where
  "json_text gap ind JNull = js ''null''"
| "json_text gap ind (JBool b) = js (if b then ''true'' else ''false'')"
| "json_text gap ind (JNum x) = (if is_finite x then num_str x else js ''null'')"
| "json_text gap ind (JStr s) = json_quote s"
| "json_text gap ind (JArr xs) = bracketed gap ind 91 (map (json_text gap (ind + gap)) xs) 93"
| "json_text gap ind (JObj ps) =
     bracketed gap ind 123
       (map (\<lambda>p. json_quote (fst p) @ (if gap = 0 then [58] else [58, 32]) @ json_text gap (ind + gap) (snd p))
         (obj_entries ps)) 125"

lemma json_text_compact: "json_text 0 ind v = json_stringify v"
  by (induction v arbitrary: ind)
    (auto simp: bracketed_def newline_def snds.simps intro!: arg_cong [where f = "join [44]"] map_cong)

section \<open>Printable values\<close>

text \<open>A unit that cannot continue a number token.\<close>

definition ends_number :: "jsstr \<Rightarrow> bool" where
  "ends_number s \<longleftrightarrow> s = [] \<or> \<not> is_digit (hd s) \<and> hd s \<notin> {46, 101, 69}"

definition wide :: "jsstr \<Rightarrow> bool" where
  "wide s \<longleftrightarrow> (\<forall>c \<in> set s. c < 65536)"

definition number_reads_back :: "jsnum \<Rightarrow> bool" where
  "number_reads_back x \<longleftrightarrow> is_finite x \<and> num_str x \<noteq> [] \<and> (is_digit (hd (num_str x)) \<or> hd (num_str x) = 45) \<and>
     to_number (num_str x) = x \<and>
     (\<forall>rest. ends_number rest \<longrightarrow> number_token (num_str x @ rest) = Some (num_str x, rest))"

fun printable :: "json \<Rightarrow> bool" where
  "printable JNull = True"
| "printable (JBool b) = True"
| "printable (JNum x) = number_reads_back x"
| "printable (JStr s) = wide s"
| "printable (JArr xs) = (\<forall>x \<in> set xs. printable x)"
| "printable (JObj ps) = (distinct (map fst ps) \<and>
     (\<forall>p \<in> set ps. \<not> is_index_key (fst p) \<and> wide (fst p) \<and> printable (snd p)))"

lemma entries_no_index: "(\<forall>p \<in> set ps. \<not> is_index_key (fst p)) \<Longrightarrow> obj_entries ps = ps"
  by (simp add: obj_entries_def filter_False)

lemma wide_chars: "wide s \<Longrightarrow> json_chars (quote_units s @ 34 # rest) = Some (s, rest)"
  using json_chars_quote [of s rest] by (simp add: wide_def)

section \<open>Reading back\<close>

lemma skip_ws_Cons_not [simp]: "\<not> json_ws c \<Longrightarrow> skip_ws (c # s) = c # s"
  by (simp add: skip_ws_def)

lemma json_ws_units [simp]:
  "\<not> json_ws 34" "\<not> json_ws 44" "\<not> json_ws 45" "\<not> json_ws 58" "\<not> json_ws 91" "\<not> json_ws 93"
  "\<not> json_ws 102" "\<not> json_ws 110" "\<not> json_ws 116" "\<not> json_ws 123" "\<not> json_ws 125"
  by (simp_all add: json_ws_def)

lemma ends_number_units [simp]: "ends_number []" "ends_number (44 # s)" "ends_number (93 # s)" "ends_number (125 # s)"
  by (simp_all add: ends_number_def is_digit_def)

lemma ends_number_newline [simp]: "ends_number (newline gap ind @ 93 # s)" "ends_number (newline gap ind @ 125 # s)"
  "ends_number (newline gap ind @ 44 # s)"
  by (simp_all add: newline_def ends_number_def is_digit_def)

lemma skip_ws_spaces [simp]: "skip_ws (replicate n 32 @ s) = skip_ws s"
  by (induction n) (simp_all add: skip_ws_def json_ws_def)

lemma skip_ws_newline [simp]: "skip_ws (newline gap ind @ s) = skip_ws s"
  using skip_ws_spaces [of ind s] by (simp add: skip_ws_def newline_def json_ws_def)

text \<open>Leading white space does not change what is read.\<close>

lemma json_value_newline [simp]: "json_value n (newline gap ind @ s) = json_value n s"
  by (cases n) simp_all

lemma json_value_space [simp]: "json_value n (32 # s) = json_value n s"
  by (cases n) (simp_all add: skip_ws_def json_ws_def)

lemma json_elems_newline [simp]: "json_elems n (newline gap ind @ s) = json_elems n s"
  by (cases n) simp_all

lemma json_members_newline [simp]: "json_members n acc (newline gap ind @ s) = json_members n acc s"
  by (cases n) simp_all

lemma bracketed_head: "\<exists>t. bracketed gap ind l ws r = l # t"
  by (simp add: bracketed_def)

lemma text_head:
  assumes "printable v"
  obtains c t where "json_text gap ind v = c # t" "\<not> json_ws c" "c \<noteq> 93" "c \<noteq> 125"
proof (cases v)
  case (JNum x)
  with assms obtain c t where "num_str x = c # t" "is_digit c \<or> c = 45" "is_finite x"
    by (cases "num_str x") (auto simp: number_reads_back_def)
  with that [of c t] JNum show ?thesis by (auto simp: is_digit_def json_ws_def)
next
  case (JBool b)
  with that show ?thesis by (cases b) (auto simp: js_lit)
next
  case (JArr xs)
  obtain t where "json_text gap ind v = 91 # t"
    using JArr bracketed_head [of gap ind 91 _ 93] by auto
  then show ?thesis by (rule that) simp_all
next
  case (JObj ps)
  obtain t where "json_text gap ind v = 123 # t"
    using JObj bracketed_head [of gap ind 123 _ 125] by auto
  then show ?thesis by (rule that) simp_all
qed (use that in \<open>auto simp: js_lit json_quote_def\<close>)

lemma json_value_number:
  assumes "number_reads_back x" and "ends_number rest"
  shows "json_value (Suc n) (num_str x @ rest) = Some (JNum x, rest)"
proof -
  from assms(1) obtain c t where c: "num_str x = c # t" "is_digit c \<or> c = 45"
    by (cases "num_str x") (auto simp: number_reads_back_def)
  then have "\<not> json_ws c" "c \<notin> {34, 91, 123, 116, 102, 110}" by (auto simp: is_digit_def json_ws_def)
  with assms c show ?thesis by (auto simp: number_reads_back_def)
qed

definition reads_back :: "nat \<Rightarrow> json \<Rightarrow> bool" where
  "reads_back gap v \<longleftrightarrow> (\<forall>ind n rest. size v < n \<longrightarrow> ends_number rest \<longrightarrow>
     json_value n (json_text gap ind v @ rest) = Some (v, rest))"

lemma join_Cons: "ws \<noteq> [] \<Longrightarrow> join sep (w # ws) = w @ sep @ join sep ws"
  by (cases ws) auto

lemma elems_read_back:
  assumes "xs \<noteq> []" and "\<forall>x \<in> set xs. reads_back gap x" and "size_list size xs < n"
  shows "json_elems n (join (44 # newline gap i) (map (json_text gap i) xs) @ newline gap j @ 93 # rest) =
    Some (xs, rest)"
  using assms
proof (induction xs arbitrary: n)
  case (Cons x xs)
  from Cons.prems obtain m where n: "n = Suc m" by (cases n) auto
  then have m: "size x < m" "size_list size xs < m" using Cons.prems by auto
  have x: "json_value m (json_text gap i x @ r) = Some (x, r)" if "ends_number r" for r
    using Cons.prems(2) m(1) that by (auto simp: reads_back_def)
  show ?case
  proof (cases "xs = []")
    case True
    then show ?thesis using x by (simp add: n)
  next
    case False
    then show ?thesis using x Cons.IH [OF False _ m(2)] Cons.prems(2) by (simp add: n join_Cons)
  qed
qed simp

definition member_text :: "nat \<Rightarrow> nat \<Rightarrow> jsstr \<times> json \<Rightarrow> jsstr" where
  "member_text gap ind p =
     json_quote (fst p) @ (if gap = 0 then [58] else [58, 32]) @ json_text gap ind (snd p)"

lemma update_fresh: "k \<notin> fst ` set m \<Longrightarrow> AList.update k v m = m @ [(k, v)]"
  by (induction m) auto

lemma members_read_back:
  assumes "ps \<noteq> []" and "\<forall>p \<in> set ps. wide (fst p) \<and> reads_back gap (snd p)"
    and "distinct (map fst (acc @ ps))" and "size_list (\<lambda>p. size (snd p)) ps < n"
  shows "json_members n acc (join (44 # newline gap i) (map (member_text gap i) ps) @ newline gap j @ 125 # rest) =
    Some (acc @ ps, rest)"
  using assms
proof (induction ps arbitrary: n acc)
  case (Cons p ps)
  obtain k v where p: "p = (k, v)" by (cases p)
  from Cons.prems obtain m where n: "n = Suc m" by (cases n) auto
  then have m: "size v < m" "size_list (\<lambda>p. size (snd p)) ps < m" using Cons.prems p by auto
  have v: "json_value m (json_text gap i v @ r) = Some (v, r)" if "ends_number r" for r
    using Cons.prems(2) m(1) that p by (auto simp: reads_back_def)
  have k: "json_chars (quote_units k @ 34 # r) = Some (k, r)" for r
    using Cons.prems(2) p by (simp add: wide_chars)
  have acc: "AList.update k v acc = acc @ [p]" using Cons.prems(3) p by (simp add: update_fresh)
  have step: "json_members n acc (member_text gap i p @ r) = (case skip_ws r of [] \<Rightarrow> None
      | e # r' \<Rightarrow> if e = 125 then Some (acc @ [p], r') else if e = 44 then json_members m (acc @ [p]) r' else None)"
    if "ends_number r" for r
    using v [OF that] k acc by (cases "gap = 0"; cases "skip_ws r") (simp_all add: n p member_text_def json_quote_def)
  show ?case
  proof (cases "ps = []")
    case True
    then show ?thesis using step by simp
  next
    case False
    then show ?thesis using step Cons.IH [OF False _ _ m(2), of "acc @ [p]"] Cons.prems(2,3)
      by (simp add: join_Cons del: json_members.simps)
  qed
qed simp

lemma size_members: "size_list (\<lambda>p. size (snd p)) ps \<le> size_list (size_prod (\<lambda>x. 0) size) ps"
  by (induction ps) auto

lemma join_Cons_hd: "w \<noteq> [] \<Longrightarrow> \<exists>t. join sep (w # ws) @ r = hd w # t"
  by (cases ws; cases w) auto

lemma array_reads_back:
  assumes xs: "\<forall>x \<in> set xs. printable x \<and> reads_back gap x"
  shows "reads_back gap (JArr xs)"
  unfolding reads_back_def
proof (intro allI impI)
  fix i n rest assume n: "size (JArr xs) < n" and "ends_number rest"
  then obtain m where m: "n = Suc m" "size_list size xs < m" by (cases n) auto
  show "json_value n (json_text gap i (JArr xs) @ rest) = Some (JArr xs, rest)"
  proof (cases xs)
    case (Cons x ys)
    obtain c t where c: "json_text gap (i + gap) x = c # t" "\<not> json_ws c" "c \<noteq> 93"
      using text_head xs Cons by (metis list.set_intros(1))
    have "\<exists>u. join (44 # newline gap (i + gap)) (map (json_text gap (i + gap)) xs) @ newline gap i @ 93 # rest = c # u"
      using join_Cons_hd [of "json_text gap (i + gap) x"] c(1) Cons by simp
    then obtain u where
      "join (44 # newline gap (i + gap)) (map (json_text gap (i + gap)) xs) @ newline gap i @ 93 # rest = c # u" ..
    with elems_read_back [of xs gap m "i + gap" i rest] xs m c Cons show ?thesis
      by (simp add: bracketed_def del: join.simps list.map)
  qed (simp add: m bracketed_def)
qed

lemma object_reads_back:
  assumes ps: "\<forall>p \<in> set ps. wide (fst p) \<and> reads_back gap (snd p)"
    and ent: "obj_entries ps = ps" and keys: "distinct (map fst ps)"
  shows "reads_back gap (JObj ps)"
  unfolding reads_back_def
proof (intro allI impI)
  fix i n rest assume n: "size (JObj ps) < n" and "ends_number rest"
  then obtain m where m: "n = Suc m" "size_list (\<lambda>p. size (snd p)) ps < m"
    using size_members [of ps] by (cases n) auto
  show "json_value n (json_text gap i (JObj ps) @ rest) = Some (JObj ps, rest)"
  proof (cases ps)
    case (Cons p qs)
    have "\<exists>u. join (44 # newline gap (i + gap)) (map (member_text gap (i + gap)) ps) @ newline gap i @ 125 # rest = 34 # u"
      using join_Cons_hd [of "member_text gap (i + gap) p"] Cons by (simp add: member_text_def json_quote_def)
    then obtain u where
      "join (44 # newline gap (i + gap)) (map (member_text gap (i + gap)) ps) @ newline gap i @ 125 # rest = 34 # u" ..
    with members_read_back [of ps gap "[]" m "i + gap" i rest] ps m ent keys Cons show ?thesis
      by (simp add: bracketed_def member_text_def [abs_def] del: join.simps list.map)
  qed (simp add: m bracketed_def obj_entries_def)
qed

lemma printable_reads_back: "printable v \<Longrightarrow> reads_back gap v"
proof (induction v)
  case (JNum x)
  then have "is_finite x" by (simp add: number_reads_back_def)
  with JNum show ?case using json_value_number [of x] by (auto simp: reads_back_def gr0_conv_Suc simp del: json_value.simps)
next
  case (JArr xs)
  then show ?case by (intro array_reads_back) simp
next
  case (JObj ps)
  then show ?case by (intro object_reads_back) (auto simp: snds.simps entries_no_index)
qed (auto simp: reads_back_def eat_lit_def js_lit json_quote_def wide_chars gr0_conv_Suc)

theorem json_text_roundtrip:
  assumes "printable v"
  shows "json_parse (json_text gap ind v) = Some v"
proof -
  let ?s = "json_text gap ind v"
  let ?n = "Suc (size v + 2 * length ?s)"
  have "json_value ?n ?s = Some (v, [])"
    using printable_reads_back [OF assms, unfolded reads_back_def, rule_format, of ?n "[]"] by simp
  then have "json_value (Suc (2 * length ?s)) ?s = Some (v, [])"
    using json_fuel_enough [of ?s ?n] by simp
  then show ?thesis by (simp add: json_parse_def skip_ws_def del: json_value.simps)
qed

corollary json_roundtrip: "printable v \<Longrightarrow> json_parse (json_stringify v) = Some v"
  using json_text_roundtrip [of v 0 0] by (simp add: json_text_compact)

section \<open>Strings of a parsed text\<close>

text \<open>A text of 16 bit code units is read into values whose strings are of such units.\<close>

fun json_wide :: "json \<Rightarrow> bool" where
  "json_wide (JStr s) = wide s"
| "json_wide (JArr xs) = (\<forall>x \<in> set xs. json_wide x)"
| "json_wide (JObj ps) = (\<forall>p \<in> set ps. wide (fst p) \<and> json_wide (snd p))"
| "json_wide v = True"

lemma wide_simps [simp]: "wide []" "wide (c # s) \<longleftrightarrow> c < 65536 \<and> wide s" "wide (s @ t) \<longleftrightarrow> wide s \<and> wide t"
  by (auto simp: wide_def)

lemma wide_subset: "set s \<subseteq> set t \<Longrightarrow> wide t \<Longrightarrow> wide s"
  by (auto simp: wide_def)

lemma hex4_wide: "hex4 a b c d = Some u \<Longrightarrow> u < 65536"
proof -
  have hex: "hex_val c = Some d \<Longrightarrow> d \<le> 15" for c d
    by (auto simp: hex_val_def Let_def split: if_splits)
  show "hex4 a b c d = Some u \<Longrightarrow> u < 65536"
    using hex [of a] hex [of b] hex [of c] hex [of d] by (fastforce simp: hex4_def split: option.splits)
qed

lemma unescape_wide: "unescape e = Some u \<Longrightarrow> u < 65536"
  by (auto simp: unescape_def split: if_splits)

text \<open>A string starts with its closing quote or with a unit, plain or escaped.\<close>

lemma json_chars_unit:
  assumes "json_chars (c # s) = Some (w, r)" and "c \<noteq> 34"
  obtains u t w' where "w = u # w'" "json_chars t = Some (w', r)" "length t \<le> length s"
    "set t \<subseteq> set s" "u = c \<or> u < 65536"
  using assms
  by (fastforce split: if_splits list.splits option.splits dest: hex4_wide unescape_wide)

lemma json_chars_wide: "json_chars s = Some (w, r) \<Longrightarrow> wide s \<Longrightarrow> wide w \<and> wide r"
proof (induction s arbitrary: w rule: length_induct)
  case (1 s)
  then obtain c q where s: "s = c # q" by (cases s) auto
  show ?case
  proof (cases "c = 34")
    case False
    obtain u t w' where t: "w = u # w'" "json_chars t = Some (w', r)" "length t \<le> length q"
        "set t \<subseteq> set q" "u = c \<or> u < 65536"
      using json_chars_unit [OF "1.prems"(1) [unfolded s] False] .
    with "1.prems" s have "wide t" "u < 65536" by (auto intro: wide_subset)
    with "1.IH" [rule_format, of t w'] t s show ?thesis by simp
  qed (use 1 s in auto)
qed

lemma eat_digits_wide: "eat_digits s = Some (d, r) \<Longrightarrow> wide s \<Longrightarrow> wide r"
  by (auto simp: eat_digits_def wide_def split: if_splits dest: set_dropWhileD)

lemma number_token_wide: "number_token s = Some (t, r) \<Longrightarrow> wide s \<Longrightarrow> wide r"
  by (auto simp: number_token_def Let_def split: list.splits if_splits option.splits
      dest!: eat_digits_wide)

lemma skip_ws_wide: "skip_ws s = c # r \<Longrightarrow> wide s \<Longrightarrow> c < 65536 \<and> wide r"
proof -
  assume "skip_ws s = c # r" "wide s"
  then have "set (c # r) \<subseteq> set s" by (metis set_dropWhileD skip_ws_def subsetI)
  with \<open>wide s\<close> have "wide (c # r)" by (metis wide_subset)
  then show ?thesis by simp
qed

lemma eat_lit_wide: "eat_lit w s = Some r \<Longrightarrow> wide s \<Longrightarrow> wide r"
  by (auto simp: eat_lit_def wide_def split: if_splits dest: in_set_dropD)

lemma update_wide:
  "json_wide (JObj m) \<Longrightarrow> wide k \<Longrightarrow> json_wide v \<Longrightarrow> json_wide (JObj (AList.update k v m))"
  by (induction m) auto

lemma json_value_wide_step:
  assumes "json_value (Suc n) s = Some (v, r)" and "wide s"
    and "\<And>s xs r. json_elems n s = Some (xs, r) \<Longrightarrow> wide s \<Longrightarrow> json_wide (JArr xs) \<and> wide r"
    and "\<And>s ps r. json_members n [] s = Some (ps, r) \<Longrightarrow> wide s \<Longrightarrow> json_wide (JObj ps) \<and> wide r"
  shows "json_wide v \<and> wide r"
proof -
  obtain c q where q: "skip_ws s = c # q" using assms(1) by (cases "skip_ws s") auto
  have w: "c < 65536" "wide q" using skip_ws_wide [OF q assms(2)] by auto
  note lits = eat_lit_wide [of _ "c # q" r] number_token_wide [of "c # q" _ r]
  consider "c = 34" | "c = 91" | "c = 123" | "c \<noteq> 34" "c \<noteq> 91" "c \<noteq> 123" by blast
  then show ?thesis
  proof cases
    case 1
    with assms(1) q obtain t where "json_chars q = Some (t, r)" "v = JStr t" by auto
    with json_chars_wide w show ?thesis by auto
  next
    case 2
    obtain d q' where d: "skip_ws q = d # q'" using assms(1) q 2 by (cases "skip_ws q") auto
    with assms(1) q 2 have "v = JArr [] \<and> r = q' \<or> (\<exists>xs. v = JArr xs \<and> json_elems n q = Some (xs, r))"
      by (auto split: if_splits)
    with assms(3) w skip_ws_wide [OF d] show ?thesis by auto
  next
    case 3
    obtain d q' where d: "skip_ws q = d # q'" using assms(1) q 3 by (cases "skip_ws q") auto
    with assms(1) q 3 have "v = JObj [] \<and> r = q' \<or> (\<exists>ps. v = JObj ps \<and> json_members n [] q = Some (ps, r))"
      by (auto split: if_splits)
    with assms(4) w skip_ws_wide [OF d] show ?thesis by auto
  next
    case 4
    with assms(1) q have "(\<exists>b. v = JBool b) \<or> v = JNull \<or> (\<exists>x. v = JNum x)"
      by (auto split: if_splits)
    moreover have "(\<exists>l. eat_lit l (c # q) = Some r) \<or> (\<exists>t. number_token (c # q) = Some (t, r))"
      using assms(1) q 4 by (auto split: if_splits)
    ultimately show ?thesis using w lits by auto
  qed
qed

lemma json_elems_wide_step:
  assumes "json_elems (Suc n) s = Some (xs, r)" and "wide s"
    and "\<And>s v r. json_value n s = Some (v, r) \<Longrightarrow> wide s \<Longrightarrow> json_wide v \<and> wide r"
    and "\<And>s xs r. json_elems n s = Some (xs, r) \<Longrightarrow> wide s \<Longrightarrow> json_wide (JArr xs) \<and> wide r"
  shows "json_wide (JArr xs) \<and> wide r"
proof -
  obtain x q where x: "json_value n s = Some (x, q)" using assms(1) by (auto split: option.splits)
  obtain d q' where d: "skip_ws q = d # q'" using assms(1) x by (cases "skip_ws q") auto
  have "xs = [x] \<and> r = q' \<or> (\<exists>ys. xs = x # ys \<and> json_elems n q' = Some (ys, r))"
    using assms(1) x d by (auto split: if_splits)
  with assms(3) [OF x assms(2)] assms(4) [of q' _ r] skip_ws_wide [OF d] show ?thesis by auto
qed

lemma json_members_wide_step:
  assumes m: "json_members (Suc n) acc s = Some (ps, r)" and s: "wide s" and acc: "json_wide (JObj acc)"
    and val: "\<And>s v r. json_value n s = Some (v, r) \<Longrightarrow> wide s \<Longrightarrow> json_wide v \<and> wide r"
    and mem: "\<And>acc s ps r. json_members n acc s = Some (ps, r) \<Longrightarrow> wide s \<Longrightarrow> json_wide (JObj acc) \<Longrightarrow>
      json_wide (JObj ps) \<and> wide r"
  shows "json_wide (JObj ps) \<and> wide r"
proof -
  obtain q where q: "skip_ws s = 34 # q" using m by (cases "skip_ws s") (auto split: if_splits)
  then obtain k q1 where k: "json_chars q = Some (k, q1)" using m by (auto split: option.splits)
  then obtain q2 where q2: "skip_ws q1 = 58 # q2"
    using m q by (cases "skip_ws q1") (auto split: if_splits)
  then obtain v q3 where v: "json_value n q2 = Some (v, q3)" using m q k by (auto split: option.splits)
  then obtain e q4 where q4: "skip_ws q3 = e # q4" using m q k q2 by (cases "skip_ws q3") auto
  have kw: "wide k" "wide q1" using json_chars_wide [OF k] skip_ws_wide [OF q s] by auto
  then have vw: "json_wide v" "wide q3" using val [OF v] skip_ws_wide [OF q2] by auto
  have "ps = AList.update k v acc \<and> r = q4 \<or> json_members n (AList.update k v acc) q4 = Some (ps, r)"
    using m q k q2 v q4 by (auto split: if_splits)
  then show ?thesis
    using mem [of "AList.update k v acc" q4 ps r] update_wide [OF acc kw(1) vw(1)] skip_ws_wide [OF q4 vw(2)]
    by blast
qed

lemma json_value_wide_all:
  "(\<forall>s v r. json_value n s = Some (v, r) \<longrightarrow> wide s \<longrightarrow> json_wide v \<and> wide r) \<and>
   (\<forall>s xs r. json_elems n s = Some (xs, r) \<longrightarrow> wide s \<longrightarrow> json_wide (JArr xs) \<and> wide r) \<and>
   (\<forall>acc s ps r. json_members n acc s = Some (ps, r) \<longrightarrow> wide s \<longrightarrow> json_wide (JObj acc) \<longrightarrow>
      json_wide (JObj ps) \<and> wide r)"
proof (induction n)
  case (Suc n)
  then have val: "\<And>s v r. json_value n s = Some (v, r) \<Longrightarrow> wide s \<Longrightarrow> json_wide v \<and> wide r"
    and elems: "\<And>s xs r. json_elems n s = Some (xs, r) \<Longrightarrow> wide s \<Longrightarrow> json_wide (JArr xs) \<and> wide r"
    and members: "\<And>acc s ps r. json_members n acc s = Some (ps, r) \<Longrightarrow> wide s \<Longrightarrow> json_wide (JObj acc) \<Longrightarrow>
      json_wide (JObj ps) \<and> wide r"
    by blast+
  have mem0: "\<And>s ps r. json_members n [] s = Some (ps, r) \<Longrightarrow> wide s \<Longrightarrow> json_wide (JObj ps) \<and> wide r"
    using members by fastforce
  have "\<And>s v r. json_value (Suc n) s = Some (v, r) \<Longrightarrow> wide s \<Longrightarrow> json_wide v \<and> wide r"
    by (rule json_value_wide_step) (assumption | erule (1) elems mem0)+
  moreover have "\<And>s xs r. json_elems (Suc n) s = Some (xs, r) \<Longrightarrow> wide s \<Longrightarrow> json_wide (JArr xs) \<and> wide r"
    by (rule json_elems_wide_step) (assumption | erule (1) val elems)+
  moreover have "\<And>acc s ps r. json_members (Suc n) acc s = Some (ps, r) \<Longrightarrow> wide s \<Longrightarrow> json_wide (JObj acc) \<Longrightarrow>
      json_wide (JObj ps) \<and> wide r"
    by (rule json_members_wide_step) (assumption | erule (1) val | erule (2) members)+
  ultimately show ?case by blast
qed simp

theorem json_parse_wide: "json_parse s = Some v \<Longrightarrow> wide s \<Longrightarrow> json_wide v"
proof -
  assume "json_parse s = Some v" "wide s"
  then obtain r where "json_value (Suc (2 * length s)) s = Some (v, r)"
    unfolding json_parse_def by (auto simp del: json_value.simps split: option.splits if_splits)
  with \<open>wide s\<close> show ?thesis using json_value_wide_all [of "Suc (2 * length s)"] by blast
qed

section \<open>Units of a printed text\<close>

lemma wide_js [simp]: "wide (js s)"
  by (auto simp: wide_def js_def intro: order.strict_trans [of _ 256])

lemma js_not_index: "s = [] \<or> \<not> is_digit (of_char (hd s)) \<Longrightarrow> \<not> is_index_key (js s)"
  by (cases s) (auto simp: is_index_key_def js_lit)

lemma wide_take [simp]: "wide s \<Longrightarrow> wide (take n s)"
  by (auto simp: wide_def dest: in_set_takeD)

lemma wide_drop [simp]: "wide s \<Longrightarrow> wide (drop n s)"
  by (auto simp: wide_def dest: in_set_dropD)

lemma wide_replicate [simp]: "c < 65536 \<Longrightarrow> wide (replicate n c)"
  by (simp add: wide_def)

lemma wide_nat_str [simp]: "wide (nat_str n)"
  using nat_str_digits [of n] by (auto simp: wide_def is_digit_def)

lemma wide_num_str [simp]: "wide (num_str x)"
proof -
  have "wide (pos_num_str r)" for r
    by (simp add: pos_num_str_def format_digits_def Let_def split: prod.split)
  then show ?thesis by (cases x) (simp_all add: num_str_def int_str_def)
qed

lemma wide_unicode_escape [simp]: "wide (unicode_escape c)"
proof -
  have "hex_digit d < 65536" if "d < 16" for d using that by (simp add: hex_digit_def)
  then show ?thesis by (simp add: unicode_escape_def)
qed

lemma short_escape_wide: "short_escape c = Some e \<Longrightarrow> e < 65536"
  by (auto simp: short_escape_def split: if_splits)

lemma wide_quote_units: "wide s \<Longrightarrow> wide (quote_units s)"
proof (induction s rule: length_induct)
  case (1 s)
  show ?case
  proof (cases s)
    case (Cons c u)
    with 1 have u: "wide (quote_units u)" and c: "c < 65536" by auto
    show ?thesis
    proof (cases u)
      case Nil
      with Cons c show ?thesis by (auto split: option.split dest: short_escape_wide)
    next
      case (Cons d v)
      have "wide (quote_units v)" "d < 65536" using 1 \<open>s = c # u\<close> Cons by auto
      then show ?thesis using u c unfolding \<open>s = c # u\<close> quote_units.simps(2) [of c u]
        by (simp add: Cons short_escape_wide del: quote_units.simps split: option.split)
    qed
  qed simp
qed

lemma wide_join: "wide sep \<Longrightarrow> \<forall>w \<in> set ws. wide w \<Longrightarrow> wide (join sep ws)"
  by (induction sep ws rule: join.induct) auto

lemma wide_bracketed:
  assumes "l < 65536" "r < 65536" "\<forall>w \<in> set ws. wide w"
  shows "wide (bracketed gap ind l ws r)"
  using assms wide_join [of "44 # newline gap (ind + gap)" ws] by (simp add: bracketed_def newline_def)

theorem json_text_wide: "json_wide v \<Longrightarrow> wide (json_text gap ind v)"
proof (induction v arbitrary: ind)
  case (JArr xs)
  then show ?case by (auto intro!: wide_bracketed)
next
  case (JObj ps)
  have "wide (quote_units (fst p)) \<and> (\<forall>i. wide (json_text gap i (snd p)))" if "p \<in> set ps" for p
    using JObj that by (cases p) (fastforce simp: snds.simps wide_quote_units)
  then show ?case by (simp add: wide_bracketed json_quote_def)
qed (simp_all add: json_quote_def wide_quote_units)

end
