(* ===== verification/Js_Values.thy ===== *)
theory Js_Values
  imports Json_Roundtrip
begin

text \<open>
  What the sources do with a JSON value: write one as a literal, read a property of it, convert
  it to a string or to a number. A conversion throws a \<open>TypeError\<close> on an object whose
  \<open>toString\<close> is shadowed by a value of the parsed text.
\<close>

section \<open>Writing JSON values\<close>

definition jobj :: "(string \<times> json) list \<Rightarrow> json" where
  "jobj ps = JObj (map (\<lambda>(k, v). (js k, v)) ps)"

definition jstr :: "string \<Rightarrow> json" where
  "jstr s = JStr (js s)"

definition jint :: "int \<Rightarrow> json" where
  "jint i = JNum (Fin (of_int i))"

definition opt_prop :: "string \<Rightarrow> ('a \<Rightarrow> json) \<Rightarrow> 'a option \<Rightarrow> (jsstr \<times> json) list" where
  "opt_prop k f x = (case x of None \<Rightarrow> [] | Some y \<Rightarrow> [(js k, f y)])"

section \<open>Reading properties\<close>

text \<open>The property of a value that is not null; only an object has the keys in question.\<close>

definition prop_of :: "string \<Rightarrow> json \<Rightarrow> json option" where
  "prop_of k v = (case v of JObj ps \<Rightarrow> map_of ps (js k) | _ \<Rightarrow> None)"

lemma map_of_opt_prop:
  "map_of (opt_prop k f x) (js k') = (if k = k' then map_option f x else None)"
  by (auto simp: opt_prop_def inj_js split: option.split)

lemma prop_wide: "json_wide v \<Longrightarrow> prop_of k v = Some x \<Longrightarrow> json_wide x"
  by (cases v) (fastforce simp: prop_of_def dest: map_of_SomeD)+

lemma wide_trim: "wide s \<Longrightarrow> wide (trim s)"
  using set_trim by (rule wide_subset)

lemma printable_jobj:
  "printable (jobj ps) \<longleftrightarrow> distinct (map fst ps) \<and>
     (\<forall>p \<in> set ps. \<not> is_index_key (js (fst p)) \<and> printable (snd p))"
proof -
  have "distinct (map (\<lambda>p. js (fst p)) ps) \<longleftrightarrow> distinct (map fst ps)"
    by (simp add: distinct_map inj_on_def inj_js)
  then show ?thesis by (simp add: jobj_def case_prod_unfold o_def)
qed

section \<open>Conversions\<close>

text \<open>Conversion to a string fails on an object whose \<open>toString\<close> is shadowed by a value.\<close>

fun str_throws :: "json \<Rightarrow> bool" where
  "str_throws (JObj ps) = (js ''toString'' \<in> fst ` set ps)"
| "str_throws (JArr xs) = (\<exists>x \<in> set xs. str_throws x)"
| "str_throws _ = False"

text \<open>\<open>Number(v)\<close>; \<open>None\<close> is the \<open>TypeError\<close>.\<close>

definition number_of :: "json option \<Rightarrow> jsnum option" where
  "number_of v =
     (case v of
        None \<Rightarrow> Some NaN
      | Some JNull \<Rightarrow> Some (Fin 0)
      | Some (JBool b) \<Rightarrow> Some (if b then Fin 1 else Fin 0)
      | Some (JNum x) \<Rightarrow> Some x
      | Some (JStr s) \<Rightarrow> Some (to_number s)
      | Some w \<Rightarrow> if str_throws w then None else Some (to_number (json_string w)))"

text \<open>\<open>String(v)\<close>; \<open>None\<close> is the \<open>TypeError\<close>.\<close>

definition string_of :: "json \<Rightarrow> jsstr option" where
  "string_of v = (if str_throws v then None else Some (json_string v))"

end
