(* ===== verification/Advanced_Custom_Text.thy ===== *)
theory Advanced_Custom_Text
  imports Advanced_Custom Js_Values
begin

text \<open>
  The JSON text of an advanced custom configuration (\<open>parseAdvancedCustomConfig\<close>,
  \<open>stringifyAdvancedCustomConfig\<close> and the statistics over a text in
  \<open>src/web/default/src/features/channels/lib/advanced-custom.ts\<close>). A parsed text has any
  JSON value at any place: an access that throws a \<open>TypeError\<close> is caught and makes the text
  invalid, a value of another type than the declared one that passes the normalisation is
  reported as \<open>Mistyped\<close>.
\<close>

section \<open>Reading values\<close>

text \<open>What becomes of a value where a string, a list or an object is expected.\<close>

datatype 'a cell = Throws | Wrong | Good 'a

text \<open>Two parts of one value: a thrown error of either part wins over a wrong type.\<close>

fun both :: "'a cell \<Rightarrow> 'b cell \<Rightarrow> ('a \<times> 'b) cell" where
  "both (Good x) (Good y) = Good (x, y)"
| "both Throws y = Throws"
| "both x Throws = Throws"
| "both x y = Wrong"

fun cells :: "'a cell list \<Rightarrow> 'a list cell" where
  "cells [] = Good []"
| "cells (x # xs) = map_cell (\<lambda>(y, ys). y # ys) (both x (cells xs))"

text \<open>\<open>x || d\<close> where a string is declared: a falsy value is replaced, another truthy one stays.\<close>

definition text_field :: "json option \<Rightarrow> jsstr option cell" where
  "text_field f =
     (case f of
        None \<Rightarrow> Good None
      | Some v \<Rightarrow> (case v of JStr s \<Rightarrow> Good (Some s) | _ \<Rightarrow> if json_truthy v then Wrong else Good None))"

text \<open>\<open>(x || '').trim()\<close>: a truthy value that is no string has no method \<open>trim\<close>.\<close>

definition trimmed_field :: "json option \<Rightarrow> jsstr option cell" where
  "trimmed_field f =
     (case f of
        None \<Rightarrow> Good None
      | Some v \<Rightarrow> (case v of JStr s \<Rightarrow> Good (Some s) | _ \<Rightarrow> if json_truthy v then Throws else Good None))"

text \<open>\<open>models.map((model) => model.trim())\<close> after \<open>Array.isArray\<close>.\<close>

definition models_field :: "json option \<Rightarrow> jsstr list option cell" where
  "models_field f =
     (case f of
        Some (JArr xs) \<Rightarrow> map_cell Some (cells (map (\<lambda>x. case x of JStr s \<Rightarrow> Good s | _ \<Rightarrow> Throws) xs))
      | _ \<Rightarrow> Good None)"

text \<open>The type of an authentication is copied without a default.\<close>

definition type_field :: "json option \<Rightarrow> jsstr option cell" where
  "type_field f =
     (case f of None \<Rightarrow> Good None | Some v \<Rightarrow> (case v of JStr s \<Rightarrow> Good (Some s) | _ \<Rightarrow> Wrong))"

definition auth_field :: "json option \<Rightarrow> RouteAuth option cell" where
  "auth_field f =
     (case f of
        None \<Rightarrow> Good None
      | Some v \<Rightarrow>
          if \<not> json_truthy v then Good None
          else map_cell (\<lambda>(t, n, x). Some \<lparr>auth_type = t, auth_name = n, auth_value = x\<rparr>)
            (both (type_field (prop_of ''type'' v))
              (both (text_field (prop_of ''name'' v)) (text_field (prop_of ''value'' v)))))"

definition route_of_json :: "json \<Rightarrow> Route cell" where
  "route_of_json v =
     (if v = JNull then Throws
      else map_cell (\<lambda>(i, u, c, m, a). \<lparr>rt_incoming_path = i, rt_upstream_path = u, rt_converter = c,
          rt_models = m, rt_auth = a\<rparr>)
        (both (text_field (prop_of ''incoming_path'' v))
          (both (trimmed_field (prop_of ''upstream_path'' v))
            (both (text_field (prop_of ''converter'' v))
              (both (models_field (prop_of ''models'' v)) (auth_field (prop_of ''auth'' v)))))))"

definition config_of_json :: "json \<Rightarrow> AdvancedCustomConfig cell" where
  "config_of_json v =
     (case prop_of ''advanced_routes'' v of
        Some (JArr xs) \<Rightarrow> map_cell (\<lambda>rs. \<lparr>advanced_routes = Some rs\<rparr>) (cells (map route_of_json xs))
      | _ \<Rightarrow> Good \<lparr>advanced_routes = None\<rparr>)"

section \<open>Parsing and printing\<close>

datatype parsed = Invalid | Mistyped | Config AdvancedCustomConfig

definition parseAdvancedCustomConfig :: "jsstr option \<Rightarrow> parsed" where
  "parseAdvancedCustomConfig v =
     (case v of
        None \<Rightarrow> Invalid
      | Some text \<Rightarrow>
          if trim text = [] then Invalid
          else (case json_parse text of
             Some (JObj ps) \<Rightarrow>
               (case config_of_json (JObj ps) of
                  Throws \<Rightarrow> Invalid
                | Wrong \<Rightarrow> Mistyped
                | Good config \<Rightarrow> Config (normalizeAdvancedCustomConfig config))
           | _ \<Rightarrow> Invalid))"

definition auth_json :: "RouteAuth \<Rightarrow> json" where
  "auth_json a = JObj (opt_prop ''type'' JStr (auth_type a) @ opt_prop ''name'' JStr (auth_name a) @
     opt_prop ''value'' JStr (auth_value a))"

definition route_json :: "Route \<Rightarrow> json" where
  "route_json r = JObj (opt_prop ''incoming_path'' JStr (rt_incoming_path r) @
     opt_prop ''upstream_path'' JStr (rt_upstream_path r) @ opt_prop ''converter'' JStr (rt_converter r) @
     opt_prop ''models'' (\<lambda>ms. JArr (map JStr ms)) (rt_models r) @ opt_prop ''auth'' auth_json (rt_auth r))"

definition config_json :: "AdvancedCustomConfig \<Rightarrow> json" where
  "config_json c = JObj (opt_prop ''advanced_routes'' (\<lambda>rs. JArr (map route_json rs)) (advanced_routes c))"

text \<open>\<open>JSON.stringify(normalizeAdvancedCustomConfig(config), null, 2)\<close>.\<close>

definition stringifyAdvancedCustomConfig :: "AdvancedCustomConfig \<Rightarrow> jsstr" where
  "stringifyAdvancedCustomConfig config = json_text 2 0 (config_json (normalizeAdvancedCustomConfig config))"

text \<open>\<open>getAdvancedCustomStats(value)\<close>; \<open>None\<close> for a mistyped text, whose fields the statistics use as strings.\<close>

definition text_stats :: "(jsstr \<Rightarrow> (jsstr \<times> jsstr) option) \<Rightarrow> jsstr option \<Rightarrow> AdvancedCustomStats option" where
  "text_stats url v =
     (case parseAdvancedCustomConfig v of
        Invalid \<Rightarrow> Some (getAdvancedCustomStats url None)
      | Config c \<Rightarrow> Some (getAdvancedCustomStats url (Some c))
      | Mistyped \<Rightarrow> None)"

section \<open>Reading back\<close>

lemmas prop_simps = prop_of_def map_of_opt_prop map_add_def

lemma cells_Good [simp]: "cells (map Good xs) = Good xs"
  by (induction xs) auto

lemma text_field_JStr [simp]: "text_field (map_option JStr x) = Good x"
  by (cases x) (simp_all add: text_field_def)

lemma trimmed_field_JStr [simp]: "trimmed_field (map_option JStr x) = Good x"
  by (cases x) (simp_all add: trimmed_field_def)

lemma type_field_JStr [simp]: "type_field (map_option JStr x) = Good x"
  by (cases x) (simp_all add: type_field_def)

lemma models_field_JArr [simp]: "models_field (map_option (\<lambda>ms. JArr (map JStr ms)) x) = Good x"
  by (cases x) (simp_all add: models_field_def o_def)

lemma prop_auth:
  "prop_of ''type'' (auth_json a) = map_option JStr (auth_type a)"
  "prop_of ''name'' (auth_json a) = map_option JStr (auth_name a)"
  "prop_of ''value'' (auth_json a) = map_option JStr (auth_value a)"
  by (simp_all add: auth_json_def prop_simps split: option.split)

lemma auth_field_json [simp]: "auth_field (map_option auth_json a) = Good a"
proof (cases a)
  case (Some b)
  have "json_truthy (auth_json b)" by (simp add: auth_json_def)
  then show ?thesis by (simp add: Some auth_field_def prop_auth)
qed (simp add: auth_field_def)

lemma prop_route:
  "prop_of ''incoming_path'' (route_json r) = map_option JStr (rt_incoming_path r)"
  "prop_of ''upstream_path'' (route_json r) = map_option JStr (rt_upstream_path r)"
  "prop_of ''converter'' (route_json r) = map_option JStr (rt_converter r)"
  "prop_of ''models'' (route_json r) = map_option (\<lambda>ms. JArr (map JStr ms)) (rt_models r)"
  "prop_of ''auth'' (route_json r) = map_option auth_json (rt_auth r)"
  by (simp_all add: route_json_def prop_simps split: option.split)

lemma route_of_route_json [simp]: "route_of_json (route_json r) = Good r"
proof -
  have "route_json r \<noteq> JNull" by (simp add: route_json_def)
  then show ?thesis by (simp add: route_of_json_def prop_route)
qed

lemma config_of_config_json: "config_of_json (config_json c) = Good c"
proof (cases "advanced_routes c")
  case (Some rs)
  then show ?thesis 
    by (simp add: config_of_json_def config_json_def prop_simps o_def)
qed (simp add: config_of_json_def config_json_def prop_simps)

section \<open>Configurations of 16 bit strings\<close>

definition opt_wide :: "jsstr option \<Rightarrow> bool" where
  "opt_wide x = (case x of None \<Rightarrow> True | Some s \<Rightarrow> wide s)"

definition auth_wide :: "RouteAuth option \<Rightarrow> bool" where
  "auth_wide a = (case a of None \<Rightarrow> True
     | Some b \<Rightarrow> opt_wide (auth_type b) \<and> opt_wide (auth_name b) \<and> opt_wide (auth_value b))"

definition route_wide :: "Route \<Rightarrow> bool" where
  "route_wide r \<longleftrightarrow> opt_wide (rt_incoming_path r) \<and> opt_wide (rt_upstream_path r) \<and> opt_wide (rt_converter r) \<and>
     (case rt_models r of None \<Rightarrow> True | Some ms \<Rightarrow> \<forall>m \<in> set ms. wide m) \<and> auth_wide (rt_auth r)"

definition config_wide :: "AdvancedCustomConfig \<Rightarrow> bool" where
  "config_wide c \<longleftrightarrow> (\<forall>r \<in> set (config_routes c). route_wide r)"

lemmas wide_defs = opt_wide_def auth_wide_def route_wide_def config_wide_def

lemma printable_auth: "auth_wide (Some a) \<Longrightarrow> printable (auth_json a)"
  by (auto simp: auth_json_def opt_prop_def wide_defs inj_js js_not_index is_digit_def split: option.splits)

lemma printable_route: "route_wide r \<Longrightarrow> printable (route_json r)"
  using printable_auth [of "the (rt_auth r)"]
  by (auto simp: route_json_def opt_prop_def route_wide_def opt_wide_def inj_js js_not_index is_digit_def
      split: option.splits)

lemma printable_config: "config_wide c \<Longrightarrow> printable (config_json c)"
  by (auto simp: config_json_def opt_prop_def config_wide_def config_routes_def printable_route
      js_not_index is_digit_def split: option.splits)

lemma wide_opt_or: "opt_wide x \<Longrightarrow> wide d \<Longrightarrow> wide (opt_or x d)"
  by (auto simp: opt_wide_def opt_or_def str_or_def split: option.splits)

lemma opt_wide_Some [simp]: "opt_wide (Some s) = wide s" "opt_wide None"
  by (simp_all add: opt_wide_def)

lemma normalize_models_wide:
  "(case ms of None \<Rightarrow> True | Some ws \<Rightarrow> \<forall>m \<in> set ws. wide m) \<Longrightarrow>
   \<forall>m \<in> set (normalizeAdvancedCustomRouteModels ms). wide m"
  by (auto simp: normalizeAdvancedCustomRouteModels_def truthy_strs_def wide_trim split: option.splits)

lemma normalize_route_wide:
  assumes "route_wide r"
  shows "route_wide (normalizeAdvancedCustomRoute r)"
proof -
  have "auth_wide (rt_auth (normalizeAdvancedCustomRoute r))"
    using assms by (cases "rt_auth r")
      (simp_all add: normalizeAdvancedCustomRoute_def Let_def route_wide_def auth_wide_def wide_opt_or)
  then show ?thesis
    using assms normalize_models_wide [of "rt_models r"]
    by (simp add: normalizeAdvancedCustomRoute_def Let_def route_wide_def wide_opt_or wide_trim CV_NONE_def
        getAdvancedCustomRouteUpstreamPath_def)
qed

lemma normalize_idem: "normalizeAdvancedCustomConfig (normalizeAdvancedCustomConfig c) = normalizeAdvancedCustomConfig c"
  by (simp add: normalizeAdvancedCustomConfig_def normalize_route_idem split: option.splits)

lemma config_routes_normalize:
  "config_routes (normalizeAdvancedCustomConfig c) = map normalizeAdvancedCustomRoute (config_routes c)"
  by (simp add: normalizeAdvancedCustomConfig_def config_routes_def split: option.split)

lemma normalize_config_wide: "config_wide c \<Longrightarrow> config_wide (normalizeAdvancedCustomConfig c)"
  by (auto simp: config_wide_def config_routes_normalize normalize_route_wide)

section \<open>Strings of a parsed configuration\<close>

lemma both_Good: "both x y = Good z \<longleftrightarrow> x = Good (fst z) \<and> y = Good (snd z)"
  by (cases x; cases y; cases z) auto

lemma map_cell_Good: "map_cell f x = Good y \<longleftrightarrow> (\<exists>z. x = Good z \<and> y = f z)"
  by (cases x) auto

lemma cells_eq_Good: "cells xs = Good ys \<longleftrightarrow> xs = map Good ys"
  by (induction xs arbitrary: ys) (auto simp: map_cell_Good both_Good Cons_eq_map_conv)

lemma field_wide:
  assumes "\<And>x. f = Some x \<Longrightarrow> json_wide x"
  shows "text_field f = Good s \<Longrightarrow> opt_wide s" "trimmed_field f = Good s \<Longrightarrow> opt_wide s"
    "type_field f = Good s \<Longrightarrow> opt_wide s"
  using assms by (auto simp: text_field_def trimmed_field_def type_field_def opt_wide_def
      split: option.splits json.splits if_splits)

lemma models_wide:
  assumes "\<And>x. f = Some x \<Longrightarrow> json_wide x" and "models_field f = Good (Some ms)"
  shows "\<forall>m \<in> set ms. wide m"
proof -
  obtain xs where xs: "f = Some (JArr xs)" "map (\<lambda>x. case x of JStr s \<Rightarrow> Good s | _ \<Rightarrow> Throws) xs = map Good ms"
    using assms(2) by (auto simp: models_field_def map_cell_Good cells_eq_Good split: option.splits json.splits)
  have "m \<in> set ms \<Longrightarrow> JStr m \<in> set xs" for m
  proof -
    assume "m \<in> set ms"
    then have "Good m \<in> set (map (\<lambda>x. case x of JStr s \<Rightarrow> Good s | _ \<Rightarrow> Throws) xs)" by (simp add: xs(2))
    then show ?thesis by (auto split: json.splits)
  qed
  with assms(1) xs(1) show ?thesis by fastforce
qed

lemma auth_field_wide:
  assumes "\<And>x. f = Some x \<Longrightarrow> json_wide x" and "auth_field f = Good a"
  shows "auth_wide a"
proof (cases "a = None")
  case False
  then obtain v b where v: "f = Some v" "a = Some b"
      "type_field (prop_of ''type'' v) = Good (auth_type b)"
      "text_field (prop_of ''name'' v) = Good (auth_name b)"
      "text_field (prop_of ''value'' v) = Good (auth_value b)"
    using assms(2) by (auto simp: auth_field_def map_cell_Good both_Good split: option.splits if_splits)
  have "json_wide v" using assms(1) v(1) by blast
  then have p: "\<And>k x. prop_of k v = Some x \<Longrightarrow> json_wide x" using prop_wide by blast
  show ?thesis
    using field_wide(3) [OF p v(3)] field_wide(1) [OF p v(4)] field_wide(1) [OF p v(5)]
    by (simp add: auth_wide_def v(2))
qed (simp add: auth_wide_def)

lemma route_of_json_wide:
  assumes "json_wide v" and "route_of_json v = Good r"
  shows "route_wide r"
proof -
  have p: "\<And>k x. prop_of k v = Some x \<Longrightarrow> json_wide x" using prop_wide assms(1) by blast
  have r: "text_field (prop_of ''incoming_path'' v) = Good (rt_incoming_path r)"
      "trimmed_field (prop_of ''upstream_path'' v) = Good (rt_upstream_path r)"
      "text_field (prop_of ''converter'' v) = Good (rt_converter r)"
      "models_field (prop_of ''models'' v) = Good (rt_models r)"
      "auth_field (prop_of ''auth'' v) = Good (rt_auth r)"
    using assms(2) by (auto simp: route_of_json_def map_cell_Good both_Good split: if_splits)
  have "rt_models r = Some ms \<Longrightarrow> \<forall>m \<in> set ms. wide m" for ms
    using models_wide [OF p] r(4) by simp
  then show ?thesis
    using field_wide(1) [OF p r(1)] field_wide(2) [OF p r(2)] field_wide(1) [OF p r(3)] auth_field_wide [OF p r(5)]
    by (simp add: route_wide_def split: option.split)
qed

lemma config_of_json_wide:
  assumes "json_wide v" and "config_of_json v = Good c"
  shows "config_wide c"
proof (cases "advanced_routes c")
  case (Some rs)
  then obtain xs where xs: "prop_of ''advanced_routes'' v = Some (JArr xs)" "map route_of_json xs = map Good rs"
    using assms(2) by (auto simp: config_of_json_def map_cell_Good cells_eq_Good split: option.splits json.splits)
  have "\<forall>x \<in> set xs. json_wide x" using prop_wide [OF assms(1) xs(1)] by simp
  moreover have "r \<in> set rs \<Longrightarrow> \<exists>x \<in> set xs. route_of_json x = Good r" for r
    using xs(2) by (metis (no_types, lifting) image_iff image_set)
  ultimately show ?thesis using route_of_json_wide Some
    by (fastforce simp: config_wide_def config_routes_def)
qed (simp add: config_wide_def config_routes_def)

lemma parsed_config_wide:
  assumes "parseAdvancedCustomConfig (Some text) = Config c" and "wide text"
  shows "config_wide c \<and> normalizeAdvancedCustomConfig c = c"
proof -
  obtain ps d where "json_parse text = Some (JObj ps)" "config_of_json (JObj ps) = Good d"
      "c = normalizeAdvancedCustomConfig d"
    using assms(1) by (auto simp: parseAdvancedCustomConfig_def split: if_splits option.splits json.splits cell.splits)
  then show ?thesis
    using config_of_json_wide json_parse_wide assms(2) normalize_config_wide normalize_idem by blast
qed

section \<open>Round trip\<close>

lemma config_text_roundtrip_plain:
  assumes "config_wide c"
  shows "parseAdvancedCustomConfig (Some (stringifyAdvancedCustomConfig c)) = Config (normalizeAdvancedCustomConfig c)"
proof -
  let ?n = "normalizeAdvancedCustomConfig c"
  have "json_parse (stringifyAdvancedCustomConfig c) = Some (config_json ?n)"
    unfolding stringifyAdvancedCustomConfig_def
    by (rule json_text_roundtrip [OF printable_config [OF normalize_config_wide [OF assms]]])
  moreover have "trim (stringifyAdvancedCustomConfig c) \<noteq> []"
    using bracketed_head [of 2 0 123 _ 125]
    by (auto simp: stringifyAdvancedCustomConfig_def config_json_def trim_eq_Nil is_ws_def bracketed_def)
  moreover obtain ps where "config_json ?n = JObj ps" by (simp add: config_json_def)
  ultimately show ?thesis
    using config_of_config_json [of ?n] by (simp add: parseAdvancedCustomConfig_def normalize_idem)
qed

lemma config_text_wide: "config_wide c \<Longrightarrow> wide (stringifyAdvancedCustomConfig c)"
proof -
  assume "config_wide c"
  then have c: "config_wide (normalizeAdvancedCustomConfig c)" by (rule normalize_config_wide)
  have auth: "auth_wide (Some a) \<Longrightarrow> json_wide (auth_json a)" for a
    by (auto simp: auth_json_def opt_prop_def wide_defs split: option.splits)
  have route: "route_wide r \<Longrightarrow> json_wide (route_json r)" for r
    by (cases "rt_auth r") (auto simp: route_json_def opt_prop_def route_wide_def opt_wide_def auth split: option.splits)
  have "json_wide (config_json (normalizeAdvancedCustomConfig c))"
    using c route by (cases "advanced_routes (normalizeAdvancedCustomConfig c)")
      (auto simp: config_json_def opt_prop_def config_wide_def config_routes_def)
  then show ?thesis unfolding stringifyAdvancedCustomConfig_def by (rule json_text_wide)
qed

text \<open>\<open>JSON.parse(JSON.stringify(config))\<close> copies a configuration, as \<open>cloneAdvancedCustomConfig\<close> needs.\<close>

lemma clone_through_json:
  "config_wide c \<Longrightarrow> map_option config_of_json (json_parse (json_stringify (config_json c))) = Some (Good c)"
  by (simp add: json_roundtrip printable_config config_of_config_json)

text \<open>C25: The text written for a configuration is read back as its normal form, which has the same
  text: saving and opening again changes nothing.\<close>

theorem config_text_roundtrip:
  assumes "config_wide c"
  shows "parseAdvancedCustomConfig (Some (stringifyAdvancedCustomConfig c)) = Config (normalizeAdvancedCustomConfig c) \<and>
    stringifyAdvancedCustomConfig (normalizeAdvancedCustomConfig c) = stringifyAdvancedCustomConfig c"
  using config_text_roundtrip_plain [OF assms] by (simp add: stringifyAdvancedCustomConfig_def normalize_idem)

lemma config_text_roundtrip_witness:
  "config_wide createAdvancedCustomConfig \<and>
   parseAdvancedCustomConfig (Some (stringifyAdvancedCustomConfig createAdvancedCustomConfig)) =
     Config (normalizeAdvancedCustomConfig createAdvancedCustomConfig)"
proof -
  have "config_wide createAdvancedCustomConfig"
    by (simp add: createAdvancedCustomConfig_def createAdvancedCustomRoute_def wide_defs config_routes_def openAIChatPath_def)
  with config_text_roundtrip show ?thesis by blast
qed

end
