(* ===== verification/Advanced_Custom_Editor.thy ===== *)
theory Advanced_Custom_Editor
  imports Advanced_Custom_Text
begin

text \<open>
  The editor dialog of advanced custom channels
  (\<open>src/web/default/src/features/channels/components/dialogs/advanced-custom-editor-dialog.tsx\<close>):
  its state, the rows and groups it shows, and its handlers as functions of the state the dialog
  was last rendered with. A handler that meets a mistyped JSON text (\<open>Mistyped\<close>) has no result here.
\<close>

section \<open>Rows and groups\<close>

record RouteRow =
  rr_route :: Route
  rr_key :: jsstr
  rr_index :: nat

record RouteGroup =
  rg_incomingPath :: jsstr
  rg_routeRows :: "RouteRow list"

definition catchAllOrderErrorMessage :: message where
  "catchAllOrderErrorMessage = CatchAllLast"

definition getOptionLabel :: "(jsstr \<times> jsstr) list \<Rightarrow> jsstr \<Rightarrow> jsstr" where
  "getOptionLabel options v = opt_or (map_of options v) v"

definition getRouteIncomingPath :: "Route \<Rightarrow> jsstr" where
  "getRouteIncomingPath route = trim (opt_or (rt_incoming_path route) [])"

definition isCatchAllRoute :: "Route \<Rightarrow> bool" where
  "isCatchAllRoute route = (case rt_models route of None \<Rightarrow> True | Some ms \<Rightarrow> length ms = 0)"

definition row_path :: "RouteRow \<Rightarrow> jsstr" where
  "row_path row = getRouteIncomingPath (rr_route row)"

text \<open>The loop of \<open>buildRouteGroups\<close>: the map holds the groups of the list.\<close>

fun add_to_route_group :: "RouteRow \<Rightarrow> RouteGroup list \<Rightarrow> RouteGroup list" where
  "add_to_route_group row [] = [\<lparr>rg_incomingPath = row_path row, rg_routeRows = [row]\<rparr>]"
| "add_to_route_group row (g # gs) =
     (if rg_incomingPath g = row_path row then g\<lparr>rg_routeRows := rg_routeRows g @ [row]\<rparr> # gs
      else g # add_to_route_group row gs)"

definition buildRouteGroups :: "RouteRow list \<Rightarrow> RouteGroup list" where
  "buildRouteGroups routeRows = fold add_to_route_group routeRows []"

section \<open>State\<close>

datatype edit_mode = Visual | JsonText

datatype json_error = InvalidJson | ConfigError message

datatype toast = FixJsonErrors | ToastError message

text \<open>
  The React state, the counter of the route keys, and what the dialog has told its parent: the
  saved texts (\<open>onSave\<close>), whether it is still open (\<open>onOpenChange\<close>) and the shown toasts.
\<close>

record Editor =
  ed_config :: AdvancedCustomConfig
  ed_routeKeys :: "jsstr list"
  ed_keyCounter :: nat
  ed_editMode :: edit_mode
  ed_jsonText :: jsstr
  ed_jsonError :: "json_error option"
  ed_templateKey :: jsstr
  ed_saved :: "jsstr list"
  ed_open :: bool
  ed_toasts :: "toast list"

definition initial_key :: "nat \<Rightarrow> jsstr" where
  "initial_key i = js ''advanced-custom-route-initial-'' @ nat_str i"

definition route_key :: "nat \<Rightarrow> jsstr" where
  "route_key n = js ''advanced-custom-route-'' @ nat_str n"

definition first_template :: jsstr where
  "first_template = opt_or (case ADVANCED_CUSTOM_TEMPLATE_OPTIONS of [] \<Rightarrow> None | t # _ \<Rightarrow> Some (tpl_value t)) []"

definition initial_editor :: "jsstr \<Rightarrow> Editor option" where
  "initial_editor v =
     (case (case parseAdvancedCustomConfig (Some v) of
              Invalid \<Rightarrow> Some createAdvancedCustomConfig | Config c \<Rightarrow> Some c | Mistyped \<Rightarrow> None) of
        None \<Rightarrow> None
      | Some c \<Rightarrow> Some
          \<lparr>ed_config = c,
           ed_routeKeys = map initial_key [0..<length (config_routes (normalizeAdvancedCustomConfig c))],
           ed_keyCounter = 0, ed_editMode = Visual, ed_jsonText = stringifyAdvancedCustomConfig c,
           ed_jsonError = None, ed_templateKey = first_template, ed_saved = [], ed_open = True, ed_toasts = []\<rparr>)"

text \<open>The values computed for a rendering.\<close>

definition normalizedConfig :: "Editor \<Rightarrow> AdvancedCustomConfig" where
  "normalizedConfig st = normalizeAdvancedCustomConfig (ed_config st)"

definition routes_of :: "Editor \<Rightarrow> Route list" where
  "routes_of st = config_routes (normalizedConfig st)"

definition row_key :: "jsstr list \<Rightarrow> nat \<Rightarrow> Route \<Rightarrow> jsstr" where
  "row_key keys index route =
     opt_or (if index < length keys then Some (keys ! index) else None)
       (opt_or (rt_incoming_path route) (opt_or (rt_upstream_path route)
         (opt_or (rt_converter route) (js ''advanced-custom-route''))))"

definition routeRows :: "Editor \<Rightarrow> RouteRow list" where
  "routeRows st =
     map (\<lambda>(index, route). \<lparr>rr_route = route, rr_key = row_key (ed_routeKeys st) index route, rr_index = index\<rparr>)
       (enumerate 0 (routes_of st))"

definition routeGroups :: "Editor \<Rightarrow> RouteGroup list" where
  "routeGroups st = buildRouteGroups (routeRows st)"

definition validationError :: "(jsstr \<Rightarrow> (jsstr \<times> jsstr) option) \<Rightarrow> Editor \<Rightarrow> ValidationError option" where
  "validationError url st = validateAdvancedCustomConfig url (Some (normalizedConfig st))"

definition canFixCatchAllOrder :: "(jsstr \<Rightarrow> (jsstr \<times> jsstr) option) \<Rightarrow> Editor \<Rightarrow> bool" where
  "canFixCatchAllOrder url st = (map_option ve_message (validationError url st) = Some catchAllOrderErrorMessage)"

section \<open>Changing the routes\<close>

definition createRouteKey :: "Editor \<Rightarrow> jsstr \<times> Editor" where
  "createRouteKey st = (let n = ed_keyCounter st + 1 in (route_key n, st\<lparr>ed_keyCounter := n\<rparr>))"

fun createRouteKeys :: "nat \<Rightarrow> Editor \<Rightarrow> jsstr list \<times> Editor" where
  "createRouteKeys 0 st = ([], st)"
| "createRouteKeys (Suc n) st =
     (let (k, st') = createRouteKey st; (ks, st'') = createRouteKeys n st' in (k # ks, st''))"

record RoutePatch =
  rp_incoming_path :: "jsstr option"
  rp_upstream_path :: "jsstr option"
  rp_converter :: "jsstr option"
  rp_models :: "jsstr list option"
  rp_auth :: "RouteAuth option option"

definition empty_patch :: RoutePatch where
  "empty_patch = \<lparr>rp_incoming_path = None, rp_upstream_path = None, rp_converter = None, rp_models = None,
     rp_auth = None\<rparr>"

text \<open>\<open>{ ...route, ...patch }\<close>\<close>

definition apply_patch :: "RoutePatch \<Rightarrow> Route \<Rightarrow> Route" where
  "apply_patch p r =
     \<lparr>rt_incoming_path = (case rp_incoming_path p of None \<Rightarrow> rt_incoming_path r | Some x \<Rightarrow> Some x),
      rt_upstream_path = (case rp_upstream_path p of None \<Rightarrow> rt_upstream_path r | Some x \<Rightarrow> Some x),
      rt_converter = (case rp_converter p of None \<Rightarrow> rt_converter r | Some x \<Rightarrow> Some x),
      rt_models = (case rp_models p of None \<Rightarrow> rt_models r | Some x \<Rightarrow> Some x),
      rt_auth = (case rp_auth p of None \<Rightarrow> rt_auth r | Some x \<Rightarrow> x)\<rparr>"

definition set_routes :: "Route list \<Rightarrow> Editor \<Rightarrow> Editor" where
  "set_routes rs st = st\<lparr>ed_config := \<lparr>advanced_routes = Some rs\<rparr>\<rparr>"

text \<open>The rows call \<open>updateRoute\<close> with their own index, which is in range.\<close>

definition updateRoute :: "nat \<Rightarrow> RoutePatch \<Rightarrow> Editor \<Rightarrow> Editor" where
  "updateRoute index patch st =
     (let nextRoutes = routes_of st in
      set_routes (nextRoutes[index := apply_patch patch (nextRoutes ! index)]) st)"

definition replaceRoutes :: "Route list \<Rightarrow> jsstr list \<Rightarrow> Editor \<Rightarrow> Editor" where
  "replaceRoutes nextRoutes nextRouteKeys st = (set_routes nextRoutes st)\<lparr>ed_routeKeys := nextRouteKeys\<rparr>"

definition append_route :: "Route \<Rightarrow> Editor \<Rightarrow> Editor" where
  "append_route route st =
     (let st1 = set_routes (routes_of st @ [route]) st; (k, st2) = createRouteKey st1 in
      st2\<lparr>ed_routeKeys := ed_routeKeys st2 @ [k]\<rparr>)"

definition addRoute :: "Editor \<Rightarrow> Editor" where
  "addRoute st = append_route createAdvancedCustomRoute st"

definition addRouteForIncomingPath :: "jsstr \<Rightarrow> Editor \<Rightarrow> Editor" where
  "addRouteForIncomingPath incomingPath st =
     (let resolvedIncomingPath = str_or incomingPath (js ''/v1/chat/completions'') in
      append_route (createAdvancedCustomRoute\<lparr>rt_incoming_path := Some resolvedIncomingPath,
        rt_upstream_path := Some resolvedIncomingPath\<rparr>) st)"

definition remove_at :: "nat \<Rightarrow> 'a list \<Rightarrow> 'a list" where
  "remove_at i xs = take i xs @ drop (Suc i) xs"

definition insert_at :: "nat \<Rightarrow> 'a \<Rightarrow> 'a list \<Rightarrow> 'a list" where
  "insert_at i x xs = take i xs @ x # drop i xs"

text \<open>\<open>filter((_, routeIndex) => routeIndex !== index)\<close> drops one position.\<close>

definition removeRoute :: "nat \<Rightarrow> Editor \<Rightarrow> Editor" where
  "removeRoute index st = (set_routes (remove_at index (routes_of st)) st)
     \<lparr>ed_routeKeys := remove_at index (ed_routeKeys st)\<rparr>"

definition updateGroupIncomingPath :: "RouteGroup \<Rightarrow> jsstr option \<Rightarrow> Editor \<Rightarrow> Editor" where
  "updateGroupIncomingPath g nextIncomingPath st =
     (let resolvedIncomingPath = opt_or nextIncomingPath (js ''/v1/chat/completions'');
          groupRouteIndexes = set (map rr_index (rg_routeRows g));
          nextRoutes = map (\<lambda>(routeIndex, route).
            if routeIndex \<notin> groupRouteIndexes then route
            else (let converter = opt_or (rt_converter route) (js ''none'') in
              route\<lparr>rt_incoming_path := Some resolvedIncomingPath,
                rt_converter := Some (if isAdvancedCustomIncomingPathAllowed resolvedIncomingPath converter
                  then converter else js ''none'')\<rparr>)) (enumerate 0 (routes_of st)) in
      replaceRoutes nextRoutes (map rr_key (routeRows st)) st)"

section \<open>Reordering\<close>

definition swap_at :: "nat \<Rightarrow> nat \<Rightarrow> 'a list \<Rightarrow> 'a list" where
  "swap_at i j xs = xs[i := xs ! j, j := xs ! i]"

definition swapRoutes :: "nat \<Rightarrow> nat \<Rightarrow> Editor \<Rightarrow> Editor" where
  "swapRoutes fromIndex toIndex st =
     (if fromIndex = toIndex then st
      else replaceRoutes (swap_at fromIndex toIndex (routes_of st))
        (swap_at fromIndex toIndex (map rr_key (routeRows st))) st)"

text \<open>\<open>xs.at(i)\<close>: negative positions count from the end.\<close>

definition js_at :: "'a list \<Rightarrow> int \<Rightarrow> 'a option" where
  "js_at xs i =
     (let j = (if i < 0 then int (length xs) + i else i) in
      if 0 \<le> j \<and> j < int (length xs) then Some (xs ! nat j) else None)"

definition js_index_of :: "'a \<Rightarrow> 'a list \<Rightarrow> int" where
  "js_index_of x xs = (if x \<in> set xs then int (length (takeWhile (\<lambda>y. y \<noteq> x) xs)) else -1)"

definition samePathIndexes :: "Route list \<Rightarrow> jsstr \<Rightarrow> nat list" where
  "samePathIndexes routes incomingPath =
     map fst (filter (\<lambda>(i, route). getRouteIncomingPath route = incomingPath) (enumerate 0 routes))"

definition moveRouteWithinGroup :: "nat \<Rightarrow> int \<Rightarrow> Editor \<Rightarrow> Editor" where
  "moveRouteWithinGroup index direction st =
     (let indexes = samePathIndexes (routes_of st) (getRouteIncomingPath (routes_of st ! index));
          position = js_index_of index indexes in
      case js_at indexes (position + direction) of
        None \<Rightarrow> st
      | Some nextIndex \<Rightarrow> swapRoutes index nextIndex st)"

text \<open>The loop from the end finds the last route of the path.\<close>

definition lastSamePathIndex :: "Route list \<Rightarrow> jsstr \<Rightarrow> nat option" where
  "lastSamePathIndex routes incomingPath =
     (case samePathIndexes routes incomingPath of [] \<Rightarrow> None | is \<Rightarrow> Some (last is))"

definition moveRouteToGroupEnd :: "nat \<Rightarrow> Editor \<Rightarrow> Editor" where
  "moveRouteToGroupEnd index st =
     (let routes = routes_of st; keys = map rr_key (routeRows st) in
      case lastSamePathIndex routes (getRouteIncomingPath (routes ! index)) of
        None \<Rightarrow> st
      | Some l \<Rightarrow>
          if index = l then st
          else replaceRoutes (insert_at l (routes ! index) (remove_at index routes))
            (insert_at l (keys ! index) (remove_at index keys)) st)"

definition collect_rows :: "RouteRow list \<Rightarrow> (jsstr, RouteRow list) jsmap" where
  "collect_rows rows =
     fold (\<lambda>row m. AList.update (row_path row)
       ((case map_of m (row_path row) of None \<Rightarrow> [] | Some rs \<Rightarrow> rs) @ [row]) m) rows []"

definition catch_all_last :: "RouteRow list \<Rightarrow> RouteRow list" where
  "catch_all_last rows =
     filter (\<lambda>row. \<not> isCatchAllRoute (rr_route row)) rows @ filter (\<lambda>row. isCatchAllRoute (rr_route row)) rows"

text \<open>Every position takes the next row of its path: \<open>orderedRows?.shift() || routeRow\<close>.\<close>

fun take_rows :: "(jsstr, RouteRow list) jsmap \<Rightarrow> RouteRow list \<Rightarrow> RouteRow list" where
  "take_rows m [] = []"
| "take_rows m (row # rows) =
     (case map_of m (row_path row) of
        Some (x # xs) \<Rightarrow> x # take_rows (AList.update (row_path row) xs m) rows
      | _ \<Rightarrow> row # take_rows m rows)"

definition ordered_rows :: "RouteRow list \<Rightarrow> RouteRow list" where
  "ordered_rows rows = take_rows (map (\<lambda>(p, rs). (p, catch_all_last rs)) (collect_rows rows)) rows"

definition fixCatchAllOrder :: "Editor \<Rightarrow> Editor" where
  "fixCatchAllOrder st =
     (let nextRows = ordered_rows (routeRows st) in
      replaceRoutes (map rr_route nextRows) (map rr_key nextRows) st)"

section \<open>The handlers of a row\<close>

definition editor_path :: "Route \<Rightarrow> jsstr" where
  "editor_path route =
     opt_or (rt_incoming_path route) (getDefaultAdvancedCustomIncomingPath (opt_or (rt_converter route) (js ''none'')))"

definition modelsInputValue :: "Route \<Rightarrow> jsstr" where
  "modelsInputValue route = (case rt_models route of None \<Rightarrow> [] | Some ms \<Rightarrow> join (js '', '') ms)"

definition setConverter :: "Route \<Rightarrow> jsstr \<Rightarrow> RoutePatch" where
  "setConverter route nextConverter =
     (let nextIncomingPath = (if isAdvancedCustomIncomingPathAllowed (editor_path route) nextConverter
            then editor_path route else getDefaultAdvancedCustomIncomingPath nextConverter);
          defaults = getAdvancedCustomConverterDefaults nextConverter nextIncomingPath in
      empty_patch\<lparr>rp_converter := Some nextConverter, rp_incoming_path := Some nextIncomingPath,
        rp_upstream_path := Some (cd_upstream_path defaults), rp_auth := Some (cd_auth defaults)\<rparr>)"

definition setAuthMode :: "Route \<Rightarrow> jsstr \<Rightarrow> RoutePatch" where
  "setAuthMode route mode = empty_patch\<lparr>rp_auth := Some (buildAdvancedCustomAuth mode (rt_auth route))\<rparr>"

definition setModelsInput :: "jsstr \<Rightarrow> RoutePatch" where
  "setModelsInput v = empty_patch\<lparr>rp_models := Some (if v = [] then [] else split_on 44 v)\<rparr>"

definition normalizeModelsInput :: "jsstr \<Rightarrow> RoutePatch" where
  "normalizeModelsInput v = empty_patch\<lparr>rp_models := Some (parseAdvancedCustomRouteModels v)\<rparr>"

datatype auth_part = AuthName | AuthValue

definition updateAuth :: "Route \<Rightarrow> auth_part \<Rightarrow> jsstr \<Rightarrow> RoutePatch option" where
  "updateAuth route part v =
     (case rt_auth route of
        None \<Rightarrow> None
      | Some a \<Rightarrow>
          if auth_type a = Some (js ''none'') then None
          else (let b = \<lparr>auth_type = auth_type a, auth_name = Some (opt_or (auth_name a) []),
                  auth_value = Some (opt_or (auth_value a) [])\<rparr> in
            Some (empty_patch\<lparr>rp_auth := Some (Some (case part of
              AuthName \<Rightarrow> b\<lparr>auth_name := Some v\<rparr> | AuthValue \<Rightarrow> b\<lparr>auth_value := Some v\<rparr>))\<rparr>)))"

datatype route_edit =
    EditConverter jsstr | EditAuthMode jsstr | TypeModels jsstr | LeaveModels jsstr
  | EditUpstream jsstr | EditAuth auth_part jsstr

definition edit_patch :: "Route \<Rightarrow> route_edit \<Rightarrow> RoutePatch option" where
  "edit_patch route e =
     (case e of
        EditConverter v \<Rightarrow> Some (setConverter route v)
      | EditAuthMode m \<Rightarrow> Some (setAuthMode route m)
      | TypeModels v \<Rightarrow> Some (setModelsInput v)
      | LeaveModels v \<Rightarrow> Some (normalizeModelsInput v)
      | EditUpstream v \<Rightarrow> Some (empty_patch\<lparr>rp_upstream_path := Some v\<rparr>)
      | EditAuth part v \<Rightarrow> updateAuth route part v)"

definition editRoute :: "nat \<Rightarrow> route_edit \<Rightarrow> Editor \<Rightarrow> Editor" where
  "editRoute index e st =
     (case edit_patch (routes_of st ! index) e of None \<Rightarrow> st | Some patch \<Rightarrow> updateRoute index patch st)"

section \<open>What a group and its rows show\<close>

definition catchAllIsLast :: "RouteGroup \<Rightarrow> bool" where
  "catchAllIsLast g =
     (case find (\<lambda>row. isCatchAllRoute (rr_route row)) (rg_routeRows g) of
        None \<Rightarrow> True
      | Some catchAll \<Rightarrow> js_index_of (rr_index catchAll) (map rr_index (rg_routeRows g)) = int (length (rg_routeRows g)) - 1)"

definition groupHasError :: "ValidationError option \<Rightarrow> RouteGroup \<Rightarrow> bool" where
  "groupHasError err g =
     (case err of
        None \<Rightarrow> False
      | Some e \<Rightarrow> (case ve_routeIndex e of
          None \<Rightarrow> False | Some i \<Rightarrow> list_ex (\<lambda>row. rr_index row = i) (rg_routeRows g)))"

definition canMoveUp :: "RouteGroup \<Rightarrow> nat \<Rightarrow> bool" where
  "canMoveUp g position = (position > 0)"

definition canMoveDown :: "RouteGroup \<Rightarrow> nat \<Rightarrow> bool" where
  "canMoveDown g position = (int position < int (length (rg_routeRows g)) - 1)"

definition catchAllOutOfOrder :: "RouteGroup \<Rightarrow> nat \<Rightarrow> bool" where
  "catchAllOutOfOrder g position = (isCatchAllRoute (rr_route (rg_routeRows g ! position)) \<and> canMoveDown g position)"

section \<open>The JSON text\<close>

text \<open>The result is \<open>None\<close> for a mistyped text, otherwise the configuration, if it is accepted.\<close>

definition parseJsonEditorConfig ::
    "(jsstr \<Rightarrow> (jsstr \<times> jsstr) option) \<Rightarrow> Editor \<Rightarrow> (AdvancedCustomConfig option \<times> Editor) option" where
  "parseJsonEditorConfig url st =
     (case parseAdvancedCustomConfig (Some (ed_jsonText st)) of
        Mistyped \<Rightarrow> None
      | Invalid \<Rightarrow> Some (None, st\<lparr>ed_jsonError := Some InvalidJson\<rparr>)
      | Config c \<Rightarrow>
          (case validateAdvancedCustomConfig url (Some c) of
             Some e \<Rightarrow> Some (None, st\<lparr>ed_jsonError := Some (ConfigError (ve_message e))\<rparr>)
           | None \<Rightarrow> Some (Some c, st\<lparr>ed_jsonError := None\<rparr>)))"

text \<open>A configuration is taken over with new keys for its routes.\<close>

definition take_config :: "AdvancedCustomConfig \<Rightarrow> Editor \<Rightarrow> Editor" where
  "take_config normalized st =
     (let (ks, st') = createRouteKeys (length (config_routes normalized)) st in
      st'\<lparr>ed_config := normalized, ed_routeKeys := ks\<rparr>)"

definition switchToVisualMode :: "(jsstr \<Rightarrow> (jsstr \<times> jsstr) option) \<Rightarrow> Editor \<Rightarrow> Editor option" where
  "switchToVisualMode url st =
     map_option (\<lambda>(parsed, st1). case parsed of
         None \<Rightarrow> st1
       | Some c \<Rightarrow> (take_config (normalizeAdvancedCustomConfig c) st1)\<lparr>ed_editMode := Visual\<rparr>)
       (parseJsonEditorConfig url st)"

definition switchToJsonMode :: "Editor \<Rightarrow> Editor" where
  "switchToJsonMode st = st\<lparr>ed_jsonText := stringifyAdvancedCustomConfig (normalizedConfig st), ed_jsonError := None,
     ed_editMode := JsonText\<rparr>"

definition handleJsonChange :: "jsstr \<Rightarrow> Editor \<Rightarrow> Editor" where
  "handleJsonChange nextValue st = st\<lparr>ed_jsonText := nextValue, ed_jsonError := None\<rparr>"

definition formatJson :: "(jsstr \<Rightarrow> (jsstr \<times> jsstr) option) \<Rightarrow> Editor \<Rightarrow> Editor option" where
  "formatJson url st =
     map_option (\<lambda>(parsed, st1). case parsed of
         None \<Rightarrow> st1
       | Some c \<Rightarrow> st1\<lparr>ed_jsonText := stringifyAdvancedCustomConfig c\<rparr>)
       (parseJsonEditorConfig url st)"

datatype template_mode = Fill | Append

definition put_config :: "AdvancedCustomConfig \<Rightarrow> Editor \<Rightarrow> Editor" where
  "put_config nextConfig st =
     (let normalized = normalizeAdvancedCustomConfig nextConfig in
      (take_config normalized st)\<lparr>ed_jsonText := stringifyAdvancedCustomConfig normalized, ed_jsonError := None\<rparr>)"

definition applyTemplate :: "(jsstr \<Rightarrow> (jsstr \<times> jsstr) option) \<Rightarrow> template_mode \<Rightarrow> Editor \<Rightarrow> Editor option" where
  "applyTemplate url mode st =
     (let templateConfig = getAdvancedCustomTemplateConfig (ed_templateKey st) in
      case mode of
        Fill \<Rightarrow> Some (put_config templateConfig st)
      | Append \<Rightarrow>
          map_option (\<lambda>(baseConfig, st1). case baseConfig of
              None \<Rightarrow> st1
            | Some b \<Rightarrow> put_config \<lparr>advanced_routes = Some (config_routes (normalizeAdvancedCustomConfig b) @
                config_routes (normalizeAdvancedCustomConfig templateConfig))\<rparr> st1)
            (if ed_editMode st = JsonText then parseJsonEditorConfig url st
             else Some (Some (normalizedConfig st), st)))"

definition save_text :: "AdvancedCustomConfig \<Rightarrow> Editor \<Rightarrow> Editor" where
  "save_text c st = st\<lparr>ed_saved := ed_saved st @ [stringifyAdvancedCustomConfig c], ed_open := False\<rparr>"

definition saveConfig :: "(jsstr \<Rightarrow> (jsstr \<times> jsstr) option) \<Rightarrow> Editor \<Rightarrow> Editor option" where
  "saveConfig url st =
     (if ed_editMode st = JsonText then
        map_option (\<lambda>(parsed, st1). case parsed of
            None \<Rightarrow> st1\<lparr>ed_toasts := ed_toasts st1 @ [FixJsonErrors]\<rparr>
          | Some c \<Rightarrow> save_text c st1) (parseJsonEditorConfig url st)
      else (case validationError url st of
          Some e \<Rightarrow> Some (st\<lparr>ed_toasts := ed_toasts st @ [ToastError (ve_message e)]\<rparr>)
        | None \<Rightarrow> Some (save_text (normalizedConfig st) st)))"

section \<open>The dialog as a state machine\<close>

datatype action =
    AddRoute | AddRouteFor RouteGroup | RemoveRoute nat | EditRoute nat route_edit
  | GroupPath RouteGroup "jsstr option" | MoveUp RouteGroup nat | MoveDown RouteGroup nat
  | MoveToEnd RouteGroup nat | FixOrder | SwitchVisual | SwitchJson | ChangeJson jsstr | FormatJson
  | SetTemplate "jsstr option" | ApplyTemplate template_mode | Save | Cancel

text \<open>Groups and rows are those shown; the buttons of a row are enabled by its position in the group.\<close>

definition shown_row :: "Editor \<Rightarrow> RouteGroup \<Rightarrow> nat \<Rightarrow> bool" where
  "shown_row st g position \<longleftrightarrow> g \<in> set (routeGroups st) \<and> position < length (rg_routeRows g)"

fun editor_offered :: "(jsstr \<Rightarrow> (jsstr \<times> jsstr) option) \<Rightarrow> Editor \<Rightarrow> action \<Rightarrow> bool" where
  "editor_offered url st AddRoute = (ed_editMode st = Visual)"
| "editor_offered url st (AddRouteFor g) = (ed_editMode st = Visual \<and> g \<in> set (routeGroups st))"
| "editor_offered url st (RemoveRoute i) = (ed_editMode st = Visual \<and> i < length (routes_of st))"
| "editor_offered url st (EditRoute i e) = (ed_editMode st = Visual \<and> i < length (routes_of st))"
| "editor_offered url st (GroupPath g p) = (ed_editMode st = Visual \<and> g \<in> set (routeGroups st))"
| "editor_offered url st (MoveUp g k) = (ed_editMode st = Visual \<and> shown_row st g k \<and> canMoveUp g k)"
| "editor_offered url st (MoveDown g k) = (ed_editMode st = Visual \<and> shown_row st g k \<and> canMoveDown g k)"
| "editor_offered url st (MoveToEnd g k) = (ed_editMode st = Visual \<and> shown_row st g k \<and> catchAllOutOfOrder g k)"
| "editor_offered url st FixOrder = (ed_editMode st = Visual \<and> canFixCatchAllOrder url st)"
| "editor_offered url st (ChangeJson v) = (ed_editMode st = JsonText)"
| "editor_offered url st FormatJson = (ed_editMode st = JsonText)"
| "editor_offered url st a = True"

fun perform :: "(jsstr \<Rightarrow> (jsstr \<times> jsstr) option) \<Rightarrow> action \<Rightarrow> Editor \<Rightarrow> Editor option" where
  "perform url AddRoute st = Some (addRoute st)"
| "perform url (AddRouteFor g) st = Some (addRouteForIncomingPath (rg_incomingPath g) st)"
| "perform url (RemoveRoute i) st = Some (removeRoute i st)"
| "perform url (EditRoute i e) st = Some (editRoute i e st)"
| "perform url (GroupPath g p) st = Some (updateGroupIncomingPath g p st)"
| "perform url (MoveUp g k) st = Some (moveRouteWithinGroup (rr_index (rg_routeRows g ! k)) (-1) st)"
| "perform url (MoveDown g k) st = Some (moveRouteWithinGroup (rr_index (rg_routeRows g ! k)) 1 st)"
| "perform url (MoveToEnd g k) st = Some (moveRouteToGroupEnd (rr_index (rg_routeRows g ! k)) st)"
| "perform url FixOrder st = Some (fixCatchAllOrder st)"
| "perform url SwitchVisual st = switchToVisualMode url st"
| "perform url SwitchJson st = Some (switchToJsonMode st)"
| "perform url (ChangeJson v) st = Some (handleJsonChange v st)"
| "perform url FormatJson st = formatJson url st"
| "perform url (SetTemplate v) st = Some (st\<lparr>ed_templateKey := opt_or v first_template\<rparr>)"
| "perform url (ApplyTemplate m) st = applyTemplate url m st"
| "perform url Save st = saveConfig url st"
| "perform url Cancel st = Some (st\<lparr>ed_open := False\<rparr>)"

text \<open>What the user types or picks is a string of 16 bit units.\<close>

fun edit_wide :: "route_edit \<Rightarrow> bool" where
  "edit_wide (EditConverter v) = wide v"
| "edit_wide (EditAuthMode m) = wide m"
| "edit_wide (TypeModels v) = wide v"
| "edit_wide (LeaveModels v) = wide v"
| "edit_wide (EditUpstream v) = wide v"
| "edit_wide (EditAuth part v) = wide v"

fun action_wide :: "action \<Rightarrow> bool" where
  "action_wide (EditRoute i e) = edit_wide e"
| "action_wide (GroupPath g p) = opt_wide p"
| "action_wide (ChangeJson v) = wide v"
| "action_wide (SetTemplate v) = opt_wide v"
| "action_wide a = True"

inductive editor_reachable :: "(jsstr \<Rightarrow> (jsstr \<times> jsstr) option) \<Rightarrow> Editor \<Rightarrow> bool" for url where
  start: "wide v \<Longrightarrow> initial_editor v = Some st \<Longrightarrow> editor_reachable url st"
| step: "editor_reachable url st \<Longrightarrow> ed_open st \<Longrightarrow> action_wide a \<Longrightarrow> editor_offered url st a \<Longrightarrow>
    perform url a st = Some st' \<Longrightarrow> editor_reachable url st'"

end
