(* ===== verification/Advanced_Custom_Editor_Props.thy ===== *)
theory Advanced_Custom_Editor_Props
  imports Advanced_Custom_Editor
begin

text \<open>
  Properties of the editor dialog of advanced custom channels: what it saves is read back as a
  valid configuration, its rows have unique keys, reordering keeps the routes and repairs the
  order, and two ways in which it loses what the user has typed.
\<close>

section \<open>Rows\<close>

lemma config_routes_Some [simp]: "config_routes \<lparr>advanced_routes = Some rs\<rparr> = rs"
  by (simp add: config_routes_def)

lemma routes_of_alt: "routes_of st = map normalizeAdvancedCustomRoute (config_routes (ed_config st))"
  by (simp add: routes_of_def normalizedConfig_def config_routes_normalize)

lemma routes_of_set_routes [simp]: "routes_of (set_routes rs st) = map normalizeAdvancedCustomRoute rs"
  by (simp add: routes_of_alt set_routes_def)

lemma routes_of_upd [simp]:
  "routes_of (st\<lparr>ed_routeKeys := ks\<rparr>) = routes_of st" "routes_of (st\<lparr>ed_keyCounter := n\<rparr>) = routes_of st"
  "routes_of (st\<lparr>ed_jsonText := t\<rparr>) = routes_of st" "routes_of (st\<lparr>ed_jsonError := e\<rparr>) = routes_of st"
  "routes_of (st\<lparr>ed_editMode := m\<rparr>) = routes_of st" "routes_of (st\<lparr>ed_templateKey := t\<rparr>) = routes_of st"
  "routes_of (st\<lparr>ed_saved := ss\<rparr>) = routes_of st" "routes_of (st\<lparr>ed_open := b\<rparr>) = routes_of st"
  "routes_of (st\<lparr>ed_toasts := ts\<rparr>) = routes_of st"
  "routes_of (st\<lparr>ed_config := c\<rparr>) = map normalizeAdvancedCustomRoute (config_routes c)"
  by (simp_all add: routes_of_alt)

lemma routes_of_normal: "map normalizeAdvancedCustomRoute (routes_of st) = routes_of st"
  by (simp add: routes_of_alt normalize_route_idem)

lemma routes_normal: "r \<in> set (routes_of st) \<Longrightarrow> normalizeAdvancedCustomRoute r = r"
  by (auto simp: routes_of_alt normalize_route_idem)

lemma length_routeRows [simp]: "length (routeRows st) = length (routes_of st)"
  by (simp add: routeRows_def)

lemma nth_routeRows:
  "i < length (routes_of st) \<Longrightarrow> routeRows st ! i =
     \<lparr>rr_route = routes_of st ! i, rr_key = row_key (ed_routeKeys st) i (routes_of st ! i), rr_index = i\<rparr>"
  by (simp add: routeRows_def nth_enumerate_eq)

lemma map_route_rows [simp]: "map rr_route (routeRows st) = routes_of st"
  by (rule nth_equalityI) (simp_all add: nth_routeRows)

lemma map_index_rows [simp]: "map rr_index (routeRows st) = [0..<length (routes_of st)]"
  by (rule nth_equalityI) (simp_all add: nth_routeRows)

lemma add_to_route_group_rows:
  "row \<in> S \<Longrightarrow> \<forall>g \<in> set gs. set (rg_routeRows g) \<subseteq> S \<Longrightarrow> \<forall>g \<in> set (add_to_route_group row gs). set (rg_routeRows g) \<subseteq> S"
  by (induction gs) auto

lemma fold_groups_rows:
  "set rows \<subseteq> S \<Longrightarrow> \<forall>g \<in> set gs. set (rg_routeRows g) \<subseteq> S \<Longrightarrow>
   \<forall>g \<in> set (fold add_to_route_group rows gs). set (rg_routeRows g) \<subseteq> S"
proof (induction rows arbitrary: gs)
  case (Cons row rows)
  have "\<forall>g \<in> set (add_to_route_group row gs). set (rg_routeRows g) \<subseteq> S"
    by (rule add_to_route_group_rows) (use Cons.prems in auto)
  from Cons.IH [OF _ this] Cons.prems(1) show ?case by simp
qed simp

lemma groups_rows: "g \<in> set (buildRouteGroups rows) \<Longrightarrow> set (rg_routeRows g) \<subseteq> set rows"
  using fold_groups_rows [of rows "set rows" "[]"] by (simp add: buildRouteGroups_def)

lemma shown_index:
  assumes "shown_row st g k"
  shows "rr_index (rg_routeRows g ! k) < length (routes_of st)"
proof -
  have "rg_routeRows g ! k \<in> set (routeRows st)"
    using assms groups_rows [of g "routeRows st"] by (auto simp: shown_row_def routeGroups_def)
  then have "rr_index (rg_routeRows g ! k) \<in> set (map rr_index (routeRows st))" by (simp only: set_map imageI)
  then show ?thesis by (simp only: map_index_rows) simp
qed

section \<open>Keys\<close>

text \<open>A key is one of the initial keys or was handed out by the counter.\<close>

definition known_key :: "nat \<Rightarrow> jsstr \<Rightarrow> bool" where
  "known_key n k \<longleftrightarrow> (\<exists>i. k = initial_key i) \<or> (\<exists>m \<le> n. k = route_key m)"

definition keys_ok :: "Editor \<Rightarrow> bool" where
  "keys_ok st \<longleftrightarrow> length (ed_routeKeys st) = length (routes_of st) \<and> distinct (ed_routeKeys st) \<and>
     (\<forall>k \<in> set (ed_routeKeys st). known_key (ed_keyCounter st) k)"

lemma key_not_Nil: "known_key n k \<Longrightarrow> k \<noteq> []"
  by (auto simp: known_key_def initial_key_def route_key_def)

lemma nat_str_digit_hd: "is_digit (hd (nat_str n))"
  using nat_str_digits [of n] by (simp add: hd_in_set)

lemma route_key_inj [simp]: "route_key m = route_key n \<longleftrightarrow> m = n"
  by (simp add: route_key_def)

lemma initial_key_inj [simp]: "initial_key m = initial_key n \<longleftrightarrow> m = n"
  by (simp add: initial_key_def)

lemma route_not_initial [simp]: "route_key m \<noteq> initial_key i"
proof
  assume "route_key m = initial_key i"
  then have "nat_str m = js ''initial-'' @ nat_str i" by (simp add: route_key_def initial_key_def js_lit)
  then have "hd (nat_str m) = 105" by (simp add: js_lit)
  with nat_str_digit_hd [of m] show False by (simp add: is_digit_def)
qed

lemma fresh_key: "n < m \<Longrightarrow> \<not> known_key n (route_key m)"
  by (auto simp: known_key_def)

lemma known_key_mono: "known_key n k \<Longrightarrow> n \<le> m \<Longrightarrow> known_key m k"
  by (auto simp: known_key_def)

lemma row_keys:
  assumes "keys_ok st"
  shows "map rr_key (routeRows st) = ed_routeKeys st"
proof (rule nth_equalityI)
  fix i assume "i < length (map rr_key (routeRows st))"
  then have i: "i < length (routes_of st)" "i < length (ed_routeKeys st)" using assms by (auto simp: keys_ok_def)
  then have "ed_routeKeys st ! i \<noteq> []" using assms key_not_Nil nth_mem unfolding keys_ok_def by metis
  with i show "map rr_key (routeRows st) ! i = ed_routeKeys st ! i"
    by (simp add: nth_routeRows row_key_def opt_or_def str_or_def)
qed (use assms in \<open>simp add: keys_ok_def\<close>)

lemma createRouteKeys_eq:
  "createRouteKeys n st = (map route_key [ed_keyCounter st + 1..<ed_keyCounter st + 1 + n],
     st\<lparr>ed_keyCounter := ed_keyCounter st + n\<rparr>)"
proof (induction n arbitrary: st)
  case (Suc n)
  have "[ed_keyCounter st + 1..<ed_keyCounter st + 1 + Suc n] =
      (ed_keyCounter st + 1) # [ed_keyCounter st + 2..<ed_keyCounter st + 2 + n]"
    by (simp add: upt_conv_Cons)
  then show ?case by (simp add: createRouteKey_def Let_def Suc)
qed simp

text \<open>Reordering the keys together with the routes.\<close>

lemma keys_ok_replace:
  assumes "keys_ok st" and "mset ks = mset (ed_routeKeys st)" and "length rs = length (routes_of st)"
  shows "keys_ok (replaceRoutes rs ks st)"
proof -
  have "length ks = length (ed_routeKeys st)" "set ks = set (ed_routeKeys st)"
      "distinct ks = distinct (ed_routeKeys st)"
    using assms(2) mset_eq_length mset_eq_setD mset_eq_imp_distinct_iff by blast+
  with assms show ?thesis by (simp add: keys_ok_def replaceRoutes_def) (simp add: set_routes_def)
qed

lemma keys_ok_append:
  assumes "keys_ok st"
  shows "keys_ok (append_route r st)"
proof -
  let ?n = "ed_keyCounter st"
  have new: "route_key (?n + 1) \<notin> set (ed_routeKeys st)"
    using assms fresh_key [of ?n "?n + 1"] by (auto simp: keys_ok_def)
  have "\<forall>k \<in> set (ed_routeKeys st). known_key (?n + 1) k"
    using assms known_key_mono by (auto simp: keys_ok_def)
  moreover have "known_key (?n + 1) (route_key (?n + 1))" by (auto simp: known_key_def)
  ultimately show ?thesis using assms new
    by (auto simp: keys_ok_def append_route_def createRouteKey_def Let_def set_routes_def)
qed

lemma keys_ok_take_config: "keys_ok (take_config c st)"
  by (auto simp: keys_ok_def take_config_def createRouteKeys_eq known_key_def distinct_map inj_on_def
      simp flip: length_0_conv)

section \<open>Reordering\<close>

lemma mset_swap_at: "i < length xs \<Longrightarrow> j < length xs \<Longrightarrow> mset (swap_at i j xs) = mset xs"
  unfolding swap_at_def using mset_swap [of j xs i] by simp

lemma length_swap_at [simp]: "length (swap_at i j xs) = length xs"
  by (simp add: swap_at_def)

lemma mset_insert_at [simp]: "mset (insert_at l x xs) = add_mset x (mset xs)"
  unfolding insert_at_def using append_take_drop_id [of l xs] by (metis mset_append mset.simps(2) union_mset_add_mset_right)

lemma mset_remove_at: "i < length xs \<Longrightarrow> add_mset (xs ! i) (mset (remove_at i xs)) = mset xs"
  unfolding remove_at_def using id_take_nth_drop [of i xs]
  by (metis mset_append mset.simps(2) union_mset_add_mset_right)

lemma mset_move: "i < length xs \<Longrightarrow> mset (insert_at l (xs ! i) (remove_at i xs)) = mset xs"
  by (simp add: mset_remove_at)

lemma length_remove_at: "i < length xs \<Longrightarrow> length (remove_at i xs) = length xs - 1"
  by (simp add: remove_at_def)

lemma samePathIndexes_less: "i \<in> set (samePathIndexes rs p) \<Longrightarrow> i < length rs"
  by (auto simp: samePathIndexes_def in_set_enumerate_eq)

lemma samePathIndexes_iff: "i \<in> set (samePathIndexes rs p) \<longleftrightarrow> i < length rs \<and> getRouteIncomingPath (rs ! i) = p"
  by (force simp: samePathIndexes_def in_set_enumerate_eq)

lemma js_at_in: "js_at xs i = Some x \<Longrightarrow> x \<in> set xs"
  by (auto simp: js_at_def Let_def split: if_splits)

section \<open>Rows by path\<close>

lemma collect_rows_map:
  "map_of (collect_rows rows) p =
     (let rs = filter (\<lambda>row. row_path row = p) rows in if rs = [] then None else Some rs)"
proof (induction rows rule: rev_induct)
  case (snoc row rows)
  have "collect_rows (rows @ [row]) = AList.update (row_path row)
      ((case map_of (collect_rows rows) (row_path row) of None \<Rightarrow> [] | Some rs \<Rightarrow> rs) @ [row]) (collect_rows rows)"
    by (simp add: collect_rows_def)
  with snoc show ?case by (auto simp: Let_def split: if_splits)
qed (simp add: collect_rows_def)

text \<open>
  The rows taken from a map that has, for every path, as many rows of this path as the list: the
  paths stay at their positions and the rows of a path are those of the map.
\<close>

definition supplies :: "(jsstr, RouteRow list) jsmap \<Rightarrow> RouteRow list \<Rightarrow> bool" where
  "supplies m rows \<longleftrightarrow> (\<forall>p. let xs = (case map_of m p of None \<Rightarrow> [] | Some xs \<Rightarrow> xs) in
     length xs = length (filter (\<lambda>row. row_path row = p) rows) \<and> (\<forall>x \<in> set xs. row_path x = p))"

lemma suppliesD:
  "supplies m rows \<Longrightarrow> map_of m p = Some xs \<Longrightarrow>
     length xs = length (filter (\<lambda>row. row_path row = p) rows) \<and> (\<forall>x \<in> set xs. row_path x = p)"
  "supplies m rows \<Longrightarrow> map_of m p = None \<Longrightarrow> filter (\<lambda>row. row_path row = p) rows = []"
  by (fastforce simp: supplies_def Let_def dest!: spec [of _ p])+

lemma take_rows_paths:
  assumes "supplies m rows"
  shows "map row_path (take_rows m rows) = map row_path rows \<and>
    (\<forall>p. filter (\<lambda>row. row_path row = p) (take_rows m rows) = (case map_of m p of None \<Rightarrow> [] | Some xs \<Rightarrow> xs))"
  using assms
proof (induction rows arbitrary: m)
  case Nil
  then show ?case using suppliesD(1) [OF Nil] by (auto split: option.split)
next
  case (Cons row rows)
  obtain ys where ys: "map_of m (row_path row) = Some ys"
    using suppliesD(2) [OF Cons.prems, of "row_path row"] by (cases "map_of m (row_path row)") auto
  then obtain x xs where x: "ys = x # xs" using suppliesD(1) [OF Cons.prems ys] by (cases ys) auto
  let ?m = "AList.update (row_path row) xs m"
  have sup: "supplies ?m rows"
    unfolding supplies_def Let_def
  proof (intro allI)
    fix p
    show "length (case map_of ?m p of None \<Rightarrow> [] | Some xs \<Rightarrow> xs) = length (filter (\<lambda>row. row_path row = p) rows) \<and>
        (\<forall>x \<in> set (case map_of ?m p of None \<Rightarrow> [] | Some xs \<Rightarrow> xs). row_path x = p)"
      using suppliesD(1) [OF Cons.prems ys] suppliesD [OF Cons.prems, of p] x by (auto split: option.splits)
  qed
  have "row_path x = row_path row" using suppliesD(1) [OF Cons.prems ys] x by simp
  with Cons.IH [OF sup] ys x show ?case by (auto split: if_splits option.splits)
qed

lemma set_catch_all_last [simp]: "set (catch_all_last rs) = set rs"
  by (auto simp: catch_all_last_def)

lemma mset_catch_all_last [simp]: "mset (catch_all_last rs) = mset rs"
  by (simp add: catch_all_last_def mset_filter multiset_partition [symmetric])

lemma length_catch_all_last [simp]: "length (catch_all_last rs) = length rs"
  by (metis mset_catch_all_last size_mset)

lemma catch_all_last_Nil [simp]: "catch_all_last [] = []"
  by (simp add: catch_all_last_def)

lemma ordered_rows_paths:
  "map row_path (ordered_rows rows) = map row_path rows \<and>
   filter (\<lambda>row. row_path row = p) (ordered_rows rows) = catch_all_last (filter (\<lambda>row. row_path row = p) rows)"
proof -
  let ?m = "map (\<lambda>(p, rs). (p, catch_all_last rs)) (collect_rows rows)"
  have m: "(case map_of ?m q of None \<Rightarrow> [] | Some xs \<Rightarrow> xs) = catch_all_last (filter (\<lambda>row. row_path row = q) rows)" for q
    by (simp add: map_of_map o_def collect_rows_map Let_def)
  have "supplies ?m rows" unfolding supplies_def Let_def m by simp
  from take_rows_paths [OF this] show ?thesis by (simp add: ordered_rows_def m)
qed

lemma mset_ordered_rows [simp]: "mset (ordered_rows rows) = mset rows"
proof (rule multiset_eqI)
  fix x
  have c: "count (mset xs) x = count (mset (filter (\<lambda>row. row_path row = row_path x) xs)) x" for xs
    by (simp add: mset_filter)
  have "mset (filter (\<lambda>row. row_path row = row_path x) (ordered_rows rows)) =
      mset (filter (\<lambda>row. row_path row = row_path x) rows)"
    using ordered_rows_paths [of rows "row_path x"] by simp
  then show "count (mset (ordered_rows rows)) x = count (mset rows) x"
    unfolding c [of "ordered_rows rows"] c [of rows] by (simp only:)
qed

lemma length_ordered_rows [simp]: "length (ordered_rows rows) = length rows"
  by (metis mset_ordered_rows size_mset)

section \<open>The invariant\<close>

definition saved_ok :: "(jsstr \<Rightarrow> (jsstr \<times> jsstr) option) \<Rightarrow> jsstr \<Rightarrow> bool" where
  "saved_ok url s \<longleftrightarrow> (\<exists>c. parseAdvancedCustomConfig (Some s) = Config c \<and>
     validateAdvancedCustomConfig url (Some c) = None \<and> stringifyAdvancedCustomConfig c = s)"

definition editor_ok :: "(jsstr \<Rightarrow> (jsstr \<times> jsstr) option) \<Rightarrow> Editor \<Rightarrow> bool" where
  "editor_ok url st \<longleftrightarrow> config_wide (ed_config st) \<and> wide (ed_jsonText st) \<and> keys_ok st \<and>
     (\<forall>s \<in> set (ed_saved st). saved_ok url s)"

lemma routes_wide: "editor_ok url st \<Longrightarrow> r \<in> set (routes_of st) \<Longrightarrow> route_wide r"
  by (auto simp: editor_ok_def config_wide_def routes_of_alt normalize_route_wide)

lemma config_wide_Some: "config_wide \<lparr>advanced_routes = Some rs\<rparr> \<longleftrightarrow> (\<forall>r \<in> set rs. route_wide r)"
  by (simp add: config_wide_def)

lemma ok_replace:
  assumes "editor_ok url st" and "\<forall>r \<in> set rs. route_wide r"
    and "mset ks = mset (ed_routeKeys st)" and "length rs = length (routes_of st)"
  shows "editor_ok url (replaceRoutes rs ks st)"
  using assms keys_ok_replace [of st ks rs]
  by (simp add: editor_ok_def replaceRoutes_def set_routes_def config_wide_Some)

lemma ok_append:
  assumes "editor_ok url st" and "route_wide r"
  shows "editor_ok url (append_route r st)"
proof -
  have "ed_config (append_route r st) = \<lparr>advanced_routes = Some (routes_of st @ [r])\<rparr>"
      "ed_jsonText (append_route r st) = ed_jsonText st" "ed_saved (append_route r st) = ed_saved st"
    by (simp_all add: append_route_def createRouteKey_def Let_def set_routes_def)
  then show ?thesis using assms keys_ok_append [of st r] routes_wide [OF assms(1)]
    by (auto simp: editor_ok_def config_wide_Some)
qed

lemma ok_take_config: "editor_ok url st \<Longrightarrow> config_wide c \<Longrightarrow> editor_ok url (take_config c st)"
  using keys_ok_take_config [of c st] by (simp add: editor_ok_def take_config_def createRouteKeys_eq)

lemma set_remove_at: "set (remove_at i xs) \<subseteq> set xs"
  by (auto simp: remove_at_def dest: in_set_takeD in_set_dropD)

lemma distinct_remove_at: "distinct xs \<Longrightarrow> distinct (remove_at i xs)"
  unfolding remove_at_def by (metis distinct_append distinct_drop distinct_take set_take_disj_set_drop_if_distinct
      le_SucI le_refl)

lemma map_remove_at: "map f (remove_at i xs) = remove_at i (map f xs)"
  by (simp add: remove_at_def take_map drop_map)

lemma ok_remove:
  assumes "editor_ok url st" and "i < length (routes_of st)"
  shows "editor_ok url (removeRoute i st)"
proof -
  have k: "keys_ok st" using assms by (simp add: editor_ok_def)
  then have "keys_ok (removeRoute i st)"
    using assms(2) distinct_remove_at [of "ed_routeKeys st" i] set_remove_at [of i "ed_routeKeys st"]
    by (auto simp: keys_ok_def removeRoute_def length_remove_at) (auto simp: set_routes_def)
  then show ?thesis using assms routes_wide [OF assms(1)] set_remove_at [of i "routes_of st"]
    by (auto simp: editor_ok_def removeRoute_def set_routes_def config_wide_Some)
qed

definition patch_wide :: "RoutePatch \<Rightarrow> bool" where
  "patch_wide p \<longleftrightarrow> opt_wide (rp_incoming_path p) \<and> opt_wide (rp_upstream_path p) \<and> opt_wide (rp_converter p) \<and>
     (case rp_models p of None \<Rightarrow> True | Some ms \<Rightarrow> \<forall>m \<in> set ms. wide m) \<and>
     (case rp_auth p of None \<Rightarrow> True | Some a \<Rightarrow> auth_wide a)"

lemma apply_patch_wide: "patch_wide p \<Longrightarrow> route_wide r \<Longrightarrow> route_wide (apply_patch p r)"
  by (simp add: patch_wide_def route_wide_def apply_patch_def opt_wide_def split: option.splits)

lemma ok_update:
  assumes "editor_ok url st" and "i < length (routes_of st)" and "patch_wide p"
  shows "editor_ok url (updateRoute i p st)"
proof -
  let ?rs = "(routes_of st)[i := apply_patch p (routes_of st ! i)]"
  have "\<forall>r \<in> set ?rs. route_wide r"
    using routes_wide [OF assms(1)] apply_patch_wide [OF assms(3)] assms(2) set_update_subset_insert [of "routes_of st" i]
    by fastforce
  then show ?thesis using assms(1)
    by (auto simp: editor_ok_def updateRoute_def Let_def keys_ok_def config_wide_Some set_routes_def)
qed

section \<open>Strings of the edits\<close>

lemma wide_str_or [simp]: "wide a \<Longrightarrow> wide b \<Longrightarrow> wide (str_or a b)"
  by (simp add: str_or_def)

lemma paths_wide [simp]: "wide openAIChatPath" "wide openAIResponsesPath" "wide claudeMessagesPath" "wide geminiGenerateContentPath"
  by (simp_all add: openAIChatPath_def openAIResponsesPath_def claudeMessagesPath_def geminiGenerateContentPath_def)

lemma auths_wide [simp]:
  "auth_wide (Some bearerHeaderAuth)" "auth_wide (Some apiKeyHeaderAuth)" "auth_wide (Some geminiQueryAuth)" "auth_wide None"
  by (simp_all add: auth_wide_def bearerHeaderAuth_def apiKeyHeaderAuth_def geminiQueryAuth_def)

lemma options_wide: "\<forall>p \<in> set ADVANCED_CUSTOM_INCOMING_PATH_OPTIONS. wide (fst p)"
  by (simp add: ADVANCED_CUSTOM_INCOMING_PATH_OPTIONS_def)

lemma default_path_wide [simp]: "wide (getDefaultAdvancedCustomIncomingPath c)"
proof (cases "getAdvancedCustomIncomingPathOptions c")
  case (Cons p ps)
  then have "p \<in> set (getAdvancedCustomIncomingPathOptions c)" by simp
  then have "p \<in> set ADVANCED_CUSTOM_INCOMING_PATH_OPTIONS"
    unfolding getAdvancedCustomIncomingPathOptions_def by (simp only: set_filter mem_Collect_eq)
  then have "wide (fst p)" using options_wide by blast
  then show ?thesis by (simp add: getDefaultAdvancedCustomIncomingPath_def Cons)
qed (simp add: getDefaultAdvancedCustomIncomingPath_def)

lemma native_auth_wide [simp]: "auth_wide (Some (getAdvancedCustomNativeAuth p))"
  by (simp add: getAdvancedCustomNativeAuth_def)

lemma defaults_wide:
  "wide p \<Longrightarrow> wide (cd_upstream_path (getAdvancedCustomConverterDefaults c p)) \<and>
   auth_wide (cd_auth (getAdvancedCustomConverterDefaults c p))"
  by (simp add: getAdvancedCustomConverterDefaults_def Let_def wide_trim)

lemma split_on_wide: "wide v \<Longrightarrow> \<forall>w \<in> set (split_on c v). wide w"
  by (induction v) (auto split: list.splits)

lemma build_auth_wide:
  assumes "auth_wide a"
  shows "auth_wide (buildAdvancedCustomAuth m a)"
  using assms unfolding buildAdvancedCustomAuth_def Let_def
  by (cases a) (simp_all add: auth_wide_def wide_opt_or)

lemma empty_patch_simps [simp]:
  "rp_incoming_path empty_patch = None" "rp_upstream_path empty_patch = None" "rp_converter empty_patch = None"
  "rp_models empty_patch = None" "rp_auth empty_patch = None"
  by (simp_all add: empty_patch_def)

lemma updateAuth_wide:
  assumes "route_wide r" and "wide v" and "updateAuth r part v = Some p"
  shows "patch_wide p"
  using assms by (cases part)
    (auto simp: updateAuth_def Let_def patch_wide_def route_wide_def auth_wide_def wide_opt_or split: option.splits if_splits)

lemma edit_patch_wide:
  assumes r: "route_wide r" and e: "edit_wide e" and p: "edit_patch r e = Some p"
  shows "patch_wide p"
proof (cases e)
  case (EditConverter v)
  let ?path = "if isAdvancedCustomIncomingPathAllowed (editor_path r) v then editor_path r
    else getDefaultAdvancedCustomIncomingPath v"
  have "wide ?path" using r by (simp add: editor_path_def wide_opt_or route_wide_def)
  from defaults_wide [OF this, of v] this show ?thesis
    using p e EditConverter by (auto simp: edit_patch_def setConverter_def Let_def patch_wide_def)
next
  case (EditAuthMode m)
  then show ?thesis using p r build_auth_wide [of "rt_auth r" m]
    by (auto simp: edit_patch_def setAuthMode_def patch_wide_def route_wide_def)
next
  case (TypeModels v)
  then show ?thesis using p e split_on_wide [of v 44]
    by (auto simp: edit_patch_def setModelsInput_def patch_wide_def)
next
  case (LeaveModels v)
  then show ?thesis using p e split_on_wide [of v 44]
    by (auto simp: edit_patch_def normalizeModelsInput_def patch_wide_def parseAdvancedCustomRouteModels_def
        truthy_strs_def wide_trim)
next
  case (EditUpstream v)
  then show ?thesis using p e by (auto simp: edit_patch_def patch_wide_def)
next
  case (EditAuth part v)
  then show ?thesis using p e updateAuth_wide [OF r, of v part p] by (simp add: edit_patch_def)
qed

lemma ok_edit:
  assumes "editor_ok url st" and "i < length (routes_of st)" and "edit_wide e"
  shows "editor_ok url (editRoute i e st)"
proof (cases "edit_patch (routes_of st ! i) e")
  case (Some p)
  have "route_wide (routes_of st ! i)" using routes_wide [OF assms(1)] assms(2) by simp
  from edit_patch_wide [OF this assms(3) Some] show ?thesis
    using ok_update [OF assms(1,2)] by (simp add: editRoute_def Some)
qed (simp add: editRoute_def assms(1))

lemma template_wide: "config_wide (getAdvancedCustomTemplateConfig k)"
proof -
  have all: "\<forall>t \<in> set ADVANCED_CUSTOM_TEMPLATE_OPTIONS. config_wide (tpl_config t)"
    by (simp add: ADVANCED_CUSTOM_TEMPLATE_OPTIONS_def config_wide_Some full_route_def route_wide_def)
  have "ADVANCED_CUSTOM_TEMPLATE_OPTIONS \<noteq> []" by (simp add: ADVANCED_CUSTOM_TEMPLATE_OPTIONS_def)
  with all show ?thesis
    unfolding getAdvancedCustomTemplateConfig_def cloneAdvancedCustomConfig_def
    by (auto simp: find_Some_iff split: option.splits)
qed

lemma create_wide [simp]: "route_wide createAdvancedCustomRoute" "config_wide createAdvancedCustomConfig"
  by (simp_all add: createAdvancedCustomRoute_def createAdvancedCustomConfig_def config_wide_Some route_wide_def)

section \<open>Every action keeps the invariant\<close>

lemma ok_group_path:
  assumes "editor_ok url st" and "opt_wide p"
  shows "editor_ok url (updateGroupIncomingPath g p st)"
proof -
  have rows: "(i, r) \<in> set (enumerate 0 (routes_of st)) \<Longrightarrow> route_wide r" for i r
    using routes_wide [OF assms(1)] by (auto simp: in_set_enumerate_eq)
  have moved: "route_wide (r\<lparr>rt_incoming_path := Some (opt_or p (js ''/v1/chat/completions'')),
      rt_converter := Some (if b then opt_or (rt_converter r) (js ''none'') else js ''none'')\<rparr>)"
    if "route_wide r" for r b
    using that assms(2) by (simp add: route_wide_def wide_opt_or)
  have "map rr_key (routeRows st) = ed_routeKeys st" using assms(1) row_keys by (simp add: editor_ok_def)
  then show ?thesis unfolding updateGroupIncomingPath_def Let_def
    by (intro ok_replace [OF assms(1)])
      (use rows moved in \<open>auto split: if_splits\<close>)
qed

lemma ok_swap:
  assumes "editor_ok url st" and "i < length (routes_of st)" and "j < length (routes_of st)"
  shows "editor_ok url (swapRoutes i j st)"
proof -
  have keys: "map rr_key (routeRows st) = ed_routeKeys st" "length (ed_routeKeys st) = length (routes_of st)"
    using assms(1) row_keys by (simp_all add: editor_ok_def keys_ok_def)
  have "set (swap_at i j (routes_of st)) = set (routes_of st)"
    using mset_swap_at [OF assms(2,3)] by (metis set_mset_mset)
  then have "editor_ok url (replaceRoutes (swap_at i j (routes_of st)) (swap_at i j (ed_routeKeys st)) st)"
    using routes_wide [OF assms(1)] keys assms(2,3) by (intro ok_replace [OF assms(1)]) (simp_all add: mset_swap_at)
  then show ?thesis by (simp add: swapRoutes_def keys assms(1))
qed

lemma ok_move:
  assumes "editor_ok url st" and "i < length (routes_of st)"
  shows "editor_ok url (moveRouteWithinGroup i d st)"
  using assms ok_swap [OF assms] unfolding moveRouteWithinGroup_def Let_def
  by (auto split: option.split dest!: js_at_in samePathIndexes_less)

lemma ok_move_to_end:
  assumes "editor_ok url st" and i: "i < length (routes_of st)"
  shows "editor_ok url (moveRouteToGroupEnd i st)"
proof -
  have keys: "map rr_key (routeRows st) = ed_routeKeys st" "length (ed_routeKeys st) = length (routes_of st)"
    using assms(1) row_keys by (simp_all add: editor_ok_def keys_ok_def)
  have "set (insert_at l (routes_of st ! i) (remove_at i (routes_of st))) = set (routes_of st)" for l
    using mset_move [OF i] by (metis set_mset_mset)
  moreover have "length (insert_at l (routes_of st ! i) (remove_at i (routes_of st))) = length (routes_of st)" for l
    using mset_move [OF i] by (metis size_mset)
  ultimately have "editor_ok url (replaceRoutes (insert_at l (routes_of st ! i) (remove_at i (routes_of st)))
      (insert_at l (ed_routeKeys st ! i) (remove_at i (ed_routeKeys st))) st)" for l
    using routes_wide [OF assms(1)] keys i by (intro ok_replace [OF assms(1)]) (simp_all add: mset_remove_at)
  then show ?thesis using assms(1)
    by (simp add: moveRouteToGroupEnd_def Let_def keys split: option.split)
qed

lemma ok_fix:
  assumes "editor_ok url st"
  shows "editor_ok url (fixCatchAllOrder st)"
proof -
  have keys: "map rr_key (routeRows st) = ed_routeKeys st" using assms row_keys by (simp add: editor_ok_def)
  have "set (map rr_route (ordered_rows (routeRows st))) = set (routes_of st)"
    using mset_ordered_rows [of "routeRows st"] map_route_rows [of st] by (metis list.set_map set_mset_mset)
  moreover have "mset (map rr_key (ordered_rows (routeRows st))) = mset (ed_routeKeys st)"
    using keys by (metis mset_map mset_ordered_rows)
  ultimately show ?thesis unfolding fixCatchAllOrder_def Let_def
    using routes_wide [OF assms] by (intro ok_replace [OF assms]) auto
qed

lemma json_editor_ok:
  assumes "editor_ok url st" and "parseJsonEditorConfig url st = Some (parsed, st1)"
  shows "editor_ok url st1 \<and> (\<forall>c. parsed = Some c \<longrightarrow> config_wide c \<and> normalizeAdvancedCustomConfig c = c \<and>
    validateAdvancedCustomConfig url (Some c) = None)"
  using assms parsed_config_wide [of "ed_jsonText st"]
  by (auto simp: parseJsonEditorConfig_def editor_ok_def keys_ok_def split: parsed.splits option.splits)

lemma ok_put:
  assumes "editor_ok url st" and "config_wide c"
  shows "editor_ok url (put_config c st)"
  using ok_take_config [OF assms(1) normalize_config_wide [OF assms(2)]] config_text_wide [OF normalize_config_wide [OF assms(2)]]
  by (simp add: put_config_def Let_def editor_ok_def keys_ok_def)

lemma ok_save:
  assumes "editor_ok url st" and "config_wide c" and "normalizeAdvancedCustomConfig c = c"
    and "validateAdvancedCustomConfig url (Some c) = None"
  shows "editor_ok url (save_text c st)"
proof -
  have "saved_ok url (stringifyAdvancedCustomConfig c)"
    using config_text_roundtrip_plain [OF assms(2)] assms(3,4) by (auto simp: saved_ok_def)
  then show ?thesis using assms(1) by (simp add: save_text_def editor_ok_def keys_ok_def)
qed

lemma row_path_wide:
  assumes "editor_ok url st" and "row \<in> set (routeRows st)"
  shows "wide (row_path row)"
proof -
  have "rr_route row \<in> set (map rr_route (routeRows st))" using assms(2) by (simp only: set_map imageI)
  then have "route_wide (rr_route row)" using routes_wide [OF assms(1)] by (simp only: map_route_rows)
  then show ?thesis by (simp add: row_path_def getRouteIncomingPath_def route_wide_def wide_opt_or wide_trim)
qed

lemma group_path_wide: "\<forall>row \<in> set rows. wide (row_path row) \<Longrightarrow> g \<in> set (buildRouteGroups rows) \<Longrightarrow> wide (rg_incomingPath g)"
proof -
  have add: "wide (row_path row) \<Longrightarrow> \<forall>g \<in> set gs. wide (rg_incomingPath g) \<Longrightarrow>
      \<forall>g \<in> set (add_to_route_group row gs). wide (rg_incomingPath g)" for row gs
    by (induction gs) auto
  have "\<forall>row \<in> set rows. wide (row_path row) \<Longrightarrow> \<forall>g \<in> set gs. wide (rg_incomingPath g) \<Longrightarrow>
      \<forall>g \<in> set (fold add_to_route_group rows gs). wide (rg_incomingPath g)" for gs
  proof (induction rows arbitrary: gs)
    case (Cons row rows)
    have "\<forall>g \<in> set (add_to_route_group row gs). wide (rg_incomingPath g)" by (rule add) (use Cons.prems in auto)
    from Cons.IH [OF _ this] Cons.prems(1) show ?case by simp
  qed simp
  from this [of "[]"] show "\<forall>row \<in> set rows. wide (row_path row) \<Longrightarrow> g \<in> set (buildRouteGroups rows) \<Longrightarrow> ?thesis"
    by (simp add: buildRouteGroups_def)
qed

lemma ok_add_for:
  assumes "editor_ok url st" and "g \<in> set (routeGroups st)"
  shows "editor_ok url (addRouteForIncomingPath (rg_incomingPath g) st)"
proof -
  have "wide (rg_incomingPath g)"
    using group_path_wide [of "routeRows st" g] row_path_wide [OF assms(1)] assms(2) by (simp add: routeGroups_def)
  then show ?thesis unfolding addRouteForIncomingPath_def Let_def
    by (intro ok_append [OF assms(1)]) (simp add: route_wide_def createAdvancedCustomRoute_def)
qed

lemma ok_apply_template:
  assumes "editor_ok url st" and "applyTemplate url m st = Some st'"
  shows "editor_ok url st'"
proof (cases m)
  case Fill
  with assms ok_put [OF assms(1) template_wide] show ?thesis by (auto simp: applyTemplate_def Let_def)
next
  case Append
  let ?t = "getAdvancedCustomTemplateConfig (ed_templateKey st)"
  obtain b st1 where p: "(if ed_editMode st = JsonText then parseJsonEditorConfig url st
        else Some (Some (normalizedConfig st), st)) = Some (b, st1)"
      "st' = (case b of None \<Rightarrow> st1 | Some b \<Rightarrow> put_config \<lparr>advanced_routes = Some (config_routes
        (normalizeAdvancedCustomConfig b) @ config_routes (normalizeAdvancedCustomConfig ?t))\<rparr> st1)"
    using assms(2) Append by (auto simp: applyTemplate_def Let_def)
  have "editor_ok url st1 \<and> (\<forall>c. b = Some c \<longrightarrow> config_wide c)"
    using p(1) json_editor_ok [OF assms(1), of b st1] assms(1) normalize_config_wide
    by (auto simp: editor_ok_def normalizedConfig_def split: if_splits)
  moreover have "config_wide \<lparr>advanced_routes = Some (config_routes (normalizeAdvancedCustomConfig c) @
      config_routes (normalizeAdvancedCustomConfig ?t))\<rparr>" if "config_wide c" for c
    using normalize_config_wide [OF that] normalize_config_wide [OF template_wide]
    by (simp add: config_wide_def ball_Un)
  ultimately show ?thesis using p(2) ok_put [of url st1] by (cases b) auto
qed

lemma ok_save_config:
  assumes "editor_ok url st" and "saveConfig url st = Some st'"
  shows "editor_ok url st'"
proof (cases "ed_editMode st = JsonText")
  case True
  then obtain parsed st1 where p: "parseJsonEditorConfig url st = Some (parsed, st1)"
      "st' = (case parsed of None \<Rightarrow> st1\<lparr>ed_toasts := ed_toasts st1 @ [FixJsonErrors]\<rparr> | Some c \<Rightarrow> save_text c st1)"
    using assms(2) by (auto simp: saveConfig_def)
  from json_editor_ok [OF assms(1) p(1)] p(2) ok_save [of url st1] show ?thesis
    by (cases parsed) (auto simp: editor_ok_def keys_ok_def)
next
  case False
  have n: "config_wide (normalizedConfig st)" "normalizeAdvancedCustomConfig (normalizedConfig st) = normalizedConfig st"
    using assms(1) normalize_config_wide by (simp_all add: editor_ok_def normalizedConfig_def normalize_idem)
  show ?thesis
  proof (cases "validationError url st")
    case None
    with ok_save [OF assms(1) n] False assms(2) show ?thesis by (simp add: saveConfig_def validationError_def)
  next
    case (Some e)
    then show ?thesis using False assms by (auto simp: saveConfig_def editor_ok_def keys_ok_def)
  qed
qed

lemma ok_switch_visual:
  assumes "editor_ok url st" and "switchToVisualMode url st = Some st'"
  shows "editor_ok url st'"
proof -
  obtain parsed st1 where p: "parseJsonEditorConfig url st = Some (parsed, st1)"
      "st' = (case parsed of None \<Rightarrow> st1
         | Some c \<Rightarrow> (take_config (normalizeAdvancedCustomConfig c) st1)\<lparr>ed_editMode := Visual\<rparr>)"
    using assms(2) by (auto simp: switchToVisualMode_def)
  from json_editor_ok [OF assms(1) p(1)] p(2) ok_take_config [of url st1] show ?thesis
    by (cases parsed) (auto simp: editor_ok_def keys_ok_def)
qed

lemma ok_switch_json:
  assumes "editor_ok url st"
  shows "editor_ok url (switchToJsonMode st)"
proof -
  have "config_wide (normalizedConfig st)" using assms normalize_config_wide
    by (simp add: editor_ok_def normalizedConfig_def)
  then show ?thesis using assms
    by (auto simp: switchToJsonMode_def editor_ok_def keys_ok_def config_text_wide)
qed

lemma ok_format:
  assumes "editor_ok url st" and "formatJson url st = Some st'"
  shows "editor_ok url st'"
proof -
  obtain parsed st1 where p: "parseJsonEditorConfig url st = Some (parsed, st1)"
      "st' = (case parsed of None \<Rightarrow> st1 | Some c \<Rightarrow> st1\<lparr>ed_jsonText := stringifyAdvancedCustomConfig c\<rparr>)"
    using assms(2) by (auto simp: formatJson_def)
  from json_editor_ok [OF assms(1) p(1)] p(2) show ?thesis
    by (cases parsed) (auto simp: editor_ok_def keys_ok_def config_text_wide)
qed

lemma ok_plain:
  assumes "editor_ok url st"
  shows "editor_ok url (st\<lparr>ed_templateKey := k\<rparr>)" "editor_ok url (st\<lparr>ed_open := b\<rparr>)"
    "wide v \<Longrightarrow> editor_ok url (handleJsonChange v st)"
  using assms by (simp_all add: editor_ok_def keys_ok_def handleJsonChange_def)

lemmas ok_actions = ok_append ok_add_for ok_remove ok_edit ok_group_path ok_move ok_move_to_end ok_fix
  ok_switch_visual ok_switch_json ok_format ok_plain ok_apply_template ok_save_config

lemma perform_ok:
  assumes st: "editor_ok url st" and "action_wide a" and "editor_offered url st a" and "perform url a st = Some st'"
  shows "editor_ok url st'"
  using assms(2-4)
  by (cases a) (auto simp: addRoute_def intro: ok_actions [OF st] shown_index)

lemma initial_ok:
  assumes "wide v" and "initial_editor v = Some st"
  shows "editor_ok url st"
proof -
  obtain c where c: "config_wide c" and st: "st = \<lparr>ed_config = c,
      ed_routeKeys = map initial_key [0..<length (config_routes (normalizeAdvancedCustomConfig c))],
      ed_keyCounter = 0, ed_editMode = Visual, ed_jsonText = stringifyAdvancedCustomConfig c,
      ed_jsonError = None, ed_templateKey = first_template, ed_saved = [], ed_open = True, ed_toasts = []\<rparr>"
    using assms parsed_config_wide [of v] by (auto simp: initial_editor_def split: parsed.splits)
  have "keys_ok st"
    by (auto simp: keys_ok_def st routes_of_alt config_routes_normalize distinct_map inj_on_def known_key_def)
  then show ?thesis using c config_text_wide [OF c] by (simp add: editor_ok_def) (simp add: st)
qed

theorem editor_reachable_ok: "editor_reachable url st \<Longrightarrow> editor_ok url st"
proof (induction rule: editor_reachable.induct)
  case (start v st)
  then show ?case by (rule initial_ok)
next
  case (step st a st')
  show ?case by (rule perform_ok [OF step.IH step.hyps(3,4,5)])
qed

section \<open>The order of the routes\<close>

lemma error_messages:
  "incoming_error p \<noteq> Some CatchAllLast" "target_error url p r \<noteq> Some CatchAllLast"
  by (auto simp: incoming_error_def target_error_def validateRouteAuth_def Let_def split: option.splits if_splits)

lemma check_models_message: "fst (check_models i ms seen known) \<noteq> Some CatchAllLast"
  by (induction i ms seen known rule: check_models.induct) auto

lemma route_models_message:
  assumes "tracks qs byPath"
    and "fst (validateAdvancedCustomRouteModels i (route_path r) (rules r) byPath) = Some CatchAllLast"
  shows "rules r \<noteq> [] \<and> (\<exists>q \<in> set qs. route_path q = route_path r \<and> rules q = [])"
proof -
  have "ps_catchAllIndex (path_state byPath (route_path r)) \<noteq> None \<longleftrightarrow>
      (\<exists>q \<in> set qs. route_path q = route_path r \<and> rules q = [])"
    using assms(1) by (simp add: tracks_def)
  then show ?thesis
    using assms(2) check_models_message [of i "rules r" "{}" "ps_models (path_state byPath (route_path r))"]
    by (auto simp: validateAdvancedCustomRouteModels_def Let_def case_prod_unfold split: if_splits)
qed

lemma catch_all_error:
  assumes "tracks qs byPath" and "validate_routes url i rs byPath = Some e" and "ve_message e = CatchAllLast"
  shows "\<exists>us r vs. rs = us @ r # vs \<and> rules r \<noteq> [] \<and>
    (\<exists>q \<in> set (qs @ us). route_path q = route_path r \<and> rules q = [])"
  using assms
proof (induction rs arbitrary: i qs byPath)
  case (Cons r rs)
  obtain err byPath' where v: "validateAdvancedCustomRouteModels i (route_path r) (rules r) byPath = (err, byPath')"
    by fastforce
  show ?case
  proof (cases "err = Some CatchAllLast")
    case True
    with route_models_message [OF Cons.prems(1), of i r] v show ?thesis
      by (intro exI [of _ "[]"] exI [of _ r] exI [of _ rs]) simp
  next
    case False
    with Cons.prems(2,3) v error_messages(1) [of "route_path r"] error_messages(2) [of url "route_path r" r]
    have none: "err = None" and rest: "validate_routes url (i + 1) rs byPath' = Some e"
      by (auto simp: Let_def split: option.splits)
    have "tracks (qs @ [r]) byPath'" using tracks_step [OF Cons.prems(1), where i = i and r = r] v none by simp
    from Cons.IH [OF this rest Cons.prems(3)] obtain us r' vs where
      "rs = us @ r' # vs" "rules r' \<noteq> []" "\<exists>q \<in> set ((qs @ [r]) @ us). route_path q = route_path r' \<and> rules q = []"
      by blast
    then show ?thesis by (intro exI [of _ "r # us"] exI [of _ r'] exI [of _ vs]) auto
  qed
qed simp

lemma validationError_routes:
  "validationError url st = (if routes_of st = [] then Some \<lparr>ve_message = RouteRequired, ve_routeIndex = None\<rparr>
     else validate_routes url 0 (routes_of st) [])"
  by (simp add: validationError_def validateAdvancedCustomConfig_def Let_def normalizedConfig_def normalize_idem routes_of_def)

lemma normal_models:
  "rt_models (normalizeAdvancedCustomRoute r) = (if length (rules r) > 0 then Some (rules r) else None)"
  by (simp add: normalizeAdvancedCustomRoute_def Let_def)

lemma normal_catch_all:
  assumes "normalizeAdvancedCustomRoute r = r"
  shows "isCatchAllRoute r \<longleftrightarrow> rules r = []"
proof (cases "rules r = []")
  case True
  then have "rt_models r = None" using normal_models [of r] unfolding assms by simp
  with True show ?thesis by (simp add: isCatchAllRoute_def)
next
  case False
  then obtain m ms where "rules r = m # ms" by (cases "rules r") auto
  then have "rt_models r = Some (m # ms)" using normal_models [of r] unfolding assms by (simp only: length_Cons) simp
  with False show ?thesis by (simp add: isCatchAllRoute_def)
qed

lemma path_same: "getRouteIncomingPath = route_path"
  by (rule ext) (simp add: getRouteIncomingPath_def route_path_def)

definition catch_alls_end :: "RouteRow list \<Rightarrow> bool" where
  "catch_alls_end rows \<longleftrightarrow> sorted_wrt (\<lambda>a b. isCatchAllRoute (rr_route a) \<longrightarrow> isCatchAllRoute (rr_route b)) rows"

lemma catch_alls_end_catch_all_last: "catch_alls_end (catch_all_last rows)"
proof -
  have "sorted_wrt (\<lambda>a b. P a \<longrightarrow> P b) (filter (\<lambda>x. \<not> P x) xs)" "sorted_wrt (\<lambda>a b. P a \<longrightarrow> P b) (filter P xs)"
    for P and xs :: "RouteRow list"
    by (induction xs) auto
  then show ?thesis by (simp add: catch_alls_end_def catch_all_last_def sorted_wrt_append)
qed

lemma ordered_rows_split:
  assumes "ordered_rows rows = us @ r # vs" and "q \<in> set us" and "row_path q = row_path r"
    and "isCatchAllRoute (rr_route q)"
  shows "isCatchAllRoute (rr_route r)"
proof -
  have "catch_alls_end (filter (\<lambda>row. row_path row = row_path r) (us @ r # vs))"
    using ordered_rows_paths [of rows "row_path r"] assms(1) catch_alls_end_catch_all_last by metis
  then have "\<forall>a \<in> set (filter (\<lambda>row. row_path row = row_path r) us).
      \<forall>b \<in> set (filter (\<lambda>row. row_path row = row_path r) (r # vs)).
        isCatchAllRoute (rr_route a) \<longrightarrow> isCatchAllRoute (rr_route b)"
    unfolding catch_alls_end_def filter_append sorted_wrt_append by blast
  moreover have "q \<in> set (filter (\<lambda>row. row_path row = row_path r) us)"
      "r \<in> set (filter (\<lambda>row. row_path row = row_path r) (r # vs))"
    using assms(2,3) by simp_all
  ultimately show ?thesis using assms(4) by blast
qed

lemma ordered_routes_normal:
  "row \<in> set (ordered_rows (routeRows st)) \<Longrightarrow> normalizeAdvancedCustomRoute (rr_route row) = rr_route row"
proof -
  assume "row \<in> set (ordered_rows (routeRows st))"
  then have "row \<in> set (routeRows st)" by (metis mset_ordered_rows set_mset_mset)
  then have "rr_route row \<in> set (map rr_route (routeRows st))" by (simp only: set_map imageI)
  then show ?thesis using routes_normal by (simp only: map_route_rows)
qed

lemma fixed_routes:
  "routes_of (fixCatchAllOrder st) = map rr_route (ordered_rows (routeRows st))"
  using ordered_routes_normal [of _ st]
  by (simp add: fixCatchAllOrder_def Let_def replaceRoutes_def)

lemma paths_of_rows: "map row_path rows = map getRouteIncomingPath (map rr_route rows)"
  by (simp add: row_path_def)

lemma fixed_order_valid: "map_option ve_message (validationError url (fixCatchAllOrder st)) \<noteq> Some CatchAllLast"
proof
  let ?rows = "ordered_rows (routeRows st)"
  assume "map_option ve_message (validationError url (fixCatchAllOrder st)) = Some CatchAllLast"
  then obtain e where "validate_routes url 0 (map rr_route ?rows) [] = Some e" "ve_message e = CatchAllLast"
    by (auto simp: validationError_routes fixed_routes split: if_splits)
  from catch_all_error [OF tracks_Nil this] obtain us r vs q where
    rs: "map rr_route ?rows = us @ r # vs" "rules r \<noteq> []" "q \<in> set us" "route_path q = route_path r" "rules q = []"
    by auto
  then obtain us' r' vs' where split: "?rows = us' @ r' # vs'" "us = map rr_route us'" "r = rr_route r'"
    by (auto simp: map_eq_append_conv Cons_eq_map_conv)
  then obtain q' where q': "q' \<in> set us'" "q = rr_route q'" using rs(3) by auto
  have "row_path q' = row_path r'" using rs(4) split(3) q'(2) by (simp add: row_path_def path_same)
  moreover have "isCatchAllRoute (rr_route q')"
    using normal_catch_all ordered_routes_normal [of q' st] split(1) q' rs(5) by simp
  ultimately have "isCatchAllRoute (rr_route r')" by (rule ordered_rows_split [OF split(1) q'(1)])
  then show False using normal_catch_all ordered_routes_normal [of r' st] split rs(2) by simp
qed

section \<open>Rows keep their keys\<close>

abbreviation keyed :: "Editor \<Rightarrow> (jsstr \<times> Route) list" where
  "keyed st \<equiv> zip (ed_routeKeys st) (routes_of st)"

lemma zip_swap_at:
  "length xs = length ys \<Longrightarrow> i < length xs \<Longrightarrow> j < length xs \<Longrightarrow>
   zip (swap_at i j xs) (swap_at i j ys) = swap_at i j (zip xs ys)"
  by (simp add: swap_at_def zip_update)

lemma zip_move:
  assumes "length xs = length ys" and "i < length xs"
  shows "zip (insert_at l (xs ! i) (remove_at i xs)) (insert_at l (ys ! i) (remove_at i ys)) =
    insert_at l (zip xs ys ! i) (remove_at i (zip xs ys))"
proof -
  have "zip (remove_at i xs) (remove_at i ys) = remove_at i (zip xs ys)"
    using assms by (simp add: remove_at_def take_zip drop_zip)
  moreover have "length (remove_at i xs) = length (remove_at i ys)"
    using assms by (simp add: length_remove_at)
  ultimately show ?thesis using assms by (simp add: insert_at_def take_zip drop_zip flip: take_zip drop_zip)
qed

lemma keyed_replace:
  assumes "\<forall>r \<in> set rs. normalizeAdvancedCustomRoute r = r"
  shows "keyed (replaceRoutes rs ks st) = zip ks rs"
proof -
  have "map normalizeAdvancedCustomRoute rs = rs" using assms by (simp add: map_idI)
  then show ?thesis by (simp add: replaceRoutes_def)
qed

lemma swap_keyed:
  assumes "keys_ok st" and "i < length (routes_of st)" and "j < length (routes_of st)"
  shows "mset (keyed (swapRoutes i j st)) = mset (keyed st)"
proof (cases "i = j")
  case False
  have "set (swap_at i j (routes_of st)) = set (routes_of st)"
    using mset_swap_at [OF assms(2,3)] by (metis set_mset_mset)
  then have "\<forall>r \<in> set (swap_at i j (routes_of st)). normalizeAdvancedCustomRoute r = r" using routes_normal by simp
  from keyed_replace [OF this] False assms show ?thesis
    by (simp add: swapRoutes_def row_keys zip_swap_at keys_ok_def mset_swap_at)
qed (simp add: swapRoutes_def)

lemma move_keyed:
  assumes "keys_ok st" and "i < length (routes_of st)"
  shows "mset (keyed (moveRouteWithinGroup i d st)) = mset (keyed st)"
  using assms swap_keyed [OF assms] unfolding moveRouteWithinGroup_def Let_def
  by (auto split: option.split dest!: js_at_in samePathIndexes_less)

lemma move_to_end_keyed:
  assumes k: "keys_ok st" and i: "i < length (routes_of st)"
  shows "mset (keyed (moveRouteToGroupEnd i st)) = mset (keyed st)"
proof -
  have len: "length (ed_routeKeys st) = length (routes_of st)" using k by (simp add: keys_ok_def)
  have "set (insert_at l (routes_of st ! i) (remove_at i (routes_of st))) = set (routes_of st)" for l
    using mset_move [OF i] by (metis set_mset_mset)
  then have n: "\<forall>r \<in> set (insert_at l (routes_of st ! i) (remove_at i (routes_of st))). normalizeAdvancedCustomRoute r = r" for l
    using routes_normal by simp
  have "mset (keyed (replaceRoutes (insert_at l (routes_of st ! i) (remove_at i (routes_of st)))
      (insert_at l (ed_routeKeys st ! i) (remove_at i (ed_routeKeys st))) st)) = mset (keyed st)" for l
    using mset_move [of i "keyed st" l] i len by (simp add: keyed_replace [OF n] zip_move [OF len])
  then show ?thesis by (simp add: moveRouteToGroupEnd_def Let_def row_keys [OF k] split: option.split)
qed

section \<open>A session for the witnesses\<close>

text \<open>The dialog opened on an empty value shows one route, which can be saved.\<close>

definition fresh_editor :: Editor where
  "fresh_editor = \<lparr>ed_config = createAdvancedCustomConfig, ed_routeKeys = [initial_key 0], ed_keyCounter = 0,
     ed_editMode = Visual, ed_jsonText = stringifyAdvancedCustomConfig createAdvancedCustomConfig, ed_jsonError = None,
     ed_templateKey = first_template, ed_saved = [], ed_open = True, ed_toasts = []\<rparr>"

lemma fresh_initial: "initial_editor [] = Some fresh_editor"
  by (simp add: initial_editor_def parseAdvancedCustomConfig_def fresh_editor_def config_routes_normalize
      createAdvancedCustomConfig_def)

lemma fresh_reachable: "editor_reachable url fresh_editor"
  by (rule editor_reachable.start [OF _ fresh_initial]) simp

lemma fresh_valid: "validationError url fresh_editor = None"
proof -
  have "validateAdvancedCustomConfig url (Some createAdvancedCustomConfig) = None"
    using advanced_custom_templates_valid by blast
  then show ?thesis
    by (simp add: validationError_def fresh_editor_def normalizedConfig_def validateAdvancedCustomConfig_def normalize_idem)
qed

lemma fresh_save: "editor_reachable url (save_text (normalizedConfig fresh_editor) fresh_editor)"
proof (rule editor_reachable.step [OF fresh_reachable])
  show "perform url Save fresh_editor = Some (save_text (normalizedConfig fresh_editor) fresh_editor)"
    using fresh_valid by (simp add: saveConfig_def) (simp add: fresh_editor_def)
qed (simp_all add: fresh_editor_def)

lemma fresh_routes: "length (routes_of fresh_editor) = 1"
  by (simp add: routes_of_alt fresh_editor_def createAdvancedCustomConfig_def)

section \<open>Claims\<close>

text \<open>C9: Whatever the dialog saves in a reachable state, from the rows or from the JSON text, is
  read back as a configuration the validator accepts, and is the formatted text of it.\<close>

theorem editor_saves_valid:
  assumes "editor_reachable url st" and "text \<in> set (ed_saved st)"
  shows "\<exists>c. parseAdvancedCustomConfig (Some text) = Config c \<and> validateAdvancedCustomConfig url (Some c) = None \<and>
    stringifyAdvancedCustomConfig c = text"
  using editor_reachable_ok [OF assms(1)] assms(2) by (simp add: editor_ok_def saved_ok_def)

lemma editor_saves_valid_witness:
  "\<exists>st text c. editor_reachable (\<lambda>_. None) st \<and> text \<in> set (ed_saved st) \<and>
     parseAdvancedCustomConfig (Some text) = Config c \<and> validateAdvancedCustomConfig (\<lambda>_. None) (Some c) = None \<and>
     stringifyAdvancedCustomConfig c = text"
proof -
  let ?st = "save_text (normalizedConfig fresh_editor) fresh_editor"
  let ?t = "stringifyAdvancedCustomConfig (normalizedConfig fresh_editor)"
  have r: "editor_reachable (\<lambda>_. None) ?st" by (rule fresh_save)
  have t: "?t \<in> set (ed_saved ?st)" by (simp add: save_text_def)
  from editor_saves_valid [OF r t] r t show ?thesis by blast
qed

text \<open>C26: In every reachable state there is exactly one key for every route and no key occurs twice, so
  the rows the dialog shows have unique keys.\<close>

theorem editor_keys_unique:
  assumes "editor_reachable url st"
  shows "map rr_key (routeRows st) = ed_routeKeys st \<and> distinct (ed_routeKeys st) \<and>
    length (ed_routeKeys st) = length (routes_of st)"
  using editor_reachable_ok [OF assms] row_keys by (simp add: editor_ok_def keys_ok_def)

lemma editor_keys_unique_witness:
  "editor_reachable (\<lambda>_. None) fresh_editor \<and> distinct (ed_routeKeys fresh_editor)"
  using editor_keys_unique [OF fresh_reachable] fresh_reachable by blast

text \<open>C27: Fixing the order of the catch-all routes keeps every route with its key and the path at every
  position, and afterwards the validator does not complain about a catch-all that is not last.\<close>

theorem catch_all_order_fixed:
  assumes "editor_reachable url st"
  shows "mset (zip (ed_routeKeys (fixCatchAllOrder st)) (routes_of (fixCatchAllOrder st))) =
      mset (zip (ed_routeKeys st) (routes_of st)) \<and>
    map getRouteIncomingPath (routes_of (fixCatchAllOrder st)) = map getRouteIncomingPath (routes_of st) \<and>
    map_option ve_message (validationError url (fixCatchAllOrder st)) \<noteq> Some CatchAllLast"
proof -
  let ?rows = "ordered_rows (routeRows st)" and ?f = "\<lambda>row. (rr_key row, rr_route row)"
  have keys: "map rr_key (routeRows st) = ed_routeKeys st"
    using editor_reachable_ok [OF assms] row_keys by (simp add: editor_ok_def)
  have z: "zip (map rr_key xs) (map rr_route xs) = map ?f xs" for xs by (simp add: zip_map_map zip_same_conv_map)
  have "ed_routeKeys (fixCatchAllOrder st) = map rr_key ?rows"
    by (simp add: fixCatchAllOrder_def Let_def replaceRoutes_def)
  then have "mset (zip (ed_routeKeys (fixCatchAllOrder st)) (routes_of (fixCatchAllOrder st))) = mset (map ?f (routeRows st))"
    by (simp add: fixed_routes z)
  also have "\<dots> = mset (zip (ed_routeKeys st) (routes_of st))"
    unfolding z [symmetric] keys map_route_rows ..
  finally have "mset (zip (ed_routeKeys (fixCatchAllOrder st)) (routes_of (fixCatchAllOrder st))) =
      mset (zip (ed_routeKeys st) (routes_of st))" .
  moreover have "map row_path ?rows = map row_path (routeRows st)" using ordered_rows_paths by blast
  then have "map getRouteIncomingPath (routes_of (fixCatchAllOrder st)) = map getRouteIncomingPath (routes_of st)"
    unfolding paths_of_rows fixed_routes map_route_rows .
  ultimately show ?thesis using fixed_order_valid by blast
qed

lemma catch_all_order_fixed_witness:
  "editor_reachable (\<lambda>_. None) fresh_editor \<and>
   map_option ve_message (validationError (\<lambda>_. None) (fixCatchAllOrder fresh_editor)) \<noteq> Some CatchAllLast"
  using catch_all_order_fixed [OF fresh_reachable] fresh_reachable by blast

text \<open>Moving a route up, down or to the end of its group keeps every route together with its key:
  no route is lost, doubled or shown under the key of another one.\<close>

theorem moves_keep_routes:
  assumes "editor_reachable url st" and "editor_offered url st a"
    and "a = MoveUp g k \<or> a = MoveDown g k \<or> a = MoveToEnd g k" and "perform url a st = Some st'"
  shows "mset (zip (ed_routeKeys st') (routes_of st')) = mset (zip (ed_routeKeys st) (routes_of st))"
proof -
  have k: "keys_ok st" using editor_reachable_ok [OF assms(1)] by (simp add: editor_ok_def)
  have "rr_index (rg_routeRows g ! k) < length (routes_of st)" using assms(2,3) shown_index by auto
  with assms(3,4) move_keyed [OF k] move_to_end_keyed [OF k] show ?thesis by auto
qed

lemma moves_keep_routes_witness:
  "\<exists>st g st'. editor_reachable (\<lambda>_. None) st \<and> editor_offered (\<lambda>_. None) st (MoveUp g 1) \<and>
     perform (\<lambda>_. None) (MoveUp g 1) st = Some st' \<and>
     mset (zip (ed_routeKeys st') (routes_of st')) = mset (zip (ed_routeKeys st) (routes_of st))"
proof -
  let ?st = "addRoute fresh_editor"
  have r: "editor_reachable (\<lambda>_. None) ?st"
    by (rule editor_reachable.step [OF fresh_reachable, where a = AddRoute]) (simp_all add: fresh_editor_def)
  have "routes_of ?st = [hd (routes_of ?st), hd (routes_of ?st)]"
    by (simp add: addRoute_def append_route_def createRouteKey_def Let_def)
      (simp add: routes_of_alt fresh_editor_def createAdvancedCustomConfig_def normalize_route_idem)
  then obtain n where n: "routes_of ?st = [n, n]" by blast
  obtain g where "g \<in> set (routeGroups ?st)" "length (rg_routeRows g) = 2"
    by (simp add: routeGroups_def routeRows_def n buildRouteGroups_def row_path_def)
  then have o: "editor_offered (\<lambda>_. None) ?st (MoveUp g 1)"
    by (simp add: shown_row_def canMoveUp_def) (simp add: addRoute_def append_route_def createRouteKey_def Let_def
        set_routes_def fresh_editor_def)
  have "mset (zip (ed_routeKeys st') (routes_of st')) = mset (zip (ed_routeKeys ?st) (routes_of ?st))"
    if "perform (\<lambda>_. None) (MoveUp g 1) ?st = Some st'" for st'
    using moves_keep_routes [OF r o _ that] by blast
  with r o perform.simps(6) [of "\<lambda>_. None" g 1 ?st] show ?thesis by blast
qed

lemma split_on_snoc: "split_on c (v @ [c]) = split_on c v @ [[]]"
  by (induction v) (auto split: list.split)

lemma typed_models:
  assumes "i < length (routes_of st)"
  shows "rules (routes_of (editRoute i (TypeModels v) st) ! i) = truthy_strs (map trim (split_on 44 v))"
proof -
  have "truthy_strs (map trim (if v = [] then [] else split_on 44 v)) = truthy_strs (map trim (split_on 44 v))"
    by (simp add: truthy_strs_def)
  with assms show ?thesis
    by (simp add: editRoute_def edit_patch_def updateRoute_def Let_def setModelsInput_def apply_patch_def
        normal_models truthy_trim_idem normalizeAdvancedCustomRouteModels_def)
qed

lemma shown_models:
  assumes "normalizeAdvancedCustomRoute r = r"
  shows "modelsInputValue r = join (js '', '') (rules r)"
proof -
  obtain ms where ms: "rules r = ms" by simp
  have "rt_models r = (if length ms > 0 then Some ms else None)" using normal_models [of r] unfolding assms ms .
  then show ?thesis unfolding ms by (simp add: modelsInputValue_def)
qed

text \<open>A comma typed at the end of the list of models disappears: the input shows the same text as
  before, so a list cannot be typed from left to right.\<close>

theorem typed_comma_lost:
  assumes "i < length (routes_of st)"
  shows "modelsInputValue (routes_of (editRoute i (TypeModels (v @ js '','')) st) ! i) =
    modelsInputValue (routes_of (editRoute i (TypeModels v) st) ! i)"
proof -
  have len: "length (routes_of (editRoute i (TypeModels w) st)) = length (routes_of st)" for w
    by (simp add: editRoute_def edit_patch_def updateRoute_def Let_def)
  have shown: "modelsInputValue (routes_of (editRoute i (TypeModels w) st) ! i) =
      join (js '', '') (truthy_strs (map trim (split_on 44 w)))" for w
    using shown_models [OF routes_normal [OF nth_mem]] len assms typed_models [OF assms] by simp
  have "v @ js '','' = v @ [44]" by (simp add: js_lit)
  then show ?thesis unfolding shown by (simp add: split_on_snoc truthy_strs_def)
qed

lemma typed_comma_lost_witness:
  "0 < length (routes_of fresh_editor) \<and>
   modelsInputValue (routes_of (editRoute 0 (TypeModels (js ''gpt-4o'' @ js '','')) fresh_editor) ! 0) =
     modelsInputValue (routes_of (editRoute 0 (TypeModels (js ''gpt-4o'')) fresh_editor) ! 0)"
proof -
  have "0 < length (routes_of fresh_editor)" by (simp add: fresh_routes)
  with typed_comma_lost [OF this, of "js ''gpt-4o''"] show ?thesis by blast
qed

text \<open>The button of the visual mode reads the JSON text also when the dialog is already in the
  visual mode, and visual edits do not change that text: it throws away every visual edit since
  the dialog was opened.\<close>

theorem visual_button_reverts:
  assumes "wide v" and "initial_editor v = Some st0" and "validationError url st0 = None"
    and "ed_jsonText st = ed_jsonText st0"
  shows "\<exists>st'. perform url SwitchVisual st = Some st' \<and> routes_of st' = routes_of st0"
proof -
  have ok: "editor_ok url st0" by (rule initial_ok [OF assms(1,2)])
  let ?c = "ed_config st0"
  have shown: "ed_jsonText st0 = stringifyAdvancedCustomConfig ?c"
    using assms(2) by (auto simp: initial_editor_def split: parsed.splits)
  have "parseAdvancedCustomConfig (Some (ed_jsonText st)) = Config (normalizedConfig st0)"
    using config_text_roundtrip_plain [of ?c] ok assms(4) shown by (simp add: editor_ok_def normalizedConfig_def)
  then have "parseJsonEditorConfig url st = Some (Some (normalizedConfig st0), st\<lparr>ed_jsonError := None\<rparr>)"
    using assms(3) by (simp add: parseJsonEditorConfig_def validationError_def)
  then show ?thesis
    by (simp add: switchToVisualMode_def take_config_def createRouteKeys_eq)
      (simp add: routes_of_def normalizedConfig_def normalize_idem config_routes_normalize [symmetric])
qed

lemma visual_button_reverts_witness:
  "\<exists>st'. length (routes_of (addRoute fresh_editor)) = 2 \<and>
     perform (\<lambda>_. None) SwitchVisual (addRoute fresh_editor) = Some st' \<and> length (routes_of st') = 1"
proof -
  have two: "length (routes_of (addRoute fresh_editor)) = 2"
    by (simp add: addRoute_def append_route_def createRouteKey_def Let_def fresh_routes)
  have same: "ed_jsonText (addRoute fresh_editor) = ed_jsonText fresh_editor"
    by (simp add: addRoute_def append_route_def createRouteKey_def Let_def set_routes_def)
  obtain st' where "perform (\<lambda>_. None) SwitchVisual (addRoute fresh_editor) = Some st'"
      "routes_of st' = routes_of fresh_editor"
    using visual_button_reverts [OF _ fresh_initial fresh_valid same] by auto
  with two fresh_routes show ?thesis by metis
qed

end
