(* ===== verification/Flow.thy ===== *)
theory Flow
  imports Js_Json
begin

text \<open>
  The flow diagram of the dashboard (\<open>src/web/default/src/features/dashboard/lib/flow.ts\<close>):
  usage rows become paths through the visible stages, paths are aggregated into the nodes and
  links of a Sankey diagram, with a limit on the nodes of a stage, filters, highlighting,
  masking of sensitive labels and colours. Two services of the platform are arguments:
  \<open>lc\<close> is \<open>localeCompare\<close> and \<open>fmt\<close> is \<open>Intl.NumberFormat\<close> without fraction digits.
\<close>

section \<open>Types\<close>

datatype FlowMetric = MQuota | MTokens | MRequests

datatype FlowOverflowMode = Aggregate | Hide

datatype FlowRole = RoleUser | RoleAdmin | RoleRoot

datatype FlowNodeKind = KUser | KNode | KToken | KGroup | KModel | KChannel

record FlowQuotaDataItem =
  fr_user_id :: "jsnum option"
  fr_username :: "jsstr option"
  fr_node_name :: "jsstr option"
  fr_use_group :: "jsstr option"
  fr_token_id :: "jsnum option"
  fr_token_name :: "jsstr option"
  fr_channel_id :: "jsnum option"
  fr_channel_name :: "jsstr option"
  fr_model_name :: "jsstr option"
  fr_token_used :: "jsnum option"
  fr_count :: "jsnum option"
  fr_quota :: "jsnum option"

record FlowNodeFilter =
  nf_kind :: FlowNodeKind
  nf_id :: jsstr

record FlowLinkSelection =
  ls_source :: jsstr
  ls_target :: jsstr

record FlowMetrics =
  fm_quota :: jsnum
  fm_tokens :: jsnum
  fm_requests :: jsnum

record FlowPathNode =
  pn_id :: jsstr
  pn_label :: jsstr
  pn_kind :: FlowNodeKind

type_synonym PreparedFlowPath = "FlowPathNode list \<times> FlowMetrics"

record FlowNodeRank =
  rank_node :: FlowPathNode
  rank_value :: jsnum

type_synonym FlowPathContext = "(jsnum \<Rightarrow> jsstr) option"

record FlowGraphOptions =
  go_topNodeLimit :: "jsnum option"
  go_overflowMode :: "FlowOverflowMode option"
  go_otherNodeLabel :: "(FlowNodeKind \<Rightarrow> jsstr) option"
  go_activeNode :: "FlowNodeFilter option"
  go_activeLink :: "FlowLinkSelection option"
  go_maskSensitive :: bool

record DashboardFlowNode =
  dn_id :: jsstr
  dn_label :: jsstr
  dn_kind :: FlowNodeKind
  dn_value :: jsnum
  dn_requests :: jsnum
  dn_quota :: jsnum
  dn_tokens :: jsnum
  dn_color :: jsstr
  dn_colorKey :: jsstr
  dn_highlighted :: "bool option"
  dn_dimmed :: "bool option"

record DashboardFlowLink =
  dl_source :: jsstr
  dl_target :: jsstr
  dl_value :: jsnum
  dl_requests :: jsnum
  dl_quota :: jsnum
  dl_tokens :: jsnum
  dl_sourceLabel :: jsstr
  dl_targetLabel :: jsstr
  dl_color :: jsstr
  dl_linkColor :: jsstr
  dl_linkAlpha :: jsnum
  dl_hoverColor :: jsstr
  dl_colorKey :: jsstr
  dl_share :: jsnum
  dl_highlighted :: "bool option"
  dl_dimmed :: "bool option"

record DashboardFlowGraph =
  gr_nodes :: "DashboardFlowNode list"
  gr_links :: "DashboardFlowLink list"

definition DEFAULT_FLOW_ROLE :: FlowRole where
  "DEFAULT_FLOW_ROLE = RoleUser"

definition DEFAULT_FLOW_OVERFLOW_MODE :: FlowOverflowMode where
  "DEFAULT_FLOW_OVERFLOW_MODE = Aggregate"

definition DEFAULT_FLOW_CHART_COLOR :: jsstr where
  "DEFAULT_FLOW_CHART_COLOR = js ''#737373''"

fun kind_name :: "FlowNodeKind \<Rightarrow> string" where
  "kind_name KUser = ''user''"
| "kind_name KNode = ''node''"
| "kind_name KToken = ''token''"
| "kind_name KGroup = ''group''"
| "kind_name KModel = ''model''"
| "kind_name KChannel = ''channel''"

definition FLOW_NODE_KINDS :: "FlowNodeKind list" where
  "FLOW_NODE_KINDS = [KUser, KNode, KToken, KGroup, KModel, KChannel]"

fun OTHER_FLOW_NODE_IDS :: "FlowNodeKind \<Rightarrow> jsstr" where
  "OTHER_FLOW_NODE_IDS KUser = js ''user:__other__''"
| "OTHER_FLOW_NODE_IDS KNode = js ''node:__other__''"
| "OTHER_FLOW_NODE_IDS KToken = js ''token:__other__''"
| "OTHER_FLOW_NODE_IDS KGroup = js ''group:__other__''"
| "OTHER_FLOW_NODE_IDS KModel = js ''model:__other__''"
| "OTHER_FLOW_NODE_IDS KChannel = js ''channel:__other__''"

fun DEFAULT_OTHER_FLOW_NODE_LABELS :: "FlowNodeKind \<Rightarrow> jsstr" where
  "DEFAULT_OTHER_FLOW_NODE_LABELS KUser = js ''Other users''"
| "DEFAULT_OTHER_FLOW_NODE_LABELS KNode = js ''Other nodes''"
| "DEFAULT_OTHER_FLOW_NODE_LABELS KToken = js ''Other tokens''"
| "DEFAULT_OTHER_FLOW_NODE_LABELS KGroup = js ''Other groups''"
| "DEFAULT_OTHER_FLOW_NODE_LABELS KModel = js ''Other models''"
| "DEFAULT_OTHER_FLOW_NODE_LABELS KChannel = js ''Other channels''"

definition SENSITIVE_FLOW_KINDS :: "FlowNodeKind list" where
  "SENSITIVE_FLOW_KINDS = [KUser, KNode, KToken, KGroup, KChannel]"

definition OTHER_FLOW_NODE_ID_SET :: "jsstr list" where
  "OTHER_FLOW_NODE_ID_SET = map OTHER_FLOW_NODE_IDS FLOW_NODE_KINDS"

section \<open>Rows, metrics and nodes\<close>

definition numberValue :: "jsnum option \<Rightarrow> jsnum" where
  "numberValue v = (case v of None \<Rightarrow> Fin 0 | Some n \<Rightarrow> if is_finite n then n else Fin 0)"

definition rowMetrics :: "FlowQuotaDataItem \<Rightarrow> FlowMetrics" where
  "rowMetrics row = \<lparr>fm_quota = numberValue (fr_quota row), fm_tokens = numberValue (fr_token_used row),
     fm_requests = numberValue (fr_count row)\<rparr>"

fun metricValue :: "FlowMetrics \<Rightarrow> FlowMetric \<Rightarrow> jsnum" where
  "metricValue metrics MRequests = fm_requests metrics"
| "metricValue metrics MTokens = fm_tokens metrics"
| "metricValue metrics MQuota = fm_quota metrics"

definition positive :: "jsnum \<Rightarrow> bool" where
  "positive x = js_lt (Fin 0) x"

definition userNode :: "FlowQuotaDataItem \<Rightarrow> FlowPathNode" where
  "userNode row =
     (let userID = numberValue (fr_user_id row) in
      \<lparr>pn_id = (if positive userID then js ''user:'' @ num_str userID
         else js ''user:'' @ opt_or (fr_username row) (js ''unknown'')),
       pn_label = opt_or (fr_username row)
         (if positive userID then js ''user-'' @ num_str userID else js ''Unknown User''),
       pn_kind = KUser\<rparr>)"

definition nodeNameNode :: "FlowQuotaDataItem \<Rightarrow> FlowPathNode" where
  "nodeNameNode row =
     (let nodeName = opt_or (fr_node_name row) (js ''default-node'') in
      \<lparr>pn_id = js ''node:'' @ nodeName, pn_label = nodeName, pn_kind = KNode\<rparr>)"

definition deletedTokenLabel :: "jsnum \<Rightarrow> FlowPathContext \<Rightarrow> jsstr" where
  "deletedTokenLabel tokenID ctx =
     (if js_le tokenID (Fin 0) then js ''Unknown Token''
      else case ctx of Some f \<Rightarrow> f tokenID | None \<Rightarrow> js ''token-'' @ num_str tokenID)"

definition tokenNode :: "FlowQuotaDataItem \<Rightarrow> FlowPathContext \<Rightarrow> FlowPathNode" where
  "tokenNode row ctx =
     (let tokenID = numberValue (fr_token_id row) in
      \<lparr>pn_id = (if positive tokenID then js ''token:'' @ num_str tokenID
         else js ''token:'' @ opt_or (fr_token_name row) (js ''unknown'')),
       pn_label = opt_or (fr_token_name row) (deletedTokenLabel tokenID ctx),
       pn_kind = KToken\<rparr>)"

definition groupNode :: "FlowQuotaDataItem \<Rightarrow> FlowPathNode" where
  "groupNode row =
     (let useGroup = opt_or (fr_use_group row) (js ''unknown'') in
      \<lparr>pn_id = js ''group:'' @ useGroup, pn_label = useGroup, pn_kind = KGroup\<rparr>)"

definition modelNode :: "FlowQuotaDataItem \<Rightarrow> FlowPathNode" where
  "modelNode row =
     \<lparr>pn_id = js ''model:'' @ opt_or (fr_model_name row) (js ''unknown''),
      pn_label = opt_or (fr_model_name row) (js ''Unknown Model''), pn_kind = KModel\<rparr>"

definition channelNode :: "FlowQuotaDataItem \<Rightarrow> FlowPathNode" where
  "channelNode row =
     (let channelID = numberValue (fr_channel_id row) in
      \<lparr>pn_id = (if positive channelID then js ''channel:'' @ num_str channelID
         else js ''channel:'' @ opt_or (fr_channel_name row) (js ''unknown'')),
       pn_label = opt_or (fr_channel_name row)
         (if positive channelID then js ''channel-'' @ num_str channelID else js ''Unknown''),
       pn_kind = KChannel\<rparr>)"

fun NODE_BUILDERS :: "FlowNodeKind \<Rightarrow> FlowQuotaDataItem \<Rightarrow> FlowPathContext \<Rightarrow> FlowPathNode" where
  "NODE_BUILDERS KUser row ctx = userNode row"
| "NODE_BUILDERS KNode row ctx = nodeNameNode row"
| "NODE_BUILDERS KToken row ctx = tokenNode row ctx"
| "NODE_BUILDERS KGroup row ctx = groupNode row"
| "NODE_BUILDERS KModel row ctx = modelNode row"
| "NODE_BUILDERS KChannel row ctx = channelNode row"

section \<open>Stages\<close>

fun ROLE_FLOW_STAGES :: "FlowRole \<Rightarrow> FlowNodeKind list" where
  "ROLE_FLOW_STAGES RoleRoot = [KUser, KNode, KToken, KGroup, KModel, KChannel]"
| "ROLE_FLOW_STAGES RoleAdmin = [KUser, KGroup, KModel, KChannel]"
| "ROLE_FLOW_STAGES RoleUser = [KToken, KGroup, KModel]"

definition MIN_FLOW_STAGES :: nat where
  "MIN_FLOW_STAGES = 2"

definition getFlowStages :: "FlowRole \<Rightarrow> FlowNodeKind list" where
  "getFlowStages role = ROLE_FLOW_STAGES role"

definition resolveVisibleStages :: "FlowRole \<Rightarrow> FlowNodeKind list option \<Rightarrow> FlowNodeKind list" where
  "resolveVisibleStages role visibleStages =
     (let stages = getFlowStages role in
      case visibleStages of
        None \<Rightarrow> stages
      | Some visible \<Rightarrow>
          (let filtered = filter (\<lambda>stage. stage \<in> set visible) stages in
           if MIN_FLOW_STAGES \<le> length filtered then filtered else stages))"

definition flowPathForStages :: "FlowQuotaDataItem \<Rightarrow> FlowNodeKind list \<Rightarrow> FlowPathContext \<Rightarrow> FlowPathNode list" where
  "flowPathForStages row stages ctx = map (\<lambda>stage. NODE_BUILDERS stage row ctx) stages"

section \<open>Colours\<close>

definition CHART_COLORS :: "jsstr list" where
  "CHART_COLORS = map js [''#3b82f6'', ''#d97706'', ''#059669'', ''#a855f7'', ''#db477c'', ''#0891b2'',
     ''#ea580c'', ''#6366f1'', ''#65a30d'', ''#c052c7'', ''#0d9488'', ''#b77945'']"

definition getChartColor :: "nat \<Rightarrow> jsstr" where
  "getChartColor index = CHART_COLORS ! (index mod length CHART_COLORS)"

definition getDashboardChartColors :: "nat \<Rightarrow> jsstr list" where
  "getDashboardChartColors domainLength = map getChartColor [0..<domainLength]"

definition given_palette :: "jsstr list option \<Rightarrow> jsstr list option" where
  "given_palette palette = (case palette of None \<Rightarrow> None | Some p \<Rightarrow> if p = [] then None else Some p)"

definition colorAt :: "nat \<Rightarrow> jsstr list option \<Rightarrow> jsstr" where
  "colorAt index palette =
     (let colors = (case given_palette palette of Some p \<Rightarrow> p | None \<Rightarrow> getDashboardChartColors (index + 1)) in
      if length colors = 0 then DEFAULT_FLOW_CHART_COLOR else colors ! (index mod length colors))"

definition colorPalette :: "nat \<Rightarrow> jsstr list option \<Rightarrow> jsstr list" where
  "colorPalette colorCount palette =
     (case given_palette palette of
        Some p \<Rightarrow> p
      | None \<Rightarrow>
          (let colors = getDashboardChartColors colorCount in
           if length colors > 0 then colors else [DEFAULT_FLOW_CHART_COLOR]))"

definition hex_unit :: "nat \<Rightarrow> nat option" where
  "hex_unit c =
     (if is_digit c then Some (c - 48) else if 97 \<le> c \<and> c \<le> 102 then Some (c - 87)
      else if 65 \<le> c \<and> c \<le> 70 then Some (c - 55) else None)"

text \<open>\<open>alpha.toFixed(2)\<close> for a number of the range of opacities: the nearest multiple of 1/100.\<close>

definition to_fixed2 :: "jsnum \<Rightarrow> jsstr" where
  "to_fixed2 x =
     (let n = nat \<lfloor>num_val x * 100 + 1 / 2\<rfloor> in
      nat_str (n div 100) @ [46] @ [48 + n mod 100 div 10, 48 + n mod 10])"

definition alphaColor :: "jsstr \<Rightarrow> jsnum \<Rightarrow> jsstr \<times> jsnum" where
  "alphaColor color alpha =
     (let normalized = trim color;
          hex = (if starts_with (js ''#'') normalized then drop 1 normalized else normalized) in
      if \<not> (length hex = 6 \<and> list_all (\<lambda>c. hex_unit c \<noteq> None) hex) then (normalized, alpha)
      else
        (let v = foldl (\<lambda>a c. 16 * a + the (hex_unit c)) 0 hex in
         (js ''rgba('' @ nat_str (v div 65536 mod 256) @ js '', '' @ nat_str (v div 256 mod 256) @ js '', '' @
            nat_str (v mod 256) @ js '', '' @ to_fixed2 alpha @ js '')'', Fin 1)))"

definition stableColorMap :: "jsstr list \<Rightarrow> jsstr list option \<Rightarrow> (jsstr \<times> jsstr) list" where
  "stableColorMap keys palette =
     (let uniqueKeys = uniq keys; colors = colorPalette (length uniqueKeys) palette in
      map (\<lambda>i. (uniqueKeys ! i, colorAt i (Some colors))) [0..<length uniqueKeys])"

section \<open>Filters\<close>

definition filterRows :: "FlowQuotaDataItem list \<Rightarrow> jsstr list option \<Rightarrow> FlowQuotaDataItem list" where
  "filterRows rows selectedUsers =
     (let sel = (case selectedUsers of None \<Rightarrow> [] | Some us \<Rightarrow> us) in
      if sel = [] then rows else filter (\<lambda>row. pn_id (userNode row) \<in> set sel) rows)"

definition nodeFilterKey :: "FlowNodeFilter \<Rightarrow> jsstr" where
  "nodeFilterKey f = js (kind_name (nf_kind f)) @ [0] @ nf_id f"

text \<open>\<open>map.get(k) ?? new Set()\<close>, then \<open>add\<close> and \<open>set\<close>.\<close>

definition add_to_group :: "'k \<Rightarrow> 'a \<Rightarrow> ('k, 'a list) jsmap \<Rightarrow> ('k, 'a list) jsmap" where
  "add_to_group k x m =
     (let old = (case map_of m k of None \<Rightarrow> [] | Some xs \<Rightarrow> xs) in
      AList.update k (if x \<in> set old then old else old @ [x]) m)"

definition normalizeSelectedNodeFilters ::
    "FlowNodeFilter list option \<Rightarrow> FlowNodeKind list \<Rightarrow> (FlowNodeKind, jsstr list) jsmap" where
  "normalizeSelectedNodeFilters selectedNodes stages =
     foldl (\<lambda>filters f. if nf_kind f \<in> set stages then add_to_group (nf_kind f) (nf_id f) filters else filters)
       [] (case selectedNodes of None \<Rightarrow> [] | Some fs \<Rightarrow> fs)"

definition pathMatchesNodeFilters :: "FlowPathNode list \<Rightarrow> (FlowNodeKind, jsstr list) jsmap \<Rightarrow> bool" where
  "pathMatchesNodeFilters path filters =
     (if filters = [] then True
      else
        (let pathNodesByKind = foldl (\<lambda>m node. add_to_group (pn_kind node) (pn_id node) m) [] path in
         list_all (\<lambda>(kind, selectedIds).
           case map_of pathNodesByKind kind of
             None \<Rightarrow> False
           | Some pathIds \<Rightarrow> list_ex (\<lambda>id. id \<in> set pathIds) selectedIds) filters))"

definition filterRowsByNodes ::
    "FlowQuotaDataItem list \<Rightarrow> FlowNodeFilter list option \<Rightarrow> FlowNodeKind list \<Rightarrow> FlowPathContext \<Rightarrow> FlowQuotaDataItem list" where
  "filterRowsByNodes rows selectedNodes stages ctx =
     (let filters = normalizeSelectedNodeFilters selectedNodes stages in
      if filters = [] then rows
      else filter (\<lambda>row. pathMatchesNodeFilters (flowPathForStages row stages ctx) filters) rows)"

definition selectedNodeFiltersExceptKind ::
    "FlowNodeFilter list option \<Rightarrow> FlowNodeKind \<Rightarrow> FlowNodeFilter list option" where
  "selectedNodeFiltersExceptKind selectedNodes kind =
     (let filtered = filter (\<lambda>f. nf_kind f \<noteq> kind) (case selectedNodes of None \<Rightarrow> [] | Some fs \<Rightarrow> fs) in
      if length filtered > 0 then Some filtered else None)"

section \<open>Aggregation into nodes and links\<close>

definition addNode ::
    "(jsstr, DashboardFlowNode) jsmap \<Rightarrow> FlowPathNode \<Rightarrow> FlowMetrics \<Rightarrow> FlowMetric \<Rightarrow> jsstr \<Rightarrow> jsstr \<Rightarrow>
     (jsstr, DashboardFlowNode) jsmap" where
  "addNode m pathNode metrics metric color colorKey =
     (let previous = (case map_of m (pn_id pathNode) of
          Some n \<Rightarrow> n
        | None \<Rightarrow> \<lparr>dn_id = pn_id pathNode, dn_label = pn_label pathNode, dn_kind = pn_kind pathNode,
            dn_value = Fin 0, dn_requests = Fin 0, dn_quota = Fin 0, dn_tokens = Fin 0,
            dn_color = color, dn_colorKey = colorKey, dn_highlighted = None, dn_dimmed = None\<rparr>) in
      AList.update (pn_id pathNode)
        (previous\<lparr>dn_value := js_add (dn_value previous) (metricValue metrics metric),
           dn_requests := js_add (dn_requests previous) (fm_requests metrics),
           dn_quota := js_add (dn_quota previous) (fm_quota metrics),
           dn_tokens := js_add (dn_tokens previous) (fm_tokens metrics)\<rparr>) m)"

definition link_key :: "jsstr \<Rightarrow> jsstr \<Rightarrow> jsstr" where
  "link_key source target = source @ [0] @ target"

definition linkStableKey :: "DashboardFlowLink \<Rightarrow> jsstr" where
  "linkStableKey link = link_key (dl_source link) (dl_target link)"

definition pathLinkKey :: "FlowPathNode \<Rightarrow> FlowPathNode \<Rightarrow> jsstr" where
  "pathLinkKey source target = link_key (pn_id source) (pn_id target)"

definition addLink ::
    "(jsstr, DashboardFlowLink) jsmap \<Rightarrow> FlowPathNode \<Rightarrow> FlowPathNode \<Rightarrow> FlowMetrics \<Rightarrow> FlowMetric \<Rightarrow> jsstr \<Rightarrow> jsstr \<Rightarrow>
     (jsstr, DashboardFlowLink) jsmap" where
  "addLink m source target metrics metric color colorKey =
     (let key = link_key (pn_id source) (pn_id target);
          previous = (case map_of m key of
            Some l \<Rightarrow> l
          | None \<Rightarrow> \<lparr>dl_source = pn_id source, dl_target = pn_id target, dl_value = Fin 0,
              dl_requests = Fin 0, dl_quota = Fin 0, dl_tokens = Fin 0,
              dl_sourceLabel = pn_label source, dl_targetLabel = pn_label target, dl_color = color,
              dl_linkColor = color, dl_linkAlpha = Fin 1, dl_hoverColor = color, dl_colorKey = colorKey,
              dl_share = Fin 0, dl_highlighted = None, dl_dimmed = None\<rparr>) in
      AList.update key
        (previous\<lparr>dl_value := js_add (dl_value previous) (metricValue metrics metric),
           dl_requests := js_add (dl_requests previous) (fm_requests metrics),
           dl_quota := js_add (dl_quota previous) (fm_quota metrics),
           dl_tokens := js_add (dl_tokens previous) (fm_tokens metrics)\<rparr>) m)"

text \<open>
  \<open>b.value - a.value || rest\<close> as a comparison function: \<open>diff_or d r\<close> is \<open>d || r <= 0\<close> where
  the rest is given by its own verdict.
\<close>

definition diff_or :: "jsnum \<Rightarrow> bool \<Rightarrow> bool" where
  "diff_or d r = (if num_truthy d then js_le d (Fin 0) else r)"

definition lc_or :: "int \<Rightarrow> bool \<Rightarrow> bool" where
  "lc_or c r = (if c \<noteq> 0 then c \<le> 0 else r)"

definition value_link_le :: "(jsstr \<Rightarrow> jsstr \<Rightarrow> int) \<Rightarrow> DashboardFlowLink \<Rightarrow> DashboardFlowLink \<Rightarrow> bool" where
  "value_link_le lc a b =
     diff_or (js_sub (dl_value b) (dl_value a)) (lc (linkStableKey a) (linkStableKey b) \<le> 0)"

definition index_of :: "('a \<Rightarrow> bool) \<Rightarrow> 'a list \<Rightarrow> nat" where
  "index_of P xs = length (takeWhile (\<lambda>x. \<not> P x) xs)"

definition link_alpha :: "nat \<Rightarrow> nat \<Rightarrow> jsnum" where
  "link_alpha n index =
     (if n = 1 then rnd (34 / 100)
      else js_add (rnd (24 / 100))
        (js_mul (js_div (Fin (of_nat index)) (Fin (of_nat (max (n - 1) 1)))) (rnd (2 / 10))))"

text \<open>
  The links of one source are sorted by value, and the rank of a link gives its opacity. Links
  are told apart by their key, which is unique in the graph.
\<close>

definition assignLinkDisplayColors :: "(jsstr \<Rightarrow> jsstr \<Rightarrow> int) \<Rightarrow> DashboardFlowLink list \<Rightarrow> DashboardFlowLink list" where
  "assignLinkDisplayColors lc links =
     map (\<lambda>link.
       let sortedLinks = js_sort (value_link_le lc) (filter (\<lambda>l. dl_source l = dl_source link) links);
           alpha = link_alpha (length sortedLinks) (index_of (\<lambda>l. linkStableKey l = linkStableKey link) sortedLinks);
           displayColor = alphaColor (dl_color link) alpha in
       link\<lparr>dl_linkColor := fst displayColor, dl_linkAlpha := snd displayColor, dl_hoverColor := dl_color link\<rparr>) links"

definition byValueThenLabel :: "(jsstr \<Rightarrow> jsstr \<Rightarrow> int) \<Rightarrow> DashboardFlowNode \<Rightarrow> DashboardFlowNode \<Rightarrow> bool" where
  "byValueThenLabel lc a b = diff_or (js_sub (dn_value b) (dn_value a)) (lc (dn_label a) (dn_label b) \<le> 0)"

definition opt_flag :: "bool option \<Rightarrow> jsnum" where
  "opt_flag f = (case f of None \<Rightarrow> NaN | Some True \<Rightarrow> Fin 1 | Some False \<Rightarrow> Fin 0)"

definition byLinkDrawPriority :: "(jsstr \<Rightarrow> jsstr \<Rightarrow> int) \<Rightarrow> DashboardFlowLink \<Rightarrow> DashboardFlowLink \<Rightarrow> bool" where
  "byLinkDrawPriority lc a b =
     diff_or (js_sub (opt_flag (dl_dimmed a)) (opt_flag (dl_dimmed b)))
       (diff_or (js_sub (opt_flag (dl_highlighted b)) (opt_flag (dl_highlighted a)))
         (diff_or (js_sub (dl_value b) (dl_value a)) (lc (linkStableKey a) (linkStableKey b) \<le> 0)))"

record FlowSummary =
  sum_quota :: jsnum
  sum_tokens :: jsnum
  sum_requests :: jsnum

definition add_summary :: "FlowSummary \<Rightarrow> FlowQuotaDataItem \<Rightarrow> FlowSummary" where
  "add_summary summary row =
     (let metrics = rowMetrics row in
      \<lparr>sum_quota = js_add (sum_quota summary) (fm_quota metrics),
       sum_tokens = js_add (sum_tokens summary) (fm_tokens metrics),
       sum_requests = js_add (sum_requests summary) (fm_requests metrics)\<rparr>)"

definition buildSummary :: "FlowQuotaDataItem list \<Rightarrow> FlowSummary" where
  "buildSummary rows = foldl add_summary \<lparr>sum_quota = Fin 0, sum_tokens = Fin 0, sum_requests = Fin 0\<rparr> rows"

section \<open>The limit on the nodes of a stage\<close>

definition normalizeTopNodeLimit :: "jsnum option \<Rightarrow> nat option" where
  "normalizeTopNodeLimit limit =
     (case limit of
        None \<Rightarrow> None
      | Some l \<Rightarrow>
          (let parsed = math_floor l in
           if is_finite parsed \<and> positive parsed then Some (nat \<lfloor>num_val parsed\<rfloor>) else None))"

definition otherFlowNode :: "FlowNodeKind \<Rightarrow> (FlowNodeKind \<Rightarrow> jsstr) option \<Rightarrow> FlowPathNode" where
  "otherFlowNode kind labeler =
     \<lparr>pn_id = OTHER_FLOW_NODE_IDS kind,
      pn_label = (case labeler of Some f \<Rightarrow> f kind | None \<Rightarrow> DEFAULT_OTHER_FLOW_NODE_LABELS kind),
      pn_kind = kind\<rparr>"

definition add_rank :: "FlowPathNode \<Rightarrow> jsnum \<Rightarrow> (jsstr, FlowNodeRank) jsmap \<Rightarrow> (jsstr, FlowNodeRank) jsmap" where
  "add_rank node v m =
     (let current = (case map_of m (pn_id node) of Some r \<Rightarrow> r | None \<Rightarrow> \<lparr>rank_node = node, rank_value = Fin 0\<rparr>) in
      AList.update (pn_id node) (current\<lparr>rank_value := js_add (rank_value current) v\<rparr>) m)"

definition rank_le :: "(jsstr \<Rightarrow> jsstr \<Rightarrow> int) \<Rightarrow> FlowNodeRank \<Rightarrow> FlowNodeRank \<Rightarrow> bool" where
  "rank_le lc a b =
     diff_or (js_sub (rank_value b) (rank_value a))
       (lc_or (lc (pn_label (rank_node a)) (pn_label (rank_node b)))
         (lc (pn_id (rank_node a)) (pn_id (rank_node b)) \<le> 0))"

text \<open>The totals of one stage: \<open>totals.get(node.kind)\<close> in the loop over rows and path nodes.\<close>

definition stage_totals ::
    "FlowQuotaDataItem list \<Rightarrow> FlowMetric \<Rightarrow> FlowNodeKind list \<Rightarrow> FlowPathContext \<Rightarrow> FlowNodeKind \<Rightarrow> (jsstr, FlowNodeRank) jsmap" where
  "stage_totals rows metric stages ctx kind =
     foldl (\<lambda>m (node, v). if pn_kind node = kind then add_rank node v m else m) []
       (concat (map (\<lambda>row. map (\<lambda>node. (node, metricValue (rowMetrics row) metric)) (flowPathForStages row stages ctx)) rows))"

definition buildTopNodeSets ::
    "(jsstr \<Rightarrow> jsstr \<Rightarrow> int) \<Rightarrow> FlowQuotaDataItem list \<Rightarrow> FlowMetric \<Rightarrow> FlowNodeKind list \<Rightarrow> nat option \<Rightarrow> FlowPathContext \<Rightarrow>
     (FlowNodeKind, jsstr list) jsmap option" where
  "buildTopNodeSets lc rows metric stages limit ctx =
     (case limit of
        None \<Rightarrow> None
      | Some l \<Rightarrow> if l = 0 then None else
          Some (map (\<lambda>kind.
            (kind, map (\<lambda>r. pn_id (rank_node r))
              (take l (js_sort (rank_le lc) (map snd (stage_totals rows metric stages ctx kind)))))) stages))"

definition isTopFlowNode :: "FlowPathNode \<Rightarrow> (FlowNodeKind, jsstr list) jsmap option \<Rightarrow> bool" where
  "isTopFlowNode node topNodeSets =
     (case topNodeSets of
        None \<Rightarrow> True
      | Some sets \<Rightarrow> (case map_of sets (pn_kind node) of None \<Rightarrow> True | Some tops \<Rightarrow> pn_id node \<in> set tops))"

definition applyTopNodeLimit ::
    "FlowPathNode list \<Rightarrow> (FlowNodeKind, jsstr list) jsmap option \<Rightarrow> FlowOverflowMode \<Rightarrow> (FlowNodeKind \<Rightarrow> jsstr) option \<Rightarrow>
     FlowPathNode list option" where
  "applyTopNodeLimit path topNodeSets mode labeler =
     (if topNodeSets = None then Some path
      else if \<not> list_ex (\<lambda>node. \<not> isTopFlowNode node topNodeSets) path then Some path
      else if mode = Hide then None
      else Some (map (\<lambda>node. if isTopFlowNode node topNodeSets then node else otherFlowNode (pn_kind node) labeler) path))"

section \<open>Highlighting and masking\<close>

definition pathContainsFlowNode :: "FlowPathNode list \<Rightarrow> FlowNodeFilter \<Rightarrow> bool" where
  "pathContainsFlowNode path f = list_ex (\<lambda>node. pn_kind node = nf_kind f \<and> pn_id node = nf_id f) path"

text \<open>The consecutive pairs of a path.\<close>

definition path_links :: "FlowPathNode list \<Rightarrow> (FlowPathNode \<times> FlowPathNode) list" where
  "path_links path = zip path (tl path)"

definition pathContainsFlowLink :: "FlowPathNode list \<Rightarrow> FlowLinkSelection \<Rightarrow> bool" where
  "pathContainsFlowLink path link =
     list_ex (\<lambda>(a, b). pn_id a = ls_source link \<and> pn_id b = ls_target link) (path_links path)"

definition buildFlowHighlightSets ::
    "PreparedFlowPath list \<Rightarrow> FlowNodeFilter option \<Rightarrow> FlowLinkSelection option \<Rightarrow> FlowNodeKind list \<Rightarrow>
     (jsstr list \<times> jsstr list) option" where
  "buildFlowHighlightSets preparedPaths activeNode activeLink stages =
     (let nodeActive = (case activeNode of None \<Rightarrow> False | Some n \<Rightarrow> nf_kind n \<in> set stages) in
      if \<not> nodeActive \<and> activeLink = None then None
      else
        (let matchesPath = (\<lambda>path. case activeLink of
              Some l \<Rightarrow> pathContainsFlowLink path l
            | None \<Rightarrow> (case activeNode of Some n \<Rightarrow> pathContainsFlowNode path n | None \<Rightarrow> False));
             hit = filter matchesPath (map fst preparedPaths);
             nodes = uniq (concat (map (map pn_id) hit));
             links = uniq (concat (map (\<lambda>path. map (\<lambda>(a, b). pathLinkKey a b) (path_links path)) hit)) in
         if length nodes = 0 then None else Some (nodes, links)))"

definition FLOW_MASK_TEXT :: jsstr where
  "FLOW_MASK_TEXT = [8226, 8226, 8226, 8226]"

definition maskFlowLabel :: "jsstr \<Rightarrow> jsstr" where
  "maskFlowLabel label = (if length label = 0 then label else FLOW_MASK_TEXT)"

definition masked_node :: "DashboardFlowNode \<Rightarrow> bool" where
  "masked_node node \<longleftrightarrow> dn_kind node \<in> set SENSITIVE_FLOW_KINDS \<and> dn_id node \<notin> set OTHER_FLOW_NODE_ID_SET"

definition maskFlowGraphLabels ::
    "(jsstr, DashboardFlowNode) jsmap \<Rightarrow> (jsstr, DashboardFlowLink) jsmap \<Rightarrow>
     (jsstr, DashboardFlowNode) jsmap \<times> (jsstr, DashboardFlowLink) jsmap" where
  "maskFlowGraphLabels nodes links =
     (let maskedById = foldl (\<lambda>m node. if masked_node node
            then AList.update (dn_id node) (maskFlowLabel (dn_label node)) m else m) [] (map snd nodes);
          nodes' = map (\<lambda>(k, node). (k, if masked_node node
            then node\<lparr>dn_label := maskFlowLabel (dn_label node)\<rparr> else node)) nodes in
      if maskedById = [] then (nodes', links)
      else
        (nodes', map (\<lambda>(k, link). (k, link\<lparr>
           dl_sourceLabel := (case map_of maskedById (dl_source link) of Some t \<Rightarrow> t | None \<Rightarrow> dl_sourceLabel link),
           dl_targetLabel := (case map_of maskedById (dl_target link) of Some t \<Rightarrow> t | None \<Rightarrow> dl_targetLabel link)\<rparr>)) links))"

definition applyFlowHighlights ::
    "(jsstr list \<times> jsstr list) option \<Rightarrow> (jsstr, DashboardFlowNode) jsmap \<Rightarrow> (jsstr, DashboardFlowLink) jsmap \<Rightarrow>
     (jsstr, DashboardFlowNode) jsmap \<times> (jsstr, DashboardFlowLink) jsmap" where
  "applyFlowHighlights highlightSets nodes links =
     (case highlightSets of
        None \<Rightarrow> (nodes, links)
      | Some (hn, hl) \<Rightarrow>
          (map (\<lambda>(k, node). (k, node\<lparr>dn_highlighted := Some (dn_id node \<in> set hn),
              dn_dimmed := Some (dn_id node \<notin> set hn)\<rparr>)) nodes,
           map (\<lambda>(k, link). (k, link\<lparr>dl_highlighted := Some (linkStableKey link \<in> set hl),
              dl_dimmed := Some (linkStableKey link \<notin> set hl)\<rparr>)) links))"

section \<open>The graph\<close>

definition prepare_paths ::
    "FlowQuotaDataItem list \<Rightarrow> FlowNodeKind list \<Rightarrow> FlowPathContext \<Rightarrow> (FlowNodeKind, jsstr list) jsmap option \<Rightarrow>
     FlowOverflowMode \<Rightarrow> (FlowNodeKind \<Rightarrow> jsstr) option \<Rightarrow> PreparedFlowPath list" where
  "prepare_paths rows stages ctx topNodeSets mode labeler =
     concat (map (\<lambda>row. case applyTopNodeLimit (flowPathForStages row stages ctx) topNodeSets mode labeler of
       None \<Rightarrow> [] | Some path \<Rightarrow> [(path, rowMetrics row)]) rows)"

definition root_ids :: "PreparedFlowPath list \<Rightarrow> jsstr list" where
  "root_ids preparedPaths = truthy_strs (concat (map (\<lambda>(path, metrics). case path of [] \<Rightarrow> [] | n # _ \<Rightarrow> [pn_id n]) preparedPaths))"

definition path_color :: "(jsstr \<times> jsstr) list \<Rightarrow> jsstr list option \<Rightarrow> jsstr \<Rightarrow> jsstr" where
  "path_color colors palette rootId = (case map_of colors rootId of Some c \<Rightarrow> c | None \<Rightarrow> colorAt 0 palette)"

text \<open>The two inner loops over a path; its first node gives the colour and its key.\<close>

definition graph_nodes ::
    "FlowMetric \<Rightarrow> (jsstr \<times> jsstr) list \<Rightarrow> jsstr list option \<Rightarrow> PreparedFlowPath list \<Rightarrow> (jsstr, DashboardFlowNode) jsmap" where
  "graph_nodes metric colors palette preparedPaths =
     foldl (\<lambda>m (node, metrics, rootId). addNode m node metrics metric (path_color colors palette rootId) rootId) []
       (concat (map (\<lambda>(path, metrics). map (\<lambda>node. (node, metrics, pn_id (hd path))) path) preparedPaths))"

definition graph_links ::
    "FlowMetric \<Rightarrow> (jsstr \<times> jsstr) list \<Rightarrow> jsstr list option \<Rightarrow> PreparedFlowPath list \<Rightarrow> (jsstr, DashboardFlowLink) jsmap" where
  "graph_links metric colors palette preparedPaths =
     foldl (\<lambda>m ((s, t), metrics, rootId). addLink m s t metrics metric (path_color colors palette rootId) rootId) []
       (concat (map (\<lambda>(path, metrics). map (\<lambda>st. (st, metrics, pn_id (hd path))) (path_links path)) preparedPaths))"

definition link_order :: "(jsstr \<Rightarrow> jsstr \<Rightarrow> int) \<Rightarrow> DashboardFlowLink \<Rightarrow> DashboardFlowLink \<Rightarrow> bool" where
  "link_order lc a b = lc_or (lc (dl_source a) (dl_source b)) (lc (dl_target a) (dl_target b) \<le> 0)"

definition set_shares :: "jsstr list \<Rightarrow> DashboardFlowLink list \<Rightarrow> DashboardFlowLink list" where
  "set_shares firstStepSources flowLinks =
     (let total = foldl (\<lambda>s link. js_add s (dl_value link)) (Fin 0)
            (filter (\<lambda>link. dl_source link \<in> set firstStepSources) flowLinks) in
      map (\<lambda>link. link\<lparr>dl_share := (if positive total then js_div (dl_value link) total else Fin 0)\<rparr>) flowLinks)"

definition graph_paths ::
    "(jsstr \<Rightarrow> jsstr \<Rightarrow> int) \<Rightarrow> FlowQuotaDataItem list \<Rightarrow> FlowMetric \<Rightarrow> FlowNodeKind list \<Rightarrow> FlowPathContext \<Rightarrow>
     FlowGraphOptions \<Rightarrow> PreparedFlowPath list" where
  "graph_paths lc rows metric stages ctx options =
     prepare_paths rows stages ctx
       (buildTopNodeSets lc rows metric stages (normalizeTopNodeLimit (go_topNodeLimit options)) ctx)
       (case go_overflowMode options of None \<Rightarrow> DEFAULT_FLOW_OVERFLOW_MODE | Some m \<Rightarrow> m)
       (go_otherNodeLabel options)"

definition buildFlowGraph ::
    "(jsstr \<Rightarrow> jsstr \<Rightarrow> int) \<Rightarrow> FlowQuotaDataItem list \<Rightarrow> FlowMetric \<Rightarrow> FlowRole \<Rightarrow> jsstr list option \<Rightarrow>
     FlowNodeKind list option \<Rightarrow> FlowPathContext \<Rightarrow> FlowGraphOptions \<Rightarrow> DashboardFlowGraph" where
  "buildFlowGraph lc rows metric role palette visibleStages ctx options =
     (let stages = resolveVisibleStages role visibleStages;
          preparedPaths = graph_paths lc rows metric stages ctx options;
          colors = stableColorMap (js_sort (\<lambda>a b. lc a b \<le> 0) (root_ids preparedPaths)) palette;
          nodes0 = graph_nodes metric colors palette preparedPaths;
          links0 = graph_links metric colors palette preparedPaths;
          (nodes1, links1) = (if go_maskSensitive options then maskFlowGraphLabels nodes0 links0 else (nodes0, links0));
          (nodes, links) = applyFlowHighlights
            (buildFlowHighlightSets preparedPaths (go_activeNode options) (go_activeLink options) stages) nodes1 links1;
          flowLinks = js_sort (link_order lc) (map snd links) in
      \<lparr>gr_nodes = js_sort (byValueThenLabel lc) (map snd nodes),
       gr_links = assignLinkDisplayColors lc (set_shares (root_ids preparedPaths) flowLinks)\<rparr>)"

section \<open>Filter options\<close>

record FlowUserFilterOption =
  uo_value :: jsstr
  uo_label :: jsstr
  uo_valueLabel :: jsstr
  uo_valueRaw :: jsnum
  uo_color :: jsstr

record FlowNodeFilterOption =
  no_kind :: FlowNodeKind
  no_value :: jsstr
  no_label :: jsstr
  no_valueLabel :: jsstr
  no_valueRaw :: jsnum
  no_color :: jsstr

definition row_has_user :: "FlowQuotaDataItem \<Rightarrow> bool" where
  "row_has_user row \<longleftrightarrow>
     (case fr_user_id row of None \<Rightarrow> False | Some n \<Rightarrow> num_truthy n) \<or> opt_or (fr_username row) [] \<noteq> []"

definition buildUserFilterOptions ::
    "(jsstr \<Rightarrow> jsstr \<Rightarrow> int) \<Rightarrow> (jsnum \<Rightarrow> jsstr) \<Rightarrow> FlowQuotaDataItem list \<Rightarrow> FlowMetric \<Rightarrow> jsstr list option \<Rightarrow>
     FlowUserFilterOption list" where
  "buildUserFilterOptions lc fmt rows metric palette =
     (let colors = stableColorMap (js_sort (\<lambda>a b. lc a b \<le> 0) (map (\<lambda>row. pn_id (userNode row)) rows)) palette;
          users = foldl (\<lambda>m row. if row_has_user row
            then add_rank (userNode row) (metricValue (rowMetrics row) metric) m else m) [] rows in
      js_sort (\<lambda>a b. diff_or (js_sub (uo_valueRaw b) (uo_valueRaw a)) (lc (uo_label a) (uo_label b) \<le> 0))
        (map (\<lambda>(v, user). \<lparr>uo_value = v, uo_label = pn_label (rank_node user),
           uo_valueLabel = fmt (rank_value user), uo_valueRaw = rank_value user,
           uo_color = path_color colors palette v\<rparr>) users))"

text \<open>The totals of one stage under the filters of the other stages.\<close>

definition stage_option_totals ::
    "FlowQuotaDataItem list \<Rightarrow> FlowMetric \<Rightarrow> FlowNodeKind list \<Rightarrow> FlowPathContext \<Rightarrow> FlowNodeFilter list option \<Rightarrow>
     FlowNodeKind \<Rightarrow> (jsstr, FlowNodeRank) jsmap" where
  "stage_option_totals rows metric stages ctx selectedNodes stage =
     foldl (\<lambda>m row.
       let node = NODE_BUILDERS stage row ctx;
           key = nodeFilterKey \<lparr>nf_kind = pn_kind node, nf_id = pn_id node\<rparr>;
           current = (case map_of m key of Some r \<Rightarrow> r | None \<Rightarrow> \<lparr>rank_node = node, rank_value = Fin 0\<rparr>) in
       AList.update key (current\<lparr>rank_value := js_add (rank_value current) (metricValue (rowMetrics row) metric)\<rparr>) m) []
       (filterRowsByNodes rows (selectedNodeFiltersExceptKind selectedNodes stage) stages ctx)"

definition node_option_le ::
    "(jsstr \<Rightarrow> jsstr \<Rightarrow> int) \<Rightarrow> FlowNodeKind list \<Rightarrow> FlowNodeFilterOption \<Rightarrow> FlowNodeFilterOption \<Rightarrow> bool" where
  "node_option_le lc stages a b =
     (let ord = (\<lambda>k. if k \<in> set stages then index_of (\<lambda>s. s = k) stages else 0);
          i = ord (no_kind a); j = ord (no_kind b) in
      if i \<noteq> j then i < j
      else diff_or (js_sub (no_valueRaw b) (no_valueRaw a))
        (lc_or (lc (no_label a) (no_label b)) (lc (no_value a) (no_value b) \<le> 0)))"

definition buildNodeFilterOptions ::
    "(jsstr \<Rightarrow> jsstr \<Rightarrow> int) \<Rightarrow> (jsnum \<Rightarrow> jsstr) \<Rightarrow> FlowQuotaDataItem list \<Rightarrow> FlowMetric \<Rightarrow> FlowRole \<Rightarrow>
     FlowNodeKind list option \<Rightarrow> jsstr list option \<Rightarrow> FlowPathContext \<Rightarrow> FlowNodeFilter list option \<Rightarrow>
     FlowNodeFilterOption list" where
  "buildNodeFilterOptions lc fmt rows metric role visibleStages palette ctx selectedNodes =
     (let stages = resolveVisibleStages role visibleStages;
          colorIds = uniq (concat (map (\<lambda>row. map pn_id (flowPathForStages row stages ctx)) rows));
          colors = stableColorMap (js_sort (\<lambda>a b. lc a b \<le> 0) colorIds) palette in
      js_sort (node_option_le lc stages)
        (concat (map (\<lambda>stage.
          map (\<lambda>(key, rank). \<lparr>no_kind = pn_kind (rank_node rank), no_value = pn_id (rank_node rank),
              no_label = pn_label (rank_node rank), no_valueLabel = fmt (rank_value rank),
              no_valueRaw = rank_value rank, no_color = path_color colors palette (pn_id (rank_node rank))\<rparr>)
            (stage_option_totals rows metric stages ctx selectedNodes stage)) stages)))"

record FlowFilterOptions =
  fo_users :: "FlowUserFilterOption list"
  fo_nodes :: "FlowNodeFilterOption list"

definition buildFlowFilterOptions ::
    "(jsstr \<Rightarrow> jsstr \<Rightarrow> int) \<Rightarrow> (jsnum \<Rightarrow> jsstr) \<Rightarrow> FlowQuotaDataItem list \<Rightarrow> FlowMetric \<Rightarrow> jsstr list option \<Rightarrow>
     FlowRole \<Rightarrow> FlowNodeKind list option \<Rightarrow> FlowNodeFilter list option \<Rightarrow> FlowFilterOptions" where
  "buildFlowFilterOptions lc fmt rows metric palette role visibleStages selectedNodes =
     \<lparr>fo_users = buildUserFilterOptions lc fmt rows metric palette,
      fo_nodes = buildNodeFilterOptions lc fmt rows metric role visibleStages palette None selectedNodes\<rparr>"

section \<open>The whole pipeline\<close>

record FlowBuildOptions =
  bo_role :: "FlowRole option"
  bo_selectedUsers :: "jsstr list option"
  bo_selectedNodes :: "FlowNodeFilter list option"
  bo_colorPalette :: "jsstr list option"
  bo_visibleStages :: "FlowNodeKind list option"
  bo_deletedTokenLabel :: FlowPathContext
  bo_graph :: FlowGraphOptions

record ProcessedFlowData =
  pf_summary :: FlowSummary
  pf_flow :: DashboardFlowGraph
  pf_filterOptions :: FlowFilterOptions

definition flow_rows :: "FlowQuotaDataItem list \<Rightarrow> FlowBuildOptions \<Rightarrow> FlowQuotaDataItem list" where
  "flow_rows rows options =
     filterRowsByNodes (filterRows rows (bo_selectedUsers options)) (bo_selectedNodes options)
       (resolveVisibleStages (case bo_role options of None \<Rightarrow> DEFAULT_FLOW_ROLE | Some r \<Rightarrow> r) (bo_visibleStages options))
       (bo_deletedTokenLabel options)"

definition buildDashboardFlowData ::
    "(jsstr \<Rightarrow> jsstr \<Rightarrow> int) \<Rightarrow> (jsnum \<Rightarrow> jsstr) \<Rightarrow> FlowQuotaDataItem list \<Rightarrow> FlowMetric \<Rightarrow> FlowBuildOptions \<Rightarrow>
     ProcessedFlowData" where
  "buildDashboardFlowData lc fmt rows metric options =
     (let role = (case bo_role options of None \<Rightarrow> DEFAULT_FLOW_ROLE | Some r \<Rightarrow> r);
          palette = bo_colorPalette options;
          ctx = bo_deletedTokenLabel options;
          userFilteredRows = filterRows rows (bo_selectedUsers options);
          filteredRows = flow_rows rows options in
      \<lparr>pf_summary = buildSummary filteredRows,
       pf_flow = buildFlowGraph lc filteredRows metric role palette (bo_visibleStages options) ctx (bo_graph options),
       pf_filterOptions = \<lparr>fo_users = buildUserFilterOptions lc fmt rows metric palette,
         fo_nodes = buildNodeFilterOptions lc fmt userFilteredRows metric role (bo_visibleStages options)
           palette ctx (bo_selectedNodes options)\<rparr>\<rparr>)"

section \<open>Data of the rendered diagram\<close>

text \<open>The links of \<open>buildFlowSankeySpec\<close> with their drawing order.\<close>

definition link_zindex :: "nat \<Rightarrow> DashboardFlowLink \<Rightarrow> nat" where
  "link_zindex index link =
     (if dl_highlighted link = Some True then 1000000 + index
      else if dl_dimmed link = Some True then index else 100000 + index)"

definition sankey_links :: "(jsstr \<Rightarrow> jsstr \<Rightarrow> int) \<Rightarrow> DashboardFlowGraph \<Rightarrow> (DashboardFlowLink \<times> nat) list" where
  "sankey_links lc flow =
     (let ls = js_sort (byLinkDrawPriority lc) (filter (\<lambda>link. positive (dl_value link)) (gr_links flow)) in
      map (\<lambda>i. (ls ! i, link_zindex i (ls ! i))) [0..<length ls])"

text \<open>Reading a node back from a datum of the chart library; a missing value is \<open>None\<close>.\<close>

definition recordValue :: "json option \<Rightarrow> json option" where
  "recordValue v = (case v of Some (JObj ps) \<Rightarrow> v | Some (JArr xs) \<Rightarrow> v | _ \<Rightarrow> None)"

fun json_field :: "json \<Rightarrow> jsstr \<Rightarrow> json option" where
  "json_field (JObj ps) key = map_of ps key"
| "json_field _ key = None"

definition array_at :: "json list \<Rightarrow> jsnum \<Rightarrow> json option" where
  "array_at xs d =
     (if is_integer d \<and> js_le (Fin 0) d \<and> nat \<lfloor>num_val d\<rfloor> < length xs then Some (xs ! nat \<lfloor>num_val d\<rfloor>) else None)"

definition json_number :: "json option \<Rightarrow> jsnum option" where
  "json_number v =
     (case v of
        None \<Rightarrow> None | Some JNull \<Rightarrow> Some (Fin 0) | Some (JBool b) \<Rightarrow> Some (Fin (if b then 1 else 0))
      | Some (JNum x) \<Rightarrow> Some x | Some (JStr s) \<Rightarrow> Some (to_number s)
      | Some j \<Rightarrow> Some (to_number (json_string j)))"

definition sankeyDatumSource :: "json \<Rightarrow> json" where
  "sankeyDatumSource datum =
     (let nested = json_field datum (js ''datum'') in
      case nested of
        Some (JArr xs) \<Rightarrow>
          (let depth = numberValue (json_number (json_field datum (js ''depth''))) in
           case recordValue (array_at xs depth) of
             Some r \<Rightarrow> r
           | None \<Rightarrow> (case recordValue (array_at xs (Fin 0)) of Some r \<Rightarrow> r | None \<Rightarrow> datum))
      | _ \<Rightarrow> (case recordValue nested of Some r \<Rightarrow> r | None \<Rightarrow> datum))"

definition sankeyDatumValue :: "json \<Rightarrow> jsstr \<Rightarrow> json option" where
  "sankeyDatumValue datum key =
     (case json_field datum key of Some v \<Rightarrow> Some v | None \<Rightarrow> json_field (sankeyDatumSource datum) key)"

definition flowSankeyDatumValue :: "json option \<Rightarrow> jsstr \<Rightarrow> json option" where
  "flowSankeyDatumValue datum key =
     (case recordValue datum of None \<Rightarrow> None | Some r \<Rightarrow> sankeyDatumValue r key)"

definition isSankeyLinkDatum :: "json \<Rightarrow> bool" where
  "isSankeyLinkDatum datum \<longleftrightarrow>
     sankeyDatumValue datum (js ''source'') \<noteq> None \<and> sankeyDatumValue datum (js ''target'') \<noteq> None"

definition isFlowNodeKind :: "json option \<Rightarrow> FlowNodeKind option" where
  "isFlowNodeKind v =
     (case v of Some (JStr s) \<Rightarrow> find (\<lambda>k. js (kind_name k) = s) FLOW_NODE_KINDS | _ \<Rightarrow> None)"

definition flowNodeFilterFromSankeyDatum :: "json option \<Rightarrow> FlowNodeFilter option" where
  "flowNodeFilterFromSankeyDatum datum =
     (case recordValue datum of
        None \<Rightarrow> None
      | Some r \<Rightarrow>
          if isSankeyLinkDatum r then None
          else
            (case (flowSankeyDatumValue (Some r) (js ''key''), isFlowNodeKind (flowSankeyDatumValue (Some r) (js ''kind''))) of
               (Some (JStr s), Some kind) \<Rightarrow> Some \<lparr>nf_kind = kind, nf_id = s\<rparr>
             | (Some (JNum x), Some kind) \<Rightarrow> Some \<lparr>nf_kind = kind, nf_id = num_str x\<rparr>
             | _ \<Rightarrow> None))"

end
