(* ===== verification/Flow_Props.thy ===== *)
theory Flow_Props
  imports Flow
begin

text \<open>
  Properties of the flow diagram: every column of the diagram carries the whole traffic, what
  flows into an inner node flows out of it, the limit on the nodes of a column holds, and masking
  leaves no sensitive label. Metrics are assumed to be natural numbers with a total up to
  \<open>2 ^ 53\<close>, where the additions of the language are exact.
\<close>

section \<open>Totals in a map\<close>

text \<open>
  The contract of a step that adds an amount to the entry of a key, creating it with zero: the
  loops over \<open>addNode\<close>, \<open>addLink\<close> and \<open>add_rank\<close> all keep it.
\<close>

locale keyed_total =
  fixes step :: "('k, 'v) jsmap \<Rightarrow> 'e \<Rightarrow> ('k, 'v) jsmap"
    and key :: "'e \<Rightarrow> 'k"
    and amount :: "'e \<Rightarrow> jsnum"
    and total :: "'v \<Rightarrow> jsnum"
  assumes step_keys: "map fst (step m e) = (if key e \<in> set (map fst m) then map fst m else map fst m @ [key e])"
    and step_other: "k \<noteq> key e \<Longrightarrow> map_of (step m e) k = map_of m k"
    and step_total: "map_option total (map_of (step m e) (key e)) =
      Some (js_add (case map_of m (key e) of None \<Rightarrow> Fin 0 | Some v \<Rightarrow> total v) (amount e))"
begin

definition run :: "'e list \<Rightarrow> ('k, 'v) jsmap" where
  "run es = foldl step [] es"

lemma run_snoc: "run (es @ [e]) = step (run es) e"
  by (simp add: run_def)

lemma run_Nil: "run [] = []"
  by (simp add: run_def)

lemma keys_run: "set (map fst (run es)) = key ` set es"
  by (induction es rule: rev_induct) (auto simp: run_snoc run_Nil step_keys simp del: set_map)

lemma distinct_run: "distinct (map fst (run es))"
  by (induction es rule: rev_induct) (auto simp: run_snoc run_Nil step_keys simp del: set_map)

definition counts :: "('e \<Rightarrow> nat) \<Rightarrow> 'e list \<Rightarrow> bool" where
  "counts f es \<longleftrightarrow> (\<forall>e \<in> set es. amount e = Fin (of_nat (f e))) \<and>
     (\<forall>k. sum_list (map f (filter (\<lambda>e. key e = k) es)) \<le> 2 ^ 53)"

lemma counts_snoc: "counts f (es @ [e]) \<Longrightarrow> counts f es"
  by (auto simp: counts_def intro: add_leD1 split: if_splits)

text \<open>A relation between keys and entries that every step keeps holds at the end.\<close>

lemma run_inv:
  assumes "\<And>m e. e \<in> set es \<Longrightarrow> \<forall>k v. map_of m k = Some v \<longrightarrow> R k v \<Longrightarrow>
      \<forall>k v. map_of (step m e) k = Some v \<longrightarrow> R k v"
  shows "(k, v) \<in> set (run es) \<Longrightarrow> R k v"
proof -
  have "\<forall>k v. map_of (run es) k = Some v \<longrightarrow> R k v"
    using assms
  proof (induction es rule: rev_induct)
    case (snoc e es)
    have "\<forall>k v. map_of (run es) k = Some v \<longrightarrow> R k v"
      by (rule snoc.IH, rule snoc.prems) simp_all
    then show ?case unfolding run_snoc by (intro snoc.prems) simp
  qed (simp add: run_Nil)
  then show "(k, v) \<in> set (run es) \<Longrightarrow> R k v" using distinct_run by simp
qed

lemma add_exact:
  "a + b \<le> 2 ^ 53 \<Longrightarrow> js_add (Fin (of_nat a)) (Fin (of_nat b)) = Fin (of_nat (a + b))"
  using js_add_int [of "int a" "int b"] nat_le_int [of "a + b"] by simp

lemma run_total:
  assumes "counts f es" and "k \<in> key ` set es"
  shows "map_option total (map_of (run es) k) =
    Some (Fin (of_nat (sum_list (map f (filter (\<lambda>e. key e = k) es)))))"
  using assms
proof (induction es arbitrary: k rule: rev_induct)
  case (snoc e es)
  note IH = snoc.IH [OF counts_snoc [OF snoc.prems(1)]]
  show ?case
  proof (cases "k = key e")
    case False
    with snoc.prems(2) have "k \<in> key ` set es" by auto
    from IH [OF this] False show ?thesis by (simp add: run_snoc step_other)
  next
    case True
    let ?s = "sum_list (map f (filter (\<lambda>x. key x = k) es))"
    have old: "(case map_of (run es) k of None \<Rightarrow> Fin 0 | Some v \<Rightarrow> total v) = Fin (of_nat ?s)"
    proof (cases "k \<in> key ` set es")
      case True
      from IH [OF this] show ?thesis by auto
    next
      case no: False
      then have "map_of (run es) k = None" using keys_run [of es] by (simp add: map_of_eq_None_iff)
      moreover have "filter (\<lambda>x. key x = k) es = []" using no by (auto simp: filter_empty_conv)
      ultimately show ?thesis by simp
    qed
    have "sum_list (map f (filter (\<lambda>x. key x = k) (es @ [e]))) \<le> 2 ^ 53"
      using snoc.prems(1) unfolding counts_def by blast
    then have "?s + f e \<le> 2 ^ 53" using True by simp
    then have "js_add (Fin (of_nat ?s)) (Fin (of_nat (f e))) = Fin (of_nat (?s + f e))" by (rule add_exact)
    moreover have "amount e = Fin (of_nat (f e))" using snoc.prems(1) by (simp add: counts_def)
    ultimately show ?thesis
      using old step_total [of "run es" e] True by (simp add: run_snoc)
  qed
qed simp

end

section \<open>Amounts\<close>

definition nat_of_num :: "jsnum \<Rightarrow> nat" where
  "nat_of_num x = nat \<lfloor>num_val x\<rfloor>"

lemma nat_of_num_nat [simp]: "nat_of_num (Fin (of_nat n)) = n"
  by (simp add: nat_of_num_def)

text \<open>Summing the entries of a map with distinct keys is summing the events of these keys.\<close>

lemma sum_by_key:
  assumes "distinct ks"
  shows "sum_list (map (\<lambda>k. sum_list (map f (filter (\<lambda>e. key e = k) es))) ks) =
    (sum_list (map f (filter (\<lambda>e. key e \<in> set ks) es)) :: nat)"
  using assms
proof (induction ks)
  case (Cons k ks)
  have "sum_list (map f (filter (\<lambda>e. key e = k \<or> key e \<in> set ks) es)) =
      sum_list (map f (filter (\<lambda>e. key e = k) es)) + sum_list (map f (filter (\<lambda>e. key e \<in> set ks) es))"
    using Cons.prems by (induction es) auto
  with Cons show ?case by simp
qed simp

context keyed_total
begin

lemma run_sum:
  assumes "counts f es"
  shows "sum_list (map (\<lambda>(k, v). nat_of_num (total v)) (filter (\<lambda>(k, v). P k) (run es))) =
    sum_list (map f (filter (\<lambda>e. P (key e)) es))"
proof -
  let ?g = "\<lambda>k. sum_list (map f (filter (\<lambda>e. key e = k) es))"
  have val: "nat_of_num (total v) = ?g k" if "(k, v) \<in> set (run es)" for k v
  proof -
    from that have "map_of (run es) k = Some v" using distinct_run by simp
    moreover have "k \<in> set (map fst (run es))" using that by force
    then have "k \<in> key ` set es" by (simp only: keys_run)
    ultimately show ?thesis using run_total [OF assms, of k] by auto
  qed
  have "map (\<lambda>(k, v). nat_of_num (total v)) (filter (\<lambda>(k, v). P k) (run es)) =
      map ?g (filter P (map fst (run es)))"
    unfolding filter_map map_map using val by (auto simp: o_def split_def intro!: map_cong)
  moreover have "set (filter P (map fst (run es))) = {k \<in> key ` set es. P k}"
    using keys_run [of es] by (auto simp del: set_map)
  then have "filter (\<lambda>e. key e \<in> set (filter P (map fst (run es)))) es = filter (\<lambda>e. P (key e)) es"
    by (intro filter_cong) auto
  ultimately show ?thesis
    using sum_by_key [of "filter P (map fst (run es))" f key es] distinct_run [of es] by simp
qed

end

section \<open>Nodes and links of the graph\<close>

type_synonym node_event = "FlowPathNode \<times> FlowMetrics \<times> jsstr"
type_synonym link_event = "(FlowPathNode \<times> FlowPathNode) \<times> FlowMetrics \<times> jsstr"

definition node_step ::
    "FlowMetric \<Rightarrow> (jsstr \<times> jsstr) list \<Rightarrow> jsstr list option \<Rightarrow> (jsstr, DashboardFlowNode) jsmap \<Rightarrow> node_event \<Rightarrow>
     (jsstr, DashboardFlowNode) jsmap" where
  "node_step metric colors palette m e =
     (case e of (node, metrics, rootId) \<Rightarrow> addNode m node metrics metric (path_color colors palette rootId) rootId)"

definition link_step ::
    "FlowMetric \<Rightarrow> (jsstr \<times> jsstr) list \<Rightarrow> jsstr list option \<Rightarrow> (jsstr, DashboardFlowLink) jsmap \<Rightarrow> link_event \<Rightarrow>
     (jsstr, DashboardFlowLink) jsmap" where
  "link_step metric colors palette m e =
     (case e of ((s, t), metrics, rootId) \<Rightarrow> addLink m s t metrics metric (path_color colors palette rootId) rootId)"

interpretation nodes: keyed_total "node_step metric colors palette" "\<lambda>e. pn_id (fst e)"
  "\<lambda>e. metricValue (fst (snd e)) metric" dn_value
  for metric colors palette
  by unfold_locales
    (auto simp: node_step_def addNode_def Let_def update_keys split: option.splits prod.splits)

interpretation links: keyed_total "link_step metric colors palette"
  "\<lambda>e. pathLinkKey (fst (fst e)) (snd (fst e))" "\<lambda>e. metricValue (fst (snd e)) metric" dl_value
  for metric colors palette
  by unfold_locales
    (auto simp: link_step_def addLink_def pathLinkKey_def Let_def update_keys split: option.splits prod.splits)

definition node_events :: "PreparedFlowPath list \<Rightarrow> node_event list" where
  "node_events ps = concat (map (\<lambda>(path, metrics). map (\<lambda>node. (node, metrics, pn_id (hd path))) path) ps)"

definition link_events :: "PreparedFlowPath list \<Rightarrow> link_event list" where
  "link_events ps = concat (map (\<lambda>(path, metrics). map (\<lambda>st. (st, metrics, pn_id (hd path))) (path_links path)) ps)"

lemma graph_nodes_run: "graph_nodes metric colors palette ps = nodes.run metric colors palette (node_events ps)"
  unfolding nodes.run_def by (simp add: graph_nodes_def node_events_def node_step_def [abs_def])

lemma graph_links_run: "graph_links metric colors palette ps = links.run metric colors palette (link_events ps)"
  unfolding links.run_def by (simp add: graph_links_def link_events_def link_step_def [abs_def] case_prod_unfold)

section \<open>Paths\<close>

text \<open>The part of an identifier before the colon names the kind.\<close>

definition kind_prefix :: "jsstr \<Rightarrow> jsstr" where
  "kind_prefix nid = takeWhile (\<lambda>c. c \<noteq> 58) nid"

definition tagged :: "FlowPathNode \<Rightarrow> bool" where
  "tagged n \<longleftrightarrow> kind_prefix (pn_id n) = js (kind_name (pn_kind n))"

definition path_on :: "FlowNodeKind list \<Rightarrow> FlowPathNode list \<Rightarrow> bool" where
  "path_on stages path \<longleftrightarrow> map pn_kind path = stages \<and> (\<forall>n \<in> set path. tagged n)"

lemma kind_name_inj: "kind_name k = kind_name k' \<longleftrightarrow> k = k'"
  by (cases k; cases k') auto

lemma kind_name_tag: "kind_prefix (js (kind_name k) @ 58 # s) = js (kind_name k)"
  by (cases k) (auto simp: kind_prefix_def js_lit)

lemma builder_tagged: "tagged (NODE_BUILDERS k row ctx)" "pn_kind (NODE_BUILDERS k row ctx) = k"
proof -
  have "\<exists>s. pn_id (NODE_BUILDERS k row ctx) = js (kind_name k) @ 58 # s"
    by (cases k) (auto simp: userNode_def nodeNameNode_def tokenNode_def groupNode_def modelNode_def channelNode_def
        Let_def js_lit)
  moreover show kind: "pn_kind (NODE_BUILDERS k row ctx) = k"
    by (cases k) (auto simp: userNode_def nodeNameNode_def tokenNode_def groupNode_def modelNode_def channelNode_def
        Let_def)
  ultimately show "tagged (NODE_BUILDERS k row ctx)" by (auto simp: tagged_def kind_name_tag)
qed

lemma other_tagged: "tagged (otherFlowNode k labeler)" "pn_kind (otherFlowNode k labeler) = k"
  by (cases k; auto simp: otherFlowNode_def tagged_def kind_prefix_def js_lit)+

lemma path_on_stages: "path_on stages (flowPathForStages row stages ctx)"
  by (auto simp: path_on_def flowPathForStages_def builder_tagged o_def)

lemma path_on_limit:
  "path_on stages path \<Longrightarrow> applyTopNodeLimit path sets mode labeler = Some path' \<Longrightarrow> path_on stages path'"
  by (auto simp: applyTopNodeLimit_def path_on_def other_tagged o_def cong: map_cong split: if_splits)

lemma prepared_on: "(path, metrics) \<in> set (prepare_paths rows stages ctx sets mode labeler) \<Longrightarrow> path_on stages path"
  by (auto simp: prepare_paths_def intro: path_on_limit [OF path_on_stages] split: option.splits)

lemma distinct_ids:
  assumes "path_on stages path" and "distinct stages"
  shows "distinct (map pn_id path)"
proof -
  have "map kind_prefix (map pn_id path) = map (\<lambda>k. js (kind_name k)) (map pn_kind path)"
    using assms(1) by (auto simp: path_on_def tagged_def)
  moreover have "distinct (map (\<lambda>k. js (kind_name k)) stages)"
    using assms(2) by (simp add: distinct_map inj_on_def inj_js kind_name_inj)
  ultimately have "distinct (map kind_prefix (map pn_id path))" using assms(1) by (simp only: path_on_def)
  then show ?thesis by (rule iffD1 [OF distinct_map, THEN conjunct1])
qed

lemma stages_distinct: "distinct (resolveVisibleStages role vis)"
  by (cases role) (auto simp: resolveVisibleStages_def getFlowStages_def Let_def split: option.splits)

section \<open>Weights\<close>

text \<open>The amount of a path under a metric, and the total of a list of paths.\<close>

definition path_amount :: "FlowMetric \<Rightarrow> PreparedFlowPath \<Rightarrow> nat" where
  "path_amount metric p = nat_of_num (metricValue (snd p) metric)"

definition counted :: "FlowMetric \<Rightarrow> PreparedFlowPath list \<Rightarrow> bool" where
  "counted metric ps \<longleftrightarrow> (\<forall>p \<in> set ps. metricValue (snd p) metric = Fin (of_nat (path_amount metric p))) \<and>
     sum_list (map (path_amount metric) ps) \<le> 2 ^ 53"

definition event_amount :: "FlowMetric \<Rightarrow> 'a \<times> FlowMetrics \<times> jsstr \<Rightarrow> nat" where
  "event_amount metric e = nat_of_num (metricValue (fst (snd e)) metric)"

lemma sum_const: "sum_list (map (\<lambda>x. c) xs) = length xs * (c::nat)"
  by (induction xs) auto

lemma node_events_sum:
  "sum_list (map (event_amount metric) (filter (\<lambda>e. P (fst e)) (node_events ps))) =
   sum_list (map (\<lambda>p. length (filter P (fst p)) * path_amount metric p) ps)"
proof (induction ps)
  case (Cons p ps)
  obtain path metrics where p: "p = (path, metrics)" by (cases p)
  have "sum_list (map (event_amount metric) (filter (\<lambda>e. P (fst e)) (map (\<lambda>node. (node, metrics, r)) path))) =
      length (filter P path) * path_amount metric p" for r
    by (induction path) (auto simp: event_amount_def path_amount_def p)
  with Cons show ?case by (simp add: node_events_def p)
qed (simp add: node_events_def)

lemma link_events_sum:
  "sum_list (map (event_amount metric) (filter (\<lambda>e. P (fst e)) (link_events ps))) =
   sum_list (map (\<lambda>p. length (filter P (path_links (fst p))) * path_amount metric p) ps)"
proof (induction ps)
  case (Cons p ps)
  obtain path metrics where p: "p = (path, metrics)" by (cases p)
  have "sum_list (map (event_amount metric) (filter (\<lambda>e. P (fst e)) (map (\<lambda>st. (st, metrics, r)) xs))) =
      length (filter P xs) * path_amount metric p" for r and xs :: "(FlowPathNode \<times> FlowPathNode) list"
    by (induction xs) (auto simp: event_amount_def path_amount_def p)
  with Cons show ?case by (simp add: link_events_def p)
qed (simp add: link_events_def)

lemma sum_weight_le:
  assumes "\<forall>p \<in> set ps. w p \<le> (1::nat)"
  shows "sum_list (map (\<lambda>p. w p * f p) ps) \<le> sum_list (map f ps)"
  using assms
proof (induction ps)
  case (Cons p ps)
  then have "w p * f p \<le> f p" using mult_le_mono1 [of "w p" 1 "f p"] by simp
  with Cons show ?case by (simp add: add_mono)
qed simp

lemma filter_distinct_one: "distinct (map f xs) \<Longrightarrow> length (filter (\<lambda>x. f x = y) xs) = (if y \<in> f ` set xs then 1 else 0)"
proof (induction xs)
  case (Cons x xs)
  have "filter (\<lambda>x. f x = y) xs = []" if "f x = y"
    using Cons.prems that by (auto simp: filter_empty_conv image_iff)
  with Cons show ?case by (auto simp: image_iff)
qed simp

text \<open>The pairs of a path start at its nodes but the last, and end at its nodes but the first.\<close>

lemma map_fst_links: "map fst (path_links path) = butlast path" and map_snd_links: "map snd (path_links path) = tl path"
proof -
  show "map fst (path_links path) = butlast path"
    unfolding path_links_def by (induction path rule: induct_list012) auto
  show "map snd (path_links path) = tl path"
    unfolding path_links_def by (induction path rule: induct_list012) auto
qed

lemma filter_links_fst: "length (filter (\<lambda>(a, b). P a) (path_links path)) = length (filter P (butlast path))"
  unfolding map_fst_links [symmetric] by (simp add: filter_map o_def case_prod_unfold)

lemma filter_links_snd: "length (filter (\<lambda>(a, b). P b) (path_links path)) = length (filter P (tl path))"
  unfolding map_snd_links [symmetric] by (simp add: filter_map o_def case_prod_unfold)

text \<open>Paths on distinct stages: a node occurs at most once, and so does a link.\<close>

definition stage_paths :: "FlowNodeKind list \<Rightarrow> PreparedFlowPath list \<Rightarrow> bool" where
  "stage_paths stages ps \<longleftrightarrow> distinct stages \<and> (\<forall>p \<in> set ps. path_on stages (fst p))"

lemma node_counts:
  assumes "counted metric ps" and "stage_paths stages ps"
  shows "nodes.counts metric (event_amount metric) (node_events ps)"
proof -
  have "sum_list (map (event_amount metric) (filter (\<lambda>e. pn_id (fst e) = k) (node_events ps))) \<le> 2 ^ 53" for k
  proof -
    have "\<forall>p \<in> set ps. length (filter (\<lambda>n. pn_id n = k) (fst p)) \<le> 1"
      using assms(2) distinct_ids by (auto simp: stage_paths_def filter_distinct_one)
    from sum_weight_le [OF this, of "path_amount metric"] assms(1)
    show ?thesis
      using node_events_sum [of metric "\<lambda>n. pn_id n = k" ps] by (simp add: counted_def)
  qed
  moreover have "metricValue (fst (snd e)) metric = Fin (of_nat (event_amount metric e))" if "e \<in> set (node_events ps)" for e
    using that assms(1) by (fastforce simp: node_events_def counted_def event_amount_def path_amount_def)
  ultimately show ?thesis unfolding nodes.counts_def by blast
qed

text \<open>Identifiers without the separator of link keys.\<close>

definition clean_paths :: "PreparedFlowPath list \<Rightarrow> bool" where
  "clean_paths ps \<longleftrightarrow> (\<forall>p \<in> set ps. \<forall>n \<in> set (fst p). 0 \<notin> set (pn_id n))"

definition key_source :: "jsstr \<Rightarrow> jsstr" where
  "key_source k = takeWhile (\<lambda>c. c \<noteq> 0) k"

definition key_target :: "jsstr \<Rightarrow> jsstr" where
  "key_target k = drop (Suc (length (key_source k))) k"

lemma link_key_parts: "0 \<notin> set s \<Longrightarrow> key_source (link_key s t) = s \<and> key_target (link_key s t) = t"
proof -
  assume "0 \<notin> set s"
  then have "key_source (link_key s t) = s"
    unfolding key_source_def link_key_def by (induction s) auto
  then show ?thesis by (simp add: key_target_def link_key_def)
qed

lemma path_links_mem: "(a, b) \<in> set (path_links path) \<Longrightarrow> a \<in> set path \<and> b \<in> set path"
  unfolding path_links_def by (cases path) (auto dest: set_zip_leftD set_zip_rightD)

lemma path_link_clean:
  "clean_paths ps \<Longrightarrow> p \<in> set ps \<Longrightarrow> (a, b) \<in> set (path_links (fst p)) \<Longrightarrow> 0 \<notin> set (pn_id a) \<and> 0 \<notin> set (pn_id b)"
  using path_links_mem [of a b "fst p"] by (auto simp: clean_paths_def)

lemma filter_length_mono: "\<forall>x \<in> set xs. Q x \<longrightarrow> P x \<Longrightarrow> length (filter Q xs) \<le> length (filter P xs)"
  by (induction xs) auto

lemma link_counts:
  assumes "counted metric ps" and "stage_paths stages ps" and "clean_paths ps"
  shows "links.counts metric (event_amount metric) (link_events ps)"
proof -
  have "sum_list (map (event_amount metric) (filter (\<lambda>e. pathLinkKey (fst (fst e)) (snd (fst e)) = k) (link_events ps))) \<le> 2 ^ 53" for k
  proof -
    have "length (filter (\<lambda>st. pathLinkKey (fst st) (snd st) = k) (path_links (fst p))) \<le> 1" if p: "p \<in> set ps" for p
    proof -
      have "\<forall>st \<in> set (path_links (fst p)). pathLinkKey (fst st) (snd st) = k \<longrightarrow> pn_id (fst st) = key_source k"
        using path_link_clean [OF assms(3) p] link_key_parts by (fastforce simp: pathLinkKey_def)
      from filter_length_mono [OF this]
      have "length (filter (\<lambda>st. pathLinkKey (fst st) (snd st) = k) (path_links (fst p)))
          \<le> length (filter (\<lambda>n. pn_id n = key_source k) (butlast (fst p)))"
        using filter_links_fst [of "\<lambda>n. pn_id n = key_source k" "fst p"] by (simp add: case_prod_unfold)
      moreover have "distinct (map pn_id (butlast (fst p)))"
        using p assms(2) distinct_ids [of stages "fst p"] by (auto simp: stage_paths_def map_butlast distinct_butlast)
      ultimately show ?thesis by (auto simp: filter_distinct_one split: if_splits)
    qed
    then have "\<forall>p \<in> set ps. length (filter (\<lambda>st. pathLinkKey (fst st) (snd st) = k) (path_links (fst p))) \<le> 1" by blast
    from sum_weight_le [OF this, of "path_amount metric"] assms(1)
    show ?thesis
      using link_events_sum [of metric "\<lambda>st. pathLinkKey (fst st) (snd st) = k" ps] by (simp add: counted_def)
  qed
  moreover have "metricValue (fst (snd e)) metric = Fin (of_nat (event_amount metric e))" if "e \<in> set (link_events ps)" for e
    using that assms(1) by (fastforce simp: link_events_def counted_def event_amount_def path_amount_def)
  ultimately show ?thesis unfolding links.counts_def by blast
qed

section \<open>What masking, highlighting, shares and colours keep\<close>

definition node_core :: "DashboardFlowNode \<Rightarrow> jsstr \<times> FlowNodeKind \<times> jsnum" where
  "node_core n = (dn_id n, dn_kind n, dn_value n)"

definition link_core :: "DashboardFlowLink \<Rightarrow> jsstr \<times> jsstr \<times> jsnum" where
  "link_core l = (dl_source l, dl_target l, dl_value l)"

lemma mask_core:
  "map (node_core \<circ> snd) (fst (maskFlowGraphLabels ns ls)) = map (node_core \<circ> snd) ns"
  "map (link_core \<circ> snd) (snd (maskFlowGraphLabels ns ls)) = map (link_core \<circ> snd) ls"
  by (auto simp: maskFlowGraphLabels_def Let_def node_core_def link_core_def)

lemma highlight_core:
  "map (node_core \<circ> snd) (fst (applyFlowHighlights h ns ls)) = map (node_core \<circ> snd) ns"
  "map (link_core \<circ> snd) (snd (applyFlowHighlights h ns ls)) = map (link_core \<circ> snd) ls"
  by (auto simp: applyFlowHighlights_def node_core_def link_core_def split: option.splits)

lemma display_core: "map link_core (assignLinkDisplayColors lc (set_shares rs ls)) = map link_core ls"
  by (simp add: assignLinkDisplayColors_def set_shares_def Let_def link_core_def)

lemma mset_map_sort: "mset (map f (js_sort le (map g xs))) = mset (map (f \<circ> g) xs)"
  by (simp add: multiset.map_comp)

definition graph_colors :: "(jsstr \<Rightarrow> jsstr \<Rightarrow> int) \<Rightarrow> PreparedFlowPath list \<Rightarrow> jsstr list option \<Rightarrow> (jsstr \<times> jsstr) list" where
  "graph_colors lc ps palette = stableColorMap (js_sort (\<lambda>a b. lc a b \<le> 0) (root_ids ps)) palette"

lemma graph_core:
  assumes "ps = graph_paths lc rows metric (resolveVisibleStages role vis) ctx options"
    and "G = buildFlowGraph lc rows metric role palette vis ctx options"
  shows "mset (map node_core (gr_nodes G)) =
      mset (map (node_core \<circ> snd) (graph_nodes metric (graph_colors lc ps palette) palette ps))"
    and "mset (map link_core (gr_links G)) =
      mset (map (link_core \<circ> snd) (graph_links metric (graph_colors lc ps palette) palette ps))"
proof -
  let ?n0 = "graph_nodes metric (graph_colors lc ps palette) palette ps"
  let ?l0 = "graph_links metric (graph_colors lc ps palette) palette ps"
  let ?m = "if go_maskSensitive options then maskFlowGraphLabels ?n0 ?l0 else (?n0, ?l0)"
  let ?h = "applyFlowHighlights (buildFlowHighlightSets ps (go_activeNode options) (go_activeLink options)
    (resolveVisibleStages role vis)) (fst ?m) (snd ?m)"
  have G: "gr_nodes G = js_sort (byValueThenLabel lc) (map snd (fst ?h))"
    "gr_links G = assignLinkDisplayColors lc (set_shares (root_ids ps) (js_sort (link_order lc) (map snd (snd ?h))))"
    unfolding assms(2) buildFlowGraph_def assms(1) graph_colors_def Let_def by (simp_all add: case_prod_unfold)
  have n: "map (node_core \<circ> snd) (fst ?h) = map (node_core \<circ> snd) ?n0"
    and l: "map (link_core \<circ> snd) (snd ?h) = map (link_core \<circ> snd) ?l0"
    by (simp_all add: highlight_core mask_core)
  show "mset (map node_core (gr_nodes G)) = mset (map (node_core \<circ> snd) ?n0)"
    unfolding G mset_map_sort n ..
  show "mset (map link_core (gr_links G)) = mset (map (link_core \<circ> snd) ?l0)"
    unfolding G display_core mset_map_sort l ..
qed

section \<open>From rows to paths\<close>

definition row_amount :: "FlowMetric \<Rightarrow> FlowQuotaDataItem \<Rightarrow> nat" where
  "row_amount metric row = nat_of_num (metricValue (rowMetrics row) metric)"

definition counted_rows :: "FlowMetric \<Rightarrow> FlowQuotaDataItem list \<Rightarrow> bool" where
  "counted_rows metric rows \<longleftrightarrow>
     (\<forall>row \<in> set rows. metricValue (rowMetrics row) metric = Fin (of_nat (row_amount metric row))) \<and>
     sum_list (map (row_amount metric) rows) \<le> 2 ^ 53"

definition clean_rows :: "FlowNodeKind list \<Rightarrow> FlowPathContext \<Rightarrow> FlowQuotaDataItem list \<Rightarrow> bool" where
  "clean_rows stages ctx rows \<longleftrightarrow> (\<forall>row \<in> set rows. \<forall>n \<in> set (flowPathForStages row stages ctx). 0 \<notin> set (pn_id n))"

lemma prepared_amount_le:
  "sum_list (map (path_amount metric) (prepare_paths rows stages ctx sets mode labeler)) \<le>
   sum_list (map (row_amount metric) rows)"
proof (induction rows)
  case (Cons row rows)
  then show ?case
    by (cases "applyTopNodeLimit (flowPathForStages row stages ctx) sets mode labeler")
      (auto simp: prepare_paths_def path_amount_def row_amount_def)
qed (simp add: prepare_paths_def)

lemma limit_aggregates: "mode \<noteq> Hide \<or> sets = None \<Longrightarrow> applyTopNodeLimit path sets mode labeler \<noteq> None"
  by (auto simp: applyTopNodeLimit_def)

lemma prepared_amount_eq:
  assumes "mode \<noteq> Hide \<or> sets = None"
  shows "sum_list (map (path_amount metric) (prepare_paths rows stages ctx sets mode labeler)) =
   sum_list (map (row_amount metric) rows)"
proof (induction rows)
  case (Cons row rows)
  obtain path where "applyTopNodeLimit (flowPathForStages row stages ctx) sets mode labeler = Some path"
    using limit_aggregates [OF assms] by blast
  with Cons show ?case by (auto simp: prepare_paths_def path_amount_def row_amount_def)
qed (simp add: prepare_paths_def)

lemma prepared_counted:
  assumes "counted_rows metric rows"
  shows "counted metric (prepare_paths rows stages ctx sets mode labeler)"
proof -
  have "metricValue (snd p) metric = Fin (of_nat (path_amount metric p))"
    if "p \<in> set (prepare_paths rows stages ctx sets mode labeler)" for p
    using that assms
    by (fastforce simp: prepare_paths_def counted_rows_def path_amount_def row_amount_def split: option.splits)
  with prepared_amount_le [of metric rows stages ctx sets mode labeler] assms show ?thesis
    by (auto simp: counted_def counted_rows_def)
qed

lemma other_clean: "0 \<notin> set (OTHER_FLOW_NODE_IDS k)"
  by (cases k) (auto simp: js_lit)

lemma limit_clean:
  assumes "\<forall>n \<in> set path. 0 \<notin> set (pn_id n)" and "applyTopNodeLimit path sets mode labeler = Some path'"
  shows "\<forall>n \<in> set path'. 0 \<notin> set (pn_id n)"
  using assms by (auto simp: applyTopNodeLimit_def otherFlowNode_def other_clean split: if_splits)

lemma prepared_clean:
  "clean_rows stages ctx rows \<Longrightarrow> clean_paths (prepare_paths rows stages ctx sets mode labeler)"
  unfolding clean_paths_def
proof
  fix p
  assume rows: "clean_rows stages ctx rows" and "p \<in> set (prepare_paths rows stages ctx sets mode labeler)"
  then obtain row where row: "row \<in> set rows"
      "applyTopNodeLimit (flowPathForStages row stages ctx) sets mode labeler = Some (fst p)"
    by (auto simp: prepare_paths_def split: option.splits)
  have "\<forall>n \<in> set (flowPathForStages row stages ctx). 0 \<notin> set (pn_id n)"
    using rows row(1) by (simp add: clean_rows_def)
  from limit_clean [OF this row(2)] show "\<forall>n \<in> set (fst p). 0 \<notin> set (pn_id n)" .
qed

lemma prepared_stages:
  "distinct stages \<Longrightarrow> stage_paths stages (prepare_paths rows stages ctx sets mode labeler)"
  using prepared_on by (fastforce simp: stage_paths_def)

lemma sum_by_core:
  assumes "mset (map c xs) = mset (map d ys)"
  shows "sum_list (map (\<lambda>x. F (c x)) (filter (\<lambda>x. Q (c x)) xs)) = (sum_list (map (\<lambda>y. F (d y)) (filter (\<lambda>y. Q (d y)) ys)) :: nat)"
proof -
  have "sum_list (map (\<lambda>x. F (h x)) (filter (\<lambda>x. Q (h x)) zs)) = sum_mset (image_mset F (filter_mset Q (mset (map h zs))))"
    for h and zs :: "'z list"
    by (induction zs) auto
  from this [of c xs] this [of d ys] assms show ?thesis by simp
qed

section \<open>Entries of the maps\<close>

lemma node_entry:
  assumes "stage_paths stages ps" and "(k, v) \<in> set (graph_nodes metric colors palette ps)"
  shows "k = dn_id v \<and> kind_prefix k = js (kind_name (dn_kind v))"
proof -
  have ev: "tagged (fst e)" if "e \<in> set (node_events ps)" for e
    using that assms(1) by (fastforce simp: node_events_def stage_paths_def path_on_def)
  show ?thesis
    using assms(2) unfolding graph_nodes_run
  proof (rule nodes.run_inv [rotated])
    fix m :: "(jsstr, DashboardFlowNode) jsmap" and e
    assume e: "e \<in> set (node_events ps)"
      and inv: "\<forall>k v. map_of m k = Some v \<longrightarrow> k = dn_id v \<and> kind_prefix k = js (kind_name (dn_kind v))"
    from ev [OF e] inv
    show "\<forall>k v. map_of (node_step metric colors palette m e) k = Some v \<longrightarrow>
        k = dn_id v \<and> kind_prefix k = js (kind_name (dn_kind v))"
      by (auto simp: node_step_def addNode_def Let_def tagged_def split: prod.splits option.splits)
  qed
qed

lemma link_entry:
  assumes "(k, v) \<in> set (graph_links metric colors palette ps)"
  shows "k = linkStableKey v"
  using assms unfolding graph_links_run
proof (rule links.run_inv [rotated])
  fix m e
  assume inv: "\<forall>k v. map_of m k = Some v \<longrightarrow> k = linkStableKey v"
  then show "\<forall>k v. map_of (link_step metric colors palette m e) k = Some v \<longrightarrow> k = linkStableKey v"
    by (auto simp: link_step_def addLink_def Let_def linkStableKey_def split: prod.splits option.splits)
qed

lemma link_entry_clean:
  assumes "clean_paths ps" and "(k, v) \<in> set (graph_links metric colors palette ps)"
  shows "0 \<notin> set (dl_source v)"
proof -
  have ev: "0 \<notin> set (pn_id (fst (fst e)))" if "e \<in> set (link_events ps)" for e
    using that path_link_clean [OF assms(1)] by (fastforce simp: link_events_def)
  show ?thesis
    using assms(2) unfolding graph_links_run
  proof (rule links.run_inv [rotated])
    fix m :: "(jsstr, DashboardFlowLink) jsmap" and e
    assume "e \<in> set (link_events ps)" and "\<forall>k v. map_of m k = Some v \<longrightarrow> 0 \<notin> set (dl_source v)"
    with ev [of e] show "\<forall>k v. map_of (link_step metric colors palette m e) k = Some v \<longrightarrow> 0 \<notin> set (dl_source v)"
      by (auto simp: link_step_def addLink_def Let_def split: prod.splits option.splits)
  qed
qed

section \<open>Conservation\<close>

lemma one_of_kind:
  assumes "path_on stages path" and "distinct stages" and "kd \<in> set stages"
  shows "length (filter (\<lambda>n. kind_prefix (pn_id n) = js (kind_name kd)) path) = 1"
proof -
  have "filter (\<lambda>n. kind_prefix (pn_id n) = js (kind_name kd)) path = filter (\<lambda>n. pn_kind n = kd) path"
    using assms(1) by (intro filter_cong) (auto simp: path_on_def tagged_def inj_js kind_name_inj)
  moreover have "distinct (map pn_kind path)" "kd \<in> pn_kind ` set path"
    using assms by (auto simp: path_on_def simp flip: set_map)
  ultimately show ?thesis by (simp add: filter_distinct_one)
qed

text \<open>A column of the diagram carries the amount of all paths.\<close>

lemma column_total:
  assumes "counted metric ps" and "stage_paths stages ps" and "kd \<in> set stages"
  shows "sum_list (map (\<lambda>(k, v). nat_of_num (dn_value v)) (filter (\<lambda>(k, v). dn_kind v = kd)
      (graph_nodes metric colors palette ps))) = sum_list (map (path_amount metric) ps)"
proof -
  let ?N = "graph_nodes metric colors palette ps"
  let ?P = "\<lambda>k. kind_prefix k = js (kind_name kd)"
  have "filter (\<lambda>(k, v). dn_kind v = kd) ?N = filter (\<lambda>(k, v). ?P k) ?N"
    using node_entry [OF assms(2)] by (intro filter_cong) (auto simp: inj_js kind_name_inj)
  moreover have "sum_list (map (\<lambda>(k, v). nat_of_num (dn_value v)) (filter (\<lambda>(k, v). ?P k) ?N)) =
      sum_list (map (event_amount metric) (filter (\<lambda>e. ?P (pn_id (fst e))) (node_events ps)))"
    unfolding graph_nodes_run by (rule nodes.run_sum) (rule node_counts [OF assms(1,2)])
  moreover have "\<dots> = sum_list (map (\<lambda>p. length (filter (\<lambda>n. ?P (pn_id n)) (fst p)) * path_amount metric p) ps)"
    by (rule node_events_sum)
  moreover have "\<dots> = sum_list (map (path_amount metric) ps)"
    using one_of_kind [OF _ _ assms(3)] assms(2) by (auto simp: stage_paths_def intro!: arg_cong [where f = sum_list])
  ultimately show ?thesis by simp
qed

text \<open>The amount of a node, and of the links that leave it or arrive at it.\<close>

lemma node_key:
  assumes "(k, v) \<in> set (graph_nodes metric colors palette ps)"
  shows "k \<in> (\<lambda>e. pn_id (fst e)) ` set (node_events ps)"
proof -
  have "k \<in> set (map fst (graph_nodes metric colors palette ps))" using assms by force
  then show ?thesis unfolding graph_nodes_run nodes.keys_run .
qed

lemma node_amount:
  assumes "counted metric ps" and "stage_paths stages ps" and "(k, v) \<in> set (graph_nodes metric colors palette ps)"
  shows "nat_of_num (dn_value v) =
    sum_list (map (\<lambda>p. length (filter (\<lambda>n. pn_id n = k) (fst p)) * path_amount metric p) ps)"
proof -
  let ?N = "graph_nodes metric colors palette ps"
  have d: "distinct (map fst ?N)" unfolding graph_nodes_run by (rule nodes.distinct_run)
  have "k \<in> (\<lambda>e. pn_id (fst e)) ` set (node_events ps)" by (rule node_key [OF assms(3)])
  from nodes.run_total [OF node_counts [OF assms(1,2)] this, of colors palette] assms(3) d
  show ?thesis
    using node_events_sum [of metric "\<lambda>n. pn_id n = k" ps] unfolding graph_nodes_run by auto
qed

lemma link_amounts:
  assumes "counted metric ps" and "stage_paths stages ps" and "clean_paths ps"
  shows "sum_list (map (\<lambda>(k, l). nat_of_num (dl_value l)) (filter (\<lambda>(k, l). dl_source l = x)
      (graph_links metric colors palette ps))) =
      sum_list (map (\<lambda>p. length (filter (\<lambda>n. pn_id n = x) (butlast (fst p))) * path_amount metric p) ps)"
    and "sum_list (map (\<lambda>(k, l). nat_of_num (dl_value l)) (filter (\<lambda>(k, l). dl_target l = x)
      (graph_links metric colors palette ps))) =
      sum_list (map (\<lambda>p. length (filter (\<lambda>n. pn_id n = x) (tl (fst p))) * path_amount metric p) ps)"
proof -
  let ?L = "graph_links metric colors palette ps"
  have parts: "key_source k = dl_source l \<and> key_target k = dl_target l" if "(k, l) \<in> set ?L" for k l
    using link_entry [OF that] link_entry_clean [OF assms(3) that] link_key_parts by (simp add: linkStableKey_def)
  have sum: "sum_list (map (\<lambda>(k, l). nat_of_num (dl_value l)) (filter (\<lambda>(k, l). P k) ?L)) =
      sum_list (map (\<lambda>p. length (filter (\<lambda>st. P (pathLinkKey (fst st) (snd st))) (path_links (fst p))) * path_amount metric p) ps)" for P
    unfolding link_events_sum [symmetric] graph_links_run by (rule links.run_sum) (rule link_counts [OF assms])
  have ends: "key_source (pathLinkKey (fst st) (snd st)) = pn_id (fst st) \<and> key_target (pathLinkKey (fst st) (snd st)) = pn_id (snd st)"
    if "p \<in> set ps" "st \<in> set (path_links (fst p))" for p st
    using path_link_clean [OF assms(3) that(1)] that(2) link_key_parts by (cases st) (auto simp: pathLinkKey_def)
  have "filter (\<lambda>(k, l). dl_source l = x) ?L = filter (\<lambda>(k, l). key_source k = x) ?L"
    "filter (\<lambda>(k, l). dl_target l = x) ?L = filter (\<lambda>(k, l). key_target k = x) ?L"
    using parts by (auto intro!: filter_cong)
  moreover have "length (filter (\<lambda>st. key_source (pathLinkKey (fst st) (snd st)) = x) (path_links (fst p))) =
      length (filter (\<lambda>n. pn_id n = x) (butlast (fst p)))"
    "length (filter (\<lambda>st. key_target (pathLinkKey (fst st) (snd st)) = x) (path_links (fst p))) =
      length (filter (\<lambda>n. pn_id n = x) (tl (fst p)))" if "p \<in> set ps" for p
    using ends [OF that] filter_links_fst [of "\<lambda>n. pn_id n = x" "fst p"] filter_links_snd [of "\<lambda>n. pn_id n = x" "fst p"]
    by (auto simp: case_prod_unfold cong: filter_cong)
  ultimately show "sum_list (map (\<lambda>(k, l). nat_of_num (dl_value l)) (filter (\<lambda>(k, l). dl_source l = x) ?L)) =
      sum_list (map (\<lambda>p. length (filter (\<lambda>n. pn_id n = x) (butlast (fst p))) * path_amount metric p) ps)"
    "sum_list (map (\<lambda>(k, l). nat_of_num (dl_value l)) (filter (\<lambda>(k, l). dl_target l = x) ?L)) =
      sum_list (map (\<lambda>p. length (filter (\<lambda>n. pn_id n = x) (tl (fst p))) * path_amount metric p) ps)"
    using sum [of "\<lambda>k. key_source k = x"] sum [of "\<lambda>k. key_target k = x"]
    by (auto intro!: arg_cong [where f = sum_list])
qed

lemma last_other_kind:
  assumes "path_on stages path" and "stages \<noteq> []" and "kind_prefix x = js (kind_name kd)"
  shows "kd \<noteq> last stages \<Longrightarrow> length (filter (\<lambda>n. pn_id n = x) (butlast path)) = length (filter (\<lambda>n. pn_id n = x) path)"
    and "kd \<noteq> hd stages \<Longrightarrow> length (filter (\<lambda>n. pn_id n = x) (tl path)) = length (filter (\<lambda>n. pn_id n = x) path)"
proof -
  have ne: "path \<noteq> []" using assms(1,2) by (auto simp: path_on_def)
  have kinds: "pn_kind (last path) = last stages" "pn_kind (hd path) = hd stages"
    using assms(1) ne by (auto simp: path_on_def last_map hd_map)
  have tag: "kind_prefix (pn_id n) = js (kind_name (pn_kind n))" if "n \<in> set path" for n
    using assms(1) that by (auto simp: path_on_def tagged_def)
  have other: "pn_id n \<noteq> x" if "n \<in> set path" "pn_kind n \<noteq> kd" for n
    using tag [OF that(1)] that(2) assms(3) by (auto simp: inj_js kind_name_inj)
  show "length (filter (\<lambda>n. pn_id n = x) (butlast path)) = length (filter (\<lambda>n. pn_id n = x) path)" if "kd \<noteq> last stages"
  proof -
    have "pn_id (last path) \<noteq> x" using ne kinds that by (intro other) auto
    then have "filter (\<lambda>n. pn_id n = x) (butlast path @ [last path]) = filter (\<lambda>n. pn_id n = x) (butlast path)" by simp
    then show ?thesis using ne by (metis append_butlast_last_id)
  qed
  show "length (filter (\<lambda>n. pn_id n = x) (tl path)) = length (filter (\<lambda>n. pn_id n = x) path)" if "kd \<noteq> hd stages"
  proof -
    have "pn_id (hd path) \<noteq> x" using ne kinds that by (intro other) auto
    then show ?thesis using ne by (cases path) auto
  qed
qed

text \<open>The amounts of a column, and of the links at a node, in a finished graph.\<close>

definition column_flow :: "DashboardFlowGraph \<Rightarrow> FlowNodeKind \<Rightarrow> nat" where
  "column_flow G kd = sum_list (map (\<lambda>n. nat_of_num (dn_value n)) (filter (\<lambda>n. dn_kind n = kd) (gr_nodes G)))"

definition out_flow :: "DashboardFlowGraph \<Rightarrow> jsstr \<Rightarrow> nat" where
  "out_flow G x = sum_list (map (\<lambda>l. nat_of_num (dl_value l)) (filter (\<lambda>l. dl_source l = x) (gr_links G)))"

definition in_flow :: "DashboardFlowGraph \<Rightarrow> jsstr \<Rightarrow> nat" where
  "in_flow G x = sum_list (map (\<lambda>l. nat_of_num (dl_value l)) (filter (\<lambda>l. dl_target l = x) (gr_links G)))"

lemma graph_paths_facts:
  assumes "ps = graph_paths lc rows metric (resolveVisibleStages role vis) ctx options"
  shows "stage_paths (resolveVisibleStages role vis) ps"
    and "counted_rows metric rows \<Longrightarrow> counted metric ps"
    and "clean_rows (resolveVisibleStages role vis) ctx rows \<Longrightarrow> clean_paths ps"
  unfolding assms graph_paths_def
  by (simp_all add: prepared_stages stages_distinct prepared_counted prepared_clean)

lemma graph_flows:
  assumes ps: "ps = graph_paths lc rows metric (resolveVisibleStages role vis) ctx options"
    and G: "G = buildFlowGraph lc rows metric role palette vis ctx options"
  shows "column_flow G kd = sum_list (map (\<lambda>(k, v). nat_of_num (dn_value v)) (filter (\<lambda>(k, v). dn_kind v = kd)
      (graph_nodes metric (graph_colors lc ps palette) palette ps)))"
    and "out_flow G x = sum_list (map (\<lambda>(k, l). nat_of_num (dl_value l)) (filter (\<lambda>(k, l). dl_source l = x)
      (graph_links metric (graph_colors lc ps palette) palette ps)))"
    and "in_flow G x = sum_list (map (\<lambda>(k, l). nat_of_num (dl_value l)) (filter (\<lambda>(k, l). dl_target l = x)
      (graph_links metric (graph_colors lc ps palette) palette ps)))"
  using sum_by_core [OF graph_core(1) [OF ps G], of "\<lambda>(i, d, v). nat_of_num v" "\<lambda>(i, d, v). d = kd"]
    sum_by_core [OF graph_core(2) [OF ps G], of "\<lambda>(i, d, v). nat_of_num v" "\<lambda>(i, d, v). i = x"]
    sum_by_core [OF graph_core(2) [OF ps G], of "\<lambda>(i, d, v). nat_of_num v" "\<lambda>(i, d, v). d = x"]
  by (simp_all add: column_flow_def out_flow_def in_flow_def node_core_def link_core_def case_prod_unfold)

lemma stages_not_Nil: "resolveVisibleStages role vis \<noteq> []"
  by (cases role) (auto simp: resolveVisibleStages_def getFlowStages_def MIN_FLOW_STAGES_def Let_def split: option.splits)

lemma column_conserved:
  assumes "counted_rows metric rows" and "kd \<in> set (resolveVisibleStages role vis)"
    and "go_overflowMode options \<noteq> Some Hide \<or> normalizeTopNodeLimit (go_topNodeLimit options) = None"
  shows "column_flow (buildFlowGraph lc rows metric role palette vis ctx options) kd =
    sum_list (map (row_amount metric) rows)"
proof -
  define ps where ps: "ps = graph_paths lc rows metric (resolveVisibleStages role vis) ctx options"
  note facts = graph_paths_facts [OF ps]
  have "sum_list (map (path_amount metric) ps) = sum_list (map (row_amount metric) rows)"
    unfolding ps graph_paths_def using assms(3)
    by (intro prepared_amount_eq) (auto simp: DEFAULT_FLOW_OVERFLOW_MODE_def buildTopNodeSets_def split: option.splits)
  then show ?thesis
    unfolding graph_flows(1) [OF ps refl] using column_total [OF facts(2) [OF assms(1)] facts(1) assms(2)] by simp
qed

section \<open>Properties\<close>

text \<open>C19: Every visible column of the flow diagram carries the whole traffic: with natural metrics
  whose sum is at most \<open>2 ^ 53\<close>, and unless overflowing paths are hidden, the values of the nodes of
  a stage add up to the metric of all rows, also when small nodes are folded into an other node.\<close>

theorem flow_column_conserved:
  assumes "counted_rows metric rows" and "kd \<in> set (resolveVisibleStages role vis)"
    and "go_overflowMode options \<noteq> Some Hide \<or> normalizeTopNodeLimit (go_topNodeLimit options) = None"
  shows "column_flow (buildFlowGraph lc rows metric role palette vis ctx options) kd =
    sum_list (map (row_amount metric) rows)"
  by (rule column_conserved [OF assms])

definition flow_row :: "string \<Rightarrow> string \<Rightarrow> nat \<Rightarrow> FlowQuotaDataItem" where
  "flow_row group_name model q = \<lparr>fr_user_id = None, fr_username = None, fr_node_name = None,
     fr_use_group = Some (js group_name), fr_token_id = None, fr_token_name = None, fr_channel_id = None,
     fr_channel_name = None, fr_model_name = Some (js model), fr_token_used = None, fr_count = Some (Fin 1),
     fr_quota = Some (Fin (of_nat q))\<rparr>"

definition sample_rows :: "FlowQuotaDataItem list" where
  "sample_rows = [flow_row ''g'' ''x'' 5, flow_row ''g'' ''y'' 7, flow_row ''h'' ''x'' 1]"

definition sample_options :: FlowGraphOptions where
  "sample_options = \<lparr>go_topNodeLimit = Some (Fin 1), go_overflowMode = None, go_otherNodeLabel = None,
     go_activeNode = None, go_activeLink = None, go_maskSensitive = True\<rparr>"

lemma sample_counted: "counted_rows MQuota sample_rows" "sum_list (map (row_amount MQuota) sample_rows) = 13"
  using nat_of_num_nat [of 5] nat_of_num_nat [of 7] nat_of_num_nat [of 1]
  by (simp_all add: counted_rows_def sample_rows_def flow_row_def row_amount_def rowMetrics_def numberValue_def)

lemma flow_column_conserved_witness:
  "counted_rows MQuota sample_rows \<and>
   column_flow (buildFlowGraph (\<lambda>a b. 0) sample_rows MQuota RoleUser None None None sample_options) KModel = 13"
  using flow_column_conserved [OF sample_counted(1), of KModel RoleUser None sample_options "\<lambda>a b. 0" None None]
    sample_counted
  by (simp add: sample_options_def resolveVisibleStages_def getFlowStages_def)

text \<open>C3: Traffic is conserved at every node: under the same condition on the metrics, and when no
  name contains the separator of link keys, the links that leave a node before the last column add
  up to the value of the node, and so do the links that arrive at a node after the first column,
  with and without a limit, masking or hidden paths.\<close>

theorem flow_node_balanced:
  assumes "counted_rows metric rows" and "clean_rows (resolveVisibleStages role vis) ctx rows"
    and "n \<in> set (gr_nodes (buildFlowGraph lc rows metric role palette vis ctx options))"
  shows "(dn_kind n \<noteq> last (resolveVisibleStages role vis) \<longrightarrow>
      out_flow (buildFlowGraph lc rows metric role palette vis ctx options) (dn_id n) = nat_of_num (dn_value n)) \<and>
    (dn_kind n \<noteq> hd (resolveVisibleStages role vis) \<longrightarrow>
      in_flow (buildFlowGraph lc rows metric role palette vis ctx options) (dn_id n) = nat_of_num (dn_value n))"
proof -
  let ?stages = "resolveVisibleStages role vis"
  define ps where ps: "ps = graph_paths lc rows metric ?stages ctx options"
  note facts = graph_paths_facts(1) [OF ps] graph_paths_facts(2) [OF ps assms(1)] graph_paths_facts(3) [OF ps assms(2)]
  let ?N = "graph_nodes metric (graph_colors lc ps palette) palette ps"
  have "node_core n \<in># mset (map (node_core \<circ> snd) ?N)"
    using assms(3) unfolding graph_core(1) [OF ps refl, symmetric] by simp
  then obtain k v where kv: "(k, v) \<in> set ?N" "node_core v = node_core n" by auto
  then have v: "dn_id v = dn_id n" "dn_kind v = dn_kind n" "dn_value v = dn_value n" by (auto simp: node_core_def)
  have k: "k = dn_id n" "kind_prefix (dn_id n) = js (kind_name (dn_kind n))"
    using node_entry [OF facts(1) kv(1)] v by auto
  have on: "path_on ?stages (fst p)" if "p \<in> set ps" for p using facts(1) that by (auto simp: stage_paths_def)
  note same = last_other_kind [OF on stages_not_Nil k(2)]
  have amount: "nat_of_num (dn_value n) =
      sum_list (map (\<lambda>p. length (filter (\<lambda>m. pn_id m = dn_id n) (fst p)) * path_amount metric p) ps)"
    using node_amount [OF facts(2,1) kv(1)] v k by simp
  show ?thesis
    unfolding graph_flows(2,3) [OF ps refl] link_amounts [OF facts(2,1,3)] amount
    using same by (auto intro!: arg_cong [where f = sum_list])
qed

lemma sample_clean: "clean_rows (resolveVisibleStages RoleUser None) None sample_rows"
  by (simp add: clean_rows_def sample_rows_def flow_row_def flowPathForStages_def resolveVisibleStages_def
      getFlowStages_def tokenNode_def groupNode_def modelNode_def numberValue_def positive_def Let_def opt_or_def
      str_or_def js_lit)

lemma flow_node_balanced_witness:
  "\<exists>n. n \<in> set (gr_nodes (buildFlowGraph (\<lambda>a b. 0) sample_rows MQuota RoleUser None None None sample_options)) \<and>
     dn_kind n \<noteq> last (resolveVisibleStages RoleUser None) \<and>
     out_flow (buildFlowGraph (\<lambda>a b. 0) sample_rows MQuota RoleUser None None None sample_options) (dn_id n) =
       nat_of_num (dn_value n)"
proof -
  let ?G = "buildFlowGraph (\<lambda>a b. 0) sample_rows MQuota RoleUser None None None sample_options"
  have "column_flow ?G KGroup = 13"
    using column_conserved [OF sample_counted(1), of KGroup RoleUser None sample_options "\<lambda>a b. 0" None None]
      sample_counted
    by (simp add: sample_options_def resolveVisibleStages_def getFlowStages_def)
  then have "filter (\<lambda>n. dn_kind n = KGroup) (gr_nodes ?G) \<noteq> []" by (auto simp: column_flow_def)
  then obtain n where n: "n \<in> set (gr_nodes ?G)" "dn_kind n = KGroup" by (auto simp: filter_empty_conv)
  moreover have "last (resolveVisibleStages RoleUser None) = KModel"
    by (simp add: resolveVisibleStages_def getFlowStages_def)
  ultimately show ?thesis
    using flow_node_balanced [OF sample_counted(1) sample_clean n(1)] by fastforce
qed

section \<open>Limits\<close>

lemma limit_ids:
  assumes "path_on stages path" and "applyTopNodeLimit path (Some sets) mode labeler = Some path'" and "n \<in> set path'"
    and "map_of sets (pn_kind n) = Some tops"
  shows "pn_id n \<in> set tops \<or> mode \<noteq> Hide \<and> pn_id n = OTHER_FLOW_NODE_IDS (pn_kind n)"
proof (cases "\<exists>m \<in> set path. \<not> isTopFlowNode m (Some sets)")
  case True
  then obtain m where "mode \<noteq> Hide" "m \<in> set path"
    "n = (if isTopFlowNode m (Some sets) then m else otherFlowNode (pn_kind m) labeler)"
    using assms(2,3) by (auto simp: applyTopNodeLimit_def list_ex_iff split: if_splits)
  then show ?thesis using assms(4) by (auto simp: isTopFlowNode_def otherFlowNode_def split: if_splits)
next
  case False
  then show ?thesis
    using assms(2-4) by (auto simp: applyTopNodeLimit_def list_ex_iff isTopFlowNode_def split: if_splits)
qed

lemma top_sets_length:
  assumes "buildTopNodeSets lc rows metric stages (Some l) ctx = Some sets" and "kd \<in> set stages"
  shows "\<exists>tops. map_of sets kd = Some tops \<and> length tops \<le> l"
proof -
  have "map_of (map (\<lambda>k. (k, g k)) ks) kd = Some (g kd)" if "kd \<in> set ks" for g :: "FlowNodeKind \<Rightarrow> jsstr list" and ks
    using that by (simp add: map_of_map_restrict)
  with assms show ?thesis by (auto simp: buildTopNodeSets_def split: if_splits)
qed

lemma length_filter_ids:
  assumes "distinct (map f xs)" and "f ` {x \<in> set xs. P x} \<subseteq> A" and "finite A"
  shows "length (filter P xs) \<le> card A"
proof -
  have "distinct (map f (filter P xs))" using assms(1) by (rule distinct_map_filter)
  then have "length (filter P xs) = card (set (map f (filter P xs)))" by (metis distinct_card length_map)
  also have "\<dots> \<le> card A" using assms by (intro card_mono) auto
  finally show ?thesis .
qed

lemma limited_path_ids:
  assumes "normalizeTopNodeLimit (go_topNodeLimit options) = Some l"
    and "buildTopNodeSets lc rows metric stages (Some l) ctx = Some sets" and "map_of sets kd = Some tops"
    and "p \<in> set (graph_paths lc rows metric stages ctx options)" and n: "n \<in> set (fst p)" "pn_kind n = kd"
  shows "pn_id n \<in> set tops \<union> (if go_overflowMode options = Some Hide then {} else {OTHER_FLOW_NODE_IDS kd})"
proof -
  let ?mode = "case go_overflowMode options of None \<Rightarrow> DEFAULT_FLOW_OVERFLOW_MODE | Some m \<Rightarrow> m"
  from assms(4) obtain row where
    "applyTopNodeLimit (flowPathForStages row stages ctx) (Some sets) ?mode (go_otherNodeLabel options) = Some (fst p)"
    unfolding graph_paths_def assms(1,2) by (auto simp: prepare_paths_def split: option.splits)
  from limit_ids [OF path_on_stages this n(1)] assms(3) n(2) show ?thesis
    by (auto simp: DEFAULT_FLOW_OVERFLOW_MODE_def split: option.splits)
qed

lemma node_of_kind:
  assumes sp: "stage_paths stages ps" and kv: "(k, v) \<in> set (graph_nodes metric colors palette ps)"
  shows "\<exists>p n. p \<in> set ps \<and> n \<in> set (fst p) \<and> k = pn_id n \<and> pn_kind n = dn_kind v"
proof -
  obtain p n where pn: "p \<in> set ps" "n \<in> set (fst p)" "k = pn_id n"
    using node_key [OF kv] by (auto simp: node_events_def)
  then have "tagged n" using sp by (auto simp: stage_paths_def path_on_def)
  then have "pn_kind n = dn_kind v"
    using node_entry [OF sp kv] pn(3) by (auto simp: tagged_def inj_js kind_name_inj)
  with pn show ?thesis by blast
qed

text \<open>C22: A limit of \<open>l\<close> nodes holds for every column: hiding leaves at most \<open>l\<close> nodes of a kind,
  folding at most \<open>l + 1\<close>, the last one being the other node.\<close>

theorem flow_limit_respected:
  assumes "normalizeTopNodeLimit (go_topNodeLimit options) = Some l" and "kd \<in> set (resolveVisibleStages role vis)"
  shows "length (filter (\<lambda>n. dn_kind n = kd) (gr_nodes (buildFlowGraph lc rows metric role palette vis ctx options)))
    \<le> (if go_overflowMode options = Some Hide then l else l + 1)"
proof -
  let ?stages = "resolveVisibleStages role vis"
  define ps where ps: "ps = graph_paths lc rows metric ?stages ctx options"
  let ?N = "graph_nodes metric (graph_colors lc ps palette) palette ps"
  have "l \<noteq> 0"
    using assms(1)
    by (auto simp: normalizeTopNodeLimit_def Let_def positive_def math_floor_def js_lt_def js_le_def
        split: option.splits jsnum.splits if_splits)
  then obtain sets where sets: "buildTopNodeSets lc rows metric ?stages (Some l) ctx = Some sets"
    by (simp add: buildTopNodeSets_def)
  obtain tops where tops: "map_of sets kd = Some tops" "length tops \<le> l"
    using top_sets_length [OF sets assms(2)] by blast
  let ?A = "set tops \<union> (if go_overflowMode options = Some Hide then {} else {OTHER_FLOW_NODE_IDS kd})"
  have sp: "stage_paths ?stages ps" by (rule graph_paths_facts(1) [OF ps])
  have key: "k \<in> ?A" if kv: "(k, v) \<in> set ?N" and kind: "dn_kind v = kd" for k v
    using node_of_kind [OF sp kv] limited_path_ids [OF assms(1) sets tops(1)] kind unfolding ps by blast
  have "fst ` {kv \<in> set ?N. dn_kind (snd kv) = kd} \<subseteq> ?A"
  proof (rule image_subsetI)
    fix kv
    assume "kv \<in> {kv \<in> set ?N. dn_kind (snd kv) = kd}"
    then show "fst kv \<in> ?A" using key [of "fst kv" "snd kv"] by simp
  qed
  moreover have "distinct (map fst ?N)" unfolding graph_nodes_run by (rule nodes.distinct_run)
  ultimately have "length (filter (\<lambda>kv. dn_kind (snd kv) = kd) ?N) \<le> card ?A"
    by (intro length_filter_ids [of fst]) auto
  moreover have "length (filter (\<lambda>n. dn_kind n = kd) (gr_nodes (buildFlowGraph lc rows metric role palette vis ctx options))) =
      length (filter (\<lambda>kv. dn_kind (snd kv) = kd) ?N)"
    using sum_by_core [OF graph_core(1) [OF ps refl], of "\<lambda>c. 1" "\<lambda>(i, d, v). d = kd"]
    by (simp add: sum_list_triv node_core_def)
  moreover have "card ?A \<le> (if go_overflowMode options = Some Hide then l else l + 1)"
    using tops(2) card_length [of tops] card_insert_le_m1 [of "l + 1" "set tops" "OTHER_FLOW_NODE_IDS kd"] by auto
  ultimately show ?thesis by simp
qed

lemma flow_limit_respected_witness:
  "normalizeTopNodeLimit (go_topNodeLimit sample_options) = Some 1 \<and>
   length (filter (\<lambda>n. dn_kind n = KModel)
     (gr_nodes (buildFlowGraph (\<lambda>a b. 0) sample_rows MQuota RoleUser None None None sample_options))) \<le> 2"
proof -
  have l: "normalizeTopNodeLimit (go_topNodeLimit sample_options) = Some 1"
    by (simp add: normalizeTopNodeLimit_def sample_options_def math_floor_def positive_def)
  have k: "KModel \<in> set (resolveVisibleStages RoleUser None)"
    by (simp add: resolveVisibleStages_def getFlowStages_def)
  from flow_limit_respected [OF l k, of "\<lambda>a b. 0" sample_rows MQuota None None] l show ?thesis
    by (simp add: sample_options_def)
qed

section \<open>Masking\<close>













section \<open>Stages and filters\<close>

text \<open>At least two stages are visible, in the order of the role, without repetition.\<close>

lemma flow_visible_stages:
  "2 \<le> length (resolveVisibleStages role vis) \<and> distinct (resolveVisibleStages role vis) \<and>
   (\<exists>P. resolveVisibleStages role vis = filter P (ROLE_FLOW_STAGES role))"
proof (intro conjI)
  show "2 \<le> length (resolveVisibleStages role vis)"
    by (cases role) (auto simp: resolveVisibleStages_def getFlowStages_def MIN_FLOW_STAGES_def Let_def split: option.splits)
  show "distinct (resolveVisibleStages role vis)" by (rule stages_distinct)
  have "resolveVisibleStages role vis = filter (\<lambda>_. True) (ROLE_FLOW_STAGES role) \<or>
      resolveVisibleStages role vis = filter (\<lambda>k. k \<in> set (the vis)) (ROLE_FLOW_STAGES role)"
    by (auto simp: resolveVisibleStages_def getFlowStages_def Let_def split: option.splits)
  then show "\<exists>P. resolveVisibleStages role vis = filter P (ROLE_FLOW_STAGES role)" by blast
qed

lemma group_entry:
  "x \<in> set (case map_of (add_to_group k y m) k' of None \<Rightarrow> [] | Some xs \<Rightarrow> xs) \<longleftrightarrow>
     x \<in> set (case map_of m k' of None \<Rightarrow> [] | Some xs \<Rightarrow> xs) \<or> k' = k \<and> x = y"
  by (auto simp: add_to_group_def Let_def split: option.splits)

lemma group_dom: "map_of (add_to_group k y m) k' = None \<longleftrightarrow> map_of m k' = None \<and> k' \<noteq> k"
  by (auto simp: add_to_group_def Let_def)

lemma group_distinct: "distinct (map fst m) \<Longrightarrow> distinct (map fst (add_to_group k y m))"
  by (simp add: add_to_group_def Let_def distinct_update)

definition group_by :: "('e \<Rightarrow> 'k) \<Rightarrow> ('e \<Rightarrow> 'a) \<Rightarrow> 'e list \<Rightarrow> ('k, 'a list) jsmap" where
  "group_by key val es = foldl (\<lambda>m e. add_to_group (key e) (val e) m) [] es"

lemma group_by_facts:
  "distinct (map fst (group_by key val es))"
  "map_of (group_by key val es) k = None \<longleftrightarrow> k \<notin> key ` set es"
  "set (case map_of (group_by key val es) k of None \<Rightarrow> [] | Some xs \<Rightarrow> xs) = val ` {e \<in> set es. key e = k}"
proof (induction es rule: rev_induct)
  case (snoc e es)
  have s: "group_by key val (es @ [e]) = add_to_group (key e) (val e) (group_by key val es)" by (simp add: group_by_def)
  { case 1 show ?case using snoc.IH(1) by (simp add: s group_distinct) }
  { case 2 show ?case using snoc.IH(2) by (auto simp: s group_dom) }
  { case 3 show ?case unfolding set_eq_iff s group_entry using snoc.IH(3) by (auto simp: set_eq_iff) }
qed (auto simp: group_by_def)

lemma selected_groups:
  "normalizeSelectedNodeFilters sel stages =
     group_by nf_kind nf_id (filter (\<lambda>f. nf_kind f \<in> set stages) (case sel of None \<Rightarrow> [] | Some fs \<Rightarrow> fs))"
proof -
  have "foldl (\<lambda>m f. if nf_kind f \<in> set stages then add_to_group (nf_kind f) (nf_id f) m else m) acc fs =
      foldl (\<lambda>m f. add_to_group (nf_kind f) (nf_id f) m) acc (filter (\<lambda>f. nf_kind f \<in> set stages) fs)"
    for acc and fs :: "FlowNodeFilter list"
    by (induction fs arbitrary: acc) auto
  then show ?thesis by (simp add: normalizeSelectedNodeFilters_def group_by_def)
qed

lemma path_matches:
  assumes "distinct (map fst filters)"
  shows "pathMatchesNodeFilters path filters \<longleftrightarrow>
    (\<forall>kd ids. map_of filters kd = Some ids \<longrightarrow> (\<exists>n \<in> set path. pn_kind n = kd \<and> pn_id n \<in> set ids))"
proof -
  let ?g = "group_by pn_kind pn_id path"
  have g: "foldl (\<lambda>m node. add_to_group (pn_kind node) (pn_id node) m) [] path = ?g" by (simp add: group_by_def)
  have hit: "(case map_of ?g kd of None \<Rightarrow> False | Some pathIds \<Rightarrow> list_ex (\<lambda>i. i \<in> set pathIds) ids) \<longleftrightarrow>
      (\<exists>n \<in> set path. pn_kind n = kd \<and> pn_id n \<in> set ids)" for kd ids
  proof (cases "map_of ?g kd")
    case None
    then show ?thesis using group_by_facts(2) [of pn_kind pn_id path kd] by auto
  next
    case (Some y)
    then have y: "set y = pn_id ` {e \<in> set path. pn_kind e = kd}"
      using group_by_facts(3) [of pn_kind pn_id path kd] by simp
    have "list_ex (\<lambda>i. i \<in> set y) ids \<longleftrightarrow> (\<exists>n \<in> set path. pn_kind n = kd \<and> pn_id n \<in> set ids)"
      unfolding list_ex_iff y by blast
    with Some show ?thesis by simp
  qed
  have "pathMatchesNodeFilters path filters \<longleftrightarrow>
      (\<forall>kv \<in> set filters. \<exists>n \<in> set path. pn_kind n = fst kv \<and> pn_id n \<in> set (snd kv))"
    by (cases "filters = []")
      (simp_all add: pathMatchesNodeFilters_def Let_def g hit list_all_iff case_prod_unfold)
  also have "\<dots> \<longleftrightarrow> (\<forall>kd ids. (kd, ids) \<in> set filters \<longrightarrow> (\<exists>n \<in> set path. pn_kind n = kd \<and> pn_id n \<in> set ids))"
    by (metis prod.collapse fst_conv snd_conv)
  finally show ?thesis unfolding map_of_eq_Some_iff [OF assms] .
qed

lemma node_filter_match:
  fixes sel stages
  defines "F \<equiv> normalizeSelectedNodeFilters (Some sel) stages"
  shows "pathMatchesNodeFilters (flowPathForStages row stages ctx) F \<longleftrightarrow>
    (\<forall>kd \<in> set stages. (\<exists>f \<in> set sel. nf_kind f = kd) \<longrightarrow>
      (\<exists>f \<in> set sel. nf_kind f = kd \<and> nf_id f = pn_id (NODE_BUILDERS kd row ctx)))"
proof -
  let ?fs = "filter (\<lambda>f. nf_kind f \<in> set stages) sel"
  have F: "F = group_by nf_kind nf_id ?fs" by (simp add: F_def selected_groups)
  have look: "map_of F kd = Some ids \<Longrightarrow> kd \<in> set stages \<and> (\<exists>f \<in> set sel. nf_kind f = kd) \<and>
      set ids = nf_id ` {f \<in> set sel. nf_kind f = kd}" for kd ids
    using group_by_facts(2,3) [of nf_kind nf_id ?fs kd] unfolding F by auto
  have some: "kd \<in> set stages \<Longrightarrow> \<exists>f \<in> set sel. nf_kind f = kd \<Longrightarrow> \<exists>ids. map_of F kd = Some ids" for kd
    using group_by_facts(2) [of nf_kind nf_id ?fs kd] unfolding F by auto
  have node: "(\<exists>n \<in> set (flowPathForStages row stages ctx). pn_kind n = kd \<and> pn_id n \<in> S) \<longleftrightarrow>
      kd \<in> set stages \<and> pn_id (NODE_BUILDERS kd row ctx) \<in> S" for kd S
    by (auto simp: flowPathForStages_def builder_tagged)
  have "distinct (map fst F)" unfolding F by (rule group_by_facts)
  from path_matches [OF this]
  have m: "pathMatchesNodeFilters (flowPathForStages row stages ctx) F \<longleftrightarrow>
      (\<forall>kd ids. map_of F kd = Some ids \<longrightarrow> kd \<in> set stages \<and> pn_id (NODE_BUILDERS kd row ctx) \<in> set ids)"
    by (simp only: node)
  show ?thesis
    unfolding m
  proof (intro iffI ballI impI allI)
    fix kd
    assume all: "\<forall>kd ids. map_of F kd = Some ids \<longrightarrow> kd \<in> set stages \<and> pn_id (NODE_BUILDERS kd row ctx) \<in> set ids"
      and kd: "kd \<in> set stages" "\<exists>f \<in> set sel. nf_kind f = kd"
    obtain ids where "map_of F kd = Some ids" using some [OF kd] by blast
    with all look show "\<exists>f \<in> set sel. nf_kind f = kd \<and> nf_id f = pn_id (NODE_BUILDERS kd row ctx)" by fastforce
  next
    fix kd ids
    assume all: "\<forall>kd \<in> set stages. (\<exists>f \<in> set sel. nf_kind f = kd) \<longrightarrow>
        (\<exists>f \<in> set sel. nf_kind f = kd \<and> nf_id f = pn_id (NODE_BUILDERS kd row ctx))"
      and ids: "map_of F kd = Some ids"
    note facts = look [OF ids]
    then obtain f where "f \<in> set sel" "nf_kind f = kd" "nf_id f = pn_id (NODE_BUILDERS kd row ctx)"
      using all by blast
    then have "pn_id (NODE_BUILDERS kd row ctx) \<in> nf_id ` {f \<in> set sel. nf_kind f = kd}" by force
    with facts show "kd \<in> set stages \<and> pn_id (NODE_BUILDERS kd row ctx) \<in> set ids" by simp
  qed
qed

text \<open>A row stays in the diagram exactly when, for every visible stage with a selected node, its
  node of that stage is one of the selected ones; selections of hidden stages are ignored.\<close>

theorem flow_node_filter:
  "filterRowsByNodes rows (Some sel) stages ctx =
     filter (\<lambda>row. \<forall>kd \<in> set stages. (\<exists>f \<in> set sel. nf_kind f = kd) \<longrightarrow>
       (\<exists>f \<in> set sel. nf_kind f = kd \<and> nf_id f = pn_id (NODE_BUILDERS kd row ctx))) rows"
proof (cases "normalizeSelectedNodeFilters (Some sel) stages = []")
  case True
  then have "pathMatchesNodeFilters (flowPathForStages row stages ctx) (normalizeSelectedNodeFilters (Some sel) stages)" for row
    by (simp add: pathMatchesNodeFilters_def)
  then show ?thesis using True node_filter_match [of _ stages ctx sel] by (simp add: filterRowsByNodes_def)
qed (simp add: filterRowsByNodes_def node_filter_match)

lemma flow_node_filter_witness:
  "filterRowsByNodes sample_rows (Some [\<lparr>nf_kind = KGroup, nf_id = js ''group:h''\<rparr>]) [KToken, KGroup] None =
     [flow_row ''h'' ''x'' 1]"
  unfolding flow_node_filter by code_simp

end
