(* ===== verification/Ratio_Sync.thy ===== *)
theory Ratio_Sync
  imports Js_Json
begin

text \<open>
  Synchronisation of prices with upstream channels
  (\<open>src/web/default/src/features/system-settings/models/upstream-ratio-sync-helpers.ts\<close>): the
  differences between the local and the upstream settings of every model, and the resolutions the
  administrator collects from them before saving. An object is an association list from property
  names to values; model and source names are taken not to be names that every object inherits
  (\<open>constructor\<close> and the like).
\<close>

section \<open>Types and fields\<close>

datatype sync_value = VNum jsnum | VStr jsstr

text \<open>\<open>None\<close> is the value \<open>null\<close> of a setting.\<close>

record RatioDifferenceEntry =
  rd_current :: "sync_value option"
  rd_upstreams :: "(jsstr, sync_value option) jsmap"
  rd_confidence :: "(jsstr, bool) jsmap"

type_synonym RatioTypes = "(jsstr, RatioDifferenceEntry) jsmap"
type_synonym ModelResolution = "(jsstr, sync_value) jsmap"
type_synonym ResolutionsMap = "(jsstr, ModelResolution) jsmap"

record ResolutionSelection =
  sel_model :: jsstr
  sel_ratioType :: jsstr
  sel_value :: sync_value
  sel_sourceName :: jsstr

record ResolutionRemoval =
  rem_model :: jsstr
  rem_ratioType :: jsstr

type_synonym ResolutionRemovalPlan = "(jsstr, jsstr list) jsmap"

definition MODEL_PRICE :: jsstr where
  "MODEL_PRICE = js ''model_price''"

definition BILLING_MODE :: jsstr where
  "BILLING_MODE = js ''billing_mode''"

definition BILLING_EXPR :: jsstr where
  "BILLING_EXPR = js ''billing_expr''"

definition SAME :: sync_value where
  "SAME = VStr (js ''same'')"

definition RATIO_SYNC_FIELDS :: "jsstr list" where
  "RATIO_SYNC_FIELDS =
     [js ''model_ratio'', js ''completion_ratio'', js ''cache_ratio'', js ''create_cache_ratio'',
      js ''image_ratio'', js ''audio_ratio'', js ''audio_completion_ratio'']"

definition SYNC_FIELD_ORDER :: "jsstr list" where
  "SYNC_FIELD_ORDER = RATIO_SYNC_FIELDS @ [MODEL_PRICE, BILLING_MODE, BILLING_EXPR]"

definition NUMERIC_SYNC_FIELDS :: "jsstr list" where
  "NUMERIC_SYNC_FIELDS = RATIO_SYNC_FIELDS @ [MODEL_PRICE]"

definition RATIO_TYPE_OPTIONS :: "(jsstr \<times> jsstr) list" where
  "RATIO_TYPE_OPTIONS =
     [(js ''Model ratio'', js ''model_ratio''), (js ''Completion ratio'', js ''completion_ratio''),
      (js ''Cache ratio'', js ''cache_ratio''), (js ''Create cache ratio'', js ''create_cache_ratio''),
      (js ''Image ratio'', js ''image_ratio''), (js ''Audio ratio'', js ''audio_ratio''),
      (js ''Audio completion ratio'', js ''audio_completion_ratio''), (js ''Fixed price'', js ''model_price''),
      (js ''Expression billing'', js ''billing_expr'')]"

definition OFFICIAL_CHANNEL_ID :: int where
  "OFFICIAL_CHANNEL_ID = - 100"

definition OFFICIAL_CHANNEL_NAME :: jsstr where
  "OFFICIAL_CHANNEL_NAME = [23448, 26041, 20493, 29575, 39044, 35774]"

definition MODELS_DEV_PRESET_ID :: int where
  "MODELS_DEV_PRESET_ID = - 101"

definition MODELS_DEV_PRESET_NAME :: jsstr where
  "MODELS_DEV_PRESET_NAME = js ''models.dev '' @ [20215, 26684, 39044, 35774]"

section \<open>Fields of a row\<close>

definition getSyncFieldLabel :: "jsstr \<Rightarrow> (jsstr \<Rightarrow> jsstr) \<Rightarrow> jsstr" where
  "getSyncFieldLabel ratioType t =
     (case find (\<lambda>opt. snd opt = ratioType) RATIO_TYPE_OPTIONS of
        Some opt \<Rightarrow> t (fst opt)
      | None \<Rightarrow> ratioType)"

text \<open>A filter that is absent, empty or \<open>__all__\<close> keeps every field.\<close>

definition field_filter :: "jsstr option \<Rightarrow> jsstr list \<Rightarrow> jsstr list" where
  "field_filter flt fs =
     (case flt of
        None \<Rightarrow> fs
      | Some f \<Rightarrow> if f = [] \<or> f = js ''__all__'' then fs else filter (\<lambda>x. x = f) fs)"

definition getOrderedRatioTypes :: "RatioTypes \<Rightarrow> jsstr option \<Rightarrow> jsstr list" where
  "getOrderedRatioTypes ratioTypes flt =
     (let keys = obj_keys ratioTypes;
          ordered = filter (\<lambda>f. f \<in> set keys) SYNC_FIELD_ORDER @
            filter (\<lambda>f. f \<notin> set SYNC_FIELD_ORDER) keys in
      field_filter flt ordered)"

text \<open>\<open>ratioTypes[f]?.upstreams?.[source]\<close>; every use treats undefined and null alike.\<close>

definition upstream_value :: "RatioTypes \<Rightarrow> jsstr \<Rightarrow> jsstr \<Rightarrow> sync_value option" where
  "upstream_value ratioTypes f sourceName =
     (case map_of ratioTypes f of
        None \<Rightarrow> None
      | Some e \<Rightarrow> (case map_of (rd_upstreams e) sourceName of None \<Rightarrow> None | Some v \<Rightarrow> v))"

definition isSelectableUpstreamValue :: "sync_value option \<Rightarrow> bool" where
  "isSelectableUpstreamValue v = (case v of None \<Rightarrow> False | Some x \<Rightarrow> x \<noteq> SAME)"

definition getPreferredSyncField :: "RatioTypes \<Rightarrow> jsstr \<Rightarrow> jsstr \<Rightarrow> jsstr" where
  "getPreferredSyncField ratioTypes ratioType sourceName =
     (let exprValue = upstream_value ratioTypes BILLING_EXPR sourceName in
      if ratioType \<noteq> BILLING_EXPR \<and> isSelectableUpstreamValue exprValue then BILLING_EXPR else ratioType)"

definition getVisibleRatioTypesForSource :: "RatioTypes \<Rightarrow> jsstr \<Rightarrow> jsstr option \<Rightarrow> jsstr list" where
  "getVisibleRatioTypesForSource ratioTypes sourceName flt =
     filter (\<lambda>ratioType. getPreferredSyncField ratioTypes ratioType sourceName = ratioType)
       (getOrderedRatioTypes ratioTypes flt)"

definition getAlignedRatioTypes :: "RatioTypes \<Rightarrow> jsstr list \<Rightarrow> jsstr option \<Rightarrow> jsstr list" where
  "getAlignedRatioTypes ratioTypes sourceNames flt =
     (let ordered = getOrderedRatioTypes ratioTypes flt in
      if sourceNames = [] then ordered
      else
        (let visible = foldl (\<lambda>acc sourceName. acc @ getVisibleRatioTypesForSource ratioTypes sourceName flt)
               [] sourceNames in
         filter (\<lambda>ratioType. ratioType \<in> set visible) ordered))"

datatype BillingCategory = CatPrice | CatRatio | CatTiered

definition getBillingCategory :: "jsstr \<Rightarrow> BillingCategory" where
  "getBillingCategory ratioType =
     (if ratioType = MODEL_PRICE then CatPrice
      else if ratioType = BILLING_MODE \<or> ratioType = BILLING_EXPR then CatTiered
      else CatRatio)"

definition getUpstreamDisplayName :: "jsstr \<Rightarrow> jsstr" where
  "getUpstreamDisplayName sourceName =
     (case find (\<lambda>(name, k). sourceName = name @ js ''('' @ int_str k @ js '')'')
        [(OFFICIAL_CHANNEL_NAME, OFFICIAL_CHANNEL_ID), (MODELS_DEV_PRESET_NAME, MODELS_DEV_PRESET_ID)] of
        Some (name, _) \<Rightarrow> name
      | None \<Rightarrow> sourceName)"

section \<open>Selections\<close>

text \<open>\<open>Number(v)\<close> and \<open>v === w\<close> on settings.\<close>

fun sync_number :: "sync_value \<Rightarrow> jsnum" where
  "sync_number (VNum x) = x"
| "sync_number (VStr s) = to_number s"

fun strict_eq :: "sync_value \<Rightarrow> sync_value \<Rightarrow> bool" where
  "strict_eq (VNum x) (VNum y) = js_num_eq x y"
| "strict_eq (VStr s) (VStr t) = (s = t)"
| "strict_eq _ _ = False"

definition isSelectedResolutionValue ::
    "ResolutionsMap \<Rightarrow> jsstr \<Rightarrow> jsstr \<Rightarrow> sync_value option \<Rightarrow> bool" where
  "isSelectedResolutionValue resolutions model ratioType upstreamValue =
     (if \<not> isSelectableUpstreamValue upstreamValue then False
      else
        (case (case map_of resolutions model of None \<Rightarrow> None | Some r \<Rightarrow> map_of r ratioType) of
           None \<Rightarrow> False
         | Some selectedValue \<Rightarrow>
             if ratioType \<in> set NUMERIC_SYNC_FIELDS then
               (let selectedNumber = sync_number selectedValue;
                    upstreamNumber = sync_number (the upstreamValue) in
                is_finite selectedNumber \<and> is_finite upstreamNumber \<and> js_num_eq selectedNumber upstreamNumber)
             else strict_eq selectedValue (the upstreamValue)))"

definition getDraftModelResolution ::
    "(jsstr, ModelResolution) jsmap \<Rightarrow> ResolutionsMap \<Rightarrow> jsstr \<Rightarrow> ModelResolution" where
  "getDraftModelResolution drafts resolutions model =
     (case map_of drafts model of
        Some d \<Rightarrow> d
      | None \<Rightarrow> (case map_of resolutions model of Some r \<Rightarrow> r | None \<Rightarrow> []))"

definition model_diffs :: "(jsstr, RatioTypes) jsmap \<Rightarrow> jsstr \<Rightarrow> RatioTypes" where
  "model_diffs differences model = (case map_of differences model of None \<Rightarrow> [] | Some d \<Rightarrow> d)"

definition resolveResolutionSelection ::
    "(jsstr, RatioTypes) jsmap \<Rightarrow> ResolutionSelection \<Rightarrow> ResolutionSelection" where
  "resolveResolutionSelection differences selection =
     (let mdiffs = model_diffs differences (sel_model selection);
          preferredType = getPreferredSyncField mdiffs (sel_ratioType selection) (sel_sourceName selection);
          preferredValue = (if preferredType = sel_ratioType selection then sel_value selection
            else (case upstream_value mdiffs preferredType (sel_sourceName selection) of
                    Some v \<Rightarrow> v | None \<Rightarrow> sel_value selection)) in
      selection\<lparr>sel_ratioType := preferredType, sel_value := preferredValue\<rparr>)"

text \<open>
  The change of one draft: fields of the other flat category are deleted, the field is set, and a
  tiered field brings the mode and the expression of its source along.
\<close>

definition drop_conflicts :: "BillingCategory \<Rightarrow> ModelResolution \<Rightarrow> ModelResolution" where
  "drop_conflicts category res =
     filter (\<lambda>(rt, v). \<not> (category \<noteq> CatTiered \<and> getBillingCategory rt \<noteq> CatTiered \<and>
       getBillingCategory rt \<noteq> category)) res"

definition tiered_extras :: "RatioTypes \<Rightarrow> jsstr \<Rightarrow> jsstr \<Rightarrow> ModelResolution \<Rightarrow> ModelResolution" where
  "tiered_extras mdiffs finalType sourceName res =
     (let modeVal = upstream_value mdiffs BILLING_MODE sourceName;
          exprVal = upstream_value mdiffs BILLING_EXPR sourceName;
          res1 = (if isSelectableUpstreamValue modeVal then AList.update BILLING_MODE (the modeVal) res
            else if finalType = BILLING_EXPR then AList.update BILLING_MODE (VStr (js ''tiered_expr'')) res
            else res) in
      if isSelectableUpstreamValue exprVal then AList.update BILLING_EXPR (the exprVal) res1 else res1)"

definition select_in_draft ::
    "(jsstr, RatioTypes) jsmap \<Rightarrow> ResolutionSelection \<Rightarrow> ModelResolution \<Rightarrow> ModelResolution" where
  "select_in_draft differences selection newModelRes =
     (let resolved = resolveResolutionSelection differences selection;
          finalType = sel_ratioType resolved;
          category = getBillingCategory finalType;
          res = AList.update finalType (sel_value resolved) (drop_conflicts category newModelRes) in
      case map_of differences (sel_model selection) of
        Some mdiffs \<Rightarrow> if category = CatTiered then tiered_extras mdiffs finalType (sel_sourceName selection) res else res
      | None \<Rightarrow> res)"

definition applyResolutionSelectionToDraft ::
    "(jsstr, ModelResolution) jsmap \<Rightarrow> ResolutionsMap \<Rightarrow> (jsstr, RatioTypes) jsmap \<Rightarrow> ResolutionSelection \<Rightarrow>
     (jsstr, ModelResolution) jsmap" where
  "applyResolutionSelectionToDraft drafts resolutions differences selection =
     AList.update (sel_model selection)
       (select_in_draft differences selection
         (getDraftModelResolution drafts resolutions (sel_model selection))) drafts"

definition sel_key :: "ResolutionSelection \<Rightarrow> jsstr" where
  "sel_key s = sel_model s @ [0] @ sel_ratioType s"

definition add_effective ::
    "(jsstr, RatioTypes) jsmap \<Rightarrow> (jsstr, ResolutionSelection) jsmap \<Rightarrow> ResolutionSelection \<Rightarrow>
     (jsstr, ResolutionSelection) jsmap" where
  "add_effective differences effectiveByKey selection =
     (let resolved = resolveResolutionSelection differences selection;
          category = getBillingCategory (sel_ratioType resolved);
          kept = (if category \<noteq> CatTiered then
            filter (\<lambda>(key, existing). \<not> (sel_model existing = sel_model resolved \<and>
              getBillingCategory (sel_ratioType existing) \<noteq> CatTiered \<and>
              getBillingCategory (sel_ratioType existing) \<noteq> category)) effectiveByKey
            else effectiveByKey) in
      AList.update (sel_key resolved) resolved kept)"

definition getEffectiveResolutionSelections ::
    "(jsstr, RatioTypes) jsmap \<Rightarrow> ResolutionSelection list \<Rightarrow> ResolutionSelection list" where
  "getEffectiveResolutionSelections differences selections =
     map snd (foldl (add_effective differences) [] selections)"

text \<open>Writing the drafts back: an empty draft deletes the model.\<close>

definition store_draft :: "ResolutionsMap \<Rightarrow> jsstr \<times> ModelResolution \<Rightarrow> ResolutionsMap" where
  "store_draft next_map p =
     (case p of (model, draft) \<Rightarrow>
        if draft = [] then AList.delete model next_map else AList.update model draft next_map)"

definition applyResolutionSelections ::
    "ResolutionsMap \<Rightarrow> (jsstr, RatioTypes) jsmap \<Rightarrow> ResolutionSelection list \<Rightarrow> ResolutionsMap" where
  "applyResolutionSelections resolutions differences selections =
     (if selections = [] then resolutions
      else foldl store_draft resolutions
        (foldl (\<lambda>drafts selection. applyResolutionSelectionToDraft drafts resolutions differences selection)
          [] selections))"

definition applyResolutionSelection ::
    "ResolutionsMap \<Rightarrow> (jsstr, RatioTypes) jsmap \<Rightarrow> ResolutionSelection \<Rightarrow> ResolutionsMap" where
  "applyResolutionSelection resolutions differences selection =
     applyResolutionSelections resolutions differences [selection]"

section \<open>Removals\<close>

definition remove_field :: "ModelResolution \<Rightarrow> jsstr \<Rightarrow> ModelResolution" where
  "remove_field draft ratioType =
     (let d0 = AList.delete ratioType draft;
          d1 = (if ratioType = BILLING_EXPR then AList.delete BILLING_MODE d0 else d0) in
      if ratioType = BILLING_MODE then AList.delete BILLING_EXPR d1 else d1)"

definition remove_step :: "ResolutionsMap \<Rightarrow> ResolutionsMap \<Rightarrow> jsstr \<times> jsstr list \<Rightarrow> ResolutionsMap" where
  "remove_step resolutions next_map p =
     (case p of (model, ratioTypes) \<Rightarrow>
        (case map_of resolutions model of
           None \<Rightarrow> next_map
         | Some cur \<Rightarrow> store_draft next_map (model, foldl remove_field cur ratioTypes)))"

definition applyResolutionRemovalPlan :: "ResolutionsMap \<Rightarrow> ResolutionRemovalPlan \<Rightarrow> ResolutionsMap" where
  "applyResolutionRemovalPlan resolutions plan =
     (if plan = [] then resolutions else foldl (remove_step resolutions) resolutions plan)"

definition plan_step :: "ResolutionRemovalPlan \<Rightarrow> ResolutionRemoval \<Rightarrow> ResolutionRemovalPlan" where
  "plan_step plan removal =
     (case map_of plan (rem_model removal) of
        Some ratioTypes \<Rightarrow> AList.update (rem_model removal)
          (if rem_ratioType removal \<in> set ratioTypes then ratioTypes else ratioTypes @ [rem_ratioType removal]) plan
      | None \<Rightarrow> AList.update (rem_model removal) [rem_ratioType removal] plan)"

definition applyResolutionRemovals :: "ResolutionsMap \<Rightarrow> ResolutionRemoval list \<Rightarrow> ResolutionsMap" where
  "applyResolutionRemovals resolutions removals =
     (if removals = [] then resolutions
      else applyResolutionRemovalPlan resolutions (foldl plan_step [] removals))"

definition deleteResolutionField :: "ResolutionsMap \<Rightarrow> jsstr \<Rightarrow> jsstr \<Rightarrow> ResolutionsMap" where
  "deleteResolutionField resolutions model ratioType =
     applyResolutionRemovals resolutions [\<lparr>rem_model = model, rem_ratioType = ratioType\<rparr>]"

end
