(* ===== verification/Ratio_Sync_Page.thy ===== *)
theory Ratio_Sync_Page
  imports Ratio_Sync
begin

text \<open>
  The page that synchronises prices
  (\<open>src/web/default/src/features/system-settings/models/upstream-ratio-sync.tsx\<close>): its state,
  one function per handler, the settings it saves and the conflicts it asks about, and the step
  relation of the page. The settings stored on the server are the argument \<open>cur\<close>, from the
  name of an option to its record of models; \<open>t\<close> translates labels.
\<close>

section \<open>Options\<close>

definition upper_unit :: "nat \<Rightarrow> nat" where
  "upper_unit c = (if 97 \<le> c \<and> c \<le> 122 then c - 32 else c)"

fun capitalise :: "jsstr \<Rightarrow> jsstr" where
  "capitalise [] = []"
| "capitalise (c # s) = upper_unit c # s"

text \<open>The ratio types are ASCII names, for which \<open>toUpperCase\<close> is \<open>upper_unit\<close>.\<close>

definition optionKeyBySyncField :: "jsstr \<Rightarrow> jsstr" where
  "optionKeyBySyncField ratioType =
     (if ratioType = BILLING_MODE then js ''billing_setting.billing_mode''
      else if ratioType = BILLING_EXPR then js ''billing_setting.billing_expr''
      else concat (map capitalise (split_on 95 ratioType)))"

definition RATIO_OPTION_KEYS :: "jsstr list" where
  "RATIO_OPTION_KEYS =
     [js ''ModelRatio'', js ''CompletionRatio'', js ''CacheRatio'', js ''CreateCacheRatio'',
      js ''ImageRatio'', js ''AudioRatio'', js ''AudioCompletionRatio'']"

definition OPTION_KEYS :: "jsstr list" where
  "OPTION_KEYS = RATIO_OPTION_KEYS @
     [js ''ModelPrice'', js ''billing_setting.billing_mode'', js ''billing_setting.billing_expr'']"

type_synonym ParsedRatios = "jsstr \<Rightarrow> (jsstr, sync_value) jsmap"
type_synonym FinalRatios = "(jsstr, (jsstr, sync_value) jsmap) jsmap"

definition getLocalBillingCategory :: "jsstr \<Rightarrow> ParsedRatios \<Rightarrow> BillingCategory option" where
  "getLocalBillingCategory model cur =
     (if map_of (cur (js ''ModelPrice'')) model \<noteq> None then Some CatPrice
      else if list_ex (\<lambda>k. map_of (cur k) model \<noteq> None) RATIO_OPTION_KEYS then Some CatRatio
      else None)"

section \<open>The settings that are saved\<close>

definition delete_in :: "jsstr list \<Rightarrow> jsstr \<Rightarrow> FinalRatios \<Rightarrow> FinalRatios" where
  "delete_in keys model fin = map (\<lambda>(k, m). (k, if k \<in> set keys then AList.delete model m else m)) fin"

definition clear_conflicting :: "jsstr \<Rightarrow> ModelResolution \<Rightarrow> FinalRatios \<Rightarrow> FinalRatios" where
  "clear_conflicting model ratios fin =
     (let selectedTypes = obj_keys ratios;
          hasPrice = MODEL_PRICE \<in> set selectedTypes;
          hasRatio = list_ex (\<lambda>rt. rt \<in> set RATIO_SYNC_FIELDS) selectedTypes;
          fin1 = (if hasPrice then delete_in RATIO_OPTION_KEYS model fin else fin) in
      if hasRatio then delete_in [js ''ModelPrice''] model fin1 else fin1)"

datatype sync_error = TypeError

text \<open>\<open>finalRatios[optionKey][model] = value\<close> raises a \<open>TypeError\<close> for an unknown option.\<close>

definition write_option ::
    "jsstr \<Rightarrow> jsstr \<times> sync_value \<Rightarrow> sync_error + FinalRatios \<Rightarrow> sync_error + FinalRatios" where
  "write_option model p acc =
     (case acc of
        Inl e \<Rightarrow> Inl e
      | Inr fin \<Rightarrow>
          (let (ratioType, v) = p;
               optionKey = optionKeyBySyncField ratioType;
               w = (if ratioType \<in> set NUMERIC_SYNC_FIELDS then VNum (sync_number v) else v) in
           case map_of fin optionKey of
             None \<Rightarrow> Inl TypeError
           | Some m \<Rightarrow> Inr (AList.update optionKey (AList.update model w m) fin)))"

definition save_model ::
    "sync_error + FinalRatios \<Rightarrow> jsstr \<times> ModelResolution \<Rightarrow> sync_error + FinalRatios" where
  "save_model acc p =
     (case acc of
        Inl e \<Rightarrow> Inl e
      | Inr fin \<Rightarrow>
          (case p of (model, ratios) \<Rightarrow>
             foldl (\<lambda>a q. write_option model q a) (Inr (clear_conflicting model ratios fin)) (obj_entries ratios)))"

text \<open>The records \<open>performSync\<close> sends, before they are printed as JSON.\<close>

definition finalRatios :: "ParsedRatios \<Rightarrow> ResolutionsMap \<Rightarrow> sync_error + FinalRatios" where
  "finalRatios cur resolutions =
     foldl save_model (Inr (map (\<lambda>k. (k, cur k)) OPTION_KEYS)) (obj_entries resolutions)"

section \<open>Conflicts\<close>

fun sync_str :: "sync_value \<Rightarrow> jsstr" where
  "sync_str (VNum x) = num_str x"
| "sync_str (VStr s) = s"

definition str_or_dash :: "sync_value option \<Rightarrow> jsstr" where
  "str_or_dash v = (case v of None \<Rightarrow> js ''-'' | Some x \<Rightarrow> sync_str x)"

record ConflictItem =
  cf_channel :: jsstr
  cf_model :: jsstr
  cf_current :: jsstr
  cf_newVal :: jsstr

definition findSourceChannel ::
    "(jsstr, RatioTypes) jsmap \<Rightarrow> jsstr \<Rightarrow> jsstr \<Rightarrow> sync_value \<Rightarrow> jsstr" where
  "findSourceChannel differences model ratioType v =
     (case map_of (model_diffs differences model) ratioType of
        None \<Rightarrow> js ''Unknown''
      | Some e \<Rightarrow>
          (case find (\<lambda>(name, u). case u of None \<Rightarrow> False | Some x \<Rightarrow> strict_eq x v) (obj_entries (rd_upstreams e)) of
             Some (name, _) \<Rightarrow> name
           | None \<Rightarrow> js ''Unknown''))"

definition new_category :: "ModelResolution \<Rightarrow> BillingCategory" where
  "new_category ratios =
     (let selectedTypes = obj_keys ratios in
      if map_of ratios MODEL_PRICE \<noteq> None then CatPrice
      else if list_ex (\<lambda>rt. rt \<in> set selectedTypes) RATIO_SYNC_FIELDS then CatRatio
      else CatTiered)"

definition price_desc :: "(jsstr \<Rightarrow> jsstr) \<Rightarrow> sync_value option \<Rightarrow> jsstr" where
  "price_desc t v = t (js ''Fixed price'') @ js '': '' @ (case v of None \<Rightarrow> js ''undefined'' | Some x \<Rightarrow> sync_str x)"

definition ratio_desc :: "(jsstr \<Rightarrow> jsstr) \<Rightarrow> sync_value option \<Rightarrow> sync_value option \<Rightarrow> jsstr" where
  "ratio_desc t ratio completion =
     t (js ''Model ratio'') @ js '': '' @ str_or_dash ratio @ [10] @
     t (js ''Completion ratio'') @ js '': '' @ str_or_dash completion"

definition model_conflict ::
    "(jsstr \<Rightarrow> jsstr) \<Rightarrow> ParsedRatios \<Rightarrow> (jsstr, RatioTypes) jsmap \<Rightarrow> jsstr \<times> ModelResolution \<Rightarrow> ConflictItem list" where
  "model_conflict t cur differences p =
     (case p of (model, ratios) \<Rightarrow>
        (case getLocalBillingCategory model cur of
           None \<Rightarrow> []
         | Some localCat \<Rightarrow>
             if new_category ratios \<noteq> CatTiered \<and> localCat \<noteq> new_category ratios then
               [\<lparr>cf_channel = join (js '', '')
                   (uniq (map (\<lambda>(rt, v). findSourceChannel differences model rt v) (obj_entries ratios))),
                 cf_model = model,
                 cf_current = (if localCat = CatPrice then price_desc t (map_of (cur (js ''ModelPrice'')) model)
                   else ratio_desc t (map_of (cur (js ''ModelRatio'')) model) (map_of (cur (js ''CompletionRatio'')) model)),
                 cf_newVal = (if new_category ratios = CatPrice then price_desc t (map_of ratios MODEL_PRICE)
                   else ratio_desc t (map_of ratios (js ''model_ratio'')) (map_of ratios (js ''completion_ratio'')))\<rparr>]
             else []))"

definition sync_conflicts ::
    "(jsstr \<Rightarrow> jsstr) \<Rightarrow> ParsedRatios \<Rightarrow> (jsstr, RatioTypes) jsmap \<Rightarrow> ResolutionsMap \<Rightarrow> ConflictItem list" where
  "sync_conflicts t cur differences resolutions =
     concat (map (model_conflict t cur differences) (obj_entries resolutions))"

section \<open>The state of the page and its handlers\<close>

record SyncState =
  ss_differences :: "(jsstr, RatioTypes) jsmap"
  ss_resolutions :: ResolutionsMap
  ss_conflictItems :: "ConflictItem list"
  ss_conflictDialogOpen :: bool

definition initial_sync :: SyncState where
  "initial_sync = \<lparr>ss_differences = [], ss_resolutions = [], ss_conflictItems = [], ss_conflictDialogOpen = False\<rparr>"

definition fetch_succeeded :: "(jsstr, RatioTypes) jsmap \<Rightarrow> SyncState \<Rightarrow> SyncState" where
  "fetch_succeeded new_diffs st = st\<lparr>ss_differences := new_diffs, ss_resolutions := []\<rparr>"

text \<open>After saving, the resolved fields leave the differences and empty models disappear.\<close>

definition drop_resolved ::
    "(jsstr, RatioTypes) jsmap \<Rightarrow> jsstr \<times> jsstr \<Rightarrow> (jsstr, RatioTypes) jsmap" where
  "drop_resolved newDiffs p =
     (case p of (model, ratioType) \<Rightarrow>
        (case map_of newDiffs model of
           None \<Rightarrow> newDiffs
         | Some entry \<Rightarrow>
             if map_of entry ratioType = None then newDiffs
             else
               (let rest = AList.delete ratioType entry in
                if rest = [] then AList.delete model newDiffs else AList.update model rest newDiffs)))"

definition sync_succeeded :: "SyncState \<Rightarrow> SyncState" where
  "sync_succeeded st = st\<lparr>
     ss_differences := foldl drop_resolved (ss_differences st)
       (concat (map (\<lambda>(model, ratios). map (Pair model) (obj_keys ratios)) (obj_entries (ss_resolutions st)))),
     ss_resolutions := []\<rparr>"

definition handleSelectValue :: "ResolutionSelection \<Rightarrow> SyncState \<Rightarrow> SyncState" where
  "handleSelectValue s st =
     st\<lparr>ss_resolutions := applyResolutionSelection (ss_resolutions st) (ss_differences st) s\<rparr>"

definition handleSelectValues :: "ResolutionSelection list \<Rightarrow> SyncState \<Rightarrow> SyncState" where
  "handleSelectValues selections st =
     (if selections = [] then st
      else st\<lparr>ss_resolutions := applyResolutionSelections (ss_resolutions st) (ss_differences st) selections\<rparr>)"

definition handleUnselectValue :: "jsstr \<Rightarrow> jsstr \<Rightarrow> SyncState \<Rightarrow> SyncState" where
  "handleUnselectValue model ratioType st =
     st\<lparr>ss_resolutions := deleteResolutionField (ss_resolutions st) model ratioType\<rparr>"

definition handleUnselectValues :: "ResolutionRemovalPlan \<Rightarrow> SyncState \<Rightarrow> SyncState" where
  "handleUnselectValues plan st =
     (if plan = [] then st
      else st\<lparr>ss_resolutions := applyResolutionRemovalPlan (ss_resolutions st) plan\<rparr>)"

text \<open>The second component says whether \<open>performSync\<close> is called.\<close>

definition handleApplySync :: "(jsstr \<Rightarrow> jsstr) \<Rightarrow> ParsedRatios \<Rightarrow> SyncState \<Rightarrow> SyncState \<times> bool" where
  "handleApplySync t cur st =
     (let conflicts = sync_conflicts t cur (ss_differences st) (ss_resolutions st) in
      if length conflicts > 0
      then (st\<lparr>ss_conflictItems := conflicts, ss_conflictDialogOpen := True\<rparr>, False)
      else (st, True))"

text \<open>The answer of the server to the sync that the dialog confirms; a failure leaves the state.\<close>

definition handleConfirmConflict :: "bool \<Rightarrow> SyncState \<Rightarrow> SyncState" where
  "handleConfirmConflict success st =
     (if success then (sync_succeeded st)\<lparr>ss_conflictDialogOpen := False\<rparr> else st)"

text \<open>
  The steps of the page. The table offers the models of the differences and the ratio types of
  the interface, and a removal plan is a \<open>Map\<close>, which has each model once.
\<close>

definition offered :: "SyncState \<Rightarrow> ResolutionSelection \<Rightarrow> bool" where
  "offered st s \<longleftrightarrow> map_of (ss_differences st) (sel_model s) \<noteq> None \<and> sel_ratioType s \<in> set SYNC_FIELD_ORDER"

inductive sync_step :: "SyncState \<Rightarrow> SyncState \<Rightarrow> bool" where
  fetch: "sync_step st (fetch_succeeded new_diffs st)"
| sync: "sync_step st (sync_succeeded st)"
| select: "offered st s \<Longrightarrow> sync_step st (handleSelectValue s st)"
| select_all: "list_all (offered st) selections \<Longrightarrow> sync_step st (handleSelectValues selections st)"
| unselect: "sync_step st (handleUnselectValue model ratioType st)"
| unselect_all: "distinct (map fst plan) \<Longrightarrow> sync_step st (handleUnselectValues plan st)"
| confirm: "sync_step st (handleConfirmConflict success st)"
| apply_sync: "sync_step st (fst (handleApplySync t cur st))"

inductive reachable_sync :: "SyncState \<Rightarrow> bool" where
  start: "reachable_sync initial_sync"
| step: "reachable_sync st \<Longrightarrow> sync_step st st' \<Longrightarrow> reachable_sync st'"

end
