(* ===== verification/Ratio_Sync_Props.thy ===== *)
theory Ratio_Sync_Props
  imports Ratio_Sync_Page
begin

text \<open>
  Properties of the price synchronisation: what a batch of selections and removals does to each
  model, the invariant of the page, what is shown as selected, and that the saved settings never
  bill a model by price and by ratio at once.
\<close>

section \<open>Resolutions by model\<close>

definition view :: "ResolutionsMap \<Rightarrow> jsstr \<Rightarrow> ModelResolution" where
  "view r m = (case map_of r m of None \<Rightarrow> [] | Some d \<Rightarrow> d)"

lemma view_Nil [simp]: "view [] m = []"
  by (simp add: view_def)

lemma view_Some: "map_of r m = Some d \<Longrightarrow> view r m = d"
  by (simp add: view_def)

lemma map_of_delete [simp]: "map_of (AList.delete k m) k' = (if k' = k then None else map_of m k')"
  by (simp add: delete_conv')

lemma keys_of_update [simp]: "fst ` set (AList.update k v m) = insert k (fst ` set m)"
  using arg_cong [OF keys_update [of k v m], of set] by auto

lemma update_not_Nil [simp]: "AList.update k v m \<noteq> []"
  by (cases m) auto

lemma view_store: "view (store_draft r (m, d)) m' = (if m' = m then d else view r m')"
  by (simp add: view_def store_draft_def)

lemma view_store_all:
  assumes "distinct (map fst ds)"
  shows "view (foldl store_draft r ds) m = (case map_of ds m of Some d \<Rightarrow> d | None \<Rightarrow> view r m)"
  using assms
proof (induction ds arbitrary: r)
  case (Cons p ds)
  then have ih: "view (foldl store_draft r ds) m = (case map_of ds m of Some d \<Rightarrow> d | None \<Rightarrow> view r m)" for r
    by simp
  have "map_of ds (fst p) = None" using Cons.prems by (simp add: map_of_eq_None_iff)
  then show ?case using ih [of "store_draft r p"] by (cases p) (auto simp: view_store split: option.splits)
qed simp

lemma draft_of: "getDraftModelResolution ds r m = (case map_of ds m of Some d \<Rightarrow> d | None \<Rightarrow> view r m)"
  by (simp add: getDraftModelResolution_def view_def split: option.split)

abbreviation select_all_in :: "(jsstr, RatioTypes) jsmap \<Rightarrow> ResolutionSelection list \<Rightarrow> ModelResolution \<Rightarrow> ModelResolution" where
  "select_all_in df ss d \<equiv> foldl (\<lambda>d s. select_in_draft df s d) d ss"

abbreviation for_model :: "jsstr \<Rightarrow> ResolutionSelection list \<Rightarrow> ResolutionSelection list" where
  "for_model m ss \<equiv> filter (\<lambda>s. sel_model s = m) ss"

lemma drafts_fold:
  "getDraftModelResolution (foldl (\<lambda>ds s. applyResolutionSelectionToDraft ds r df s) ds ss) r m =
     select_all_in df (for_model m ss) (getDraftModelResolution ds r m)"
  by (induction ss arbitrary: ds) (auto simp: applyResolutionSelectionToDraft_def draft_of)

lemma drafts_distinct:
  "distinct (map fst ds) \<Longrightarrow>
   distinct (map fst (foldl (\<lambda>ds s. applyResolutionSelectionToDraft ds r df s) ds ss))"
  by (induction ss arbitrary: ds) (auto simp: applyResolutionSelectionToDraft_def distinct_update)

lemma view_selections:
  "view (applyResolutionSelections r df ss) m = select_all_in df (for_model m ss) (view r m)"
proof (cases "ss = []")
  case False
  let ?ds = "foldl (\<lambda>ds s. applyResolutionSelectionToDraft ds r df s) [] ss"
  have "view (foldl store_draft r ?ds) m = getDraftModelResolution ?ds r m"
    by (subst view_store_all) (use drafts_distinct [of "[]"] in \<open>simp_all add: draft_of\<close>)
  with False show ?thesis by (simp add: applyResolutionSelections_def drafts_fold) (simp add: draft_of)
qed (simp add: applyResolutionSelections_def)

lemma view_selection:
  "view (applyResolutionSelection r df s) m = (if sel_model s = m then select_in_draft df s (view r m) else view r m)"
  by (simp add: applyResolutionSelection_def view_selections)

section \<open>Removals\<close>

definition removed_with :: "jsstr \<Rightarrow> jsstr set" where
  "removed_with f = {f} \<union> (if f = BILLING_EXPR then {BILLING_MODE} else {}) \<union>
     (if f = BILLING_MODE then {BILLING_EXPR} else {})"

lemma delete_filter: "AList.delete k m = filter (\<lambda>p. fst p \<noteq> k) m"
  by (auto simp: AList.delete_eq split_def intro!: filter_cong)

lemma remove_field_filter: "remove_field d f = filter (\<lambda>p. fst p \<notin> removed_with f) d"
  by (auto simp: remove_field_def removed_with_def delete_filter Let_def intro!: filter_cong)

lemma remove_fields_filter:
  "foldl remove_field d fs = filter (\<lambda>p. fst p \<notin> (\<Union>f \<in> set fs. removed_with f)) d"
  by (induction fs arbitrary: d) (auto simp: remove_field_filter intro!: filter_cong)

lemma view_removal_plan:
  assumes "distinct (map fst plan)"
  shows "view (applyResolutionRemovalPlan r plan) m =
    (case map_of plan m of None \<Rightarrow> view r m | Some fs \<Rightarrow> foldl remove_field (view r m) fs)"
proof -
  have "view (foldl (remove_step r) r' plan) m =
      (case map_of plan m of None \<Rightarrow> view r' m
       | Some fs \<Rightarrow> if map_of r m = None then view r' m else foldl remove_field (view r m) fs)" for r'
    using assms
  proof (induction plan arbitrary: r')
    case (Cons p plan)
    have "map_of plan (fst p) = None" using Cons.prems by (simp add: map_of_eq_None_iff)
    moreover have "view (remove_step r r' p) m =
        (if fst p = m \<and> map_of r m \<noteq> None then foldl remove_field (view r m) (snd p) else view r' m)"
      by (cases p; cases "map_of r (fst p)") (auto simp: remove_step_def view_store view_Some)
    ultimately show ?case using Cons by (cases p) (auto split: option.splits)
  qed simp
  then show ?thesis
    by (auto simp: applyResolutionRemovalPlan_def view_def remove_fields_filter split: option.splits)
qed

definition plan_fields :: "ResolutionRemovalPlan \<Rightarrow> jsstr \<Rightarrow> jsstr set" where
  "plan_fields plan m = (case map_of plan m of None \<Rightarrow> {} | Some fs \<Rightarrow> set fs)"

lemma plan_fields_Nil [simp]: "plan_fields [] m = {}"
  by (simp add: plan_fields_def)

lemma plan_step_fields:
  "plan_fields (plan_step plan x) m =
     (if rem_model x = m then insert (rem_ratioType x) (plan_fields plan m) else plan_fields plan m)"
  by (auto simp: plan_fields_def plan_step_def split: option.splits)

lemma plan_fold_fields:
  "plan_fields (foldl plan_step plan rs) m =
     plan_fields plan m \<union> rem_ratioType ` {x \<in> set rs. rem_model x = m}"
  by (induction rs arbitrary: plan) (auto simp: plan_step_fields)

lemma plan_distinct: "distinct (map fst plan) \<Longrightarrow> distinct (map fst (foldl plan_step plan rs))"
  by (induction rs arbitrary: plan) (auto simp: plan_step_def distinct_update split: option.splits)

lemma view_removals:
  "view (applyResolutionRemovals r rs) m =
     filter (\<lambda>p. \<not> (\<exists>x \<in> set rs. rem_model x = m \<and> fst p \<in> removed_with (rem_ratioType x))) (view r m)"
proof (cases "rs = []")
  case False
  let ?plan = "foldl plan_step [] rs"
  have "view (applyResolutionRemovals r rs) m =
      (case map_of ?plan m of None \<Rightarrow> view r m | Some fs \<Rightarrow> foldl remove_field (view r m) fs)"
    using False view_removal_plan [of ?plan r m] plan_distinct [of "[]" rs]
    by (simp add: applyResolutionRemovals_def)
  also have "\<dots> = filter (\<lambda>p. fst p \<notin> (\<Union>f \<in> plan_fields ?plan m. removed_with f)) (view r m)"
    by (auto simp: plan_fields_def remove_fields_filter split: option.splits)
  finally show ?thesis by (auto simp: plan_fold_fields intro!: filter_cong)
qed (simp add: applyResolutionRemovals_def)

lemma view_delete_field:
  "view (deleteResolutionField r m f) m' = (if m' = m then remove_field (view r m') f else view r m')"
  by (auto simp: deleteResolutionField_def view_removals remove_field_filter)

section \<open>The invariant of the page\<close>

lemma field_names [simp]:
  "MODEL_PRICE \<noteq> BILLING_MODE" "MODEL_PRICE \<noteq> BILLING_EXPR" "BILLING_MODE \<noteq> BILLING_EXPR"
  "BILLING_MODE \<noteq> MODEL_PRICE" "BILLING_EXPR \<noteq> MODEL_PRICE" "BILLING_EXPR \<noteq> BILLING_MODE"
  by (simp_all add: MODEL_PRICE_def BILLING_MODE_def BILLING_EXPR_def inj_js)

lemma ratio_field_names:
  "MODEL_PRICE \<notin> set RATIO_SYNC_FIELDS" "BILLING_MODE \<notin> set RATIO_SYNC_FIELDS" "BILLING_EXPR \<notin> set RATIO_SYNC_FIELDS"
  by (simp_all add: MODEL_PRICE_def BILLING_MODE_def BILLING_EXPR_def RATIO_SYNC_FIELDS_def inj_js)

lemma category_simps [simp]:
  "getBillingCategory MODEL_PRICE = CatPrice" "getBillingCategory BILLING_MODE = CatTiered"
  "getBillingCategory BILLING_EXPR = CatTiered"
  by (simp_all add: getBillingCategory_def)

lemma category_tiered: "getBillingCategory f = CatTiered \<longleftrightarrow> f = BILLING_MODE \<or> f = BILLING_EXPR"
  by (auto simp: getBillingCategory_def)

lemma category_price: "getBillingCategory f = CatPrice \<longleftrightarrow> f = MODEL_PRICE"
  by (auto simp: getBillingCategory_def)

text \<open>The contract of an invariant of one model: it holds of the empty draft and every operation keeps it.\<close>

locale draft_invariant =
  fixes I :: "ModelResolution \<Rightarrow> bool"
  assumes empty: "I []"
    and select: "map_of df (sel_model s) \<noteq> None \<Longrightarrow> sel_ratioType s \<in> set SYNC_FIELD_ORDER \<Longrightarrow> I d \<Longrightarrow>
      I (select_in_draft df s d)"
    and remove: "I d \<Longrightarrow> I (remove_field d f)"
begin

lemma select_all: "list_all (offered st) ss \<Longrightarrow> I d \<Longrightarrow> I (select_all_in (ss_differences st) (for_model m ss) d)"
  by (induction ss arbitrary: d) (auto simp: offered_def intro: select)

lemma remove_all: "I d \<Longrightarrow> I (foldl remove_field d fs)"
  by (induction fs arbitrary: d) (auto intro: remove)

lemma step:
  assumes "sync_step st st'" and I: "\<And>m. I (view (ss_resolutions st) m)"
  shows "I (view (ss_resolutions st') m)"
  using assms(1)
proof cases
  case (select s)
  then show ?thesis using I draft_invariant.select [OF draft_invariant_axioms]
    by (auto simp: handleSelectValue_def view_selection offered_def)
next
  case (select_all selections)
  then show ?thesis using I
    by (auto simp: handleSelectValues_def view_selections intro: draft_invariant.select_all [OF draft_invariant_axioms])
next
  case (unselect_all plan)
  then show ?thesis using I
    by (auto simp: handleUnselectValues_def view_removal_plan intro: remove_all split: option.splits)
qed (use I in \<open>auto simp: fetch_succeeded_def sync_succeeded_def handleUnselectValue_def view_delete_field
      handleConfirmConflict_def handleApplySync_def Let_def intro: empty remove\<close>)

lemma reachable: "reachable_sync st \<Longrightarrow> I (view (ss_resolutions st) m)"
  by (induction arbitrary: m rule: reachable_sync.induct) (auto simp: initial_sync_def intro: empty step)

end

text \<open>A model is not resolved by price and by ratio; an expression comes with a billing mode; the
  fields are those of the interface, each once.\<close>

definition one_flat :: "ModelResolution \<Rightarrow> bool" where
  "one_flat d \<longleftrightarrow> \<not> (\<exists>f g. f \<in> fst ` set d \<and> g \<in> fst ` set d \<and>
     getBillingCategory f = CatPrice \<and> getBillingCategory g = CatRatio)"

definition expr_with_mode :: "ModelResolution \<Rightarrow> bool" where
  "expr_with_mode d \<longleftrightarrow> (BILLING_EXPR \<in> fst ` set d \<longrightarrow> BILLING_MODE \<in> fst ` set d)"

definition known_fields :: "ModelResolution \<Rightarrow> bool" where
  "known_fields d \<longleftrightarrow> fst ` set d \<subseteq> set SYNC_FIELD_ORDER \<and> distinct (map fst d)"

lemma resolved_type:
  "sel_ratioType (resolveResolutionSelection df s) = sel_ratioType s \<or>
   sel_ratioType (resolveResolutionSelection df s) = BILLING_EXPR"
  by (simp add: resolveResolutionSelection_def getPreferredSyncField_def Let_def)

text \<open>The fields of a model after a selection.\<close>

lemma extras_keys:
  "fst ` set (tiered_extras mdiffs k src d) \<subseteq> fst ` set d \<union> {BILLING_MODE, BILLING_EXPR} \<and>
   fst ` set d \<subseteq> fst ` set (tiered_extras mdiffs k src d) \<and>
   (isSelectableUpstreamValue (upstream_value mdiffs BILLING_EXPR src) \<longrightarrow> BILLING_EXPR \<in> fst ` set (tiered_extras mdiffs k src d)) \<and>
   (k = BILLING_EXPR \<longrightarrow> BILLING_MODE \<in> fst ` set (tiered_extras mdiffs k src d))"
  by (auto simp: tiered_extras_def Let_def)

lemma one_flat_tiered: "getBillingCategory k = CatTiered \<Longrightarrow> one_flat (AList.update k v d) = one_flat d"
  by (auto simp: one_flat_def)

lemma no_conflicts [simp]: "drop_conflicts CatTiered d = d"
  by (simp add: drop_conflicts_def)

lemma extras_mode:
  "k = BILLING_MODE \<or> k = BILLING_EXPR \<Longrightarrow>
   BILLING_MODE \<in> fst ` set (tiered_extras mdiffs k src (AList.update k v d))"
  by (elim disjE) (simp_all add: tiered_extras_def Let_def)

lemma tiered_known: "BILLING_MODE \<in> set SYNC_FIELD_ORDER" "BILLING_EXPR \<in> set SYNC_FIELD_ORDER"
  by (simp_all add: SYNC_FIELD_ORDER_def)

lemma extras_known: "known_fields d \<Longrightarrow> known_fields (tiered_extras mdiffs k src d)"
  by (simp add: known_fields_def tiered_extras_def Let_def distinct_update tiered_known)

lemma conflicts_keys:
  "fst ` set (drop_conflicts cat d) =
     {f \<in> fst ` set d. cat = CatTiered \<or> getBillingCategory f = CatTiered \<or> getBillingCategory f = cat}"
  by (auto simp: drop_conflicts_def)

lemma conflicts_distinct: "distinct (map fst d) \<Longrightarrow> distinct (map fst (drop_conflicts cat d))"
  by (simp add: drop_conflicts_def distinct_map_filter)

abbreviation final_type :: "(jsstr, RatioTypes) jsmap \<Rightarrow> ResolutionSelection \<Rightarrow> jsstr" where
  "final_type df s \<equiv> sel_ratioType (resolveResolutionSelection df s)"

abbreviation final_value :: "(jsstr, RatioTypes) jsmap \<Rightarrow> ResolutionSelection \<Rightarrow> sync_value" where
  "final_value df s \<equiv> sel_value (resolveResolutionSelection df s)"

lemma select_cases:
  obtains (flat) "getBillingCategory (final_type df s) \<noteq> CatTiered"
      "select_in_draft df s d = AList.update (final_type df s) (final_value df s)
         (drop_conflicts (getBillingCategory (final_type df s)) d)"
    | (tiered) mdiffs where "getBillingCategory (final_type df s) = CatTiered" "map_of df (sel_model s) = Some mdiffs"
      "select_in_draft df s d = tiered_extras mdiffs (final_type df s) (sel_sourceName s)
         (AList.update (final_type df s) (final_value df s) (drop_conflicts CatTiered d))"
    | (unknown) "map_of df (sel_model s) = None"
  by (cases "getBillingCategory (final_type df s) = CatTiered"; cases "map_of df (sel_model s)")
    (auto simp: select_in_draft_def Let_def)

interpretation flat: draft_invariant one_flat
proof
  show "one_flat []" by (simp add: one_flat_def)
  show "one_flat (remove_field d f)" if "one_flat d" for d f
    using that by (auto simp: one_flat_def remove_field_filter)
  show "one_flat (select_in_draft df s d)"
    if "map_of df (sel_model s) \<noteq> None" and "sel_ratioType s \<in> set SYNC_FIELD_ORDER" and d: "one_flat d" for df s d
  proof (cases df s d rule: select_cases)
    case flat
    then show ?thesis by (auto simp: one_flat_def conflicts_keys)
  next
    case (tiered mdiffs)
    with d show ?thesis by (simp add: tiered_extras_def Let_def one_flat_tiered no_conflicts)
  qed (use that in simp)
qed

interpretation paired: draft_invariant expr_with_mode
proof
  show "expr_with_mode []" by (simp add: expr_with_mode_def)
  show "expr_with_mode (remove_field d f)" if "expr_with_mode d" for d f
    using that by (force simp: expr_with_mode_def remove_field_filter removed_with_def)
  show "expr_with_mode (select_in_draft df s d)"
    if "map_of df (sel_model s) \<noteq> None" and "sel_ratioType s \<in> set SYNC_FIELD_ORDER" and d: "expr_with_mode d" for df s d
  proof (cases df s d rule: select_cases)
    case flat
    with d show ?thesis by (auto simp: expr_with_mode_def conflicts_keys category_tiered)
  next
    case (tiered mdiffs)
    let ?k = "final_type df s"
    let ?u = "AList.update ?k (final_value df s) (drop_conflicts CatTiered d)"
    have "?k = BILLING_MODE \<or> ?k = BILLING_EXPR" using tiered by (simp add: category_tiered)
    then have "BILLING_MODE \<in> fst ` set (select_in_draft df s d)"
      unfolding tiered(3) by (rule extras_mode)
    then show ?thesis by (simp add: expr_with_mode_def)
  qed (use that in simp)
qed

interpretation known: draft_invariant known_fields
proof
  show "known_fields []" by (simp add: known_fields_def)
  show "known_fields (remove_field d f)" if "known_fields d" for d f
    using that by (auto simp: known_fields_def remove_field_filter distinct_map_filter)
  show "known_fields (select_in_draft df s d)"
    if "map_of df (sel_model s) \<noteq> None" and f: "sel_ratioType s \<in> set SYNC_FIELD_ORDER" and d: "known_fields d" for df s d
  proof -
    let ?k = "final_type df s"
    have k: "?k \<in> set SYNC_FIELD_ORDER" using f resolved_type [of df s] tiered_known by auto
    show ?thesis
    proof (cases df s d rule: select_cases)
      case flat
      with d k show ?thesis
        by (auto simp: known_fields_def conflicts_keys conflicts_distinct distinct_update)
    next
      case (tiered mdiffs)
      let ?u = "AList.update ?k (final_value df s) (drop_conflicts CatTiered d)"
      have "known_fields ?u" using d k
        by (auto simp: known_fields_def conflicts_keys conflicts_distinct distinct_update)
      then show ?thesis unfolding tiered(3) by (rule extras_known)
    qed (use that in simp)
  qed
qed

section \<open>The stored resolutions\<close>

lemma distinct_keys_delete: "distinct (map fst m) \<Longrightarrow> distinct (map fst (AList.delete k m))"
  by (simp add: delete_filter distinct_map_filter)

definition tidy :: "ResolutionsMap \<Rightarrow> bool" where
  "tidy r \<longleftrightarrow> distinct (map fst r) \<and> [] \<notin> snd ` set r"

lemma tidy_Nil [simp]: "tidy []"
  by (simp add: tidy_def)

lemma tidy_Some: "tidy r \<Longrightarrow> map_of r m = Some d \<Longrightarrow> d \<noteq> []"
  by (drule map_of_SomeD) (force simp: tidy_def)

lemma set_update_values: "snd ` set (AList.update k v m) \<subseteq> insert v (snd ` set m)"
  by (induction m) auto

lemma tidy_store: "tidy r \<Longrightarrow> tidy (store_draft r p)"
  using set_update_values [of "fst p" "snd p" r]
  by (cases p) (auto simp: tidy_def store_draft_def distinct_update distinct_map_filter delete_filter)

lemma tidy_store_all: "tidy r \<Longrightarrow> tidy (foldl store_draft r ds)"
  by (induction ds arbitrary: r) (auto intro: tidy_store)

lemma tidy_selections: "tidy r \<Longrightarrow> tidy (applyResolutionSelections r df ss)"
  by (simp add: applyResolutionSelections_def tidy_store_all)

lemma tidy_remove_step: "tidy r' \<Longrightarrow> tidy (remove_step r r' p)"
  by (cases p) (auto simp: remove_step_def intro: tidy_store split: option.splits)

lemma tidy_plan: "tidy r \<Longrightarrow> tidy (applyResolutionRemovalPlan r plan)"
proof -
  have "tidy r' \<Longrightarrow> tidy (foldl (remove_step r) r' plan)" for r'
    by (induction plan arbitrary: r') (auto intro: tidy_remove_step)
  then show "tidy r \<Longrightarrow> tidy (applyResolutionRemovalPlan r plan)" by (simp add: applyResolutionRemovalPlan_def)
qed

lemma tidy_removals: "tidy r \<Longrightarrow> tidy (applyResolutionRemovals r rs)"
  by (simp add: applyResolutionRemovals_def tidy_plan)

lemma reachable_tidy: "reachable_sync st \<Longrightarrow> tidy (ss_resolutions st)"
proof (induction rule: reachable_sync.induct)
  case (step st st')
  from step(2,3) show ?case
    by cases (auto simp: fetch_succeeded_def sync_succeeded_def handleSelectValue_def handleSelectValues_def
        handleUnselectValue_def handleUnselectValues_def handleConfirmConflict_def handleApplySync_def Let_def
        applyResolutionSelection_def deleteResolutionField_def tidy_selections tidy_plan tidy_removals)
qed (simp add: initial_sync_def)

section \<open>The saved settings\<close>

lemma option_keys:
  "map optionKeyBySyncField SYNC_FIELD_ORDER = OPTION_KEYS"
  "map optionKeyBySyncField RATIO_SYNC_FIELDS = RATIO_OPTION_KEYS"
  "optionKeyBySyncField MODEL_PRICE = js ''ModelPrice''" "distinct OPTION_KEYS"
  by code_simp+

lemma option_key_inj:
  "f \<in> set SYNC_FIELD_ORDER \<Longrightarrow> g \<in> set SYNC_FIELD_ORDER \<Longrightarrow>
   optionKeyBySyncField f = optionKeyBySyncField g \<longleftrightarrow> f = g"
  using option_keys(1,4) by (metis distinct_map inj_onD)

lemma option_key_mem: "f \<in> set SYNC_FIELD_ORDER \<Longrightarrow> optionKeyBySyncField f \<in> set OPTION_KEYS"
  using option_keys(1) by (metis image_eqI list.set_map)

lemma ratio_key_mem:
  assumes "f \<in> set SYNC_FIELD_ORDER"
  shows "optionKeyBySyncField f \<in> set RATIO_OPTION_KEYS \<longleftrightarrow> f \<in> set RATIO_SYNC_FIELDS"
proof
  assume "optionKeyBySyncField f \<in> set RATIO_OPTION_KEYS"
  then obtain g where g: "g \<in> set RATIO_SYNC_FIELDS" "optionKeyBySyncField f = optionKeyBySyncField g"
    unfolding option_keys(2) [symmetric] by auto
  moreover have "g \<in> set SYNC_FIELD_ORDER" using g by (simp add: SYNC_FIELD_ORDER_def)
  ultimately show "f \<in> set RATIO_SYNC_FIELDS" using option_key_inj [OF assms, of g] by simp
qed (unfold option_keys(2) [symmetric], simp)

definition saved :: "FinalRatios \<Rightarrow> jsstr \<Rightarrow> jsstr \<Rightarrow> sync_value option" where
  "saved fin f m = (case map_of fin (optionKeyBySyncField f) of None \<Rightarrow> None | Some mm \<Rightarrow> map_of mm m)"

definition saved_value :: "jsstr \<Rightarrow> sync_value \<Rightarrow> sync_value" where
  "saved_value f v = (if f \<in> set NUMERIC_SYNC_FIELDS then VNum (sync_number v) else v)"

definition replaced :: "ModelResolution \<Rightarrow> jsstr \<Rightarrow> bool" where
  "replaced d f \<longleftrightarrow> (MODEL_PRICE \<in> fst ` set d \<and> f \<in> set RATIO_SYNC_FIELDS) \<or>
     (set RATIO_SYNC_FIELDS \<inter> fst ` set d \<noteq> {} \<and> f = MODEL_PRICE)"

lemma write_one:
  assumes "map fst fin = OPTION_KEYS" and "g \<in> set SYNC_FIELD_ORDER"
  obtains fin' where "write_option model (g, v) (Inr fin) = Inr fin'" "map fst fin' = OPTION_KEYS"
    "\<And>f m. f \<in> set SYNC_FIELD_ORDER \<Longrightarrow>
       saved fin' f m = (if f = g \<and> m = model then Some (saved_value g v) else saved fin f m)"
proof -
  have "map_of fin (optionKeyBySyncField g) \<noteq> None"
    using assms option_key_mem by (metis map_of_eq_None_iff list.set_map)
  then obtain mm where mm: "map_of fin (optionKeyBySyncField g) = Some mm" by blast
  let ?fin = "AList.update (optionKeyBySyncField g) (AList.update model (saved_value g v) mm) fin"
  show thesis
  proof (rule that)
    show "write_option model (g, v) (Inr fin) = Inr ?fin"
      by (simp add: write_option_def mm saved_value_def)
    show "map fst ?fin = OPTION_KEYS"
      using assms option_key_mem [of g] by (simp add: keys_update)
    show "saved ?fin f m = (if f = g \<and> m = model then Some (saved_value g v) else saved fin f m)"
      if "f \<in> set SYNC_FIELD_ORDER" for f m
      using that assms(2) mm by (simp add: saved_def option_key_inj)
  qed
qed

lemma write_all:
  assumes "map fst fin = OPTION_KEYS" and "known_fields es"
  obtains fin' where "foldl (\<lambda>a q. write_option model q a) (Inr fin) es = Inr fin'" "map fst fin' = OPTION_KEYS"
    "\<And>f m. f \<in> set SYNC_FIELD_ORDER \<Longrightarrow>
       saved fin' f m = (if m = model \<and> f \<in> fst ` set es then map_option (saved_value f) (map_of es f) else saved fin f m)"
  using assms
proof (induction es arbitrary: fin thesis)
  case (Cons p es)
  obtain g v where p: "p = (g, v)" by force
  have g: "g \<in> set SYNC_FIELD_ORDER" and es: "known_fields es" and new: "g \<notin> fst ` set es"
    using Cons.prems(3) by (auto simp: known_fields_def p)
  obtain fin1 where f1: "write_option model (g, v) (Inr fin) = Inr fin1" "map fst fin1 = OPTION_KEYS"
    "\<And>f m. f \<in> set SYNC_FIELD_ORDER \<Longrightarrow>
       saved fin1 f m = (if f = g \<and> m = model then Some (saved_value g v) else saved fin f m)"
    using write_one [OF Cons.prems(2) g] by blast
  obtain fin2 where f2: "foldl (\<lambda>a q. write_option model q a) (Inr fin1) es = Inr fin2" "map fst fin2 = OPTION_KEYS"
    "\<And>f m. f \<in> set SYNC_FIELD_ORDER \<Longrightarrow>
       saved fin2 f m = (if m = model \<and> f \<in> fst ` set es then map_option (saved_value f) (map_of es f) else saved fin1 f m)"
    using Cons.IH [OF _ f1(2) es] by blast
  show ?case
  proof (rule Cons.prems(1))
    show "foldl (\<lambda>a q. write_option model q a) (Inr fin) (p # es) = Inr fin2" by (simp add: p f1(1) f2(1))
  qed (use f1(3) f2(2,3) new in \<open>auto simp: p\<close>)
qed simp

lemma map_of_same_set:
  assumes "distinct (map fst xs)" and "mset ys = mset xs"
  shows "map_of ys = map_of xs"
proof -
  have "mset (map fst ys) = mset (map fst xs)" using assms(2) by simp
  then have "distinct (map fst ys)" using assms(1) mset_eq_imp_distinct_iff by blast
  moreover have "set ys = set xs" using assms(2) by (rule mset_eq_setD)
  ultimately show ?thesis using assms(1) by (metis map_of_inject_set)
qed

lemma known_obj_entries: "known_fields d \<Longrightarrow> known_fields (obj_entries d)"
  unfolding known_fields_def by (metis mset_eq_imp_distinct_iff mset_map mset_obj_entries set_obj_entries)

lemma delete_in_keys: "map fst (delete_in ks m fin) = map fst fin"
  by (induction fin) (auto simp: delete_in_def)

lemma saved_delete_in:
  "saved (delete_in ks model fin) f m =
     (if m = model \<and> optionKeyBySyncField f \<in> set ks then None else saved fin f m)"
proof -
  have "map_of (delete_in ks model fin) k =
      map_option (\<lambda>mm. if k \<in> set ks then AList.delete model mm else mm) (map_of fin k)" for k
    by (induction fin) (auto simp: delete_in_def)
  then show ?thesis by (auto simp: saved_def split: option.splits)
qed

lemma saved_clear:
  assumes "f \<in> set SYNC_FIELD_ORDER"
  shows "saved (clear_conflicting model d fin) f m = (if m = model \<and> replaced d f then None else saved fin f m)"
    and "map fst (clear_conflicting model d fin) = map fst fin"
proof -
  have price: "optionKeyBySyncField f \<in> set [js ''ModelPrice''] \<longleftrightarrow> f = MODEL_PRICE"
    using option_key_inj [OF assms, of MODEL_PRICE] by (auto simp: option_keys(3) SYNC_FIELD_ORDER_def)
  show "saved (clear_conflicting model d fin) f m = (if m = model \<and> replaced d f then None else saved fin f m)"
    using price ratio_key_mem [OF assms]
    by (auto simp: clear_conflicting_def Let_def saved_delete_in replaced_def list_ex_iff)
qed (simp add: clear_conflicting_def Let_def delete_in_keys)

text \<open>What is stored for a field of a model after saving.\<close>

definition outcome :: "ResolutionsMap \<Rightarrow> jsstr \<Rightarrow> jsstr \<Rightarrow> sync_value option \<Rightarrow> sync_value option" where
  "outcome r f m old =
     (case map_of r m of
        None \<Rightarrow> old
      | Some d \<Rightarrow>
          (case map_of d f of
             Some v \<Rightarrow> Some (saved_value f v)
           | None \<Rightarrow> if replaced d f then None else old))"

lemma save_one:
  assumes "map fst fin = OPTION_KEYS" and d: "known_fields d"
  obtains fin' where "save_model (Inr fin) (model, d) = Inr fin'" "map fst fin' = OPTION_KEYS"
    "\<And>f m. f \<in> set SYNC_FIELD_ORDER \<Longrightarrow>
       saved fin' f m = (if m = model then outcome [(model, d)] f m (saved fin f m) else saved fin f m)"
proof -
  have keys: "map fst (clear_conflicting model d fin) = OPTION_KEYS"
    using assms(1) saved_clear(2) [OF tiered_known(1)] by simp
  obtain fin' where f: "foldl (\<lambda>a q. write_option model q a) (Inr (clear_conflicting model d fin)) (obj_entries d) = Inr fin'"
    "map fst fin' = OPTION_KEYS" "\<And>f m. f \<in> set SYNC_FIELD_ORDER \<Longrightarrow>
       saved fin' f m = (if m = model \<and> f \<in> fst ` set (obj_entries d)
         then map_option (saved_value f) (map_of (obj_entries d) f) else saved (clear_conflicting model d fin) f m)"
    using write_all [OF keys known_obj_entries [OF d]] by blast
  have "map_of (obj_entries d) = map_of d"
    using d by (intro map_of_same_set) (auto simp: known_fields_def)
  moreover have "g \<in> fst ` set d \<longleftrightarrow> map_of d g \<noteq> None" for g by (simp add: map_of_eq_None_iff)
  ultimately show thesis
    by (intro that [of fin']) (auto simp: save_model_def f saved_clear(1) outcome_def split: option.splits)
qed

lemma save_all:
  assumes "map fst fin = OPTION_KEYS" and "distinct (map fst rs)" and "\<forall>d \<in> snd ` set rs. known_fields d"
  obtains fin' where "foldl save_model (Inr fin) rs = Inr fin'" "map fst fin' = OPTION_KEYS"
    "\<forall>f \<in> set SYNC_FIELD_ORDER. \<forall>m. saved fin' f m = outcome rs f m (saved fin f m)"
  using assms
proof (induction rs arbitrary: fin thesis)
  case Nil
  show ?case by (rule Nil(1)) (use Nil in \<open>auto simp: outcome_def\<close>)
next
  case (Cons p rs)
  obtain model d where p: "p = (model, d)" by force
  have d: "known_fields d" and new: "map_of rs model = None"
    using Cons.prems by (auto simp: p map_of_eq_None_iff)
  obtain fin1 where f1: "save_model (Inr fin) (model, d) = Inr fin1" "map fst fin1 = OPTION_KEYS"
    "\<And>f m. f \<in> set SYNC_FIELD_ORDER \<Longrightarrow>
       saved fin1 f m = (if m = model then outcome [(model, d)] f m (saved fin f m) else saved fin f m)"
    using save_one [OF Cons.prems(2) d] by blast
  obtain fin2 where f2: "foldl save_model (Inr fin1) rs = Inr fin2" "map fst fin2 = OPTION_KEYS"
    "\<forall>f \<in> set SYNC_FIELD_ORDER. \<forall>m. saved fin2 f m = outcome rs f m (saved fin1 f m)"
    using Cons.IH [OF _ f1(2)] Cons.prems(3,4) by auto
  show ?case
    by (rule Cons.prems(1) [of fin2]) (use f1 f2 new in \<open>auto simp: p outcome_def\<close>)
qed

lemma saves:
  assumes "reachable_sync st"
  obtains fin where "finalRatios cur (ss_resolutions st) = Inr fin"
    "\<And>f m. f \<in> set SYNC_FIELD_ORDER \<Longrightarrow>
       saved fin f m = outcome (ss_resolutions st) f m (map_of (cur (optionKeyBySyncField f)) m)"
proof -
  let ?r = "ss_resolutions st" and ?fin = "map (\<lambda>k. (k, cur k)) OPTION_KEYS"
  have dist: "distinct (map fst ?r)" using reachable_tidy [OF assms] by (simp add: tidy_def)
  then have m: "map_of (obj_entries ?r) = map_of ?r" by (intro map_of_same_set) auto
  have de: "distinct (map fst (obj_entries ?r))"
    using dist by (metis mset_eq_imp_distinct_iff mset_map mset_obj_entries)
  have kn: "\<forall>d \<in> snd ` set (obj_entries ?r). known_fields d"
  proof
    fix d
    assume "d \<in> snd ` set (obj_entries ?r)"
    then obtain m where "map_of ?r m = Some d" using dist by (auto intro: map_of_is_SomeI)
    then show "known_fields d" using known.reachable [OF assms, of m] by (simp add: view_def)
  qed
  have keys: "map fst ?fin = OPTION_KEYS" by (simp add: o_def)
  obtain fin' where "foldl save_model (Inr ?fin) (obj_entries ?r) = Inr fin'" "map fst fin' = OPTION_KEYS"
      "\<forall>f \<in> set SYNC_FIELD_ORDER. \<forall>m. saved fin' f m = outcome (obj_entries ?r) f m (saved ?fin f m)"
    using save_all [OF keys de kn] by blast
  moreover have "saved ?fin f m = map_of (cur (optionKeyBySyncField f)) m" if "f \<in> set SYNC_FIELD_ORDER" for f m
    using option_key_mem [OF that] by (simp add: saved_def map_of_map_keys map_of_map_restrict)
  ultimately show thesis using that by (simp add: finalRatios_def outcome_def m)
qed

section \<open>What is shown as selected\<close>

lemma num_eq_refl: "x \<noteq> NaN \<Longrightarrow> js_num_eq x x"
  by (cases x) (auto simp: js_num_eq_def js_le_def)

definition comparable :: "jsstr \<Rightarrow> sync_value \<Rightarrow> bool" where
  "comparable f v \<longleftrightarrow> (if f \<in> set NUMERIC_SYNC_FIELDS then is_finite (sync_number v) else v \<noteq> VNum NaN)"

lemma comparable_selected:
  assumes "comparable f v" and "isSelectableUpstreamValue (Some v)" and "map_of (view r m) f = Some v"
  shows "isSelectedResolutionValue r m f (Some v)"
proof -
  have "(case map_of r m of None \<Rightarrow> None | Some d \<Rightarrow> map_of d f) = Some v"
    using assms(3) by (auto simp: view_def split: option.splits)
  moreover have "is_finite x \<Longrightarrow> js_num_eq x x" for x by (rule num_eq_refl) auto
  moreover have "v \<noteq> VNum NaN \<Longrightarrow> strict_eq v v" by (cases v) (auto intro: num_eq_refl)
  ultimately show ?thesis
    using assms(1,2) by (simp add: isSelectedResolutionValue_def comparable_def Let_def split: if_splits)
qed

text \<open>A selection of an upstream value is resolved to an upstream value.\<close>

lemma resolved_upstream:
  assumes "map_of df (sel_model s) = Some mdiffs"
    and "upstream_value mdiffs (sel_ratioType s) (sel_sourceName s) = Some (sel_value s)"
    and "isSelectableUpstreamValue (Some (sel_value s))"
  shows "upstream_value mdiffs (final_type df s) (sel_sourceName s) = Some (final_value df s)"
    and "isSelectableUpstreamValue (Some (final_value df s))"
    and "final_type df s = BILLING_MODE \<Longrightarrow>
      \<not> isSelectableUpstreamValue (upstream_value mdiffs BILLING_EXPR (sel_sourceName s))"
  using assms
  by (auto simp: resolveResolutionSelection_def model_diffs_def getPreferredSyncField_def Let_def
      isSelectableUpstreamValue_def split: option.splits if_splits)

lemma select_stores_value:
  assumes "map_of df (sel_model s) = Some mdiffs"
    and "upstream_value mdiffs (sel_ratioType s) (sel_sourceName s) = Some (sel_value s)"
    and "isSelectableUpstreamValue (Some (sel_value s))"
  shows "map_of (select_in_draft df s d) (final_type df s) = Some (final_value df s)"
proof (cases df s d rule: select_cases)
  case (tiered mdiffs')
  then have "mdiffs' = mdiffs" using assms(1) by simp
  moreover have "final_type df s = BILLING_MODE \<or> final_type df s = BILLING_EXPR"
    using tiered(1) by (simp add: category_tiered)
  ultimately show ?thesis
    unfolding tiered(3) using resolved_upstream [OF assms] by (auto simp: tiered_extras_def Let_def)
qed (use assms in auto)

section \<open>Categories after saving\<close>

lemma ratio_known: "f \<in> set RATIO_SYNC_FIELDS \<Longrightarrow> f \<in> set SYNC_FIELD_ORDER" "MODEL_PRICE \<in> set SYNC_FIELD_ORDER"
  by (simp_all add: SYNC_FIELD_ORDER_def)

lemma ratio_category: "f \<in> set RATIO_SYNC_FIELDS \<Longrightarrow> getBillingCategory f = CatRatio"
  using ratio_field_names by (auto simp: getBillingCategory_def)

lemma one_flat_fields: "one_flat d \<Longrightarrow> \<not> (MODEL_PRICE \<in> fst ` set d \<and> set RATIO_SYNC_FIELDS \<inter> fst ` set d \<noteq> {})"
  using category_simps(1) ratio_category unfolding one_flat_def by blast

lemma local_category:
  "getLocalBillingCategory m cur =
     (if map_of (cur (optionKeyBySyncField MODEL_PRICE)) m \<noteq> None then Some CatPrice
      else if \<exists>f \<in> set RATIO_SYNC_FIELDS. map_of (cur (optionKeyBySyncField f)) m \<noteq> None then Some CatRatio
      else None)"
  by (simp add: getLocalBillingCategory_def option_keys(3) list_ex_iff flip: option_keys(2))

lemma new_category_fields:
  "new_category d = (if MODEL_PRICE \<in> fst ` set d then CatPrice
     else if set RATIO_SYNC_FIELDS \<inter> fst ` set d \<noteq> {} then CatRatio else CatTiered)"
  by (auto simp: new_category_def Let_def list_ex_iff map_of_eq_None_iff)

definition saved_options :: "FinalRatios \<Rightarrow> ParsedRatios" where
  "saved_options fin k = (case map_of fin k of None \<Rightarrow> [] | Some mm \<Rightarrow> mm)"

lemma saved_option: "map_of (saved_options fin (optionKeyBySyncField f)) m = saved fin f m"
  by (simp add: saved_options_def saved_def split: option.splits)

lemma outcome_Some:
  assumes "map_of r m = Some d"
  shows "outcome r f m old =
    (if f \<in> fst ` set d then map_option (saved_value f) (map_of d f) else if replaced d f then None else old)"
proof -
  have "f \<in> fst ` set d \<longleftrightarrow> map_of d f \<noteq> None" by (simp add: map_of_eq_None_iff)
  then show ?thesis using assms by (auto simp: outcome_def split: option.splits)
qed

text \<open>Saving a flat resolution leaves the model with the category of the resolution.\<close>

lemma saved_category:
  assumes "map_of r m = Some d" and "one_flat d" and "new_category d \<noteq> CatTiered"
    and out: "\<And>f. f \<in> set SYNC_FIELD_ORDER \<Longrightarrow> saved fin f m = outcome r f m (map_of (cur (optionKeyBySyncField f)) m)"
  shows "getLocalBillingCategory m (saved_options fin) = Some (new_category d)"
    and "saved fin MODEL_PRICE m = None \<or> (\<forall>f \<in> set RATIO_SYNC_FIELDS. saved fin f m = None)"
proof -
  have key: "f \<in> fst ` set d \<longleftrightarrow> map_of d f \<noteq> None" for f by (simp add: map_of_eq_None_iff)
  have "getLocalBillingCategory m (saved_options fin) = Some (new_category d) \<and>
      (saved fin MODEL_PRICE m = None \<or> (\<forall>f \<in> set RATIO_SYNC_FIELDS. saved fin f m = None))"
  proof (cases "MODEL_PRICE \<in> fst ` set d")
    case True
    then have "saved fin MODEL_PRICE m \<noteq> None" using key by (simp add: out ratio_known outcome_Some [OF assms(1)])
    moreover have "\<forall>f \<in> set RATIO_SYNC_FIELDS. saved fin f m = None"
      using True one_flat_fields [OF assms(2)] by (auto simp: out ratio_known outcome_Some [OF assms(1)] replaced_def)
    ultimately show ?thesis using True by (simp add: local_category saved_option new_category_fields)
  next
    case False
    then obtain f where f: "f \<in> set RATIO_SYNC_FIELDS" "f \<in> fst ` set d"
      using assms(3) by (auto simp: new_category_fields split: if_splits)
    then have "saved fin f m \<noteq> None" using key by (simp add: out ratio_known outcome_Some [OF assms(1)])
    moreover have "saved fin MODEL_PRICE m = None"
      using False f by (auto simp: out ratio_known outcome_Some [OF assms(1)] replaced_def)
    ultimately show ?thesis using False f by (auto simp: local_category saved_option new_category_fields)
  qed
  then show "getLocalBillingCategory m (saved_options fin) = Some (new_category d)"
    and "saved fin MODEL_PRICE m = None \<or> (\<forall>f \<in> set RATIO_SYNC_FIELDS. saved fin f m = None)" by auto
qed

section \<open>Properties\<close>

text \<open>C5: In every state the page can reach, each stored resolution is non-empty, has fields of the
  interface, each once, never resolves a model by price and by ratio at once, and has a billing
  mode whenever it has a billing expression.\<close>

theorem sync_page_invariant:
  assumes "reachable_sync st" and "map_of (ss_resolutions st) m = Some d"
  shows "d \<noteq> [] \<and> distinct (map fst d) \<and> fst ` set d \<subseteq> set SYNC_FIELD_ORDER \<and>
    \<not> (MODEL_PRICE \<in> fst ` set d \<and> set RATIO_SYNC_FIELDS \<inter> fst ` set d \<noteq> {}) \<and>
    (BILLING_EXPR \<in> fst ` set d \<longrightarrow> BILLING_MODE \<in> fst ` set d)"
proof -
  have d: "view (ss_resolutions st) m = d" using assms(2) by (rule view_Some)
  have "one_flat d" using flat.reachable [OF assms(1), of m] d by simp
  then show ?thesis
    using tidy_Some [OF reachable_tidy [OF assms(1)] assms(2)] known.reachable [OF assms(1), of m]
      paired.reachable [OF assms(1), of m] one_flat_fields d
    by (simp add: known_fields_def expr_with_mode_def)
qed

text \<open>Selecting several values at once has, for every model, the effect of selecting them one
  after the other.\<close>

theorem selections_batch:
  "view (applyResolutionSelections r df ss) m =
     view (foldl (\<lambda>acc s. applyResolutionSelection acc df s) r ss) m"
proof (induction ss arbitrary: r)
  case (Cons s ss)
  show ?case by (simp add: view_selections view_selection flip: Cons)
qed (simp add: applyResolutionSelections_def)

text \<open>A selected upstream value is shown as selected: after the selection the field it is resolved
  to (the expression of the source, when it has one) is marked with the value of that source.\<close>

theorem selection_shown:
  assumes "map_of df (sel_model s) = Some mdiffs"
    and "upstream_value mdiffs (sel_ratioType s) (sel_sourceName s) = Some (sel_value s)"
    and "isSelectableUpstreamValue (Some (sel_value s))"
    and "comparable (final_type df s) (final_value df s)"
  shows "isSelectedResolutionValue (applyResolutionSelection r df s) (sel_model s) (final_type df s)
    (upstream_value mdiffs (final_type df s) (sel_sourceName s))"
  unfolding resolved_upstream(1) [OF assms(1-3)]
  by (rule comparable_selected [OF assms(4) resolved_upstream(2) [OF assms(1-3)]])
    (simp add: view_selection select_stores_value [OF assms(1-3)])

text \<open>Unselecting undoes selecting: for a model without a resolution, removing the field that a
  selection has set removes everything the selection has added, and leaves the other models alone.\<close>

theorem unselect_undoes_select:
  assumes "view r (sel_model s) = []" and "map_of df (sel_model s) \<noteq> None"
  shows "view (deleteResolutionField (applyResolutionSelection r df s) (sel_model s) (final_type df s)) m = view r m"
proof (cases "m = sel_model s")
  case True
  have "fst ` set (select_in_draft df s []) \<subseteq> removed_with (final_type df s)"
  proof (cases df s "[] :: ModelResolution" rule: select_cases)
    case flat
    then show ?thesis by (simp add: drop_conflicts_def removed_with_def)
  next
    case (tiered mdiffs)
    then have "final_type df s = BILLING_MODE \<or> final_type df s = BILLING_EXPR" by (simp add: category_tiered)
    then show ?thesis unfolding tiered(3) by (auto simp: tiered_extras_def Let_def removed_with_def)
  qed (use assms in simp)
  then have "remove_field (select_in_draft df s []) (final_type df s) = []"
    by (auto simp: remove_field_filter filter_empty_conv)
  with True assms(1) show ?thesis by (simp add: view_delete_field view_selection)
qed (simp add: view_delete_field view_selection)

text \<open>C6: Saving never fails in a reachable state, and stores exactly the resolutions: a resolved
  field gets its value, a field of the flat category that a resolution replaces is deleted, every
  other setting stays; a model with a flat resolution is afterwards not billed by price and by
  ratio at once.\<close>

theorem sync_saves_resolutions:
  assumes "reachable_sync st"
  shows "\<exists>fin. finalRatios cur (ss_resolutions st) = Inr fin \<and>
    (\<forall>f \<in> set SYNC_FIELD_ORDER. saved fin f m =
       outcome (ss_resolutions st) f m (map_of (cur (optionKeyBySyncField f)) m)) \<and>
    (new_category (view (ss_resolutions st) m) \<noteq> CatTiered \<longrightarrow>
       saved fin MODEL_PRICE m = None \<or> (\<forall>f \<in> set RATIO_SYNC_FIELDS. saved fin f m = None))"
proof -
  let ?r = "ss_resolutions st"
  obtain fin where fin: "finalRatios cur ?r = Inr fin"
    "\<And>f m. f \<in> set SYNC_FIELD_ORDER \<Longrightarrow> saved fin f m = outcome ?r f m (map_of (cur (optionKeyBySyncField f)) m)"
    using saves [OF assms] by blast
  have "saved fin MODEL_PRICE m = None \<or> (\<forall>f \<in> set RATIO_SYNC_FIELDS. saved fin f m = None)"
    if "new_category (view ?r m) \<noteq> CatTiered"
  proof -
    from that obtain d where d: "map_of ?r m = Some d" "view ?r m = d"
      by (auto simp: view_def new_category_fields split: option.splits)
    then show ?thesis
      using saved_category(2) [of ?r m d fin cur] flat.reachable [OF assms, of m] fin(2) that by simp
  qed
  with fin show ?thesis by blast
qed

text \<open>When the page saves without asking for confirmation, no model changes between billing by
  price and billing by ratio.\<close>

theorem sync_without_asking:
  assumes "reachable_sync st" and "snd (handleApplySync t cur st)"
    and "finalRatios cur (ss_resolutions st) = Inr fin" and "getLocalBillingCategory m cur = Some c"
  shows "getLocalBillingCategory m (saved_options fin) = Some c"
proof -
  let ?r = "ss_resolutions st"
  have out: "saved fin f m = outcome ?r f m (map_of (cur (optionKeyBySyncField f)) m)"
    if "f \<in> set SYNC_FIELD_ORDER" for f
    using saves [OF assms(1), of cur] assms(3) that by (metis sum.inject(2))
  show ?thesis
  proof (cases "new_category (view ?r m) = CatTiered")
    case True
    have "outcome ?r f m old = old" if "f = MODEL_PRICE \<or> f \<in> set RATIO_SYNC_FIELDS" for f old
      using that True
      by (auto simp: outcome_def view_def new_category_fields replaced_def dest: map_of_SomeD split: option.splits if_splits)
        (force dest: map_of_SomeD)+
    then have "saved fin f m = map_of (cur (optionKeyBySyncField f)) m" if "f = MODEL_PRICE \<or> f \<in> set RATIO_SYNC_FIELDS" for f
      using out that ratio_known by auto
    then have "getLocalBillingCategory m (saved_options fin) = getLocalBillingCategory m cur"
      by (simp add: local_category saved_option cong: bex_cong)
    with assms(4) show ?thesis by simp
  next
    case False
    then obtain d where d: "map_of ?r m = Some d" "view ?r m = d"
      by (auto simp: view_def new_category_fields split: option.splits)
    have "model_conflict t cur (ss_differences st) (m, d) = []"
      using assms(2) map_of_SomeD [OF d(1)] by (fastforce simp: handleApplySync_def sync_conflicts_def Let_def split: if_splits)
    then have "c = new_category d" using assms(4) False d by (auto simp: model_conflict_def split: if_splits)
    then show ?thesis
      using saved_category(1) [of ?r m d fin cur] flat.reachable [OF assms(1), of m] d False out by simp
  qed
qed

lemma effective_step:
  assumes "\<forall>(k, e) \<in> set acc. k = sel_key e" and "distinct (map fst acc)"
  shows "\<forall>(k, e) \<in> set (add_effective df acc s). k = sel_key e"
    and "distinct (map fst (add_effective df acc s))"
    and "resolveResolutionSelection df s \<in> snd ` set (add_effective df acc s)"
    and "snd ` set (add_effective df acc s) \<subseteq> insert (resolveResolutionSelection df s) (snd ` set acc)"
proof -
  have upd: "set (AList.update k v m) \<subseteq> insert (k, v) (set m)" "(k, v) \<in> set (AList.update k v m)"
    for k v and m :: "(jsstr, ResolutionSelection) jsmap"
    by (induction m) auto
  let ?e = "resolveResolutionSelection df s"
  obtain kept where k: "add_effective df acc s = AList.update (sel_key ?e) ?e kept" "set kept \<subseteq> set acc" "distinct (map fst kept)"
    using assms(2) by (force simp: add_effective_def Let_def distinct_map_filter)
  show "\<forall>(k, e) \<in> set (add_effective df acc s). k = sel_key e"
    unfolding k(1) using assms(1) upd(1) k(2) by fastforce
  show "distinct (map fst (add_effective df acc s))" unfolding k(1) by (rule distinct_update) (rule k(3))
  show "?e \<in> snd ` set (add_effective df acc s)" unfolding k(1) using upd(2) by (rule image_eqI [rotated]) simp
  show "snd ` set (add_effective df acc s) \<subseteq> insert ?e (snd ` set acc)"
    unfolding k(1) using upd(1) k(2) by fastforce
qed

lemma effective_fold:
  assumes "\<forall>(k, e) \<in> set acc. k = sel_key e" and "distinct (map fst acc)"
  shows "(\<forall>(k, e) \<in> set (foldl (add_effective df) acc ss). k = sel_key e) \<and>
    distinct (map fst (foldl (add_effective df) acc ss)) \<and>
    snd ` set (foldl (add_effective df) acc ss) \<subseteq> snd ` set acc \<union> resolveResolutionSelection df ` set ss"
  using assms
proof (induction ss arbitrary: acc)
  case (Cons s ss)
  have "(\<forall>(k, e) \<in> set (foldl (add_effective df) (add_effective df acc s) ss). k = sel_key e) \<and>
      distinct (map fst (foldl (add_effective df) (add_effective df acc s) ss)) \<and>
      snd ` set (foldl (add_effective df) (add_effective df acc s) ss) \<subseteq>
        snd ` set (add_effective df acc s) \<union> resolveResolutionSelection df ` set ss"
    by (rule Cons.IH) (rule effective_step [OF Cons.prems])+
  then show ?case using effective_step(4) [OF Cons.prems, of df s] by (simp del: foldl_Nil) blast
qed simp

definition mixed :: "ResolutionSelection \<Rightarrow> ResolutionSelection \<Rightarrow> bool" where
  "mixed e e' \<longleftrightarrow> sel_model e = sel_model e' \<and> getBillingCategory (sel_ratioType e) = CatPrice \<and>
     getBillingCategory (sel_ratioType e') = CatRatio"

lemma effective_not_mixed:
  assumes "\<not> (\<exists>e \<in> snd ` set acc. \<exists>e' \<in> snd ` set acc. mixed e e')"
  shows "\<not> (\<exists>e \<in> snd ` set (add_effective df acc s). \<exists>e' \<in> snd ` set (add_effective df acc s). mixed e e')"
proof -
  let ?e = "resolveResolutionSelection df s"
  let ?c = "getBillingCategory (sel_ratioType ?e)"
  define kept where "kept = (if ?c \<noteq> CatTiered then
    filter (\<lambda>(key, x). \<not> (sel_model x = sel_model ?e \<and> getBillingCategory (sel_ratioType x) \<noteq> CatTiered \<and>
      getBillingCategory (sel_ratioType x) \<noteq> ?c)) acc else acc)"
  have k: "add_effective df acc s = AList.update (sel_key ?e) ?e kept" "snd ` set kept \<subseteq> snd ` set acc"
    "\<And>x. x \<in> snd ` set kept \<Longrightarrow> \<not> mixed x ?e \<and> \<not> mixed ?e x"
    by (auto simp: add_effective_def Let_def mixed_def kept_def split: if_splits)
  have sub: "x = ?e \<or> x \<in> snd ` set kept" if "x \<in> snd ` set (add_effective df acc s)" for x
    using that set_update_values [of "sel_key ?e" ?e kept] unfolding k(1) by blast
  have self: "\<not> mixed ?e ?e" by (simp add: mixed_def)
  show ?thesis
  proof (intro notI, elim bexE)
    fix x y
    assume "x \<in> snd ` set (add_effective df acc s)" "y \<in> snd ` set (add_effective df acc s)" "mixed x y"
    with sub [of x] sub [of y] self k(3) have "x \<in> snd ` set kept" "y \<in> snd ` set kept" by metis+
    with k(2) assms \<open>mixed x y\<close> show False by (meson subsetD)
  qed
qed

lemma effective_fold_mixed:
  "\<not> (\<exists>e \<in> snd ` set acc. \<exists>e' \<in> snd ` set acc. mixed e e') \<Longrightarrow>
   \<not> (\<exists>e \<in> snd ` set (foldl (add_effective df) acc ss). \<exists>e' \<in> snd ` set (foldl (add_effective df) acc ss). mixed e e')"
proof (induction ss arbitrary: acc)
  case (Cons s ss)
  show ?case unfolding foldl_Cons by (rule Cons.IH) (rule effective_not_mixed [OF Cons.prems])
qed simp

text \<open>The selections that take effect are resolved selections of the list, one for each model and
  field, never a price and a ratio of the same model, and the last selection is always among them.\<close>

theorem effective_selections:
  "distinct (map sel_key (getEffectiveResolutionSelections df ss)) \<and>
   set (getEffectiveResolutionSelections df ss) \<subseteq> resolveResolutionSelection df ` set ss \<and>
   \<not> (\<exists>e \<in> set (getEffectiveResolutionSelections df ss). \<exists>e' \<in> set (getEffectiveResolutionSelections df ss). mixed e e') \<and>
   resolveResolutionSelection df s \<in> set (getEffectiveResolutionSelections df (ss @ [s]))"
proof -
  let ?acc = "foldl (add_effective df) [] ss"
  have f: "(\<forall>(k, e) \<in> set ?acc. k = sel_key e) \<and> distinct (map fst ?acc) \<and>
      snd ` set ?acc \<subseteq> resolveResolutionSelection df ` set ss"
    using effective_fold [of "[]" df ss] by simp
  then have "map sel_key (map snd ?acc) = map fst ?acc" by auto
  then have "distinct (map sel_key (getEffectiveResolutionSelections df ss))"
    using f unfolding getEffectiveResolutionSelections_def by metis
  moreover have "\<not> (\<exists>e \<in> snd ` set ?acc. \<exists>e' \<in> snd ` set ?acc. mixed e e')"
    by (rule effective_fold_mixed) simp
  moreover have "resolveResolutionSelection df s \<in> snd ` set (add_effective df ?acc s)"
    using f by (intro effective_step(3)) auto
  ultimately show ?thesis using f by (simp add: getEffectiveResolutionSelections_def)
qed

section \<open>Witnesses\<close>

definition entry_of :: "string \<Rightarrow> sync_value \<Rightarrow> RatioDifferenceEntry" where
  "entry_of src v = \<lparr>rd_current = None, rd_upstreams = [(js src, Some v)], rd_confidence = []\<rparr>"

definition sample_diffs :: "(jsstr, RatioTypes) jsmap" where
  "sample_diffs = [(js ''m'', [(js ''model_ratio'', entry_of ''A'' (VNum (Fin 2))),
     (MODEL_PRICE, entry_of ''B'' (VNum (Fin 1))), (BILLING_EXPR, entry_of ''C'' (VStr (js ''p'')))])]"

definition pick :: "jsstr \<Rightarrow> sync_value \<Rightarrow> string \<Rightarrow> ResolutionSelection" where
  "pick f v src = \<lparr>sel_model = js ''m'', sel_ratioType = f, sel_value = v, sel_sourceName = js src\<rparr>"

definition fetched :: SyncState where
  "fetched = fetch_succeeded sample_diffs initial_sync"

definition picked :: SyncState where
  "picked = handleSelectValue (pick MODEL_PRICE (VNum (Fin 1)) ''B'')
     (handleSelectValue (pick (js ''model_ratio'') (VNum (Fin 2)) ''A'') fetched)"

lemma picked_reachable: "reachable_sync picked"
proof -
  have "reachable_sync fetched" unfolding fetched_def by (rule step [OF start]) (rule fetch)
  moreover have "offered fetched (pick (js ''model_ratio'') (VNum (Fin 2)) ''A'')" by code_simp
  moreover have "offered (handleSelectValue (pick (js ''model_ratio'') (VNum (Fin 2)) ''A'') fetched)
      (pick MODEL_PRICE (VNum (Fin 1)) ''B'')" by code_simp
  ultimately show ?thesis unfolding picked_def by (blast intro: step select)
qed

lemma picked_resolution: "ss_resolutions picked = [(js ''m'', [(MODEL_PRICE, VNum (Fin 1))])]"
  by code_simp

lemma sync_page_invariant_witness:
  "reachable_sync picked \<and> map_of (ss_resolutions picked) (js ''m'') = Some [(MODEL_PRICE, VNum (Fin 1))] \<and>
   fst ` set [(MODEL_PRICE, VNum (Fin 1))] \<subseteq> set SYNC_FIELD_ORDER \<and>
   set RATIO_SYNC_FIELDS \<inter> fst ` set [(MODEL_PRICE, VNum (Fin 1))] = {}"
proof -
  have "map_of (ss_resolutions picked) (js ''m'') = Some [(MODEL_PRICE, VNum (Fin 1))]"
    by (simp add: picked_resolution)
  from sync_page_invariant [OF picked_reachable this] this picked_reachable show ?thesis by auto
qed

lemma selection_shown_witness:
  "isSelectedResolutionValue (applyResolutionSelection [] sample_diffs (pick MODEL_PRICE (VNum (Fin 1)) ''B''))
     (js ''m'') MODEL_PRICE (Some (VNum (Fin 1)))"
proof -
  let ?s = "pick MODEL_PRICE (VNum (Fin 1)) ''B''"
  let ?m = "model_diffs sample_diffs (js ''m'')"
  have 1: "map_of sample_diffs (sel_model ?s) = Some ?m" by code_simp
  have 2: "upstream_value ?m (sel_ratioType ?s) (sel_sourceName ?s) = Some (sel_value ?s)" by code_simp
  have 3: "isSelectableUpstreamValue (Some (sel_value ?s))" by code_simp
  have 4: "comparable (final_type sample_diffs ?s) (final_value sample_diffs ?s)" by code_simp
  have 5: "final_type sample_diffs ?s = MODEL_PRICE" "sel_model ?s = js ''m''"
    "upstream_value ?m MODEL_PRICE (sel_sourceName ?s) = Some (VNum (Fin 1))" by code_simp+
  show ?thesis using selection_shown [OF 1 2 3 4, of "[]"] unfolding 5 .
qed

lemma unselect_undoes_select_witness:
  "view (deleteResolutionField (applyResolutionSelection [] sample_diffs (pick BILLING_EXPR (VStr (js ''p'')) ''C''))
     (js ''m'') BILLING_EXPR) (js ''m'') = []"
proof -
  let ?s = "pick BILLING_EXPR (VStr (js ''p'')) ''C''"
  have 1: "view [] (sel_model ?s) = []" by simp
  have 2: "map_of sample_diffs (sel_model ?s) \<noteq> None" by code_simp
  have 3: "final_type sample_diffs ?s = BILLING_EXPR" "sel_model ?s = js ''m''" by code_simp+
  show ?thesis using unselect_undoes_select [OF 1 2, of "js ''m''"] unfolding 3 by simp
qed

definition ratio_settings :: ParsedRatios where
  "ratio_settings k = (if k = js ''ModelRatio'' then [(js ''m'', VNum (Fin 3))] else [])"

lemma sync_saves_resolutions_witness:
  "\<exists>fin. finalRatios ratio_settings (ss_resolutions picked) = Inr fin \<and>
     saved fin MODEL_PRICE (js ''m'') = Some (VNum (Fin 1)) \<and> saved fin (js ''model_ratio'') (js ''m'') = None"
proof -
  have o1: "outcome (ss_resolutions picked) MODEL_PRICE (js ''m'')
      (map_of (ratio_settings (optionKeyBySyncField MODEL_PRICE)) (js ''m'')) = Some (VNum (Fin 1))" by code_simp
  have o2: "outcome (ss_resolutions picked) (js ''model_ratio'') (js ''m'')
      (map_of (ratio_settings (optionKeyBySyncField (js ''model_ratio''))) (js ''m'')) = None" by code_simp
  have f: "MODEL_PRICE \<in> set SYNC_FIELD_ORDER" "js ''model_ratio'' \<in> set SYNC_FIELD_ORDER" by code_simp+
  from sync_saves_resolutions [OF picked_reachable, of ratio_settings "js ''m''"] o1 o2 f show ?thesis by force
qed

definition price_settings :: ParsedRatios where
  "price_settings k = (if k = js ''ModelPrice'' then [(js ''m'', VNum (Fin 3))] else [])"

lemma sync_without_asking_witness:
  "snd (handleApplySync (\<lambda>s. s) price_settings picked) \<and>
   (\<exists>fin. finalRatios price_settings (ss_resolutions picked) = Inr fin \<and>
     getLocalBillingCategory (js ''m'') (saved_options fin) = Some CatPrice)"
proof -
  have a: "snd (handleApplySync (\<lambda>s. s) price_settings picked)" by code_simp
  have c: "getLocalBillingCategory (js ''m'') price_settings = Some CatPrice" by code_simp
  obtain fin where f: "finalRatios price_settings (ss_resolutions picked) = Inr fin"
    using saves [OF picked_reachable] by blast
  from sync_without_asking [OF picked_reachable a f c] a f show ?thesis by blast
qed

end
