(* ===== verification/Channel_Mapping.thy ===== *)
theory Channel_Mapping
  imports Js_Json
begin

text \<open>
  The two JSON mappings of a channel: model redirects
  (\<open>src/web/default/src/features/channels/lib/model-mapping-validation.ts\<close>) and status code
  redirects (\<open>src/web/default/src/features/channels/lib/status-code-risk-guard.ts\<close>). Their
  texts are parsed by the model of \<open>JSON.parse\<close>, so malformed texts are part of the model.
\<close>

section \<open>Reading a mapping\<close>

text \<open>\<open>JSON.parse\<close> in a \<open>try\<close> block, and the test that the value is an object and no array.\<close>

definition parsed_object :: "jsstr \<Rightarrow> (jsstr \<times> json) list option" where
  "parsed_object text =
     (case json_parse text of
        None \<Rightarrow> None
      | Some v \<Rightarrow> (case v of JObj ps \<Rightarrow> Some ps | _ \<Rightarrow> None))"

section \<open>Model mapping\<close>

definition parseModelsString :: "jsstr \<Rightarrow> jsstr list" where
  "parseModelsString modelsStr = (if modelsStr = [] then [] else truthy_strs (map trim (split_on 44 modelsStr)))"

definition formatModelsArray :: "jsstr list \<Rightarrow> jsstr" where
  "formatModelsArray models = join [44] (uniq models)"

definition normalizeModelName :: "jsstr \<Rightarrow> jsstr" where
  "normalizeModelName model = trim model"

definition extractMappingSourceModels :: "jsstr \<Rightarrow> jsstr list" where
  "extractMappingSourceModels modelMapping =
     (let trimmed = trim modelMapping in
      if trimmed = [] then []
      else case parsed_object trimmed of
          None \<Rightarrow> []
        | Some ps \<Rightarrow> uniq (truthy_strs (map trim (obj_keys ps))))"

definition string_value :: "json \<Rightarrow> jsstr option" where
  "string_value v = (case v of JStr s \<Rightarrow> Some (trim s) | _ \<Rightarrow> None)"

definition extractRedirectModels :: "jsstr \<Rightarrow> jsstr list" where
  "extractRedirectModels modelMapping =
     (let trimmed = trim modelMapping in
      if trimmed = [] then []
      else case parsed_object trimmed of
          None \<Rightarrow> []
        | Some ps \<Rightarrow> uniq (truthy_strs (List.map_filter string_value (obj_values ps))))"

fun lists_differ :: "jsstr list \<Rightarrow> jsstr list \<Rightarrow> bool" where
  "lists_differ (x # xs) (y # ys) = (if x \<noteq> y then True else lists_differ xs ys)"
| "lists_differ _ _ = False"

definition hasModelConfigChanged :: "jsstr list \<Rightarrow> jsstr \<Rightarrow> jsstr list \<Rightarrow> jsstr \<Rightarrow> bool" where
  "hasModelConfigChanged currentModels currentModelMapping initialModels initialModelMapping =
     (if length initialModels = 0 \<and> initialModelMapping = [] then True
      else if length currentModels \<noteq> length initialModels then True
      else if lists_differ currentModels initialModels then True
      else trim currentModelMapping \<noteq> trim initialModelMapping)"

definition findMissingModelsInMapping :: "jsstr \<Rightarrow> jsstr list \<Rightarrow> jsstr list" where
  "findMissingModelsInMapping modelMapping currentModels =
     (if modelMapping = [] \<or> trim modelMapping = [] then []
      else case parsed_object modelMapping of
          None \<Rightarrow> []
        | Some ps \<Rightarrow>
            (let modelSet = map normalizeModelName currentModels in
             uniq (filter (\<lambda>key. key \<noteq> [] \<and> key \<notin> set modelSet) (map normalizeModelName (obj_keys ps)))))"

datatype mapping_check = Valid | NotAnObject | NotStrings | NotJson

definition validateModelMappingJson :: "jsstr \<Rightarrow> mapping_check" where
  "validateModelMappingJson modelMapping =
     (if modelMapping = [] \<or> trim modelMapping = [] then Valid
      else case json_parse modelMapping of
          None \<Rightarrow> NotJson
        | Some v \<Rightarrow>
            (case v of
               JObj ps \<Rightarrow> if list_ex (\<lambda>x. \<not> (case x of JStr s \<Rightarrow> True | _ \<Rightarrow> False)) (obj_values ps)
                 then NotStrings else Valid
             | _ \<Rightarrow> NotAnObject))"

definition findExposedTargetModels :: "jsstr \<Rightarrow> jsstr list \<Rightarrow> jsstr list" where
  "findExposedTargetModels modelMapping currentModels =
     (let redirectModels = extractRedirectModels modelMapping in
      if length redirectModels = 0 then []
      else
        (let modelSet = map normalizeModelName currentModels in
         filter (\<lambda>model. normalizeModelName model \<in> set modelSet) redirectModels))"

record ModelCategories =
  mc_normalizedCurrentModels :: "jsstr list"
  mc_normalizedRedirectModels :: "jsstr list"
  mc_classificationSet :: "jsstr list"
  mc_redirectOnlySet :: "jsstr list"

definition categorizeModelsWithRedirect :: "jsstr list \<Rightarrow> jsstr list \<Rightarrow> ModelCategories" where
  "categorizeModelsWithRedirect currentModels redirectModels =
     (let cur = uniq (truthy_strs (map normalizeModelName currentModels));
          red = uniq (truthy_strs (map normalizeModelName redirectModels)) in
      \<lparr>mc_normalizedCurrentModels = cur, mc_normalizedRedirectModels = red,
       mc_classificationSet = uniq (cur @ red),
       mc_redirectOnlySet = filter (\<lambda>m. m \<notin> set cur) red\<rparr>)"

section \<open>Status code mapping\<close>

definition NON_REDIRECTABLE_STATUS_CODES :: "nat list" where
  "NON_REDIRECTABLE_STATUS_CODES = [504, 524]"

text \<open>\<open>/^[1-5]\d{2}$/\<close>\<close>

definition three_digit_code :: "jsstr \<Rightarrow> bool" where
  "three_digit_code s =
     (case s of [a, b, c] \<Rightarrow> 49 \<le> a \<and> a \<le> 53 \<and> is_digit b \<and> is_digit c | _ \<Rightarrow> False)"

definition parseStatusCodeKey :: "jsstr \<Rightarrow> nat option" where
  "parseStatusCodeKey rawKey =
     (let normalized = trim rawKey in
      if \<not> three_digit_code normalized then None else Some (digits_val normalized))"

definition parseStatusCodeMappingTarget :: "json \<Rightarrow> nat option" where
  "parseStatusCodeMappingTarget rawValue =
     (case rawValue of
        JNum x \<Rightarrow>
          if is_integer x then
            (if js_le (Fin 100) x \<and> js_le x (Fin 599) then Some (nat \<lfloor>num_val x\<rfloor>) else None)
          else None
      | JStr s \<Rightarrow>
          (let normalized = trim s in
           if \<not> three_digit_code normalized then None
           else
             (let code = digits_val normalized in
              if 100 \<le> code \<and> code \<le> 599 then Some code else None))
      | _ \<Rightarrow> None)"

definition entry_text :: "jsstr \<times> json \<Rightarrow> jsstr" where
  "entry_text p = fst p @ js '' '' @ [8594] @ js '' '' @ json_string (snd p)"

definition invalid_entry :: "jsstr \<times> json \<Rightarrow> bool" where
  "invalid_entry p \<longleftrightarrow> parseStatusCodeKey (fst p) = None \<or> parseStatusCodeMappingTarget (snd p) = None"

definition collectInvalidStatusCodeEntries :: "jsstr \<Rightarrow> jsstr list" where
  "collectInvalidStatusCodeEntries text =
     (if trim text = [] then []
      else case parsed_object text of
          None \<Rightarrow> []
        | Some ps \<Rightarrow> map entry_text (filter invalid_entry (obj_entries ps)))"

definition risky_mapping :: "jsstr \<times> json \<Rightarrow> jsstr list" where
  "risky_mapping p =
     (case (parseStatusCodeKey (fst p), parseStatusCodeMappingTarget (snd p)) of
        (Some fromCode, Some toCode) \<Rightarrow>
          if fromCode \<notin> set NON_REDIRECTABLE_STATUS_CODES then []
          else if fromCode = toCode then []
          else [nat_str fromCode @ js '' -> '' @ nat_str toCode]
      | _ \<Rightarrow> [])"

text \<open>\<open>sort()\<close> without a comparison function orders strings by their code units.\<close>

fun str_le :: "jsstr \<Rightarrow> jsstr \<Rightarrow> bool" where
  "str_le [] t = True"
| "str_le (c # s) [] = False"
| "str_le (c # s) (d # t) = (c < d \<or> c = d \<and> str_le s t)"

definition collectDisallowedStatusCodeRedirects :: "jsstr \<Rightarrow> jsstr list" where
  "collectDisallowedStatusCodeRedirects text =
     (if trim text = [] then []
      else case parsed_object text of
          None \<Rightarrow> []
        | Some ps \<Rightarrow> js_sort str_le (uniq (concat (map risky_mapping (obj_entries ps)))))"

definition collectNewDisallowedStatusCodeRedirects :: "jsstr \<Rightarrow> jsstr \<Rightarrow> jsstr list" where
  "collectNewDisallowedStatusCodeRedirects originalStr currentStr =
     (let currentRisky = collectDisallowedStatusCodeRedirects currentStr in
      if length currentRisky = 0 then []
      else
        (let originalRiskySet = collectDisallowedStatusCodeRedirects originalStr in
         filter (\<lambda>mapping. mapping \<notin> set originalRiskySet) currentRisky))"

interpretation code_units: js_comparator str_le
proof
  show "str_le x y \<or> str_le y x" for x y by (induction x y rule: str_le.induct) auto
  show "str_le x z" if "str_le x y" "str_le y z" for x y z
    using that
  proof (induction x y arbitrary: z rule: str_le.induct)
    case (3 c s d t)
    then show ?case by (cases z) auto
  qed auto
qed

section \<open>Lemmas\<close>

lemma number_token_head: "number_token (c # r) = Some x \<Longrightarrow> c = 45 \<or> is_digit c"
  by (auto simp: number_token_def eat_digits_def Let_def split: if_splits option.splits)

lemma json_head_not_ws: "c \<in> {34, 91, 123, 116, 102, 110, 45} \<or> is_digit c \<Longrightarrow> \<not> is_ws c"
  by (auto simp: is_ws_def is_digit_def)

lemma json_text_not_blank:
  assumes "json_parse s = Some v"
  shows "trim s \<noteq> []"
proof -
  from assms obtain r where r: "json_value (Suc (2 * length s)) s = Some (v, r)"
    unfolding json_parse_def by (auto simp del: json_value.simps split: option.splits if_splits)
  then obtain c t where c: "skip_ws s = c # t" by (cases "skip_ws s") auto
  with r have "c \<in> {34, 91, 123, 116, 102, 110, 45} \<or> is_digit c"
    by (auto split: if_splits dest: number_token_head)
  then have "\<not> is_ws c" by (rule json_head_not_ws)
  moreover have "c \<in> set s" using c by (metis list.set_intros(1) set_dropWhileD skip_ws_def)
  ultimately show ?thesis by (auto simp: trim_eq_Nil)
qed

lemma parsed_object_not_blank: "parsed_object s = Some ps \<Longrightarrow> trim s \<noteq> []"
  using json_text_not_blank by (auto simp: parsed_object_def split: option.splits)

lemma trimmed_redirects: "r \<in> set (extractRedirectModels mm) \<Longrightarrow> trim r = r"
  by (auto simp: extractRedirectModels_def truthy_strs_def string_value_def Let_def map_filter_def
      split: if_splits option.splits json.splits)

lemma exposed_set: "set (findExposedTargetModels mm cur) = set (extractRedirectModels mm) \<inter> trim ` set cur"
  using trimmed_redirects
  by (auto simp: findExposedTargetModels_def Let_def normalizeModelName_def image_iff)

lemma three_digit_range:
  assumes "three_digit_code s"
  shows "100 \<le> digits_val s \<and> digits_val s \<le> 599"
proof -
  obtain a b c where s: "s = [a, b, c]" and d: "49 \<le> a" "a \<le> 53" "is_digit b" "is_digit c"
    using assms by (auto simp: three_digit_code_def split: list.splits)
  have "digits_val s = 100 * (a - 48) + 10 * (b - 48) + (c - 48)" by (simp add: s digits_val_def)
  with d show ?thesis by (auto simp: is_digit_def)
qed

lemma status_key_range: "parseStatusCodeKey k = Some a \<Longrightarrow> 100 \<le> a \<and> a \<le> 599"
  by (auto simp: parseStatusCodeKey_def Let_def three_digit_range split: if_splits)

lemma status_target_range: "parseStatusCodeMappingTarget v = Some b \<Longrightarrow> 100 \<le> b \<and> b \<le> 599"
  by (auto simp: parseStatusCodeMappingTarget_def Let_def js_le_def is_integer_def le_nat_iff nat_le_iff le_floor_iff
      floor_le_iff split: json.splits if_splits)

section \<open>Properties\<close>

lemma missing_set:
  "set (findMissingModelsInMapping mm cur) =
     (case parsed_object mm of None \<Rightarrow> {} | Some ps \<Rightarrow> trim ` fst ` set ps - {[]} - trim ` set cur)"
  using parsed_object_not_blank [of mm]
  by (auto simp: findMissingModelsInMapping_def normalizeModelName_def Let_def image_image split: option.splits)

text \<open>C31: The models that are reported as missing from the list of a channel are exactly the non-blank
  sources of the mapping that are not listed, each once; and if they are added to the list, which
  is the repair that the channel form offers, none is missing any more.\<close>

theorem model_list_repair:
  "distinct (findMissingModelsInMapping mm cur) \<and>
   set (findMissingModelsInMapping mm cur) =
     (case parsed_object mm of None \<Rightarrow> {} | Some ps \<Rightarrow> trim ` fst ` set ps - {[]} - trim ` set cur) \<and>
   findMissingModelsInMapping mm (uniq (cur @ findMissingModelsInMapping mm cur)) = []"
proof -
  have "set (findMissingModelsInMapping mm (uniq (cur @ findMissingModelsInMapping mm cur))) = {}"
  proof (cases "parsed_object mm")
    case (Some ps)
    define M where "M = trim ` fst ` set ps - {[]} - trim ` set cur"
    have "trim x = x" if "x \<in> M" for x using that unfolding M_def by (elim DiffE imageE) simp
    then have "trim ` M = (\<lambda>x. x) ` M" by (intro image_cong) auto
    then have "trim ` M = M" by simp
    moreover have "set (findMissingModelsInMapping mm cur) = M" by (simp add: missing_set Some M_def)
    ultimately show ?thesis
      unfolding missing_set [of _ "uniq _"] Some option.case set_uniq set_append image_Un by (simp add: M_def)
  qed (simp add: missing_set)
  moreover have "distinct (findMissingModelsInMapping mm cur)"
    by (simp add: findMissingModelsInMapping_def Let_def split: option.splits)
  ultimately show ?thesis using missing_set [of mm cur] by (intro conjI) (simp_all only: set_empty)
qed

text \<open>The exposed targets are exactly the redirect targets that are listed as models.\<close>

theorem exposed_targets: "set (findExposedTargetModels mm cur) = set (extractRedirectModels mm) \<inter> trim ` set cur"
  by (rule exposed_set)

text \<open>C32: A status code mapping without invalid and without disallowed entries is safe: every entry
  maps a code from 100 to 599 to such a code, and a gateway timeout (504, 524) only to itself.\<close>

theorem status_mapping_safe:
  assumes "parsed_object text = Some ps" and "(k, v) \<in> set ps"
    and "collectInvalidStatusCodeEntries text = []" and "collectDisallowedStatusCodeRedirects text = []"
  shows "\<exists>a b. parseStatusCodeKey k = Some a \<and> parseStatusCodeMappingTarget v = Some b \<and>
    100 \<le> a \<and> a \<le> 599 \<and> 100 \<le> b \<and> b \<le> 599 \<and> (a = 504 \<or> a = 524 \<longrightarrow> b = a)"
proof -
  have t: "trim text \<noteq> []" by (rule parsed_object_not_blank [OF assms(1)])
  have "\<not> invalid_entry (k, v)"
    using assms t by (auto simp: collectInvalidStatusCodeEntries_def filter_empty_conv)
  then obtain a b where ab: "parseStatusCodeKey k = Some a" "parseStatusCodeMappingTarget v = Some b"
    by (auto simp: invalid_entry_def)
  have "risky_mapping (k, v) = []"
    using assms t by (force simp: collectDisallowedStatusCodeRedirects_def)
  then have "a = 504 \<or> a = 524 \<longrightarrow> b = a"
    by (auto simp: risky_mapping_def ab NON_REDIRECTABLE_STATUS_CODES_def split: if_splits)
  with ab status_key_range [OF ab(1)] status_target_range [OF ab(2)] show ?thesis by auto
qed

lemma status_mapping_safe_witness:
  "\<exists>a b. parseStatusCodeKey (js ''504'') = Some a \<and> parseStatusCodeMappingTarget (JStr (js ''504'')) = Some b \<and>
     (a = 504 \<or> a = 524 \<longrightarrow> b = a)"
proof -
  let ?t = "js ''{\"504\": \"504\"}''"
  have 1: "parsed_object ?t = Some [(js ''504'', JStr (js ''504''))]" by code_simp
  have 2: "(js ''504'', JStr (js ''504'')) \<in> set [(js ''504'', JStr (js ''504''))]" by simp
  have 3: "collectInvalidStatusCodeEntries ?t = []" by code_simp
  have 4: "collectDisallowedStatusCodeRedirects ?t = []" by code_simp
  from status_mapping_safe [OF 1 2 3 4] show ?thesis by blast
qed

text \<open>The warning before saving lists exactly the disallowed redirects that the stored mapping did
  not have, each once and in the order of their texts.\<close>

theorem status_mapping_new_risks:
  "set (collectNewDisallowedStatusCodeRedirects old cur) =
     set (collectDisallowedStatusCodeRedirects cur) - set (collectDisallowedStatusCodeRedirects old) \<and>
   distinct (collectNewDisallowedStatusCodeRedirects old cur) \<and>
   sorted_wrt str_le (collectNewDisallowedStatusCodeRedirects old cur)"
proof -
  have d: "distinct (collectDisallowedStatusCodeRedirects t) \<and> sorted_wrt str_le (collectDisallowedStatusCodeRedirects t)" for t
    by (simp add: collectDisallowedStatusCodeRedirects_def code_units.sorted_js_sort split: option.splits)
  then show ?thesis
    by (auto simp: collectNewDisallowedStatusCodeRedirects_def Let_def sorted_wrt_filter)
qed

end
