(* ===== verification/Js_Rounding.thy ===== *)
theory Js_Rounding
  imports Js_Number
begin

text \<open>
  How far binary64 rounding moves a number, and what that means for amounts of money: the
  double nearest to a whole number of cents (\<open>cents\<close>) is ordered like the cents, and
  \<open>Math.round(x * 100) / 100\<close> of a difference is the double of the exact difference.
\<close>

section \<open>Math functions\<close>

text \<open>\<open>Math.round\<close> rounds ties up; a result of zero keeps the sign of a negative argument.\<close>

definition math_round :: "jsnum \<Rightarrow> jsnum" where
  "math_round x =
     (case x of
        Fin r \<Rightarrow> (let f = \<lfloor>r + 1 / 2\<rfloor> in if f = 0 \<and> r < 0 then NegZero else Fin (of_int f))
      | _ \<Rightarrow> x)"

text \<open>\<open>Math.min\<close> and \<open>Math.max\<close> of two numbers: NaN if one is, and \<open>-0\<close> below \<open>0\<close>.\<close>

definition math_max :: "jsnum \<Rightarrow> jsnum \<Rightarrow> jsnum" where
  "math_max x y =
     (if x = NaN \<or> y = NaN then NaN
      else if js_num_eq x y then (if is_neg x then y else x)
      else if js_lt x y then y else x)"

definition math_min :: "jsnum \<Rightarrow> jsnum \<Rightarrow> jsnum" where
  "math_min x y =
     (if x = NaN \<or> y = NaN then NaN
      else if js_num_eq x y then (if is_neg x then x else y)
      else if js_lt x y then x else y)"

lemma math_max_Fin [simp]: "math_max (Fin a) (Fin b) = Fin (max a b)"
  by (auto simp: math_max_def max_def)

lemma math_min_Fin [simp]: "math_min (Fin a) (Fin b) = Fin (min a b)"
  by (auto simp: math_min_def min_def)

lemma js_sub_Fin [simp]: "js_sub (Fin a) (Fin b) = rnd (a - b)"
  by (auto simp: js_sub_def js_add_def)

lemma rnd_0 [simp]: "rnd 0 = Fin 0"
  by (simp add: rnd_def rnd_ulp_def)

lemma js_mul_nonneg: "0 \<le> a \<Longrightarrow> 0 \<le> b \<Longrightarrow> js_mul (Fin a) (Fin b) = rnd (a * b)"
  by (auto simp: js_mul_def num_zero_def)

lemma js_div_nonneg: "0 \<le> a \<Longrightarrow> 0 < b \<Longrightarrow> js_div (Fin a) (Fin b) = rnd (a / b)"
  by (auto simp: js_div_def num_zero_def)

section \<open>The error of rounding\<close>

lemma round_half_even_near: "\<bar>of_int (round_half_even q) - q\<bar> \<le> 1 / 2"
proof -
  have "of_int \<lfloor>q\<rfloor> \<le> q" "q < of_int \<lfloor>q\<rfloor> + 1" by linarith+
  then show ?thesis unfolding round_half_even_def Let_def abs_le_iff by simp linarith
qed

lemma half_ulp:
  assumes "0 < r"
  shows "2 powi ulp_exp r / 2 \<le> r / 2 ^ 53 + 1 / 2 ^ 1075"
proof (cases "ilog2 r - 52 \<ge> - 1074")
  case True
  have "(2::rat) powi (ilog2 r - 52) = 2 powi ilog2 r / 2 ^ 52" by (simp add: power_int_diff)
  also have "\<dots> \<le> r / 2 ^ 52" using ilog2_bounds(1) [OF assms] by (intro divide_right_mono) auto
  finally have "2 powi ulp_exp r / 2 \<le> r / 2 ^ 53" using True by (simp add: ulp_exp_def)
  moreover have "(0::rat) \<le> 1 / 2 ^ 1075" by simp
  ultimately show ?thesis by linarith
next
  case False
  then have "ulp_exp r = - 1074" by (simp add: ulp_exp_def)
  then have "(2::rat) powi ulp_exp r / 2 = 1 / 2 ^ 1075" by (simp add: power_int_minus field_simps)
  then show ?thesis using assms by simp
qed

text \<open>The multiple of the last place nearest to a positive \<open>r\<close>.\<close>

definition rounded :: "rat \<Rightarrow> rat" where
  "rounded r = of_int (round_half_even (r / 2 powi ulp_exp r)) * 2 powi ulp_exp r"

lemma rounded_near:
  assumes "0 < r"
  shows "\<bar>rounded r - r\<bar> \<le> r / 2 ^ 53 + 1 / 2 ^ 60" "0 \<le> rounded r"
proof -
  define e where "e = ulp_exp r"
  define m where "m = round_half_even (r / 2 powi e)"
  have v: "rounded r = rat_of_int m * 2 powi e" by (simp add: rounded_def m_def e_def)
  have p: "(0::rat) < 2 powi e" by simp
  have "rounded r - r = (of_int m - r / 2 powi e) * 2 powi e" by (simp add: v left_diff_distrib)
  then have "\<bar>rounded r - r\<bar> = \<bar>of_int m - r / 2 powi e\<bar> * 2 powi e" by (simp add: abs_mult)
  also have "\<dots> \<le> 1 / 2 * 2 powi e" unfolding m_def
    using round_half_even_near p by (intro mult_right_mono) auto
  finally have "\<bar>rounded r - r\<bar> \<le> r / 2 ^ 53 + 1 / 2 ^ 1075" using half_ulp [OF assms] by (simp add: e_def)
  moreover have "(1::rat) / 2 ^ 1075 \<le> 1 / 2 ^ 60" by (intro divide_left_mono power_increasing) auto
  ultimately show "\<bar>rounded r - r\<bar> \<le> r / 2 ^ 53 + 1 / 2 ^ 60" by linarith
  have "(0::rat) \<le> r / 2 powi e" using assms p by simp
  then have "0 \<le> m" using round_half_even_near [of "r / 2 powi e"] unfolding m_def by linarith
  then show "0 \<le> rounded r" using p by (simp add: v)
qed

lemma rounded_no_overflow:
  assumes "0 < r" and "r \<le> 2 ^ 60"
  shows "rounded r < 2 ^ 1024"
proof -
  have "(1::rat) / 2 ^ 60 \<le> 1" "r / 2 ^ 53 \<le> r" using assms(1) by (simp_all add: field_simps)
  then have "rounded r \<le> 2 ^ 62" using rounded_near(1) [OF assms(1)] assms(2) by (auto simp: abs_le_iff)
  moreover have "(2::rat) ^ 62 < 2 ^ 1024" by (rule power_strict_increasing) auto
  ultimately show ?thesis by linarith
qed

text \<open>Below the overflow threshold, and so evaluated without it.\<close>

definition rnd_small :: "rat \<Rightarrow> jsnum" where
  "rnd_small r =
     (if r = 0 then Fin 0
      else (let v = rounded \<bar>r\<bar> in if v = 0 then num_zero (r < 0) else Fin (sgn r * v)))"

lemma rnd_small: "\<bar>r\<bar> \<le> 2 ^ 60 \<Longrightarrow> rnd r = rnd_small r"
proof (cases "r = 0")
  case False
  assume "\<bar>r\<bar> \<le> 2 ^ 60"
  then have "rounded \<bar>r\<bar> < 2 ^ 1024" using False by (intro rounded_no_overflow) auto
  moreover have "rounded \<bar>r\<bar> = 0 \<longleftrightarrow> round_half_even (\<bar>r\<bar> / 2 powi ulp_exp \<bar>r\<bar>) = 0" by (simp add: rounded_def)
  ultimately show ?thesis using False
    by (simp add: rnd_def rnd_ulp_def rnd_small_def Let_def rounded_def)
qed (simp add: rnd_small_def)

declare rnd_code [code del]

lemma rnd_code_small [code]:
  "rnd r = (if of_int \<lfloor>r\<rfloor> = r \<and> \<bar>r\<bar> \<le> 2 ^ 53 then Fin r
     else if \<bar>r\<bar> \<le> 2 ^ 60 then rnd_small r else rnd_ulp r)"
  using rnd_code [of r] rnd_small [of r] rnd_def [of r] by metis

lemma rnd_near:
  assumes "0 \<le> r" and "r \<le> 2 ^ 60"
  obtains v where "rnd r = Fin v" "0 \<le> v" "\<bar>v - r\<bar> \<le> r / 2 ^ 53 + 1 / 2 ^ 60"
proof (cases "r = 0")
  case True
  then show ?thesis using that [of 0] by simp
next
  case False
  then have "0 < r" using assms(1) by simp
  moreover from this have "rnd r = Fin (rounded r)"
    using assms(2) by (auto simp: rnd_small rnd_small_def num_zero_def Let_def)
  ultimately show ?thesis using that rounded_near by blast
qed

section \<open>Amounts in cents\<close>

text \<open>The double nearest to \<open>k\<close> cents, for the amounts up to 10000 that occur.\<close>

definition cents :: "nat \<Rightarrow> jsnum" where
  "cents k = rnd (of_nat k / 100)"

lemma rnd_near_small:
  assumes "0 \<le> r" and "r \<le> 10 ^ 9"
  obtains v where "rnd r = Fin v" "0 \<le> v" "v \<le> r + 1 / 1000000" "r \<le> v + 1 / 1000000"
proof -
  have "r \<le> 2 ^ 60" using assms(2) by simp
  with assms(1) obtain v where v: "rnd r = Fin v" "0 \<le> v" "\<bar>v - r\<bar> \<le> r / 2 ^ 53 + 1 / 2 ^ 60"
    by (rule rnd_near)
  have "r / 2 ^ 53 \<le> 10 ^ 9 / 2 ^ 53" using assms(2) by (intro divide_right_mono) auto
  moreover have "(10::rat) ^ 9 / 2 ^ 53 + 1 / 2 ^ 60 \<le> 1 / 1000000" by simp
  ultimately have "\<bar>v - r\<bar> \<le> 1 / 1000000" using v(3) by linarith
  then have "v \<le> r + 1 / 1000000" "r \<le> v + 1 / 1000000" by linarith+
  with that v(1,2) show ?thesis .
qed

lemma cents_near:
  assumes "k \<le> 10 ^ 6"
  obtains v where "cents k = Fin v" "0 \<le> v" "v \<le> of_nat k / 100 + 1 / 1000000" "of_nat k / 100 \<le> v + 1 / 1000000"
proof -
  have "rat_of_nat k \<le> of_nat (10 ^ 6)" using assms by (simp only: of_nat_le_iff)
  then have "rat_of_nat k / 100 \<le> 10 ^ 9" by simp
  then show ?thesis using that rnd_near_small [of "rat_of_nat k / 100"] unfolding cents_def by auto
qed

lemma cents_0 [simp]: "cents 0 = Fin 0"
  by (simp add: cents_def)

lemma cents_whole: "n \<le> 2 ^ 53 \<Longrightarrow> cents (100 * n) = Fin (of_nat n)"
  by (simp add: cents_def)

text \<open>Two amounts differ by at least a cent, far more than rounding moves them.\<close>

lemma nat_gap: "m < k \<Longrightarrow> rat_of_nat m / 100 + 1 / 100 \<le> of_nat k / 100"
proof -
  assume "m < k"
  then have "rat_of_nat (m + 1) \<le> of_nat k" by (simp only: of_nat_le_iff)
  then show ?thesis by simp
qed

lemma cents_le [simp]:
  assumes "m \<le> 10 ^ 6" and "k \<le> 10 ^ 6"
  shows "js_le (cents m) (cents k) \<longleftrightarrow> m \<le> k"
proof -
  obtain v where v: "cents m = Fin v" "v \<le> of_nat m / 100 + 1 / 1000000" "of_nat m / 100 \<le> v + 1 / 1000000" using cents_near [OF assms(1)] .
  obtain w where w: "cents k = Fin w" "w \<le> of_nat k / 100 + 1 / 1000000" "of_nat k / 100 \<le> w + 1 / 1000000" using cents_near [OF assms(2)] .
  consider "m < k" | "m = k" | "k < m" by linarith
  then show ?thesis
  proof cases
    case 1
    then have "v \<le> w" using v w nat_gap [OF 1] by linarith
    with 1 v w show ?thesis by simp
  next
    case 2
    with v w show ?thesis by simp
  next
    case 3
    then have "w < v" using v w nat_gap [OF 3] by linarith
    with 3 v w show ?thesis by simp
  qed
qed

lemma cents_lt [simp]: "m \<le> 10 ^ 6 \<Longrightarrow> k \<le> 10 ^ 6 \<Longrightarrow> js_lt (cents m) (cents k) \<longleftrightarrow> m < k"
  by (auto simp: js_lt_def)

text \<open>\<open>Math.round(x * 100) / 100\<close> of a double near \<open>n\<close> cents is the double of \<open>n\<close> cents.\<close>

lemma round_to_cents:
  assumes "0 \<le> x" and "x \<le> 10 ^ 6" and "x * 100 \<le> of_nat n + 1 / 4" and "of_nat n \<le> x * 100 + 1 / 4"
  shows "js_div (math_round (js_mul (Fin x) (Fin 100))) (Fin 100) = cents n"
proof -
  have pos: "0 \<le> x * 100" "x * 100 \<le> 10 ^ 9" using assms(1,2) by auto
  obtain v where v: "rnd (x * 100) = Fin v" "0 \<le> v" "v \<le> x * 100 + 1 / 1000000" "x * 100 \<le> v + 1 / 1000000"
    using rnd_near_small [OF pos] .
  have mul: "js_mul (Fin x) (Fin 100) = Fin v" using v(1) assms(1) by (simp add: js_mul_nonneg)
  have "of_int (int n) \<le> v + 1 / 2" "v + 1 / 2 < of_int (int n) + 1" unfolding of_int_of_nat_eq
    using v(3,4) assms(3,4) by linarith+
  then have "\<lfloor>v + 1 / 2\<rfloor> = int n" by (intro floor_unique)
  then have "math_round (Fin v) = Fin (of_nat n)" using v(2) by (simp add: math_round_def)
  then show ?thesis using mul by (simp add: js_div_nonneg cents_def)
qed

lemma sub_cents:
  assumes "m \<le> k" and "k \<le> 10 ^ 6"
  shows "js_div (math_round (js_mul (js_sub (cents k) (cents m)) (Fin 100))) (Fin 100) = cents (k - m)"
proof -
  obtain w where w: "cents k = Fin w" "0 \<le> w" "w \<le> of_nat k / 100 + 1 / 1000000" "of_nat k / 100 \<le> w + 1 / 1000000" using cents_near [OF assms(2)] .
  obtain v where v: "cents m = Fin v" "0 \<le> v" "v \<le> of_nat m / 100 + 1 / 1000000" "of_nat m / 100 \<le> v + 1 / 1000000"
    using cents_near [of m] assms by auto
  have "v \<le> w" using cents_le [of m k] assms v w by simp
  have "rat_of_nat k \<le> of_nat (10 ^ 6)" using assms(2) by (simp only: of_nat_le_iff)
  then have k: "rat_of_nat k \<le> 1000000" by simp
  have "w - v \<le> 1000000" using w(3) v(2) k by linarith
  then have "w - v \<le> 10 ^ 9" by simp
  with \<open>v \<le> w\<close> obtain x where x: "rnd (w - v) = Fin x" "0 \<le> x" "x \<le> w - v + 1 / 1000000" "w - v \<le> x + 1 / 1000000"
    using rnd_near_small [of "w - v"] by auto
  have sub: "js_sub (cents k) (cents m) = Fin x" using x(1) v(1) w(1) by simp
  have "rat_of_nat (k - m) = of_nat k - of_nat m" using assms(1) by simp
  then have "x * 100 \<le> of_nat (k - m) + 1 / 4" "of_nat (k - m) \<le> x * 100 + 1 / 4"
    using x(3,4) v(3,4) w(3,4) by linarith+
  moreover have "x \<le> 1000000" using x(3) w(3) v(2) k by linarith
  ultimately show ?thesis using round_to_cents [OF x(2)] sub by simp
qed

end
