(* ===== verification/Demo_Fixtures.thy ===== *)
theory Demo_Fixtures
  imports Js_Values Js_Rounding
begin

text \<open>
  The fictional records of the browser demo (\<open>demo/fixtures.ts\<close>) and the deployment prefix of
  its paths (\<open>lib/deployment-mode.ts\<close>). The environment of the build is a record: the value of
  \<open>VITE_APP_BASE_PATH\<close> and the address the bundler gives the logo.
\<close>

section \<open>Writing numbers\<close>

text \<open>The numeric literal \<open>n / 10 ^ d\<close>.\<close>

definition dec :: "int \<Rightarrow> nat \<Rightarrow> jsnum" where
  "dec n d = rnd (of_int n / 10 ^ d)"

definition jnat :: "nat \<Rightarrow> jsnum" where
  "jnat n = Fin (of_nat n)"

text \<open>\<open>Object.fromEntries\<close>\<close>

definition from_entries :: "(jsstr \<times> json) list \<Rightarrow> json" where
  "from_entries ps = JObj (foldl (\<lambda>m (k, v). AList.update k v m) [] ps)"

section \<open>Deployment mode\<close>

record DemoEnv =
  env_base_path :: "jsstr option"
  env_logo :: jsstr

text \<open>\<open>s.replace(/\/+$/, '')\<close> and \<open>s.replace(/^\/+/, '')\<close>\<close>

definition strip_end_slashes :: "jsstr \<Rightarrow> jsstr" where
  "strip_end_slashes s = rev (dropWhile (\<lambda>c. c = 47) (rev s))"

definition strip_start_slashes :: "jsstr \<Rightarrow> jsstr" where
  "strip_start_slashes s = dropWhile (\<lambda>c. c = 47) s"

definition APP_BASE_PATH :: "DemoEnv \<Rightarrow> jsstr" where
  "APP_BASE_PATH env = str_or (strip_end_slashes (opt_or (env_base_path env) (js ''/''))) (js ''/'')"

definition appPath :: "DemoEnv \<Rightarrow> jsstr \<Rightarrow> jsstr" where
  "appPath env path =
     (if APP_BASE_PATH env = js ''/'' then [] else APP_BASE_PATH env) @ js ''/'' @ strip_start_slashes path"

section \<open>Plans, models and groups\<close>

definition DEMO_QUOTA_PER_USD :: jsnum where
  "DEMO_QUOTA_PER_USD = Fin 500000"

definition DEMO_GROUPS :: "jsstr list" where
  "DEMO_GROUPS = [js ''Free'', js ''Light'', js ''Moderate'', js ''Heavy'', js ''Storm'']"

definition DEMO_MONTH :: jsnum where
  "DEMO_MONTH = Fin (30 * 24 * 60 * 60)"

text \<open>The fields of a plan that differ between the plans; \<open>plan_json\<close> adds the constant ones.\<close>

record DemoPlan =
  pl_id :: jsnum
  pl_title :: jsstr
  pl_price_amount :: jsnum
  pl_sort_order :: jsnum
  pl_total_amount :: jsnum
  pl_five_hour_quota :: jsnum

definition demoPlans :: "DemoPlan list" where
  "demoPlans = map (\<lambda>(index, title).
     \<lparr>pl_id = jnat (index + 1), pl_title = js title,
      pl_price_amount = [Fin 50, Fin 100, Fin 200, Fin 600] ! index,
      pl_sort_order = jnat index,
      pl_total_amount = js_mul ([Fin 10, Fin 25, Fin 70, Fin 250] ! index) DEMO_QUOTA_PER_USD,
      pl_five_hour_quota = js_mul ([Fin 4, Fin 8, Fin 20, Fin 80] ! index) DEMO_QUOTA_PER_USD\<rparr>)
     (enumerate 0 [''Light'', ''Moderate'', ''Heavy'', ''Storm''])"

definition plan_json :: "DemoPlan \<Rightarrow> json" where
  "plan_json p = jobj [(''plan'', jobj
     [(''id'', JNum (pl_id p)), (''title'', JStr (pl_title p)), (''subtitle'', jstr ''''),
      (''price_amount'', JNum (pl_price_amount p)), (''currency'', jstr ''USD''),
      (''duration_unit'', jstr ''month''), (''duration_value'', jint 1),
      (''quota_reset_period'', jstr ''monthly''), (''enabled'', JBool True),
      (''sort_order'', JNum (pl_sort_order p)), (''allow_balance_pay'', JBool True),
      (''allow_wallet_overflow'', JBool True), (''max_purchase_per_user'', jint 0),
      (''total_amount'', JNum (pl_total_amount p)), (''five_hour_quota'', JNum (pl_five_hour_quota p)),
      (''upgrade_group'', JStr (pl_title p)), (''downgrade_group'', jstr ''Free'')])]"

record DemoModel =
  dm_id :: jsnum
  dm_model_name :: jsstr
  dm_icon :: jsstr
  dm_model_ratio :: jsnum
  dm_completion_ratio :: jsnum
  dm_enable_groups :: "jsstr list"
  dm_endpoint :: jsstr

definition demo_model_rows :: "(string \<times> string \<times> string \<times> jsnum \<times> jsnum \<times> nat) list" where
  "demo_model_rows =
    [(''deepseek-v4-flash'', ''DeepSeek'', ''openai'', dec 15 2, dec 3 1, 1),
     (''deepseek-v4-pro'', ''DeepSeek'', ''openai'', dec 3 1, dec 9 1, 1),
     (''glm-5.2'', ''Zhipu'', ''openai'', dec 4 1, dec 12 1, 1),
     (''glm-5.3'', ''Zhipu'', ''openai'', dec 5 1, dec 15 1, 1),
     (''grok-4.6'', ''Grok'', ''openai'', dec 6 1, dec 18 1, 1),
     (''kimi-k3'', ''Moonshot'', ''openai'', dec 5 1, dec 15 1, 2),
     (''kimi-k2.7-code'', ''Moonshot'', ''openai'', dec 4 1, dec 12 1, 2),
     (''qwen-3.8-max'', ''Qwen'', ''anthropic'', dec 4 1, dec 12 1, 2),
     (''gpt-5.6-luna'', ''OpenAI'', ''openai-response'', dec 3 1, dec 12 1, 2),
     (''gpt-5.6-terra'', ''OpenAI'', ''openai-response'', dec 5 1, dec 2 0, 2),
     (''gpt-5.6-sol'', ''OpenAI'', ''openai-response'', dec 8 1, dec 32 1, 2),
     (''gpt-6-astra'', ''OpenAI'', ''openai-response'', dec 15 1, dec 6 0, 3),
     (''claude-opus-4.8'', ''Claude'', ''anthropic'', dec 1 0, dec 5 0, 2),
     (''claude-opus-5'', ''Claude'', ''anthropic'', dec 15 1, dec 75 1, 2),
     (''claude-fable-5.1'', ''Claude'', ''anthropic'', dec 2 0, dec 10 0, 3),
     (''claude-sonnet-5'', ''Claude'', ''anthropic'', dec 6 1, dec 3 0, 2),
     (''mimo-v2.5-pro'', ''Xiaomi'', ''openai'', dec 2 1, dec 6 1, 1)]"

definition demoModels :: "DemoModel list" where
  "demoModels = map (\<lambda>(index, name, icon, endpoint, input, out, tier).
     \<lparr>dm_id = jnat (index + 1), dm_model_name = js name, dm_icon = js icon,
      dm_model_ratio = js_div input (Fin 2), dm_completion_ratio = js_div out input,
      dm_enable_groups = drop tier DEMO_GROUPS, dm_endpoint = js endpoint\<rparr>)
     (enumerate 0 demo_model_rows)"

definition model_fields :: "DemoModel \<Rightarrow> (string \<times> json) list" where
  "model_fields m =
     [(''id'', JNum (dm_id m)), (''model_name'', JStr (dm_model_name m)), (''icon'', JStr (dm_icon m)),
      (''vendor_name'', JStr (dm_icon m)), (''vendor_id'', JNum (dm_id m)), (''vendor_icon'', JStr (dm_icon m)),
      (''quota_type'', jint 0), (''model_ratio'', JNum (dm_model_ratio m)),
      (''completion_ratio'', JNum (dm_completion_ratio m)), (''cache_ratio'', JNum (dec 1 1)),
      (''enable_groups'', JArr (map JStr (dm_enable_groups m))),
      (''supported_endpoint_types'', JArr [JStr (dm_endpoint m)])]"

definition model_json :: "DemoModel \<Rightarrow> json" where
  "model_json m = jobj (model_fields m)"

definition demoGroupProfiles :: "(jsstr \<times> json) list" where
  "demoGroupProfiles = map (\<lambda>(index, name). (name, jobj
     [(''name'', JStr name), (''description'', JStr name), (''is_default'', JBool (index = 0)),
      (''max_requests'', jint ([10, 20, 30, 60, 120] ! index)), (''max_successful_requests'', jint 0),
      (''period_minutes'', jint 1), (''concurrency_limit'', jint ([1, 5, 10, 20, 50] ! index)),
      (''tpm_limit'', jint ([100000, 1000000, 3000000, 6000000, 12000000] ! index))]))
     (enumerate 0 DEMO_GROUPS)"

section \<open>Status and options\<close>

definition demo_announcements :: json where
  "demo_announcements = JArr [jobj
     [(''id'', jstr ''demo-welcome''),
      (''content'', jstr ''Welcome to the SnowAPI demo. All balances, models and purchases are virtual.''),
      (''publishDate'', jstr ''2026-09-17''), (''revision'', jint 1)]]"

definition demo_faq :: json where
  "demo_faq = JArr [jobj
     [(''question'', jstr ''Is this a live account?''),
      (''answer'', jstr ''No. All data and purchases are simulated in your browser.'')]]"

definition demo_api_info :: json where
  "demo_api_info = JArr [jobj
     [(''id'', jstr ''demo-api''), (''url'', jstr ''https://api.example.invalid/v1''), (''route'', jstr ''Demo''),
      (''description'', jstr ''Browser-only demo; no upstream connection.''), (''color'', jstr ''blue'')]]"

definition demo_console_api_info :: json where
  "demo_console_api_info = JArr [jobj
     [(''id'', jstr ''demo-api''), (''route'', jstr ''/v1''), (''url'', jstr ''https://api.example.invalid/v1''),
      (''description'', jstr ''Browser-only demo; no upstream connection.''),
      (''route_description'', jstr ''Demo''), (''color'', jstr ''blue'')]]"

definition console_settings :: "(string \<times> json) list" where
  "console_settings =
     [(''console_setting.api_info'', JStr (json_stringify demo_console_api_info)),
      (''console_setting.faq'', JStr (json_stringify demo_faq)),
      (''console_setting.announcements'', JStr (json_stringify demo_announcements))]"

definition demoStatus :: "DemoEnv \<Rightarrow> json" where
  "demoStatus env = jobj (
     [(''system_name'', jstr ''SnowAPI''), (''logo'', JStr (env_logo env)),
      (''version'', jstr ''snowapi-frontend-demo''), (''setup'', JBool True),
      (''demo_site_enabled'', JBool True), (''display_in_currency'', JBool True),
      (''display_token_stat_enabled'', JBool True), (''quota_display_type'', jstr ''USD''),
      (''quota_per_unit'', JNum DEMO_QUOTA_PER_USD), (''usd_exchange_rate'', jint 1),
      (''password_login_enabled'', JBool True), (''invitation_registration_enabled'', JBool False),
      (''linuxdo_oauth'', JBool False), (''github_oauth'', JBool False), (''discord_oauth'', JBool False),
      (''oidc_enabled'', JBool False), (''telegram_oauth'', JBool False), (''wechat_login'', JBool False),
      (''passkey_login'', JBool False), (''custom_oauth_providers'', JArr []),
      (''turnstile_check'', JBool False), (''checkin_enabled'', JBool False),
      (''user_agreement_enabled'', JBool False), (''privacy_policy_enabled'', JBool False),
      (''server_address'', JStr (appPath env [])), (''minimal_mode_enabled'', JBool True),
      (''api_info_enabled'', JBool True), (''faq_enabled'', JBool True), (''announcements_enabled'', JBool True),
      (''api_info'', demo_api_info), (''faq'', demo_faq), (''announcements'', demo_announcements)] @
     console_settings)"

text \<open>\<open>typeof value === 'object' ? JSON.stringify(value) : String(value)\<close>\<close>

definition option_text :: "json \<Rightarrow> jsstr" where
  "option_text v =
     (case v of
        JNull \<Rightarrow> json_stringify v | JArr xs \<Rightarrow> json_stringify v | JObj ps \<Rightarrow> json_stringify v
      | _ \<Rightarrow> json_string v)"

definition demo_option_values :: "DemoEnv \<Rightarrow> (string \<times> json) list" where
  "demo_option_values env =
     [(''SystemName'', jstr ''SnowAPI''), (''Logo'', JStr (env_logo env)),
      (''ServerAddress'', jstr ''https://demo.unsnow.online/snowapi''),
      (''PasswordLoginEnabled'', JBool True), (''RegisterEnabled'', JBool False),
      (''PasswordRegisterEnabled'', JBool False), (''EmailVerificationEnabled'', JBool False),
      (''DefaultUserGroup'', jstr ''Free''), (''QuotaPerUnit'', JNum DEMO_QUOTA_PER_USD),
      (''DisplayInCurrencyEnabled'', JBool True), (''DisplayTokenStatEnabled'', JBool True),
      (''general_setting.quota_display_type'', jstr ''USD''), (''Price'', jint 10), (''MinTopUp'', jint 1),
      (''GroupRatio'', from_entries (map (\<lambda>g. (g, jint 1)) DEMO_GROUPS)),
      (''GroupPolicies'', from_entries demoGroupProfiles),
      (''ModelRatio'', from_entries (map (\<lambda>m. (dm_model_name m, JNum (dm_model_ratio m))) demoModels)),
      (''CompletionRatio'', from_entries (map (\<lambda>m. (dm_model_name m, JNum (dm_completion_ratio m))) demoModels)),
      (''ModelPrice'', JObj []), (''CacheRatio'', JObj []), (''CreateCacheRatio'', JObj []),
      (''ModelRequestRateLimitEnabled'', JBool False), (''minimal_mode_setting.enabled'', JBool True),
      (''payment_setting.enable'', JBool False),
      (''PayMethods'', JArr [jobj [(''name'', jstr ''LDC''), (''type'', jstr ''epay'')]])] @ console_settings"

definition demoOptions :: "DemoEnv \<Rightarrow> json list" where
  "demoOptions env = map (\<lambda>(key, v). jobj [(''key'', jstr key), (''value'', JStr (option_text v))]) (demo_option_values env)"

section \<open>Channels and usage\<close>

record DemoChannel =
  dc_id :: jsnum
  dc_name :: jsstr
  dc_models :: jsstr
  dc_index :: nat

definition demoChannels :: "DemoChannel list" where
  "demoChannels = map (\<lambda>(index, name).
     \<lparr>dc_id = jnat (index + 1), dc_name = js name,
      dc_models = join (js '','') (map (\<lambda>(i, m). dm_model_name m)
        (filter (\<lambda>(i, m). i mod 3 = index) (enumerate 0 demoModels))),
      dc_index = index\<rparr>)
     (enumerate 0 [''OpenAI Demo'', ''Anthropic Demo'', ''DeepSeek Demo''])"

definition channel_json :: "jsnum \<Rightarrow> DemoChannel \<Rightarrow> json" where
  "channel_json now c = jobj
     [(''id'', JNum (dc_id c)), (''type'', jint 1), (''key'', jstr ''''), (''name'', JStr (dc_name c)),
      (''status'', jint 1), (''priority'', jint 0), (''weight'', jint 1),
      (''created_time'', JNum (js_sub now DEMO_MONTH)), (''test_time'', JNum (js_sub now (Fin 60))),
      (''response_time'', jint (180 + int (dc_index c) * 60)),
      (''base_url'', jstr ''https://upstream.example.invalid''), (''models'', JStr (dc_models c)),
      (''group'', JStr (join (js '','') (drop 1 DEMO_GROUPS))), (''balance'', jint 1000),
      (''balance_updated_time'', JNum (js_sub now (Fin 60))),
      (''used_quota'', JNum (js_mul (Fin 250) DEMO_QUOTA_PER_USD)), (''other'', jstr ''''),
      (''model_mapping'', jstr ''{}''), (''status_code_mapping'', jstr ''{}''), (''setting'', jstr ''{}''),
      (''param_override'', jstr ''{}''), (''header_override'', jstr ''{}''), (''tag'', jstr ''Demo''),
      (''channel_info'', jobj
        [(''is_multi_key'', JBool False), (''multi_key_size'', jint 1),
         (''multi_key_status_list'', JObj []), (''multi_key_mode'', jstr ''random'')])]"

definition usage_other :: jsstr where
  "usage_other = json_stringify (jobj
     [(''model_ratio'', JNum (dec 15 2)), (''completion_ratio'', jint 3), (''cache_tokens'', jint 0),
      (''group_ratio'', jint 1), (''frt'', jint 250)])"

definition usage_fields :: "jsnum \<Rightarrow> nat \<Rightarrow> (string \<times> json) list" where
  "usage_fields now index =
     [(''id'', jint (int index + 1)), (''user_id'', jint 1), (''username'', jstr ''snowapidemo''),
      (''created_at'', JNum (js_sub now (jnat (index * 1200)))), (''type'', jint 2), (''content'', jstr ''''),
      (''model_name'', JStr (dm_model_name (demoModels ! (index mod length demoModels)))),
      (''quota'', jint (400 + int index * 13)), (''prompt_tokens'', jint (1000 + int index * 123)),
      (''completion_tokens'', jint (200 + int index * 17)), (''use_time'', jint (1 + int (index mod 4))),
      (''is_stream'', JBool True), (''token_name'', jstr ''Demo key''), (''token_id'', jint 1),
      (''channel'', jint (int (index mod 3) + 1)), (''channel_name'', jstr ''Demo''), (''group'', jstr ''Light''),
      (''ip'', jstr ''192.0.2.10''), (''request_id'', JStr (js ''demo-request-'' @ nat_str (index + 1))),
      (''other'', JStr usage_other)]"

definition demoUsage :: "jsnum \<Rightarrow> json list" where
  "demoUsage now = map (\<lambda>index. jobj (usage_fields now index)) [0..<72]"

end
