(* ===== verification/Demo_Engine.thy ===== *)
theory Demo_Engine
  imports Demo_Fixtures
begin

text \<open>
  The engine behind the browser demo (\<open>demo/engine.ts\<close>): a state kept in the browser's
  storage, and a \<open>request\<close> that answers the calls of the console. The clock is a sequence of
  readings, one for every call of \<open>this.now()\<close> within a request; whether \<open>setItem\<close> succeeds is
  an argument. Parameters for code outside the repository: the schema check of the validation
  library (\<open>safeParse\<close>), the parser of URLs and the lower-case mapping of strings. A property
  whose value is \<open>undefined\<close> is left out of an object.
\<close>

section \<open>State\<close>

record DemoPurchase =
  dp_id :: jsnum
  dp_planId :: jsnum
  dp_amount :: jsnum
  dp_time :: jsnum

record DemoState =
  ds_authenticated :: bool
  ds_balance :: jsnum
  ds_planId :: jsnum
  ds_startTime :: jsnum
  ds_endTime :: jsnum
  ds_language :: jsstr
  ds_purchases :: "DemoPurchase list"

text \<open>The constraints of \<open>stateSchema\<close>.\<close>

definition purchase_ok :: "DemoPurchase \<Rightarrow> bool" where
  "purchase_ok p \<longleftrightarrow> is_finite (dp_id p) \<and> is_finite (dp_planId p) \<and> is_finite (dp_amount p) \<and>
     js_le (Fin 0) (dp_amount p) \<and> is_finite (dp_time p)"

definition stateSchema :: "DemoState \<Rightarrow> bool" where
  "stateSchema s \<longleftrightarrow>
     is_finite (ds_balance s) \<and> js_le (Fin 0) (ds_balance s) \<and> js_le (ds_balance s) (Fin 10000) \<and>
     is_integer (ds_planId s) \<and> js_le (Fin 0) (ds_planId s) \<and> js_le (ds_planId s) (Fin 4) \<and>
     is_finite (ds_startTime s) \<and> js_le (Fin 0) (ds_startTime s) \<and>
     is_finite (ds_endTime s) \<and> js_le (Fin 0) (ds_endTime s) \<and>
     list_all purchase_ok (ds_purchases s) \<and> length (ds_purchases s) \<le> 100"

definition purchase_json :: "DemoPurchase \<Rightarrow> json" where
  "purchase_json p = jobj
     [(''id'', JNum (dp_id p)), (''planId'', JNum (dp_planId p)), (''amount'', JNum (dp_amount p)),
      (''time'', JNum (dp_time p))]"

definition state_json :: "DemoState \<Rightarrow> json" where
  "state_json s = jobj
     [(''authenticated'', JBool (ds_authenticated s)), (''balance'', JNum (ds_balance s)),
      (''planId'', JNum (ds_planId s)), (''startTime'', JNum (ds_startTime s)),
      (''endTime'', JNum (ds_endTime s)), (''language'', JStr (ds_language s)),
      (''purchases'', JArr (map purchase_json (ds_purchases s)))]"

definition initial_demo :: DemoState where
  "initial_demo =
     \<lparr>ds_authenticated = False, ds_balance = Fin 10000, ds_planId = Fin 0, ds_startTime = Fin 0,
      ds_endTime = Fin 0, ds_language = [], ds_purchases = []\<rparr>"

text \<open>
  The storage: absent, or what \<open>getItem\<close> returns for the engine's key; \<open>Inl\<close> is a \<open>getItem\<close> that
  throws.
\<close>

type_synonym DemoStorage = "(unit + jsstr option) option"

record DemoEngine =
  de_state :: DemoState
  de_storage :: DemoStorage

definition stored_text :: "jsstr option \<Rightarrow> jsstr" where
  "stored_text item = opt_or item (js ''null'')"

definition load_state :: "(json \<Rightarrow> DemoState option) \<Rightarrow> DemoStorage \<Rightarrow> DemoState" where
  "load_state safeParse storage =
     (case storage of
        Some (Inl _) \<Rightarrow> initial_demo
      | _ \<Rightarrow>
          (case json_parse (stored_text (case storage of Some (Inr item) \<Rightarrow> item | _ \<Rightarrow> None)) of
             None \<Rightarrow> initial_demo
           | Some v \<Rightarrow> (case safeParse v of Some s \<Rightarrow> s | None \<Rightarrow> initial_demo)))"

definition new_engine :: "(json \<Rightarrow> DemoState option) \<Rightarrow> DemoStorage \<Rightarrow> DemoEngine" where
  "new_engine safeParse storage = \<lparr>de_state = load_state safeParse storage, de_storage = storage\<rparr>"

text \<open>\<open>save()\<close>; a \<open>setItem\<close> that throws leaves the storage as it is.\<close>

definition save :: "bool \<Rightarrow> DemoEngine \<Rightarrow> DemoEngine" where
  "save write_ok e =
     (case de_storage e of
        Some item \<Rightarrow>
          if write_ok then e\<lparr>de_storage := Some (Inr (Some (json_stringify (state_json (de_state e)))))\<rparr> else e
      | None \<Rightarrow> e)"

section \<open>Plan, profile and subscriptions\<close>

definition find_plan :: "jsnum \<Rightarrow> DemoPlan option" where
  "find_plan n = find (\<lambda>p. js_num_eq (pl_id p) n) demoPlans"

definition activePlan :: "jsnum \<Rightarrow> DemoState \<Rightarrow> DemoPlan option" where
  "activePlan now s = (if js_le (ds_endTime s) now then None else find_plan (ds_planId s))"

definition demo_group :: "DemoPlan option \<Rightarrow> jsstr" where
  "demo_group plan = (case plan of Some p \<Rightarrow> str_or (pl_title p) (js ''Free'') | None \<Rightarrow> js ''Free'')"

definition group_policy :: "jsstr \<Rightarrow> (string \<times> json) list" where
  "group_policy g =
     (case find (\<lambda>(name, v). name = g) demoGroupProfiles of
        Some (name, v) \<Rightarrow> [(''group_policy'', v)] | None \<Rightarrow> [])"

definition profile_subscription :: "DemoState \<Rightarrow> DemoPlan option \<Rightarrow> json" where
  "profile_subscription s plan =
     (case plan of
        None \<Rightarrow> JNull
      | Some p \<Rightarrow> jobj
          [(''subscription_id'', jint 1), (''plan_id'', JNum (pl_id p)), (''plan_title'', JStr (pl_title p)),
           (''source'', jstr ''order''), (''group'', JStr (demo_group plan)),
           (''period_total'', JNum (pl_total_amount p)), (''period_remaining'', JNum (pl_total_amount p)),
           (''five_hour_total'', JNum (pl_five_hour_quota p)),
           (''five_hour_remaining'', JNum (pl_five_hour_quota p)), (''end_time'', JNum (ds_endTime s)),
           (''version'', jint (int (length (ds_purchases s))))])"

definition profile_fields :: "(nat \<Rightarrow> jsnum) \<Rightarrow> nat \<Rightarrow> DemoState \<Rightarrow> (string \<times> json) list" where
  "profile_fields clk i s =
     (let plan = activePlan (clk i) s; grp = demo_group plan in
      [(''id'', jint 1), (''username'', jstr ''snowapidemo''), (''display_name'', jstr ''SnowAPI Demo''),
       (''email'', jstr ''demo@example.invalid''), (''role'', jint 100), (''status'', jint 1),
       (''group'', JStr grp),
       (''quota'', JNum (math_round (js_mul (ds_balance s) DEMO_QUOTA_PER_USD))),
       (''used_quota'', jint 0), (''request_count'', jint 72),
       (''total_topup'', JNum (js_mul (Fin 10000) DEMO_QUOTA_PER_USD)),
       (''created_at'', JNum (js_sub (clk (i + 1)) DEMO_MONTH)),
       (''created_time'', JNum (js_sub (clk (i + 2)) DEMO_MONTH)),
       (''last_login_at'', JNum (clk (i + 3))), (''has_password'', JBool True),
       (''group_expires_at'', JNum (case plan of Some p \<Rightarrow> ds_endTime s | None \<Rightarrow> Fin 0))] @
      group_policy grp @
      [(''setting'', JStr (json_stringify (jobj
          [(''language'', JStr (ds_language s)), (''billing_preference'', jstr ''subscription_first'')]))),
       (''subscription'', profile_subscription s plan)])"

definition profile :: "(nat \<Rightarrow> jsnum) \<Rightarrow> nat \<Rightarrow> DemoState \<Rightarrow> json" where
  "profile clk i s = jobj (profile_fields clk i s)"

definition subscriptions :: "jsnum \<Rightarrow> DemoState \<Rightarrow> json list" where
  "subscriptions now s =
     (case activePlan now s of
        None \<Rightarrow> []
      | Some p \<Rightarrow> [jobj
          [(''subscription'', jobj
             [(''id'', jint 1), (''user_id'', jint 1), (''plan_id'', JNum (pl_id p)), (''status'', jstr ''active''),
              (''source'', jstr ''order''), (''start_time'', JNum (ds_startTime s)),
              (''end_time'', JNum (ds_endTime s)), (''amount_total'', JNum (pl_total_amount p)),
              (''amount_used'', jint 0), (''five_hour_quota'', JNum (pl_five_hour_quota p)),
              (''next_reset_time'', JNum (ds_endTime s))]),
           (''five_hour_window'', jobj
             [(''state'', jstr ''idle''), (''amount_total'', JNum (pl_five_hour_quota p)),
              (''amount_used'', jint 0), (''remaining'', JNum (pl_five_hour_quota p))])]])"

section \<open>Quotes\<close>

record BalanceQuote =
  bq_plan_id :: jsnum
  bq_original_price :: jsnum
  bq_upgrade_credit :: jsnum
  bq_amount_due :: jsnum
  bq_required_quota :: jsnum
  bq_is_upgrade :: bool
  bq_current :: "DemoPlan option"
  bq_current_end_time :: jsnum

definition remaining_fraction :: "jsnum \<Rightarrow> DemoState \<Rightarrow> jsnum" where
  "remaining_fraction now s =
     math_min (Fin 1) (math_max (Fin 0)
       (js_div (js_sub (ds_endTime s) now) (math_max (Fin 1) (js_sub (ds_endTime s) (ds_startTime s)))))"

definition quote_amount :: "DemoPlan \<Rightarrow> DemoPlan option \<Rightarrow> jsnum \<Rightarrow> jsnum" where
  "quote_amount target current fraction =
     js_div (math_round (js_mul (js_mul
       (js_sub (pl_price_amount target)
         (case current of Some p \<Rightarrow> num_or_zero (pl_price_amount p) | None \<Rightarrow> Fin 0))
       fraction) (Fin 100))) (Fin 100)"

definition quote :: "(nat \<Rightarrow> jsnum) \<Rightarrow> nat \<Rightarrow> jsnum \<Rightarrow> DemoState \<Rightarrow> BalanceQuote option" where
  "quote clk i planId s =
     (case find_plan planId of
        None \<Rightarrow> None
      | Some target \<Rightarrow>
          (let current = activePlan (clk i) s in
           if (case current of Some p \<Rightarrow> js_le (pl_price_amount target) (pl_price_amount p) | None \<Rightarrow> False)
           then None
           else
             (let fraction = (case current of Some p \<Rightarrow> remaining_fraction (clk (i + 1)) s | None \<Rightarrow> Fin 1);
                  amount = quote_amount target current fraction in
              Some \<lparr>bq_plan_id = planId, bq_original_price = pl_price_amount target,
                bq_upgrade_credit = js_sub (pl_price_amount target) amount, bq_amount_due = amount,
                bq_required_quota = math_round (js_mul amount DEMO_QUOTA_PER_USD),
                bq_is_upgrade = (current \<noteq> None), bq_current = current,
                bq_current_end_time = ds_endTime s\<rparr>)))"

definition quote_json :: "BalanceQuote \<Rightarrow> json" where
  "quote_json q = jobj (
     [(''plan_id'', JNum (bq_plan_id q)), (''original_price'', JNum (bq_original_price q)),
      (''upgrade_credit'', JNum (bq_upgrade_credit q)), (''amount_due'', JNum (bq_amount_due q)),
      (''required_quota'', JNum (bq_required_quota q)), (''is_upgrade'', JBool (bq_is_upgrade q))] @
     (case bq_current q of
        None \<Rightarrow> []
      | Some p \<Rightarrow>
          [(''current_subscription_id'', jint 1), (''current_plan_id'', JNum (pl_id p)),
           (''current_plan_title'', JStr (pl_title p)), (''current_end_time'', JNum (bq_current_end_time q))]))"

section \<open>Requests that change the state\<close>

record DemoResult =
  dr_status :: nat
  dr_body :: json

text \<open>\<open>ok(value, extra)\<close>; an undefined value becomes the default null.\<close>

definition ok_with :: "json \<Rightarrow> (string \<times> json) list \<Rightarrow> DemoResult" where
  "ok_with v extra = \<lparr>dr_status = 200,
     dr_body = jobj ([(''success'', JBool True), (''message'', jstr ''''), (''data'', v)] @ extra)\<rparr>"

definition ok :: "json \<Rightarrow> DemoResult" where
  "ok v = ok_with v []"

definition fail :: "string \<Rightarrow> nat \<Rightarrow> DemoResult" where
  "fail message status = \<lparr>dr_status = status,
     dr_body = jobj [(''success'', JBool False), (''message'', jstr message)]\<rparr>"

text \<open>\<open>data\<close>: the own properties of an object or array payload.\<close>

definition payload_data :: "json \<Rightarrow> (jsstr \<times> json) list" where
  "payload_data payload =
     (case payload of
        JObj ps \<Rightarrow> ps
      | JArr xs \<Rightarrow> map (\<lambda>(i, x). (nat_str i, x)) (enumerate 0 xs)
      | _ \<Rightarrow> [])"

datatype demo_error = TypeError | InvalidURL

text \<open>\<open>Number(v)\<close>\<close>

definition js_Number :: "json option \<Rightarrow> demo_error + jsnum" where
  "js_Number v = (case number_of v of None \<Rightarrow> Inl TypeError | Some x \<Rightarrow> Inr x)"

definition with_state :: "bool \<Rightarrow> DemoEngine \<Rightarrow> DemoState \<Rightarrow> DemoEngine" where
  "with_state write_ok e s = save write_ok (e\<lparr>de_state := s\<rparr>)"

definition login :: "(nat \<Rightarrow> jsnum) \<Rightarrow> bool \<Rightarrow> (jsstr \<times> json) list \<Rightarrow> DemoEngine \<Rightarrow> DemoEngine \<times> DemoResult" where
  "login clk write_ok dat e =
     (if map_of dat (js ''username'') \<noteq> Some (jstr ''snowapidemo'') \<or>
         map_of dat (js ''password'') \<noteq> Some (jstr ''1234567890'')
      then (e, fail ''Invalid demo credentials'' 400)
      else (let s = (de_state e)\<lparr>ds_authenticated := True\<rparr> in
        (with_state write_ok e s, ok (profile clk 1 s))))"

definition logout :: "bool \<Rightarrow> DemoEngine \<Rightarrow> DemoEngine \<times> DemoResult" where
  "logout write_ok e = (with_state write_ok e ((de_state e)\<lparr>ds_authenticated := False\<rparr>), ok JNull)"

definition topup_amount :: "jsnum \<Rightarrow> jsstr" where
  "topup_amount amount =
     num_str (if is_finite amount \<and> js_lt (Fin 0) amount then js_mul (math_min amount (Fin 10000)) (Fin 10)
       else Fin 0)"

definition set_language :: "(nat \<Rightarrow> jsnum) \<Rightarrow> bool \<Rightarrow> jsstr \<Rightarrow> DemoEngine \<Rightarrow> DemoEngine \<times> DemoResult" where
  "set_language clk write_ok lang e =
     (let s = (de_state e)\<lparr>ds_language := lang\<rparr> in (with_state write_ok e s, ok (profile clk 1 s)))"

definition purchase :: "jsnum \<Rightarrow> BalanceQuote \<Rightarrow> DemoState \<Rightarrow> DemoState" where
  "purchase now q s =
     (let s1 = s\<lparr>ds_balance :=
            js_div (math_round (js_mul (js_sub (ds_balance s) (bq_amount_due q)) (Fin 100))) (Fin 100)\<rparr>;
          s2 = (if bq_is_upgrade q then s1
            else s1\<lparr>ds_startTime := now, ds_endTime := js_add now DEMO_MONTH\<rparr>) in
      s2\<lparr>ds_planId := bq_plan_id q,
         ds_purchases := ds_purchases s @
           [\<lparr>dp_id = jnat (length (ds_purchases s) + 1), dp_planId = bq_plan_id q,
             dp_amount = bq_amount_due q, dp_time = now\<rparr>]\<rparr>)"

definition pay :: "(nat \<Rightarrow> jsnum) \<Rightarrow> bool \<Rightarrow> jsnum \<Rightarrow> DemoEngine \<Rightarrow> DemoEngine \<times> DemoResult" where
  "pay clk write_ok planId e =
     (case quote clk 1 planId (de_state e) of
        None \<Rightarrow> (e, fail ''This plan cannot be purchased'' 400)
      | Some q \<Rightarrow>
          if js_lt (ds_balance (de_state e)) (bq_amount_due q)
          then (e, fail ''Insufficient demo balance'' 400)
          else (with_state write_ok e (purchase (clk 0) q (de_state e)), ok (quote_json q)))"

end
