(* ===== verification/Demo_Requests.thy ===== *)
theory Demo_Requests
  imports Demo_Engine
begin

text \<open>
  The reading requests of the demo engine, \<open>request\<close> itself, the axios adapter in front of it
  (\<open>demo/adapter.ts\<close>) and the runs of an engine as a step relation.
\<close>

section \<open>Pages of a list\<close>

definition trunc_num :: "rat \<Rightarrow> int" where
  "trunc_num r = (if r < 0 then - \<lfloor>- r\<rfloor> else \<lfloor>r\<rfloor>)"

text \<open>The relative index that \<open>slice\<close> makes of its arguments.\<close>

definition slice_index :: "nat \<Rightarrow> jsnum \<Rightarrow> nat" where
  "slice_index len x =
     (case x of
        PosInf \<Rightarrow> len
      | Fin r \<Rightarrow> (let i = trunc_num r in if i < 0 then nat (max 0 (int len + i)) else min len (nat i))
      | _ \<Rightarrow> 0)"

definition slice :: "jsnum \<Rightarrow> jsnum \<Rightarrow> 'a list \<Rightarrow> 'a list" where
  "slice a b xs =
     (let i = slice_index (length xs) a; j = slice_index (length xs) b in take (j - i) (drop i xs))"

type_synonym params = "(jsstr \<times> jsstr) list"

definition num_or :: "jsnum \<Rightarrow> jsnum \<Rightarrow> jsnum" where
  "num_or x d = (if num_truthy x then x else d)"

text \<open>\<open>Number(s)\<close> of a parameter; null is 0.\<close>

definition param_number :: "jsstr option \<Rightarrow> jsnum" where
  "param_number s = (case s of None \<Rightarrow> Fin 0 | Some t \<Rightarrow> to_number t)"

definition param_or :: "jsstr option \<Rightarrow> jsstr option \<Rightarrow> jsstr option" where
  "param_or a b = (case a of Some s \<Rightarrow> if s = [] then b else a | None \<Rightarrow> b)"

definition item_text :: "jsstr \<Rightarrow> json \<Rightarrow> jsstr" where
  "item_text fld item =
     (case item of
        JObj ps \<Rightarrow> (case map_of ps fld of Some v \<Rightarrow> json_string v | None \<Rightarrow> js ''undefined'')
      | _ \<Rightarrow> js ''undefined'')"

definition keyword_filter :: "(jsstr \<Rightarrow> jsstr) \<Rightarrow> params \<Rightarrow> json list \<Rightarrow> json list" where
  "keyword_filter lower ps items =
     (let keyword = (case map_of ps (js ''keyword'') of Some k \<Rightarrow> lower (trim k) | None \<Rightarrow> []) in
      if keyword \<noteq> [] then filter (\<lambda>item. str_includes keyword (lower (json_stringify item))) items else items)"

definition param_field_filter :: "params \<Rightarrow> json list \<Rightarrow> jsstr \<Rightarrow> json list" where
  "param_field_filter ps items fld =
     (case map_of ps fld of
        Some v \<Rightarrow> if v \<noteq> [] then filter (\<lambda>item. item_text fld item = v) items else items
      | None \<Rightarrow> items)"

definition PAGE_FIELDS :: "jsstr list" where
  "PAGE_FIELDS = [js ''status'', js ''role'', js ''group'', js ''model_name'', js ''username'']"

definition page_size :: "params \<Rightarrow> jsnum" where
  "page_size ps =
     math_min (Fin 100) (math_max (Fin 1)
       (num_or (param_number (param_or (map_of ps (js ''page_size'')) (map_of ps (js ''size'')))) (Fin 10)))"

definition page_number :: "params \<Rightarrow> jsnum" where
  "page_number ps = math_max (Fin 1) (num_or (param_number (map_of ps (js ''p''))) (Fin 1))"

definition filtered_items :: "(jsstr \<Rightarrow> jsstr) \<Rightarrow> params \<Rightarrow> json list \<Rightarrow> json list" where
  "filtered_items lower ps items = foldl (param_field_filter ps) (keyword_filter lower ps items) PAGE_FIELDS"

definition page_items :: "(jsstr \<Rightarrow> jsstr) \<Rightarrow> params \<Rightarrow> json list \<Rightarrow> json list" where
  "page_items lower ps items =
     (let size = page_size ps; number = page_number ps in
      slice (js_mul (js_sub number (Fin 1)) size) (js_mul number size) (filtered_items lower ps items))"

definition page :: "(jsstr \<Rightarrow> jsstr) \<Rightarrow> params \<Rightarrow> json list \<Rightarrow> json" where
  "page lower ps items = jobj
     [(''items'', JArr (page_items lower ps items)),
      (''total'', jint (int (length (filtered_items lower ps items)))),
      (''page'', JNum (page_number ps)), (''page_size'', JNum (page_size ps))]"

section \<open>Paths\<close>

text \<open>\<open>/^pre\d+post$/\<close>\<close>

definition digits_path :: "string \<Rightarrow> string \<Rightarrow> jsstr \<Rightarrow> bool" where
  "digits_path pre post path \<longleftrightarrow>
     starts_with (js pre) path \<and>
     (let rest = drop (length pre) path in
      takeWhile is_digit rest \<noteq> [] \<and> dropWhile is_digit rest = js post)"

definition last_segment :: "jsstr \<Rightarrow> jsstr" where
  "last_segment path = last (split_on 47 path)"

section \<open>The records of the lists\<close>

definition pad2 :: "nat \<Rightarrow> jsstr" where
  "pad2 n = (if n < 10 then 48 # nat_str n else nat_str n)"

definition override :: "(string \<times> json) list \<Rightarrow> (string \<times> json) list \<Rightarrow> (string \<times> json) list" where
  "override ps qs = foldl (\<lambda>m (k, v). AList.update k v m) ps qs"

definition demo_user :: "(string \<times> json) list \<Rightarrow> nat \<Rightarrow> (string \<times> json) list" where
  "demo_user prof index = override prof
     [(''id'', jint (int index + 2)), (''username'', JStr (js ''demo_user_'' @ pad2 (index + 1))),
      (''display_name'', JStr (js ''Demo '' @ nat_str (index + 1))),
      (''email'', JStr (js ''demo'' @ nat_str (index + 1) @ js ''@example.invalid'')), (''role'', jint 1),
      (''quota'', JNum (js_mul (jnat (120 + index * 10)) DEMO_QUOTA_PER_USD)),
      (''group'', JStr (DEMO_GROUPS ! (index mod 5))), (''subscription'', JNull)]"

definition users :: "(string \<times> json) list \<Rightarrow> json list" where
  "users prof = jobj prof # map (\<lambda>i. jobj (demo_user prof i)) [0..<29]"

definition item_id :: "json \<Rightarrow> json option" where
  "item_id item = (case item of JObj ps \<Rightarrow> map_of ps (js ''id'') | _ \<Rightarrow> None)"

definition find_id :: "jsnum \<Rightarrow> json list \<Rightarrow> json option" where
  "find_id n items = find (\<lambda>item. case item_id item of Some (JNum x) \<Rightarrow> js_num_eq x n | _ \<Rightarrow> False) items"

definition readiness :: json where
  "readiness = jobj
     [(''configured_mode'', jstr ''disabled''), (''effective_mode'', jstr ''disabled''),
      (''proxy_ready'', JBool True),
      (''resolver'', jobj [(''ready'', JBool True), (''country_ready'', JBool True), (''asn_ready'', JBool True),
         (''version'', jstr ''demo'')]),
      (''enforced_ready'', JBool False), (''blocking'', JArr [])]"

definition ip_audit :: "jsnum \<Rightarrow> json" where
  "ip_audit now = jobj
     [(''generated_at'', JNum now), (''start_at'', JNum (js_sub now (Fin 600))), (''end_at'', JNum now),
      (''retention_days'', jint 7), (''items'', JArr []), (''page'', jint 1), (''page_size'', jint 20),
      (''total'', jint 0),
      (''thresholds'', jobj [(''request_count'', jint 200), (''user_count'', jint 5), (''rpm'', jint 60)]),
      (''summary'', jobj [(''total_ips'', jint 0), (''total_users'', jint 0), (''total_requests'', jint 0),
         (''count_anomaly_ips'', jint 0), (''rpm_anomaly_ips'', jint 0), (''any_anomaly_ips'', jint 0)]),
      (''readiness'', readiness),
      (''risk'', jobj
        [(''generated_at'', JNum now), (''start_at'', JNum (js_sub now (Fin 600))), (''end_at'', JNum now),
         (''retention_days'', jint 7), (''items'', JArr []), (''page'', jint 1), (''page_size'', jint 20),
         (''total'', jint 0),
         (''summary'', jobj [(''total_users'', jint 0), (''total_requests'', jint 0),
            (''triggering_users'', jint 0), (''actively_banned'', jint 0)])])]"

definition perf_summary :: json where
  "perf_summary = jobj [(''models'', JArr (map (\<lambda>m. jobj
     [(''model_name'', JStr (dm_model_name m)), (''avg_latency_ms'', jint 1200),
      (''success_rate'', JNum (dec 992 1)), (''avg_tps'', jint 48),
      (''recent_success_rates'', JArr (map jint [100, 99, 98, 100])), (''request_count'', jint 120)])
     demoModels))]"

definition perf_metrics :: "jsnum \<Rightarrow> jsstr option \<Rightarrow> json" where
  "perf_metrics now model = jobj
     [(''model_name'', case model of Some s \<Rightarrow> JStr s | None \<Rightarrow> JNull),
      (''groups'', JArr (map (\<lambda>g. jobj
         [(''group'', JStr g), (''avg_ttft_ms'', jint 180), (''avg_latency_ms'', jint 1200),
          (''success_rate'', JNum (dec 992 1)), (''avg_tps'', jint 48),
          (''series'', JArr (map (\<lambda>index. jobj
             [(''ts'', JNum (js_sub now (jnat ((11 - index) * 300)))), (''avg_ttft_ms'', jint 180),
              (''avg_latency_ms'', jint 1200), (''success_rate'', JNum (dec 992 1)), (''avg_tps'', jint 48)])
             [0..<12]))])
         (drop 1 DEMO_GROUPS)))]"

definition model_catalog :: "jsstr \<Rightarrow> json \<Rightarrow> json \<Rightarrow> DemoResult" where
  "model_catalog grp ratios groups = ok_with (JArr (map model_json demoModels))
     [(''vendors'', JArr (map (\<lambda>m. jobj
         [(''id'', JNum (dm_id m)), (''name'', JStr (dm_icon m)), (''icon'', JStr (dm_icon m))]) demoModels)),
      (''current_group'', JStr grp), (''group_ratio'', ratios), (''usable_group'', groups),
      (''auto_groups'', JArr []),
      (''supported_endpoint'', jobj
        [(''openai'', jobj [(''path'', jstr ''/v1/chat/completions''), (''method'', jstr ''POST'')]),
         (''openai-response'', jobj [(''path'', jstr ''/v1/responses''), (''method'', jstr ''POST'')]),
         (''anthropic'', jobj [(''path'', jstr ''/v1/messages''), (''method'', jstr ''POST'')])])]"

text \<open>\<open>Math.floor(now / 3600) * 3600\<close>\<close>

definition this_hour :: "jsnum \<Rightarrow> jsnum" where
  "this_hour now = js_mul (math_floor (js_div now (Fin 3600))) (Fin 3600)"

definition model_health :: "jsnum \<Rightarrow> json" where
  "model_health now = jobj
     [(''generated_at'', JNum now), (''start_hour'', JNum (js_sub (this_hour now) (Fin (23 * 3600)))),
      (''end_hour'', JNum (this_hour now)), (''window_hours'', jint 24),
      (''models'', JArr (map (\<lambda>(index, m). jobj
         [(''model_name'', JStr (dm_model_name m)),
          (''buckets'', JArr (map (\<lambda>hour. jobj
             [(''hour'', JNum (js_sub (this_hour now) (jnat ((23 - hour) * 3600)))),
              (''total_count'', jint 100), (''success_count'', jint (100 - int ((hour + index) mod 5))),
              (''probe_count'', jint 0), (''success_rate'', jint (100 - int ((hour + index) mod 5)))])
             [0..<24]))])
         (enumerate 0 demoModels)))]"

definition tokens :: "jsnum \<Rightarrow> jsstr \<Rightarrow> json list" where
  "tokens now grp = map (\<lambda>index. jobj
     [(''id'', jint (int index + 1)), (''user_id'', jint 1),
      (''name'', jstr ([''Demo key'', ''Playground'', ''Development'', ''Archive''] ! index)),
      (''key'', JStr (js ''demo-display-only-'' @ nat_str (index + 1))),
      (''status'', jint (if index = 3 then 2 else 1)),
      (''remain_quota'', JNum (js_mul (Fin 100) DEMO_QUOTA_PER_USD)), (''used_quota'', jint 0),
      (''unlimited_quota'', JBool True), (''expired_time'', jint (- 1)),
      (''created_time'', JNum (js_sub now DEMO_MONTH)), (''accessed_time'', JNum (js_sub now (Fin 60))),
      (''group'', JStr grp), (''model_limits_enabled'', JBool False), (''model_limits'', jstr ''''),
      (''allow_ips'', jstr ''''), (''cross_group_retry'', JBool False)]) [0..<4]"

definition topup_info :: json where
  "topup_info = jobj
     [(''enable_online_topup'', JBool True), (''payment_enabled'', JBool False),
      (''pay_methods'', JArr [jobj [(''name'', jstr ''LDC''), (''type'', jstr ''epay''), (''min_topup'', jint 1)]]),
      (''min_topup'', jint 1), (''amount_options'', JArr (map jint [5, 10, 50, 100])), (''discount'', JObj []),
      (''enable_redemption'', JBool True)]"

text \<open>\<open>demoPlans[order.planId - 1].plan.title\<close> throws when there is no such plan.\<close>

definition order_title :: "jsnum \<Rightarrow> demo_error + jsstr" where
  "order_title planId =
     (case js_sub planId (Fin 1) of
        Fin r \<Rightarrow>
          if of_int \<lfloor>r\<rfloor> = r \<and> 0 \<le> r \<and> nat \<lfloor>r\<rfloor> < length demoPlans then Inr (pl_title (demoPlans ! nat \<lfloor>r\<rfloor>))
          else Inl TypeError
      | NegZero \<Rightarrow> Inr (pl_title (demoPlans ! 0))
      | _ \<Rightarrow> Inl TypeError)"

definition order_json :: "DemoPurchase \<Rightarrow> jsstr \<Rightarrow> json" where
  "order_json order title = jobj
     [(''id'', JNum (dp_id order)), (''user_id'', jint 1), (''amount'', JNum (dp_amount order)),
      (''money'', JNum (dp_amount order)), (''trade_no'', JStr (js ''DEMO-'' @ num_str (dp_id order))),
      (''create_time'', JNum (dp_time order)), (''complete_time'', JNum (dp_time order)),
      (''status'', jstr ''success''), (''payment_method'', jstr ''balance''), (''type'', jstr ''subscription''),
      (''plan_title'', JStr title)]"

fun order_list :: "DemoPurchase list \<Rightarrow> demo_error + json list" where
  "order_list [] = Inr []"
| "order_list (order # orders) =
     (case order_title (dp_planId order) of
        Inl err \<Rightarrow> Inl err
      | Inr title \<Rightarrow>
          (case order_list orders of Inl err \<Rightarrow> Inl err | Inr items \<Rightarrow> Inr (order_json order title # items)))"

definition token_overview :: "jsnum \<Rightarrow> json" where
  "token_overview now = jobj
     [(''total_tokens'', jint 2400000), (''last_24h_tokens'', jint 840000),
      (''hourly'', JArr (map (\<lambda>index. jobj
         [(''timestamp'', JNum (js_sub now (jnat ((23 - index) * 3600)))),
          (''tokens'', jint (24000 + int index * 950))]) [0..<24]))]"

definition usage_row :: "jsnum \<Rightarrow> nat \<Rightarrow> json" where
  "usage_row now index = jobj (usage_fields now index @
     [(''count'', jint 1), (''token_used'', jint (1000 + int index * 123 + (200 + int index * 17))),
      (''channel_id'', jint (int (index mod 3) + 1)), (''use_group'', jstr ''Light''),
      (''node_name'', jstr ''demo-browser'')])"

definition performance_stats :: json where
  "performance_stats = jobj
     [(''cache_stats'', jobj
        [(''current_disk_usage_bytes'', jint 0), (''disk_cache_max_bytes'', jint 1000000000),
         (''active_disk_files'', jint 0), (''disk_cache_hits'', jint 0),
         (''current_memory_usage_bytes'', jint 8000000), (''active_memory_buffers'', jint 12),
         (''memory_cache_hits'', jint 72)]),
      (''disk_space_info'', jobj
        [(''total'', jint 100000000000), (''free'', jint 88000000000), (''used'', jint 12000000000),
         (''used_percent'', jint 12)]),
      (''memory_stats'', jobj
        [(''alloc'', jint 64000000), (''total_alloc'', jint 256000000), (''sys'', jint 128000000),
         (''num_gc'', jint 24), (''num_goroutine'', jint 32)]),
      (''disk_cache_info'', jobj [(''path'', jstr ''demo''), (''file_count'', jint 0), (''total_size'', jint 0)]),
      (''config'', jobj [(''is_running_in_container'', JBool False)])]"

definition minimal_mode :: "DemoChannel list \<Rightarrow> json" where
  "minimal_mode channels = jobj
     [(''enabled'', JBool True), (''private_upstreams_enabled'', JBool False),
      (''private_host_allowlist'', JArr []), (''private_cidr_allowlist'', JArr []),
      (''cache_degraded'', JBool False),
      (''channel_types'', JArr [jobj [(''id'', jint 1), (''name'', jstr ''OpenAI'')],
         jobj [(''id'', jint 14), (''name'', jstr ''Anthropic'')]]),
      (''icon_keys'', JArr (map JStr (uniq (map dm_icon demoModels)))),
      (''groups'', JArr (map JStr DEMO_GROUPS)),
      (''sources'', JArr (map (\<lambda>c. jobj
         [(''id'', JNum (dc_id c)), (''channel_id'', JNum (dc_id c)), (''revision'', jint 1),
          (''name'', JStr (dc_name c)), (''provider_name'', jstr ''''),
          (''base_url'', jstr ''https://upstream.example.invalid''), (''channel_type'', jint 1),
          (''groups'', JArr (map JStr (drop 1 DEMO_GROUPS))), (''has_api_key'', JBool True),
          (''sync_state'', jstr ''in_sync''),
          (''models'', JArr (map (\<lambda>m. jobj
             [(''display_model'', JStr (dm_model_name m)), (''upstream_model'', JStr (dm_model_name m)),
              (''icon_key'', JStr (dm_icon m)), (''endpoint_type'', JStr (dm_endpoint m)),
              (''billing_mode'', jstr ''token''), (''model_ratio'', JNum (dm_model_ratio m)),
              (''completion_ratio'', JNum (dm_completion_ratio m)), (''cache_ratio'', JNum (dec 1 1))])
             (filter (\<lambda>m. dm_model_name m \<in> set (split_on 44 (dc_models c))) demoModels)))])
         channels))]"

definition model_rows :: "jsnum \<Rightarrow> json list" where
  "model_rows now = map (\<lambda>m. jobj (model_fields m @
     [(''status'', jint 1), (''name_rule'', jint 0), (''created_time'', JNum (js_sub now DEMO_MONTH)),
      (''updated_time'', JNum now), (''sync_official'', jint 0)])) demoModels"

definition vendor_rows :: "json list" where
  "vendor_rows = map (\<lambda>m. jobj
     [(''id'', JNum (dm_id m)), (''name'', JStr (dm_icon m)), (''icon'', JStr (dm_icon m)),
      (''description'', jstr ''''), (''status'', jint 1)]) demoModels"

definition redemption_rows :: "jsnum \<Rightarrow> json list" where
  "redemption_rows now = map (\<lambda>index. jobj
     [(''id'', jint (int index + 1)), (''user_id'', jint 1), (''name'', jstr ''Demo Light''),
      (''key'', JStr (js ''DEMO-NOT-REDEEMABLE-'' @ nat_str (index + 1))),
      (''status'', jint (if index mod 3 \<noteq> 0 then 1 else 3)), (''quota'', jint 0), (''type'', jstr ''group''),
      (''group_name'', jstr ''Light''), (''group_duration_minutes'', jint 4320),
      (''created_time'', JNum (js_sub now (Fin 3600))), (''redeemed_time'', jint 0),
      (''expired_time'', JNum (js_add now (Fin 86400))),
      (''used_user_id'', jint (if index mod 3 \<noteq> 0 then 0 else int index + 2))]) [0..<15]"

definition invitation_rows :: "jsnum \<Rightarrow> json list" where
  "invitation_rows now = map (\<lambda>index. jobj
     [(''id'', jint (int index + 1)), (''name'', jstr ''Demo invite''),
      (''code_prefix'', JStr (js ''DEMO'' @ nat_str (index + 1))), (''status'', jint 1), (''created_by'', jint 1),
      (''used_by'', jint 0), (''created_at'', JNum (js_sub now (Fin 3600))), (''used_at'', jint 0),
      (''creator_username'', jstr ''snowapidemo''), (''used_username'', jstr '''')]) [0..<8]"

definition instances :: "jsnum \<Rightarrow> json" where
  "instances now = JArr [jobj
     [(''node_name'', jstr ''demo-browser''), (''status'', jstr ''online''), (''stale_after_seconds'', jint 60),
      (''started_at'', JNum (js_sub now (Fin 86400))), (''last_seen_at'', JNum now),
      (''info'', jobj
        [(''node'', jobj [(''name'', jstr ''demo-browser'')]), (''role'', jobj [(''is_master'', JBool True)]),
         (''runtime'', jobj [(''version'', jstr ''frontend-demo''), (''goos'', jstr ''browser''),
            (''goarch'', jstr ''virtual''), (''started_at'', JNum (js_sub now (Fin 86400)))]),
         (''host'', jobj [(''hostname'', jstr ''demo'')]),
         (''resources'', jobj
           [(''cpu'', jobj [(''usage_percent'', jint 12)]), (''memory'', jobj [(''usage_percent'', jint 28)]),
            (''storage'', jobj [(''total_bytes'', jint 100000000000), (''used_bytes'', jint 12000000000),
               (''free_bytes'', jint 88000000000), (''used_percent'', jint 12)])])])]]"

section \<open>Reading requests\<close>

text \<open>
  The reading requests in the order of their tests, in groups; \<open>None\<close> goes on to the next group.
  What they read: the state, the clock, the path and its parameters.
\<close>

definition path_in :: "jsstr \<Rightarrow> string list \<Rightarrow> bool" where
  "path_in path paths = list_ex (\<lambda>q. path = js q) paths"

definition read_users :: "(jsstr \<Rightarrow> jsstr) \<Rightarrow> (string \<times> json) list \<Rightarrow> jsstr \<Rightarrow> params \<Rightarrow> DemoResult option" where
  "read_users lower prof path ps =
     (if path = js ''/api/user/self'' then Some (ok (jobj prof))
      else if path_in path [''/api/user'', ''/api/user/search''] then Some (ok (page lower ps (users prof)))
      else if digits_path ''/api/user/'' '''' path then
        Some (ok (case find_id (to_number (last_segment path)) (users prof) of Some u \<Rightarrow> u | None \<Rightarrow> jobj prof))
      else if digits_path ''/api/user/'' ''/subscription-status'' path then
        Some (ok (if path = js ''/api/user/1/subscription-status''
          then (case map_of prof ''subscription'' of Some v \<Rightarrow> v | None \<Rightarrow> JNull) else JNull))
      else if path = js ''/api/user/announcements'' then Some (ok JNull)
      else if path = js ''/api/user/relay-ban'' then
        Some (ok (jobj [(''active'', JBool False), (''code'', jstr ''user_relay_banned''),
          (''starts_at'', jint 0), (''expires_at'', jint 0)]))
      else None)"

definition read_audit :: "(jsstr \<Rightarrow> jsstr) \<Rightarrow> jsnum \<Rightarrow> jsstr \<Rightarrow> params \<Rightarrow> DemoResult option" where
  "read_audit lower now path ps =
     (if path = js ''/api/user-relay-bans/readiness'' then Some (ok readiness)
      else if path = js ''/api/user-relay-bans'' then Some (ok (page lower ps []))
      else if digits_path ''/api/user-relay-bans/'' ''/events'' path then Some (ok (JArr []))
      else if path = js ''/api/log/ip-audit'' then Some (ok (ip_audit now))
      else if path = js ''/api/perf-metrics/summary'' then Some (ok perf_summary)
      else if path = js ''/api/perf-metrics'' then Some (ok (perf_metrics now (map_of ps (js ''model_name''))))
      else if str_includes (js ''/oauth/bindings'') path \<or> path = js ''/api/user/oauth'' then Some (ok (JArr []))
      else if path = js ''/api/user/2fa/status'' then
        Some (ok (jobj [(''enabled'', JBool False), (''backup_codes_remaining'', jint 0)]))
      else if str_includes (js ''/passkey'') path then
        Some (ok (jobj [(''enabled'', JBool False), (''credentials'', JArr [])]))
      else None)"

definition demo_usable_groups :: json where
  "demo_usable_groups = from_entries (map (\<lambda>g. (g, jobj [(''desc'', JStr g), (''ratio'', jint 1)])) DEMO_GROUPS)"

definition demo_group_ratios :: json where
  "demo_group_ratios = from_entries (map (\<lambda>g. (g, jint 1)) DEMO_GROUPS)"

definition model_names :: json where
  "model_names = JArr (map (\<lambda>m. JStr (dm_model_name m)) demoModels)"

definition quote_result :: "BalanceQuote option \<Rightarrow> (BalanceQuote \<Rightarrow> json) \<Rightarrow> DemoResult" where
  "quote_result q f = (case q of Some b \<Rightarrow> ok (f b) | None \<Rightarrow> fail ''This plan cannot be purchased'' 400)"

definition read_subscriptions ::
    "(nat \<Rightarrow> jsnum) \<Rightarrow> DemoState \<Rightarrow> jsstr \<Rightarrow> jsstr \<Rightarrow> params \<Rightarrow> DemoResult option" where
  "read_subscriptions clk s grp path ps =
     (let plan_id = param_number (map_of ps (js ''plan_id'')) in
      if path = js ''/api/group'' then Some (ok (JArr (map JStr DEMO_GROUPS)))
      else if path = js ''/api/group/policies'' then Some (ok (JArr (map snd demoGroupProfiles)))
      else if path = js ''/api/user/self/groups'' then Some (ok demo_usable_groups)
      else if path_in path [''/api/user/models'', ''/api/channel/models_enabled''] then Some (ok model_names)
      else if path = js ''/api/subscription/admin/plans'' then Some (ok (JArr (map plan_json demoPlans)))
      else if path = js ''/api/subscription/self'' then
        Some (ok (jobj [(''billing_preference'', jstr ''subscription_first''),
          (''subscriptions'', JArr (subscriptions (clk 5) s)),
          (''all_subscriptions'', JArr (subscriptions (clk 6) s))]))
      else if digits_path ''/api/subscription/admin/users/'' ''/subscriptions'' path then
        Some (ok (JArr (if str_includes (js ''/users/1/'') path then subscriptions (clk 5) s else [])))
      else if path = js ''/api/subscription/balance/quote'' then Some (quote_result (quote clk 5 plan_id s) quote_json)
      else if path = js ''/api/subscription/checkout'' then
        Some (quote_result (quote clk 5 plan_id s)
          (\<lambda>q. jobj [(''quote'', quote_json q), (''payment_methods'', JArr [])]))
      else if path = js ''/api/user/model-catalog'' then Some (model_catalog grp demo_group_ratios demo_usable_groups)
      else if path = js ''/api/user/model-health'' then Some (ok (model_health (clk 0)))
      else None)"

definition read_orders ::
    "(jsstr \<Rightarrow> jsstr) \<Rightarrow> jsnum \<Rightarrow> DemoState \<Rightarrow> jsstr \<Rightarrow> jsstr \<Rightarrow> params \<Rightarrow> (demo_error + DemoResult) option" where
  "read_orders lower now s grp path ps =
     (let targetUser = map_of ps (js ''user_id'') in
      if path_in path [''/api/token'', ''/api/token/search''] then Some (Inr (ok (page lower ps (tokens now grp))))
      else if path = js ''/api/user/topup/info'' then Some (Inr (ok topup_info))
      else if path_in path [''/api/user/topup'', ''/api/user/topup/self''] then
        (if path = js ''/api/user/topup'' \<and> targetUser \<noteq> None \<and> targetUser \<noteq> Some (js ''1'')
         then Some (Inr (ok (page lower ps [])))
         else Some (case order_list (ds_purchases s) of
             Inl err \<Rightarrow> Inl err | Inr items \<Rightarrow> Inr (ok (page lower ps items))))
      else if path_in path [''/api/log'', ''/api/log/self''] then Some (Inr (ok (page lower ps (demoUsage now))))
      else if path_in path [''/api/log/stat'', ''/api/log/self/stat''] then
        Some (Inr (ok (jobj [(''quota'', jint 63000), (''rpm'', jint 12), (''tpm'', jint 18600)])))
      else if path = js ''/api/data/token-usage/overview'' then Some (Inr (ok (token_overview now)))
      else if starts_with (js ''/api/data'') path then Some (Inr (ok (JArr (map (usage_row now) [0..<72]))))
      else None)"

definition read_system :: "DemoEnv \<Rightarrow> (jsstr \<Rightarrow> jsstr) \<Rightarrow> jsnum \<Rightarrow> jsstr \<Rightarrow> params \<Rightarrow> DemoResult option" where
  "read_system env lower now path ps =
     (let channels = map (channel_json now) demoChannels in
      if path = js ''/api/option'' then Some (ok (JArr (demoOptions env)))
      else if path = js ''/api/performance/logs'' then
        Some (ok (jobj [(''enabled'', JBool False), (''log_dir'', jstr ''demo''), (''file_count'', jint 0),
          (''total_size'', jint 0)]))
      else if path = js ''/api/performance/stats'' then Some (ok performance_stats)
      else if path = js ''/api/option/channel_affinity_cache'' then
        Some (ok (jobj [(''enabled'', JBool False), (''total'', jint 0), (''unknown'', jint 0),
          (''by_rule_name'', JObj []), (''cache_capacity'', jint 10000), (''cache_algo'', jstr ''LRU'')]))
      else if path_in path [''/api/channel'', ''/api/channel/search''] then
        Some (ok_with (page lower ps channels) [(''type_counts'', jobj [(''1'', jint 3)])])
      else if digits_path ''/api/channel/'' '''' path then
        Some (ok (case find_id (to_number (last_segment path)) channels of Some c \<Rightarrow> c | None \<Rightarrow> JNull))
      else if path = js ''/api/channel/models'' then
        Some (ok (JArr (map (\<lambda>m. jobj [(''id'', JStr (dm_model_name m)), (''name'', JStr (dm_model_name m))]) demoModels)))
      else if path = js ''/api/channel/ops'' then Some (ok (JObj []))
      else if path = js ''/api/minimal-mode'' then Some (ok (minimal_mode demoChannels))
      else if path_in path [''/api/models'', ''/api/models/search''] then Some (ok (page lower ps (model_rows now)))
      else if path_in path [''/api/vendors'', ''/api/vendors/search''] then Some (ok (page lower ps vendor_rows))
      else if path_in path [''/api/redemption'', ''/api/redemption/search''] then
        Some (ok (page lower ps (redemption_rows now)))
      else if path = js ''/api/invitation'' then Some (ok (page lower ps (invitation_rows now)))
      else if path = js ''/api/system-info/instances'' then Some (ok (instances now))
      else if path_in path [''/api/system-info/stale-instances'', ''/api/system-task/list'', ''/api/prefill_group'',
           ''/api/models/missing'', ''/api/custom-oauth-provider'', ''/api/ratio_sync/channels'']
      then Some (ok (JArr []))
      else if path = js ''/api/system-task/current'' then Some (ok JNull)
      else if path = js ''/api/authz/catalog'' then Some (ok (jobj [(''resources'', JArr []), (''roles'', JArr [])]))
      else None)"

fun first_of :: "'a option list \<Rightarrow> 'a \<Rightarrow> 'a" where
  "first_of [] d = d"
| "first_of (None # xs) d = first_of xs d"
| "first_of (Some x # xs) d = x"

definition read_request ::
    "DemoEnv \<Rightarrow> (jsstr \<Rightarrow> jsstr) \<Rightarrow> (nat \<Rightarrow> jsnum) \<Rightarrow> DemoState \<Rightarrow> jsstr \<Rightarrow> params \<Rightarrow> demo_error + DemoResult" where
  "read_request env lower clk s path ps =
     (let prof = profile_fields clk 1 s; grp = demo_group (activePlan (clk 1) s); now = clk 0 in
      first_of
        [map_option Inr (read_users lower prof path ps), map_option Inr (read_audit lower now path ps),
         map_option Inr (read_subscriptions clk s grp path ps), read_orders lower now s grp path ps,
         map_option Inr (read_system env lower now path ps)]
        (Inr (fail ''This action is not available in the frontend demo'' 403)))"

section \<open>Requests\<close>

text \<open>\<open>new URL(url, base)\<close>: the path and the query parameters, or the error of a malformed address.\<close>

type_synonym url_parser = "jsstr \<Rightarrow> (jsstr \<times> params) option"

definition request ::
    "DemoEnv \<Rightarrow> url_parser \<Rightarrow> (jsstr \<Rightarrow> jsstr) \<Rightarrow> (nat \<Rightarrow> jsnum) \<Rightarrow> bool \<Rightarrow>
     jsstr \<Rightarrow> jsstr \<Rightarrow> json \<Rightarrow> DemoEngine \<Rightarrow> demo_error + DemoEngine \<times> DemoResult" where
  "request env URL lower clk write_ok http_method url payload e =
     (case URL url of
        None \<Rightarrow> Inl InvalidURL
      | Some (pathname, ps) \<Rightarrow>
          (let path = strip_end_slashes pathname; dat = payload_data payload;
               isGet = (http_method = js ''GET''); isPost = (http_method = js ''POST'') in
           if isGet \<and> path = js ''/api/status'' then Inr (e, ok (demoStatus env))
           else if isGet \<and> path = js ''/api/setup'' then
             Inr (e, ok (jobj [(''status'', JBool True), (''root_init'', JBool True)]))
           else if isGet \<and> path_in path [''/api/user-agreement'', ''/api/privacy-policy''] then Inr (e, ok (jstr ''''))
           else if isGet \<and> path = js ''/api/subscription/plans'' then Inr (e, ok (JArr (map plan_json demoPlans)))
           else if isPost \<and> path = js ''/api/user/login'' then Inr (login clk write_ok dat e)
           else if isGet \<and> path = js ''/api/user/logout'' then Inr (logout write_ok e)
           else if \<not> ds_authenticated (de_state e) then Inr (e, fail ''Please sign in to the demo first'' 401)
           else if isPost \<and> path = js ''/api/user/amount'' then
             (case js_Number (map_of dat (js ''amount'')) of
                Inl err \<Rightarrow> Inl err
              | Inr amount \<Rightarrow> Inr (e, ok (JStr (topup_amount amount))))
           else if http_method = js ''PUT'' \<and> path = js ''/api/user/self'' \<and> length dat = 1 \<and>
                   (case map_of dat (js ''language'') of Some (JStr l) \<Rightarrow> True | _ \<Rightarrow> False)
           then (case map_of dat (js ''language'') of
                   Some (JStr lang) \<Rightarrow> Inr (set_language clk write_ok lang e) | _ \<Rightarrow> Inl TypeError)
           else if isPost \<and> path = js ''/api/subscription/balance/pay'' then
             (case js_Number (map_of dat (js ''plan_id'')) of
                Inl err \<Rightarrow> Inl err | Inr planId \<Rightarrow> Inr (pay clk write_ok planId e))
           else if isPost \<and> digits_path ''/api/token/'' ''/key'' path then
             Inr (e, ok (jobj [(''key'', jstr ''demo-not-a-real-api-key'')]))
           else if \<not> isGet then
             Inr (e, fail ''Demo mode is read-only. Only virtual plan purchases are available.'' 403)
           else
             (case read_request env lower clk (de_state e) path ps of
                Inl err \<Rightarrow> Inl err | Inr r \<Rightarrow> Inr (e, r))))"

section \<open>The adapter\<close>

text \<open>
  \<open>demoAdapter\<close> translates the message and turns a status of 400 and more into a rejected
  promise. The query parameters have been added to the address.
\<close>

datatype adapter_result = Resolved nat json | Rejected jsstr nat json

definition adapter_payload :: "json option \<Rightarrow> json" where
  "adapter_payload payload =
     (case payload of
        Some (JStr s) \<Rightarrow> (case json_parse s of Some v \<Rightarrow> v | None \<Rightarrow> JObj [])
      | Some v \<Rightarrow> v
      | None \<Rightarrow> JObj [])"

definition translated_body :: "(jsstr \<Rightarrow> jsstr) \<Rightarrow> json \<Rightarrow> jsstr \<times> json" where
  "translated_body t body =
     (case body of
        JObj ps \<Rightarrow>
          (let message = (case map_of ps (js ''message'') of
               Some (JStr m) \<Rightarrow> if m \<noteq> [] then t m else [] | _ \<Rightarrow> []) in
           (message, JObj (AList.update (js ''message'') (JStr message) ps)))
      | _ \<Rightarrow> ([], body))"

definition demoAdapter ::
    "DemoEnv \<Rightarrow> url_parser \<Rightarrow> (jsstr \<Rightarrow> jsstr) \<Rightarrow> (jsstr \<Rightarrow> jsstr) \<Rightarrow> (jsstr \<Rightarrow> jsstr) \<Rightarrow> (nat \<Rightarrow> jsnum) \<Rightarrow> bool \<Rightarrow>
     jsstr \<Rightarrow> jsstr \<Rightarrow> json option \<Rightarrow> DemoEngine \<Rightarrow> demo_error + DemoEngine \<times> adapter_result" where
  "demoAdapter env URL lower upper t clk write_ok http_method href config_data e =
     (case request env URL lower clk write_ok (upper (str_or http_method (js ''GET''))) href
             (adapter_payload config_data) e of
        Inl err \<Rightarrow> Inl err
      | Inr (e', result) \<Rightarrow>
          (let (message, body) = translated_body t (dr_body result) in
           Inr (e', if 400 \<le> dr_status result then Rejected message (dr_status result) body
             else Resolved (dr_status result) body)))"

section \<open>Runs of an engine\<close>

text \<open>A clock that counts whole seconds, far below the numbers that lose precision.\<close>

definition clock_ok :: "(nat \<Rightarrow> jsnum) \<Rightarrow> bool" where
  "clock_ok clk \<longleftrightarrow> (\<forall>i. \<exists>n \<le> 2 ^ 50. clk i = jnat n)"

text \<open>The strings of a payload are sequences of 16 bit units.\<close>

fun json_units :: "json \<Rightarrow> bool" where
  "json_units (JStr s) = wide s"
| "json_units (JArr xs) = (\<forall>x \<in> set xs. json_units x)"
| "json_units (JObj ps) = (\<forall>p \<in> set ps. wide (fst p) \<and> json_units (snd p))"
| "json_units _ = True"

text \<open>
  A step is a request, or a reload of the page, which makes a new engine on the same storage.
\<close>

inductive demo_step :: "DemoEnv \<Rightarrow> url_parser \<Rightarrow> (jsstr \<Rightarrow> jsstr) \<Rightarrow> (json \<Rightarrow> DemoState option) \<Rightarrow>
    DemoEngine \<Rightarrow> DemoEngine \<Rightarrow> bool"
  for env URL lower safeParse where
  demo_request: "clock_ok clk \<Longrightarrow> json_units payload \<Longrightarrow>
     request env URL lower clk write_ok http_method url payload e = Inr (e', r) \<Longrightarrow>
     demo_step env URL lower safeParse e e'"
| demo_reload: "demo_step env URL lower safeParse e (new_engine safeParse (de_storage e))"

inductive demo_reachable :: "DemoEnv \<Rightarrow> url_parser \<Rightarrow> (jsstr \<Rightarrow> jsstr) \<Rightarrow> (json \<Rightarrow> DemoState option) \<Rightarrow>
    DemoEngine \<Rightarrow> bool"
  for env URL lower safeParse where
  demo_start: "demo_reachable env URL lower safeParse (new_engine safeParse (Some (Inr None)))"
| demo_run: "demo_reachable env URL lower safeParse e \<Longrightarrow> demo_step env URL lower safeParse e e' \<Longrightarrow>
     demo_reachable env URL lower safeParse e'"

inductive_cases demo_stepE: "demo_step env URL lower safeParse e e'"

end
