(* ===== verification/Cents_Text.thy ===== *)
theory Cents_Text
  imports Js_Rounding Json_Roundtrip
begin

text \<open>
  The decimal text of safe integers and of amounts in cents, and that it reads back as the same
  number: the part of \<open>JSON.parse(JSON.stringify(x)) = x\<close> that concerns numbers.
\<close>

section \<open>Decimal literals\<close>

lemma take_digits: "list_all is_digit ds \<Longrightarrow> ends_number rest \<Longrightarrow>
    takeWhile is_digit (ds @ rest) = ds \<and> dropWhile is_digit (ds @ rest) = rest"
  by (induction ds) (cases rest, auto simp: ends_number_def)

lemma take_digits_point: "list_all is_digit ds \<Longrightarrow>
    takeWhile is_digit (ds @ 46 # fp) = ds \<and> dropWhile is_digit (ds @ 46 # fp) = 46 # fp"
  by (induction ds) (auto simp: is_digit_def)

lemma eat_digits_append:
  assumes "ds \<noteq> []" and "list_all is_digit ds" and "ends_number rest \<or> (\<exists>u. rest = 46 # u)"
  shows "eat_digits (ds @ rest) = Some (ds, rest)"
  using assms take_digits [of ds rest] take_digits_point [of ds] by (auto simp: eat_digits_def)

lemma digit_number_start:
  assumes "is_digit c"
  shows "c \<noteq> 45" "c \<noteq> 43" "\<not> is_ws c" "c \<noteq> 73"
  using assms digit_not_ws by (auto simp: is_digit_def)

lemma to_number_digits:
  assumes "is_digit c" and "s = [] \<or> is_digit (hd s) \<or> hd s = 46" and "\<not> is_ws (last (c # s))"
  shows "to_number (c # s) = (case parse_decimal (c # s) of None \<Rightarrow> NaN | Some r \<Rightarrow> rnd r)"
proof -
  have "trim (c # s) = c # s" using assms digit_number_start [OF assms(1)] by (intro trim_id) auto
  moreover have "s = [] \<or> hd s \<notin> {120, 88, 111, 79, 98, 66}" using assms(2) by (auto simp: is_digit_def)
  moreover have "c # s \<noteq> js ''Infinity''" using digit_number_start(4) [OF assms(1)] by (auto simp: js_lit)
  ultimately show ?thesis using digit_number_start [OF assms(1)]
    by (auto simp: to_number_def num_of_decimal_def)
qed

text \<open>A literal with a fraction.\<close>

definition point_literal :: "jsstr \<Rightarrow> jsstr \<Rightarrow> bool" where
  "point_literal ip fp \<longleftrightarrow> ip \<noteq> [] \<and> fp \<noteq> [] \<and> list_all is_digit ip \<and> list_all is_digit fp \<and>
     (hd ip = 48 \<longrightarrow> length ip = 1)"

lemma point_literal_token:
  assumes "point_literal ip fp" and "ends_number rest"
  shows "number_token ((ip @ 46 # fp) @ rest) = Some (ip @ 46 # fp, rest)"
proof -
  obtain c t where ip: "ip = c # t" "c \<noteq> 45" "c = 48 \<longrightarrow> t = []"
    using assms(1) digit_number_start(1) by (cases ip) (auto simp: point_literal_def)
  have "eat_digits (c # t @ 46 # fp @ rest) = Some (ip, 46 # fp @ rest)" "eat_digits (fp @ rest) = Some (fp, rest)"
    using assms eat_digits_append [of ip "46 # fp @ rest"] eat_digits_append [of fp rest] ip
    by (auto simp: point_literal_def)
  then show ?thesis using assms(2) ip by (cases rest) (auto simp: number_token_def ends_number_def)
qed

lemma point_literal_value:
  assumes "point_literal ip fp"
  shows "to_number (ip @ 46 # fp) = rnd (of_nat (digits_val (ip @ fp)) * 10 powi (- int (length fp)))"
proof -
  have ip: "takeWhile is_digit (ip @ 46 # fp) = ip" "dropWhile is_digit (ip @ 46 # fp) = 46 # fp"
    using assms take_digits_point [of ip fp] by (auto simp: point_literal_def)
  have fp: "takeWhile is_digit fp = fp" "dropWhile is_digit fp = []"
    using assms take_digits [of fp "[]"] by (auto simp: point_literal_def)
  have "parse_decimal (ip @ 46 # fp) = Some (of_nat (digits_val (ip @ fp)) * 10 powi (- int (length fp)))"
    using assms unfolding parse_decimal_def Let_def ip by (simp add: fp point_literal_def)
  moreover obtain c t where c: "ip = c # t" "is_digit c" "t = [] \<or> is_digit (hd t)"
    using assms by (cases ip; cases "tl ip") (auto simp: point_literal_def)
  moreover have "is_digit (last fp)" using assms by (auto simp: point_literal_def list_all_iff)
  then have "\<not> is_ws (last (ip @ 46 # fp))" using assms digit_not_ws by (auto simp: point_literal_def)
  ultimately show ?thesis using to_number_digits [of c "t @ 46 # fp"] by (cases t) auto
qed

section \<open>Safe integers\<close>

lemma nat_str_no_zero: "0 < n \<Longrightarrow> hd (nat_str n) \<noteq> 48"
proof (induction n rule: nat_str.induct)
  case (1 n)
  then show ?case by (cases "n < 10") (auto simp: hd_append nat_str.simps [of n])
qed

lemma nat_reads_back:
  assumes "n \<le> 2 ^ 53"
  shows "number_reads_back (Fin (of_nat n))"
proof -
  have ds: "list_all is_digit (nat_str n)" using nat_str_digits [of n] by (simp add: list_all_iff)
  obtain c t where c: "nat_str n = c # t" "is_digit c"
    using ds nat_str_not_Nil [of n] by (cases "nat_str n") auto
  have zero: "c = 48 \<longrightarrow> t = []"
    using nat_str_no_zero [of n] c(1) by (cases n) (auto simp: nat_str.simps [of 0])
  have "number_token (nat_str n @ rest) = Some (nat_str n, rest)" if rest: "ends_number rest" for rest
  proof -
    have "eat_digits (c # t @ rest) = Some (c # t, rest)"
      using eat_digits_append [OF nat_str_not_Nil ds] rest c(1) by simp
    then show ?thesis using rest zero digit_number_start(1) [OF c(2)] unfolding c(1)
      by (cases rest) (auto simp: number_token_def ends_number_def)
  qed
  moreover have "is_digit (hd (nat_str n))" by (simp add: c)
  ultimately show ?thesis using assms by (simp add: number_reads_back_def)
qed

section \<open>Amounts in cents\<close>

text \<open>The binary64 number of a whole number \<open>k\<close> of cents below 10000 that is not a whole number.\<close>

definition cent_number :: "nat \<Rightarrow> rat \<Rightarrow> bool" where
  "cent_number k r \<longleftrightarrow> k < 10 ^ 6 \<and> \<not> 100 dvd k \<and> cents k = Fin r"

lemma cent_number_near:
  assumes "cent_number k r"
  shows "r \<le> of_nat k / 100 + 1 / 1000000" "of_nat k / 100 \<le> r + 1 / 1000000" "0 < r" "1 \<le> k"
proof -
  from assms show k: "1 \<le> k" by (cases k) (auto simp: cent_number_def)
  from assms obtain v where "cents k = Fin v" "v \<le> of_nat k / 100 + 1 / 1000000" "of_nat k / 100 \<le> v + 1 / 1000000"
    using cents_near [of k] by (auto simp: cent_number_def)
  with assms show near: "r \<le> of_nat k / 100 + 1 / 1000000" "of_nat k / 100 \<le> r + 1 / 1000000"
    by (auto simp: cent_number_def)
  have "1 \<le> rat_of_nat k" using k by simp
  with near show "0 < r" by linarith
qed

lemma tenth_and_hundredth: "js_le (Fin (1 / 10)) (cents 10)" "js_le (Fin (1 / 100)) (cents 1)"
  by code_simp+

lemma cent_number_ge:
  assumes "cent_number k r" and "m = 1 \<or> m = 10 \<or> 100 dvd m" and "m \<le> k"
  shows "of_nat m / 100 \<le> r"
proof (cases "m = k")
  case True
  with assms tenth_and_hundredth show ?thesis by (auto simp: cent_number_def)
next
  case False
  then have "rat_of_nat m / 100 + 1 / 100 \<le> of_nat k / 100" using assms(3) by (intro nat_gap) simp
  with cent_number_near [OF assms(1)] show ?thesis by linarith
qed

lemma cent_number_less:
  assumes "cent_number k r" and "k < m"
  shows "r < of_nat m / 100"
  using cent_number_near [OF assms(1)] nat_gap [OF assms(2)] by linarith

text \<open>Not a whole number: the nearest whole number is a cent away.\<close>

lemma cent_number_not_int: "cent_number k r \<Longrightarrow> of_int \<lfloor>r\<rfloor> \<noteq> r"
proof
  assume c: "cent_number k r" and r: "of_int \<lfloor>r\<rfloor> = r"
  define i where "i = \<lfloor>r\<rfloor>"
  have "rat_of_int (100 * i - int k) = 100 * r - of_nat k" using r by (simp add: i_def)
  then have "\<bar>rat_of_int (100 * i - int k)\<bar> \<le> 1 / 10000" using cent_number_near [OF c] by linarith
  then have "\<bar>rat_of_int (100 * i - int k)\<bar> < of_int 1" by linarith
  then have "\<bar>100 * i - int k\<bar> < 1" unfolding of_int_abs [symmetric] by (simp only: of_int_less_iff)
  then have "int k = 100 * i" by linarith
  then have "100 dvd k" by presburger
  with c show False by (simp add: cent_number_def)
qed

subsection \<open>The decimal exponent\<close>

lemma ilog10_up_eq:
  assumes "r < 10 ^ N" and "\<forall>i. n \<le> i \<and> i < N \<longrightarrow> 10 ^ i \<le> r" and "n \<le> N" and "N \<le> n + fuel"
  shows "ilog10_up fuel r n = int N"
  using assms
proof (induction fuel arbitrary: n)
  case 0
  then show ?case by (simp add: ilog10_up.simps [of 0])
next
  case (Suc fuel)
  show ?case
  proof (cases "n = N")
    case True
    then show ?thesis using Suc.prems(1) by (simp add: ilog10_up.simps [of "Suc fuel"])
  next
    case False
    then have "10 ^ n \<le> r" using Suc.prems(2,3) by auto
    moreover have "ilog10_up fuel r (n + 1) = int N" using Suc.IH [of "n + 1"] Suc.prems False by auto
    ultimately show ?thesis by (simp add: ilog10_up.simps [of "Suc fuel"])
  qed
qed

lemma dec_exp_cents:
  assumes c: "cent_number k r" and k: "10 ^ (J - 1) \<le> k" "k < 10 ^ J" and J: "1 \<le> J" "J \<le> 6"
  shows "dec_exp r = int J - 2"
proof -
  have less: "r < of_nat (10 ^ J) / 100" by (rule cent_number_less [OF c k(2)])
  consider "J = 1" | "J = 2" | "3 \<le> J" using J by linarith
  then show ?thesis
  proof cases
    case 1
    then have "r < 1 / 10" "1 / 100 \<le> r" using less cent_number_ge [OF c, of 1] k(1) by auto
    then show ?thesis using 1 by (simp add: dec_exp_def ilog10_down.simps [of 330] ilog10_down.simps [of 329])
  next
    case 2
    then have "r < 1" "1 / 10 \<le> r" using less cent_number_ge [OF c, of 10] k(1) by auto
    then show ?thesis using 2 by (simp add: dec_exp_def ilog10_down.simps [of 330])
  next
    case 3
    have pow: "10 ^ i \<le> r" if "i + 3 \<le> J" for i
    proof -
      have "(10::nat) ^ (i + 2) \<le> 10 ^ (J - 1)" using that by (intro power_increasing) auto
      then have "of_nat (10 ^ (i + 2)) / 100 \<le> r" using k(1) by (intro cent_number_ge [OF c]) auto
      then show ?thesis by simp
    qed
    have "rat_of_nat (10 ^ J) / 100 = 10 ^ (J - 2)" using 3 by (simp add: power_diff)
    then have "ilog10_up 330 r 0 = int (J - 2)" using less pow J 3 by (intro ilog10_up_eq) auto
    moreover have "1 \<le> r" using pow [of 0] 3 by simp
    ultimately show ?thesis using 3 by (simp add: dec_exp_def)
  qed
qed

subsection \<open>The shortest digits\<close>

lemma candidate_nonneg:
  assumes "digit_candidate r n j = Some s" and "0 < r"
  shows "0 \<le> s" "of_int s * 10 powi (n - int j) \<le> r + 3 / 2 * 10 powi (n - int j)"
    "rnd (of_int s * 10 powi (n - int j)) = Fin r"
proof -
  define p :: rat where "p = 10 powi (n - int j)"
  define a where "a = round_half_even (r / p)"
  have p: "0 < p" by (simp add: p_def)
  then have q: "0 < r / p" using assms(2) by simp
  have a: "of_int a \<le> r / p + 1 / 2" "r / p \<le> of_int a + 1 / 2"
    using round_half_even_near [of "r / p"] unfolding a_def abs_le_iff by linarith+
  from assms(1) have s: "s = a \<or> s = (if of_int a < r / p then a + 1 else a - 1)"
    and r: "rnd (of_int s * p) = Fin r"
    by (auto simp: digit_candidate_def Let_def p_def a_def split: if_splits)
  from r show "rnd (of_int s * 10 powi (n - int j)) = Fin r" by (simp add: p_def)
  have "0 \<le> a" using a q by linarith
  then show "0 \<le> s" using s q by (cases "of_int a < r / p") (auto simp: not_less dest: order.strict_trans2)
  have "of_int s \<le> r / p + 3 / 2" using s a by (cases "of_int a < r / p") auto
  then have "of_int s * p \<le> (r / p + 3 / 2) * p" using p by (intro mult_right_mono) auto
  also have "\<dots> = r + 3 / 2 * p" using p by (simp add: distrib_right)
  finally show "of_int s * 10 powi (n - int j) \<le> r + 3 / 2 * 10 powi (n - int j)" by (simp add: p_def)
qed

text \<open>Digits down to the cents that round to the number are the digits of the cents.\<close>

lemma candidate_exact:
  assumes c: "cent_number k r" and "digit_candidate r (int J - 2) j = Some s" and J: "J \<le> 6" "j \<le> J"
  shows "s * 10 ^ (J - j) = int k"
proof -
  note near = cent_number_near [OF c]
  define y where "y = rat_of_int s * 10 powi (int J - 2 - int j)"
  have y: "0 \<le> y" "y \<le> r + 3 / 2 * 10 powi (int J - 2 - int j)" "rnd y = Fin r"
    using candidate_nonneg [OF assms(2) near(3)] by (auto simp: y_def)
  have "(10::rat) powi (int J - 2 - int j) \<le> 10 powi 4" using J by (intro power_int_increasing) auto
  moreover have "rat_of_nat k \<le> of_nat (10 ^ 6)" using c by (simp only: of_nat_le_iff cent_number_def) simp
  ultimately have "y \<le> 10 ^ 9" using y(2) near(1) by simp
  with y(1,3) obtain "r \<le> y + 1 / 1000000" "y \<le> r + 1 / 1000000"
    using rnd_near_small [of y] by (metis jsnum.inject)
  moreover have "y * 100 = of_int (s * 10 ^ (J - j))"
  proof -
    have "(10::rat) powi (int J - 2 - int j) * 10 powi 2 = 10 powi (int (J - j))"
      using J by (subst power_int_add [symmetric]) (auto simp: of_nat_diff)
    then show ?thesis by (simp add: y_def mult.assoc)
  qed
  ultimately have "\<bar>rat_of_int (s * 10 ^ (J - j) - int k)\<bar> < of_int 1"
    using near(1,2) unfolding of_int_diff of_int_of_nat_eq by linarith
  then have "\<bar>s * 10 ^ (J - j) - int k\<bar> < 1" unfolding of_int_abs [symmetric] by (simp only: of_int_less_iff)
  then show ?thesis by linarith
qed

lemma candidate_hit:
  assumes c: "cent_number k r"
  shows "digit_candidate r (int J - 2) J \<noteq> None"
proof -
  have e: "(10::rat) powi (int J - 2 - int J) = 1 / 100" by (simp add: power_int_minus)
  have "round_half_even (r / (1 / 100)) = int k"
  proof -
    have "\<bar>of_int (round_half_even (r * 100)) - rat_of_nat k\<bar> < 1"
      using round_half_even_near [of "r * 100"] cent_number_near(1,2) [OF c] by linarith
    then have "\<bar>rat_of_int (round_half_even (r * 100) - int k)\<bar> < of_int 1" by simp
    then have "\<bar>round_half_even (r * 100) - int k\<bar> < 1" unfolding of_int_abs [symmetric] by (simp only: of_int_less_iff)
    then show ?thesis by simp
  qed
  moreover have "rnd (of_int (int k) * (1 / 100)) = Fin r" using c by (simp add: cent_number_def cents_def)
  ultimately show ?thesis by (simp add: digit_candidate_def e Let_def)
qed

lemma shortest_cents:
  assumes c: "cent_number k r" and J: "J \<le> 6"
  shows "i \<le> J \<Longrightarrow> J < i + left \<Longrightarrow>
    \<exists>j s. shortest_digits r (int J - 2) i left = (j, s) \<and> i \<le> j \<and> j \<le> J \<and> s * 10 ^ (J - j) = int k"
proof (induction left arbitrary: i)
  case (Suc left)
  show ?case
  proof (cases "digit_candidate r (int J - 2) i")
    case None
    then have "i \<noteq> J" using candidate_hit [OF c, of J] by auto
    with None Suc.IH [of "Suc i"] Suc.prems show ?thesis by auto
  next
    case (Some s)
    with candidate_exact [OF c Some J] Suc.prems show ?thesis by auto
  qed
qed simp

subsection \<open>The text\<close>

lemma nat_str_length: "10 ^ j \<le> s \<Longrightarrow> s < 10 ^ Suc j \<Longrightarrow> length (nat_str s) = Suc j"
proof (induction j arbitrary: s)
  case 0
  then show ?case by (simp add: nat_str.simps [of s])
next
  case (Suc j)
  then have "10 ^ j \<le> s div 10" "s div 10 < 10 ^ Suc j" "10 \<le> s"
    by (auto simp: less_eq_div_iff_mult_less_eq div_less_iff_less_mult mult.commute intro: order_trans [rotated])
  then show ?case using Suc.IH by (simp add: nat_str.simps [of s])
qed

lemma nat_digit_count:
  fixes n :: nat
  assumes "0 < n"
  obtains j where "10 ^ j \<le> n" "n < 10 ^ Suc j"
proof -
  have "\<exists>j. 10 ^ j \<le> n \<and> n < 10 ^ Suc j" using assms
  proof (induction n rule: less_induct)
    case (less n)
    show ?case
    proof (cases "n < 10")
      case True
      then show ?thesis using less.prems by (intro exI [of _ 0]) auto
    next
      case False
      then have "n div 10 < n" "0 < n div 10" by auto
      then obtain j where "10 ^ j \<le> n div 10" "n div 10 < 10 ^ Suc j" using less.IH by blast
      then show ?thesis by (intro exI [of _ "Suc j"]) (auto simp: less_eq_div_iff_mult_less_eq div_less_iff_less_mult mult.commute)
    qed
  qed
  then show ?thesis using that by blast
qed

lemma digits_val_zeros: "digits_val (replicate n 48 @ ds) = digits_val ds"
  by (induction n) (auto simp: digits_val_def)

lemma format_point:
  assumes "length ds = j" and "list_all is_digit ds" and "hd ds \<noteq> 48" and "n < int j" and "- 6 < n" and "n \<le> 21"
  obtains ip fp where "format_digits j n ds = ip @ 46 # fp" "point_literal ip fp"
    "digits_val (ip @ fp) = digits_val ds" "int (length fp) = int j - n"
proof (cases "0 < n")
  case True
  let ?ip = "take (nat n) ds" and ?fp = "drop (nat n) ds"
  have "list_all is_digit ?ip" "list_all is_digit ?fp"
    using assms(2) by (auto simp: list_all_iff dest: in_set_takeD in_set_dropD)
  moreover have "hd ?ip = hd ds" using True by (cases ds; cases "nat n") auto
  ultimately have "point_literal ?ip ?fp" using True assms by (auto simp: point_literal_def)
  with that [of ?ip ?fp] True assms show ?thesis by (simp add: format_digits_def)
next
  case False
  let ?fp = "replicate (nat (- n)) 48 @ ds"
  have "is_digit 48" by (simp add: is_digit_def)
  then have "point_literal [48] ?fp" using assms False by (auto simp: point_literal_def list_all_iff)
  moreover have "digits_val ([48] @ ?fp) = digits_val ds"
    using digits_val_zeros [of "Suc (nat (- n))" ds] by simp
  ultimately show ?thesis using that [of "[48]" ?fp] False assms by (simp add: format_digits_def)
qed

text \<open>The digits \<open>m\<close> the search finds: \<open>j\<close> of the \<open>J\<close> digits of the cents, the rest being zeros.\<close>

lemma cents_digits:
  assumes c: "cent_number k r"
  obtains J j m where "1 \<le> j" "j \<le> J" "J \<le> 6" "int J - 2 < int j" "k = m * 10 ^ (J - j)"
    "dec_exp r = int J - 2" "shortest_digits r (int J - 2) 1 16 = (j, int m)" "length (nat_str m) = j"
proof -
  from cent_number_near(4) [OF c] obtain i where i: "10 ^ i \<le> k" "k < 10 ^ Suc i" using nat_digit_count [of k] by auto
  define J where "J = Suc i"
  have "(10::nat) ^ i < 10 ^ 6" using i(1) c unfolding cent_number_def by linarith
  then have "i < 6" by (rule power_less_imp_less_exp [rotated]) simp
  then have J: "J \<le> 6" by (simp add: J_def)
  obtain j s where s: "shortest_digits r (int J - 2) 1 16 = (j, s)" "1 \<le> j" "j \<le> J" "s * 10 ^ (J - j) = int k"
    using shortest_cents [OF c J, of 1 16] J by (auto simp: J_def)
  have "0 \<le> s * 10 ^ (J - j)" unfolding s(4) by simp
  then have "0 \<le> s" by (meson not_less zero_le_mult_iff zero_less_numeral zero_less_power)
  then obtain m where m: "s = int m" by (metis nonneg_int_cases)
  have "int k = int (m * 10 ^ (J - j))" using s(4) by (simp add: m)
  then have k: "k = m * 10 ^ (J - j)" by (simp only: of_nat_eq_iff)
  have jlt: "int J - 2 < int j"
  proof (rule ccontr)
    assume "\<not> int J - 2 < int j"
    then have "J - j = 2 + (J - j - 2)" by linarith
    then obtain d where "J - j = 2 + d" ..
    then have "100 dvd k" by (simp add: k power_add)
    with c show False by (simp add: cent_number_def)
  qed
  have pw: "(10::nat) ^ i = 10 ^ (j - 1) * 10 ^ (J - j)" "(10::nat) ^ Suc i = 10 ^ j * 10 ^ (J - j)"
    using s(2,3) by (simp_all add: J_def flip: power_add del: power_Suc)
  have "10 ^ (j - 1) \<le> m" "m < 10 ^ j" using i unfolding pw k by simp_all
  then have len: "length (nat_str m) = j" using s(2) nat_str_length [of "j - 1" m] by simp
  have "dec_exp r = int J - 2" using dec_exp_cents [OF c, of J] i J by (simp add: J_def)
  with that [OF s(2,3) J jlt k _ _ len] s(1) m show ?thesis by simp
qed

lemma cents_text:
  assumes c: "cent_number k r"
  obtains ip fp where "num_str (Fin r) = ip @ 46 # fp" "point_literal ip fp"
    "of_nat (digits_val (ip @ fp)) * 10 powi (- int (length fp)) = rat_of_nat k / 100"
proof -
  obtain J j m where d: "1 \<le> j" "j \<le> J" "J \<le> 6" "int J - 2 < int j" "k = m * 10 ^ (J - j)"
    "dec_exp r = int J - 2" "shortest_digits r (int J - 2) 1 16 = (j, int m)" "length (nat_str m) = j"
    using cents_digits [OF c] .
  have "0 < m" using d(5) cent_number_near(4) [OF c] by (cases m) auto
  then have fmt: "hd (nat_str m) \<noteq> 48" "list_all is_digit (nat_str m)"
    using nat_str_no_zero nat_str_digits [of m] by (auto simp: list_all_iff)
  have "- 6 < int J - 2" "int J - 2 \<le> 21" using d(3) by linarith+
  then obtain ip fp where f: "format_digits j (int J - 2) (nat_str m) = ip @ 46 # fp" "point_literal ip fp"
    "digits_val (ip @ fp) = digits_val (nat_str m)" "int (length fp) = int j - (int J - 2)"
    using format_point [OF d(8) fmt(2,1) d(4)] by blast
  have "num_str (Fin r) = pos_num_str r" using cent_number_not_int [OF c] cent_number_near(3) [OF c]
    by (simp add: num_str_def)
  then have txt_r: "num_str (Fin r) = ip @ 46 # fp" using d(6,7) f(1) by (simp add: pos_num_str_def)
  have "- int (length fp) = int (J - j) + (- 2)" using f(4) d(2) by linarith
  then have "(10::rat) powi (- int (length fp)) = 10 powi int (J - j) * 10 powi (- 2)"
    using power_int_add [of "10::rat" "int (J - j)" "- 2"] by (simp only: ) simp
  then have "rat_of_nat m * 10 powi (- int (length fp)) = of_nat k / 100" by (simp add: d(5) power_int_minus)
  then show ?thesis using that [OF txt_r f(2)] f(3) by simp
qed

theorem cents_reads_back:
  assumes "k \<le> 10 ^ 6"
  shows "number_reads_back (cents k)"
proof (cases "100 dvd k")
  case True
  then obtain n where n: "k = 100 * n" by auto
  with assms have "n \<le> 2 ^ 53" by simp
  then show ?thesis using nat_reads_back [of n] cents_whole [of n] n by simp
next
  case False
  with assms have "k < 10 ^ 6" by (cases "k = 10 ^ 6") auto
  moreover obtain r where r: "cents k = Fin r" using cents_near [OF assms] by auto
  ultimately have c: "cent_number k r" using False by (simp add: cent_number_def)
  obtain ip fp where t: "num_str (Fin r) = ip @ 46 # fp" "point_literal ip fp"
    "of_nat (digits_val (ip @ fp)) * 10 powi (- int (length fp)) = rat_of_nat k / 100" using cents_text [OF c] .
  have "to_number (ip @ 46 # fp) = cents k" using point_literal_value [OF t(2)] t(3) by (simp add: cents_def)
  moreover have "is_digit (hd (ip @ 46 # fp))" using t(2) by (cases ip) (auto simp: point_literal_def)
  ultimately show ?thesis using t(1) point_literal_token [OF t(2)] r by (simp add: number_reads_back_def)
qed

end
