(* ===== verification/Demo_Ledger.thy ===== *)
theory Demo_Ledger
  imports Demo_Requests Cents_Text
begin

text \<open>
  The account behind the demo as a ledger in whole cents and whole seconds: what the purchases of
  the demo engine promise, without floating point. The engine's state is the image of a ledger
  (\<open>ledger_state\<close>), every request is a step of the ledger, and the ledger's invariant bounds
  the balance and the number of purchases.
\<close>

section \<open>Money\<close>

text \<open>
  What an account needs of its numbers: a representation of whole amounts up to a limit, a
  subtraction that is exact on them and a comparison that agrees with them.
\<close>

locale wallet =
  fixes repr :: "nat \<Rightarrow> 'm" and charge :: "'m \<Rightarrow> 'm \<Rightarrow> 'm" and less :: "'m \<Rightarrow> 'm \<Rightarrow> bool" and cap :: nat
  assumes charge_repr: "m \<le> k \<Longrightarrow> k \<le> cap \<Longrightarrow> charge (repr k) (repr m) = repr (k - m)"
    and less_repr: "k \<le> cap \<Longrightarrow> m \<le> cap \<Longrightarrow> less (repr k) (repr m) \<longleftrightarrow> k < m"
begin

lemma covered: "k \<le> cap \<Longrightarrow> m \<le> cap \<Longrightarrow> \<not> less (repr k) (repr m) \<Longrightarrow> m \<le> k \<and> charge (repr k) (repr m) = repr (k - m)"
  using charge_repr less_repr by auto

lemma charge_all:
  "sum_list ms \<le> k \<Longrightarrow> k \<le> cap \<Longrightarrow> foldl charge (repr k) (map repr ms) = repr (k - sum_list ms)"
proof (induction ms arbitrary: k)
  case (Cons m ms)
  then show ?case using charge_repr [of m k] Cons.IH [of "k - m"] by auto
qed simp

end

text \<open>\<open>Math.round((a - b) * 100) / 100\<close> on the doubles of whole cents is such a subtraction.\<close>

interpretation demo_wallet: wallet cents
  "\<lambda>a b. js_div (math_round (js_mul (js_sub a b) (Fin 100))) (Fin 100)" js_lt "10 ^ 6"
  by unfold_locales (simp_all add: sub_cents)

section \<open>The ledger\<close>

record Ledger =
  lg_auth :: bool
  lg_cents :: nat
  lg_plan :: nat
  lg_start :: nat
  lg_end :: nat
  lg_language :: jsstr
  lg_orders :: "(nat \<times> nat \<times> nat) list"

definition MONTH :: nat where
  "MONTH = 2592000"

text \<open>The price of plan 1 to 4 in dollars.\<close>

definition plan_price :: "nat \<Rightarrow> nat" where
  "plan_price p = [0, 50, 100, 200, 600] ! p"

definition order_purchase :: "nat \<Rightarrow> nat \<times> nat \<times> nat \<Rightarrow> DemoPurchase" where
  "order_purchase i ord = (case ord of (p, m, t) \<Rightarrow>
     \<lparr>dp_id = jnat (i + 1), dp_planId = jnat p, dp_amount = cents m, dp_time = jnat t\<rparr>)"

definition order_purchases :: "(nat \<times> nat \<times> nat) list \<Rightarrow> DemoPurchase list" where
  "order_purchases ords = map (\<lambda>(i, ord). order_purchase i ord) (enumerate 0 ords)"

definition ledger_state :: "Ledger \<Rightarrow> DemoState" where
  "ledger_state L =
     \<lparr>ds_authenticated = lg_auth L, ds_balance = cents (lg_cents L), ds_planId = jnat (lg_plan L),
      ds_startTime = jnat (lg_start L), ds_endTime = jnat (lg_end L), ds_language = lg_language L,
      ds_purchases = order_purchases (lg_orders L)\<rparr>"

definition empty_ledger :: Ledger where
  "empty_ledger = \<lparr>lg_auth = False, lg_cents = 10 ^ 6, lg_plan = 0, lg_start = 0, lg_end = 0, lg_language = [],
     lg_orders = []\<rparr>"

text \<open>
  The steps: sign in and out, choose a language, buy a plan when none is active at the time
  \<open>t\<close>, and upgrade the active plan for at most the difference of the prices.
\<close>

inductive ledger_step :: "Ledger \<Rightarrow> Ledger \<Rightarrow> bool" where
  lg_idle: "ledger_step L L"
| lg_sign: "ledger_step L (L\<lparr>lg_auth := b\<rparr>)"
| lg_speak: "lg_auth L \<Longrightarrow> wide l \<Longrightarrow> ledger_step L (L\<lparr>lg_language := l\<rparr>)"
| lg_buy: "lg_auth L \<Longrightarrow> 1 \<le> p \<Longrightarrow> p \<le> 4 \<Longrightarrow> lg_end L \<le> t \<Longrightarrow> t \<le> 2 ^ 50 \<Longrightarrow> now \<le> 2 ^ 50 \<Longrightarrow>
     100 * plan_price p \<le> lg_cents L \<Longrightarrow>
     ledger_step L (L\<lparr>lg_cents := lg_cents L - 100 * plan_price p, lg_plan := p, lg_start := now,
       lg_end := now + MONTH, lg_orders := lg_orders L @ [(p, 100 * plan_price p, now)]\<rparr>)"
| lg_upgrade: "lg_auth L \<Longrightarrow> p \<le> 4 \<Longrightarrow> lg_plan L < p \<Longrightarrow> t < lg_end L \<Longrightarrow> now \<le> 2 ^ 50 \<Longrightarrow>
     m \<le> 100 * (plan_price p - plan_price (lg_plan L)) \<Longrightarrow> m \<le> lg_cents L \<Longrightarrow>
     ledger_step L (L\<lparr>lg_cents := lg_cents L - m, lg_plan := p,
       lg_orders := lg_orders L @ [(p, m, now)]\<rparr>)"

inductive_cases ledger_stepE: "ledger_step L L'"

section \<open>The invariant of the ledger\<close>

definition order_ok :: "nat \<times> nat \<times> nat \<Rightarrow> bool" where
  "order_ok ord = (case ord of (p, m, t) \<Rightarrow> 1 \<le> p \<and> p \<le> 4 \<and> m \<le> 60000 \<and> t \<le> 2 ^ 50)"

text \<open>
  The balance and the amounts of the orders add up to the initial 10000 dollars. \<open>F\<close> counts the
  plans bought anew; each costs at least 50 dollars and is followed by at most three upgrades.
\<close>

definition ledger_ok :: "Ledger \<Rightarrow> bool" where
  "ledger_ok L \<longleftrightarrow>
     lg_cents L + sum_list (map (\<lambda>(p, m, t). m) (lg_orders L)) = 10 ^ 6 \<and>
     list_all order_ok (lg_orders L) \<and> wide (lg_language L) \<and>
     (if lg_orders L = [] then lg_plan L = 0 \<and> lg_start L = 0 \<and> lg_end L = 0
      else 1 \<le> lg_plan L \<and> lg_plan L \<le> 4 \<and> fst (last (lg_orders L)) = lg_plan L \<and>
        lg_start L \<le> 2 ^ 50 \<and> lg_end L = lg_start L + MONTH) \<and>
     (\<exists>F. 5000 * F + lg_cents L \<le> 10 ^ 6 \<and>
        (lg_orders L = [] \<or> length (lg_orders L) + 4 \<le> 4 * F + lg_plan L))"

lemma empty_ledger_ok: "ledger_ok empty_ledger"
  by (simp add: ledger_ok_def empty_ledger_def wide_def)

lemma plan_price_bounds: "1 \<le> p \<Longrightarrow> p \<le> 4 \<Longrightarrow> 50 \<le> plan_price p \<and> plan_price p \<le> 600"
proof -
  assume "1 \<le> p" "p \<le> 4"
  then have "p = 1 \<or> p = 2 \<or> p = 3 \<or> p = 4" by linarith
  then show ?thesis by (auto simp: plan_price_def)
qed

lemma plan_price_le: "p \<le> 4 \<Longrightarrow> plan_price p \<le> 600"
  using plan_price_bounds [of p] by (cases "p = 0") (auto simp: plan_price_def)

lemma buy_ok:
  assumes "ledger_ok L" and "1 \<le> p" "p \<le> 4" and "now \<le> 2 ^ 50" and "100 * plan_price p \<le> lg_cents L"
  shows "ledger_ok (L\<lparr>lg_cents := lg_cents L - 100 * plan_price p, lg_plan := p, lg_start := now,
    lg_end := now + MONTH, lg_orders := lg_orders L @ [(p, 100 * plan_price p, now)]\<rparr>)"
proof -
  note price = plan_price_bounds [OF assms(2,3)]
  from assms(1) obtain F where F: "5000 * F + lg_cents L \<le> 10 ^ 6"
    "lg_orders L = [] \<or> length (lg_orders L) + 4 \<le> 4 * F + lg_plan L" "lg_orders L \<noteq> [] \<longrightarrow> lg_plan L \<le> 4"
    by (auto simp: ledger_ok_def split: if_splits)
  then have "5000 * (F + 1) + (lg_cents L - 100 * plan_price p) \<le> 10 ^ 6"
    "length (lg_orders L @ [(p, 100 * plan_price p, now)]) + 4 \<le> 4 * (F + 1) + p"
    using price assms(2,5) by auto
  then have "\<exists>F. 5000 * F + (lg_cents L - 100 * plan_price p) \<le> 10 ^ 6 \<and>
      length (lg_orders L @ [(p, 100 * plan_price p, now)]) + 4 \<le> 4 * F + p" by blast
  with assms price show ?thesis by (auto simp: ledger_ok_def order_ok_def)
qed

lemma upgrade_ok:
  assumes "ledger_ok L" and p: "p \<le> 4" "lg_plan L < p" and "t < lg_end L" and "now \<le> 2 ^ 50"
    and m: "m \<le> 100 * (plan_price p - plan_price (lg_plan L))" "m \<le> lg_cents L"
  shows "ledger_ok (L\<lparr>lg_cents := lg_cents L - m, lg_plan := p, lg_orders := lg_orders L @ [(p, m, now)]\<rparr>)"
proof -
  from assms(1,4) have some: "lg_orders L \<noteq> []" by (auto simp: ledger_ok_def)
  with assms(1) obtain F where F: "5000 * F + lg_cents L \<le> 10 ^ 6" "length (lg_orders L) + 4 \<le> 4 * F + lg_plan L"
    by (auto simp: ledger_ok_def)
  then have "5000 * F + (lg_cents L - m) \<le> 10 ^ 6" "length (lg_orders L @ [(p, m, now)]) + 4 \<le> 4 * F + p"
    using p by auto
  then have "\<exists>F. 5000 * F + (lg_cents L - m) \<le> 10 ^ 6 \<and> length (lg_orders L @ [(p, m, now)]) + 4 \<le> 4 * F + p"
    by blast
  moreover have "m \<le> 60000" using m(1) plan_price_le [OF p(1)] by auto
  ultimately show ?thesis using assms some by (auto simp: ledger_ok_def order_ok_def)
qed

lemma ledger_step_ok: "ledger_step L L' \<Longrightarrow> ledger_ok L \<Longrightarrow> ledger_ok L'"
proof (induction rule: ledger_step.induct)
  case (lg_sign L b)
  then show ?case by (auto simp: ledger_ok_def)
next
  case (lg_speak L l)
  then show ?case by (auto simp: ledger_ok_def)
next
  case (lg_buy L p t now)
  then show ?case by (intro buy_ok) auto
next
  case (lg_upgrade L p t now m)
  then show ?case by (intro upgrade_ok) auto
qed

lemma ledger_orders_bound: "ledger_ok L \<Longrightarrow> length (lg_orders L) \<le> 800"
proof -
  assume L: "ledger_ok L"
  then obtain F where "5000 * F + lg_cents L \<le> 10 ^ 6" "lg_orders L = [] \<or> length (lg_orders L) + 4 \<le> 4 * F + lg_plan L"
    "lg_orders L \<noteq> [] \<longrightarrow> lg_plan L \<le> 4"
    by (auto simp: ledger_ok_def split: if_splits)
  then show ?thesis by auto
qed

end
