(* ===== verification/Demo_Props.thy ===== *)
theory Demo_Props
  imports Demo_Ledger
begin

text \<open>
  The demo engine implements the ledger: quotes are whole cents, every request is a step of the
  ledger, the stored text reads back, and what follows for the runs of the engine across reloads.
\<close>

section \<open>Plans\<close>

lemma jnat_num [simp]:
  "js_le (jnat a) (jnat b) \<longleftrightarrow> a \<le> b" "js_lt (jnat a) (jnat b) \<longleftrightarrow> a < b" "jnat a = jnat b \<longleftrightarrow> a = b"
  "js_num_eq (jnat a) (jnat b) \<longleftrightarrow> a = b"
  by (simp_all add: jnat_def)

lemma jnat_eq: "js_num_eq (jnat q) n \<Longrightarrow> 1 \<le> q \<Longrightarrow> n = jnat q"
  by (cases n) (auto simp: jnat_def js_num_eq_def js_le_def)

lemma plan_numbers: "map pl_id demoPlans = map jnat [1, 2, 3, 4]"
    "map pl_price_amount demoPlans = map (\<lambda>p. jnat (plan_price p)) [1, 2, 3, 4]"
  by (simp_all add: demoPlans_def plan_price_def jnat_def)

lemma plan_at:
  assumes "p \<in> set demoPlans"
  obtains q where "1 \<le> q" "q \<le> 4" "pl_id p = jnat q" "pl_price_amount p = jnat (plan_price q)"
    "pl_title p \<noteq> []"
proof -
  from assms consider "p = demoPlans ! 0" | "p = demoPlans ! 1" | "p = demoPlans ! 2" | "p = demoPlans ! 3"
    by (auto simp: demoPlans_def)
  then show ?thesis
  proof cases
    case 1
    then show ?thesis using that [of 1] by (simp add: demoPlans_def plan_price_def jnat_def)
  next
    case 2
    then show ?thesis using that [of 2] by (simp add: demoPlans_def plan_price_def jnat_def)
  next
    case 3
    then show ?thesis using that [of 3] by (simp add: demoPlans_def plan_price_def jnat_def)
  next
    case 4
    then show ?thesis using that [of 4] by (simp add: demoPlans_def plan_price_def jnat_def)
  qed
qed

lemma find_plan_Some:
  assumes "find_plan n = Some p"
  obtains q where "1 \<le> q" "q \<le> 4" "n = jnat q" "pl_id p = jnat q" "pl_price_amount p = jnat (plan_price q)"
proof -
  from assms have "p \<in> set demoPlans" "js_num_eq (pl_id p) n"
    by (auto simp: find_plan_def find_Some_iff)
  then show ?thesis using that plan_at [of p] jnat_eq by metis
qed

lemma find_plan_jnat:
  assumes "1 \<le> q" and "q \<le> 4"
  obtains p where "find_plan (jnat q) = Some p" "pl_id p = jnat q" "pl_price_amount p = jnat (plan_price q)"
proof -
  from assms have "q = 1 \<or> q = 2 \<or> q = 3 \<or> q = 4" by linarith
  then have "jnat q \<in> set (map pl_id demoPlans)" unfolding plan_numbers by auto
  then have "\<exists>p \<in> set demoPlans. js_num_eq (pl_id p) (jnat q)" by (metis imageE jnat_num(4) list.set_map)
  then have "find_plan (jnat q) \<noteq> None" unfolding find_plan_def find_None_iff by blast
  then show ?thesis using that find_plan_Some by (metis jnat_num(3) option.exhaust)
qed

lemma plan_price_less: "plan_price a < plan_price b \<Longrightarrow> 1 \<le> a \<Longrightarrow> a \<le> 4 \<Longrightarrow> 1 \<le> b \<Longrightarrow> b \<le> 4 \<Longrightarrow> a < b"
proof -
  assume h: "plan_price a < plan_price b" "1 \<le> a" "a \<le> 4" "1 \<le> b" "b \<le> 4"
  then have "a = 1 \<or> a = 2 \<or> a = 3 \<or> a = 4" "b = 1 \<or> b = 2 \<or> b = 3 \<or> b = 4" by linarith+
  with h(1) show ?thesis by (elim disjE) (simp_all add: plan_price_def)
qed

section \<open>Quotes are whole cents\<close>

lemma rnd_not_NaN: "rnd r \<noteq> NaN"
  by (simp add: rnd_def rnd_ulp_def num_inf_def num_zero_def Let_def)

lemma clamped:
  assumes "x \<noteq> NaN"
  obtains f where "math_min (Fin 1) (math_max (Fin 0) x) = Fin f" "0 \<le> f" "f \<le> 1"
proof (cases x)
  case (Fin r)
  then show ?thesis using that [of "min 1 (max 0 r)"] by simp
qed (use assms that in \<open>auto simp: math_min_def math_max_def js_num_eq_def js_lt_def js_le_def\<close>)

lemma jnat_sub: "a \<le> 2 ^ 52 \<Longrightarrow> b \<le> 2 ^ 52 \<Longrightarrow> js_sub (jnat a) (jnat b) = Fin (of_int (int a - int b))"
proof -
  assume "a \<le> 2 ^ 52" "b \<le> 2 ^ 52"
  then have "\<bar>int a - int b\<bar> \<le> 2 ^ 53" by (simp add: abs_le_iff)
  then show ?thesis using rnd_int [of "int a - int b"] by (simp add: jnat_def del: rnd_int)
qed

lemma js_div_not_NaN: "b \<noteq> 0 \<Longrightarrow> js_div (Fin a) (Fin b) \<noteq> NaN"
  by (simp add: js_div_def rnd_not_NaN num_inf_def num_zero_def Let_def)

lemma fraction_clamped:
  assumes "lg_start L \<le> 2 ^ 52" "lg_end L \<le> 2 ^ 52" "t \<le> 2 ^ 52"
  obtains f where "remaining_fraction (jnat t) (ledger_state L) = Fin f" "0 \<le> f" "f \<le> 1"
proof -
  let ?a = "rat_of_int (int (lg_end L) - int t)" and ?b = "rat_of_int (int (lg_end L) - int (lg_start L))"
  have "max 1 ?b \<noteq> 0" by (auto simp: max_def)
  then have "js_div (Fin ?a) (Fin (max 1 ?b)) \<noteq> NaN" by (rule js_div_not_NaN)
  then show ?thesis using that clamped assms
    by (auto simp: remaining_fraction_def ledger_state_def jnat_sub)
qed

text \<open>A share of a whole number of dollars, rounded to cents.\<close>

lemma share_in_cents:
  assumes "d \<le> 600" and "0 \<le> f" and "f \<le> 1"
  obtains m where "js_div (math_round (js_mul (js_mul (jnat d) (Fin f)) (Fin 100))) (Fin 100) = cents m"
    "m \<le> 100 * d"
proof -
  have d: "0 \<le> rat_of_nat d" "rat_of_nat d \<le> 600" using assms(1) by auto
  have le: "0 \<le> of_nat d * f" "of_nat d * f \<le> of_nat d" using d assms by (auto intro: mult_left_le)
  then obtain x where x: "rnd (of_nat d * f) = Fin x" "0 \<le> x" "x \<le> of_nat d * f + 1 / 1000000"
    using rnd_near_small [of "of_nat d * f"] d by auto
  have "0 \<le> x * 100" "x * 100 \<le> 10 ^ 9" using x le d by auto
  then obtain y where y: "rnd (x * 100) = Fin y" "0 \<le> y" "y \<le> x * 100 + 1 / 1000000"
    using rnd_near_small [of "x * 100"] by auto
  define m where "m = nat \<lfloor>y + 1 / 2\<rfloor>"
  have fl: "0 \<le> \<lfloor>y + 1 / 2\<rfloor>" using y(2) by simp
  have "of_int \<lfloor>y + 1 / 2\<rfloor> \<le> y + 1 / 2" by linarith
  then have "of_int \<lfloor>y + 1 / 2\<rfloor> < rat_of_int (int (100 * d) + 1)" using x(3) y(3) le unfolding of_int_add of_int_of_nat_eq of_nat_mult of_int_1 of_nat_numeral by linarith
  then have "\<lfloor>y + 1 / 2\<rfloor> < int (100 * d) + 1" by (simp only: of_int_less_iff)
  then have m: "m \<le> 100 * d" using fl by (simp add: m_def nat_le_iff)
  have "math_round (Fin y) = Fin (of_nat m)" using y(2) fl by (simp add: math_round_def m_def of_nat_nat)
  then have "js_div (math_round (js_mul (js_mul (jnat d) (Fin f)) (Fin 100))) (Fin 100) = cents m"
    using x y assms by (simp add: jnat_def js_mul_nonneg js_div_nonneg cents_def)
  with that m show ?thesis by blast
qed

lemma full_price_in_cents:
  assumes "d \<le> 600"
  shows "js_div (math_round (js_mul (js_mul (jnat d) (Fin 1)) (Fin 100))) (Fin 100) = cents (100 * d)"
proof -
  have "d \<le> 2 ^ 53" using assms by simp
  then have "js_mul (jnat d) (Fin 1) = Fin (of_nat d)" using rnd_nat [of d] by (simp add: jnat_def js_mul_nonneg)
  then show ?thesis using round_to_cents [of "of_nat d" "100 * d"] assms by simp
qed

lemma ledger_times: "ledger_ok L \<Longrightarrow> lg_start L \<le> 2 ^ 52 \<and> lg_end L \<le> 2 ^ 52"
  by (auto simp: ledger_ok_def MONTH_def split: if_splits)

lemma ledger_plan: "ledger_ok L \<Longrightarrow> t < lg_end L \<Longrightarrow> 1 \<le> lg_plan L \<and> lg_plan L \<le> 4"
  by (auto simp: ledger_ok_def split: if_splits)

lemma ledger_cents: "ledger_ok L \<Longrightarrow> lg_cents L \<le> 10 ^ 6"
  unfolding ledger_ok_def by linarith

lemma active_ledger: "activePlan (jnat t) (ledger_state L) = (if lg_end L \<le> t then None else find_plan (jnat (lg_plan L)))"
  by (simp add: activePlan_def ledger_state_def)

lemma clock_nat: "clock_ok clk \<Longrightarrow> \<exists>n \<le> 2 ^ 50. clk i = jnat n"
  by (simp add: clock_ok_def)

lemma jnat_price_sub: "plan_price a \<le> plan_price b \<Longrightarrow> b \<le> 4 \<Longrightarrow>
    js_sub (jnat (plan_price b)) (jnat (plan_price a)) = jnat (plan_price b - plan_price a)"
proof -
  assume h: "plan_price a \<le> plan_price b" "b \<le> 4"
  then have "plan_price b \<le> 2 ^ 52" "plan_price a \<le> 2 ^ 52" using plan_price_le [OF h(2)] by auto
  with jnat_sub [OF this] h(1) show ?thesis by (simp add: jnat_def of_nat_diff)
qed

lemma num_or_zero_jnat: "num_or_zero (jnat n) = jnat n"
  by (simp add: num_or_zero_def num_truthy_def jnat_def)

lemma jnat_zero: "Fin 0 = jnat 0"
  by (simp add: jnat_def)

definition quote_spec :: "Ledger \<Rightarrow> nat \<Rightarrow> nat \<Rightarrow> BalanceQuote \<Rightarrow> bool" where
  "quote_spec L t p q \<longleftrightarrow> 1 \<le> p \<and> p \<le> 4 \<and> bq_plan_id q = jnat p \<and>
     (\<exists>m. bq_amount_due q = cents m \<and>
        (if bq_is_upgrade q
         then t < lg_end L \<and> lg_plan L < p \<and> m \<le> 100 * (plan_price p - plan_price (lg_plan L))
         else lg_end L \<le> t \<and> m = 100 * plan_price p))"

lemma quote_new:
  assumes L: "lg_end L \<le> t" and clk: "clk i = jnat t" and q: "quote clk i (jnat p) (ledger_state L) = Some q"
    and p: "1 \<le> p" "p \<le> 4"
  shows "quote_spec L t p q"
proof -
  obtain target where target: "find_plan (jnat p) = Some target" "pl_price_amount target = jnat (plan_price p)"
    using find_plan_jnat [OF p] .
  have "plan_price p \<le> 600" by (rule plan_price_le [OF p(2)])
  then have "quote_amount target None (Fin 1) = cents (100 * plan_price p)"
    using full_price_in_cents jnat_price_sub [of 0 p] p(2)
    by (simp add: quote_amount_def target jnat_zero [symmetric] plan_price_def [of 0] jnat_def)
  with L clk q target p show ?thesis by (auto simp: quote_def active_ledger quote_spec_def Let_def)
qed

lemma quote_upgrade:
  assumes ok: "ledger_ok L" and L: "t < lg_end L" and clk: "clk i = jnat t" "clk (i + 1) = jnat u" "u \<le> 2 ^ 50"
    and q: "quote clk i (jnat p) (ledger_state L) = Some q" and p: "1 \<le> p" "p \<le> 4"
  shows "quote_spec L t p q"
proof -
  let ?c = "lg_plan L"
  obtain target where target: "find_plan (jnat p) = Some target" "pl_price_amount target = jnat (plan_price p)"
    using find_plan_jnat [OF p] .
  have c: "1 \<le> ?c" "?c \<le> 4" using ledger_plan [OF ok L] by auto
  obtain cur where cur: "find_plan (jnat ?c) = Some cur" "pl_price_amount cur = jnat (plan_price ?c)"
    using find_plan_jnat [OF c] .
  from q have less: "plan_price ?c < plan_price p"
    using L clk target cur by (auto simp: quote_def active_ledger Let_def split: if_splits)
  then have lt: "?c < p" by (rule plan_price_less [OF _ c p])
  have "u \<le> 2 ^ 52" using clk(3) by simp
  then obtain f where f: "remaining_fraction (jnat u) (ledger_state L) = Fin f" "0 \<le> f" "f \<le> 1"
    using fraction_clamped ledger_times [OF ok] by blast
  have "plan_price p - plan_price ?c \<le> 600" using plan_price_le [OF p(2)] by simp
  then obtain m where "quote_amount target (Some cur) (Fin f) = cents m" "m \<le> 100 * (plan_price p - plan_price ?c)"
    using share_in_cents f(2,3) jnat_price_sub [of ?c p] less p(2)
    by (auto simp: quote_amount_def target cur num_or_zero_jnat)
  with L clk q target cur f less lt p show ?thesis
    by (auto simp: quote_def active_ledger quote_spec_def Let_def split: if_splits)
qed

lemma quote_in_cents:
  assumes "ledger_ok L" and "clock_ok clk" and "quote clk i planId (ledger_state L) = Some q"
  obtains t p where "t \<le> 2 ^ 50" "clk i = jnat t" "quote_spec L t p q"
proof -
  obtain t u where t: "t \<le> 2 ^ 50" "clk i = jnat t" "u \<le> 2 ^ 50" "clk (i + 1) = jnat u"
    using clock_nat [OF assms(2)] by blast
  from assms(3) obtain target where "find_plan planId = Some target" by (auto simp: quote_def split: option.splits)
  then obtain p where p: "1 \<le> p" "p \<le> 4" "planId = jnat p" using find_plan_Some by metis
  show ?thesis
  proof (cases "lg_end L \<le> t")
    case True
    with that t quote_new [of L t clk i p q] assms(3) p show ?thesis by blast
  next
    case False
    then have "t < lg_end L" by simp
    with that t quote_upgrade [of L t clk i u p q] assms(1,3) p show ?thesis by blast
  qed
qed

section \<open>Requests are steps of the ledger\<close>

lemma order_purchases_snoc:
  "order_purchases (ords @ [x]) = order_purchases ords @ [order_purchase (length ords) x]"
  by (simp add: order_purchases_def enumerate_append_eq)

lemma length_order_purchases [simp]: "length (order_purchases ords) = length ords"
  by (simp add: order_purchases_def)

lemma jnat_month: "n \<le> 2 ^ 50 \<Longrightarrow> js_add (jnat n) DEMO_MONTH = jnat (n + MONTH)"
  using js_add_int [of "int n" "int MONTH"] by (simp add: jnat_def DEMO_MONTH_def MONTH_def)

lemma purchase_is_step:
  assumes ok: "ledger_ok L" and auth: "lg_auth L" and q: "quote_spec L t p q" and t: "t \<le> 2 ^ 50" "now \<le> 2 ^ 50"
    and covered: "\<not> js_lt (cents (lg_cents L)) (bq_amount_due q)"
  shows "\<exists>L'. ledger_step L L' \<and> purchase (jnat now) q (ledger_state L) = ledger_state L'"
proof -
  from q obtain m where m: "bq_amount_due q = cents m" "bq_plan_id q = jnat p" "1 \<le> p" "p \<le> 4"
    and due: "if bq_is_upgrade q then t < lg_end L \<and> lg_plan L < p \<and> m \<le> 100 * (plan_price p - plan_price (lg_plan L))
      else lg_end L \<le> t \<and> m = 100 * plan_price p"
    by (auto simp: quote_spec_def)
  have "m \<le> 10 ^ 6" using due plan_price_le [OF m(4)] by (cases "bq_is_upgrade q") auto
  then have pay: "m \<le> lg_cents L" "js_div (math_round (js_mul (js_sub (cents (lg_cents L)) (cents m)) (Fin 100))) (Fin 100) = cents (lg_cents L - m)"
    using demo_wallet.covered [OF ledger_cents [OF ok]] covered m(1) by auto
  show ?thesis
  proof (cases "bq_is_upgrade q")
    case True
    with lg_upgrade [OF auth m(4) _ _ t(2), of t m] due pay m show ?thesis
      by (intro exI conjI) (auto simp: purchase_def ledger_state_def order_purchases_snoc order_purchase_def Let_def)
  next
    case False
    with lg_buy [OF auth m(3,4) _ t] due pay m jnat_month [OF t(2)] show ?thesis
      by (intro exI conjI)
        (auto simp: purchase_def ledger_state_def order_purchases_snoc order_purchase_def Let_def)
  qed
qed

text \<open>What a request does to the engine, whatever it answers.\<close>

definition effect :: "(nat \<Rightarrow> jsnum) \<Rightarrow> bool \<Rightarrow> json \<Rightarrow> DemoEngine \<Rightarrow> DemoEngine \<Rightarrow> bool" where
  "effect clk w payload e e' \<longleftrightarrow> e' = e \<or>
     (\<exists>b. e' = with_state w e ((de_state e)\<lparr>ds_authenticated := b\<rparr>)) \<or>
     (ds_authenticated (de_state e) \<and> (\<exists>l. JStr l \<in> snd ` set (payload_data payload) \<and>
        e' = with_state w e ((de_state e)\<lparr>ds_language := l\<rparr>))) \<or>
     (ds_authenticated (de_state e) \<and> (\<exists>planId q. quote clk 1 planId (de_state e) = Some q \<and>
        \<not> js_lt (ds_balance (de_state e)) (bq_amount_due q) \<and>
        e' = with_state w e (purchase (clk 0) q (de_state e))))"

lemma effect_refl [intro!, simp]: "effect clk w payload e e"
  by (simp add: effect_def)

lemma effect_login: "login clk w dat e = (e', r) \<Longrightarrow> effect clk w payload e e'"
  by (auto simp: login_def effect_def Let_def split: if_splits)

lemma effect_logout: "logout w e = (e', r) \<Longrightarrow> effect clk w payload e e'"
  by (auto simp: logout_def effect_def)

lemma effect_language:
  assumes "set_language clk w l e = (e', r)" and "map_of (payload_data payload) k = Some (JStr l)"
    and "ds_authenticated (de_state e)"
  shows "effect clk w payload e e'"
proof -
  have "JStr l \<in> snd ` set (payload_data payload)" using map_of_SomeD [OF assms(2)] by (rule rev_image_eqI) simp
  with assms show ?thesis by (auto simp: set_language_def effect_def Let_def)
qed

lemma effect_pay:
  assumes "pay clk w planId e = (e', r)" and "ds_authenticated (de_state e)"
  shows "effect clk w payload e e'"
  using assms by (auto simp: pay_def effect_def split: option.splits if_splits)

lemmas effects = effect_login effect_logout effect_language effect_pay

lemma request_effect:
  assumes "request env URL lower clk w http_method url payload e = Inr (e', r)"
  shows "effect clk w payload e e'"
proof (cases "URL url")
  case None
  with assms show ?thesis by (simp add: request_def)
next
  case (Some v)
  obtain pathname ps where v: "v = (pathname, ps)" by (cases v)
  show ?thesis
    using assms unfolding request_def Some v option.case prod.case Let_def
    by (auto intro: effects split: if_split_asm option.split_asm sum.split_asm json.split_asm)
qed

lemma payload_units: "json_units payload \<Longrightarrow> JStr l \<in> snd ` set (payload_data payload) \<Longrightarrow> wide l"
proof -
  assume u: "json_units payload" and "JStr l \<in> snd ` set (payload_data payload)"
  then obtain k where k: "(k, JStr l) \<in> set (payload_data payload)" by auto
  show "wide l"
  proof (cases payload)
    case (JArr xs)
    with k have "JStr l \<in> set xs" by (auto simp: payload_data_def enumerate_eq_zip dest: set_zip_rightD)
    with u JArr show ?thesis by fastforce
  next
    case (JObj ps)
    with u k show ?thesis by (fastforce simp: payload_data_def)
  qed (use k in \<open>auto simp: payload_data_def\<close>)
qed

lemma state_with [simp]: "de_state (with_state w e s) = s"
  by (simp add: with_state_def save_def split: option.splits)

lemma effect_is_step:
  assumes eff: "effect clk w payload e e'" and L: "de_state e = ledger_state L" "ledger_ok L"
    and "clock_ok clk" and "json_units payload"
  shows "\<exists>L'. ledger_step L L' \<and> de_state e' = ledger_state L'"
proof -
  have auth: "ds_authenticated (de_state e) = lg_auth L" "ds_balance (de_state e) = cents (lg_cents L)"
    by (simp_all add: L ledger_state_def)
  from eff [unfolded effect_def] consider "e' = e"
    | b where "e' = with_state w e ((de_state e)\<lparr>ds_authenticated := b\<rparr>)"
    | l where "lg_auth L" "JStr l \<in> snd ` set (payload_data payload)"
        "e' = with_state w e ((de_state e)\<lparr>ds_language := l\<rparr>)"
    | planId q where "lg_auth L" "quote clk 1 planId (de_state e) = Some q"
        "\<not> js_lt (cents (lg_cents L)) (bq_amount_due q)" "e' = with_state w e (purchase (clk 0) q (de_state e))"
    unfolding auth by blast
  then show ?thesis
  proof cases
    case 1
    with L lg_idle show ?thesis by auto
  next
    case (2 b)
    with L lg_sign [of L b] show ?thesis by (auto simp: ledger_state_def)
  next
    case (3 l)
    with payload_units [OF assms(5) 3(2)] L lg_speak [of L l] show ?thesis by (auto simp: ledger_state_def)
  next
    case (4 planId q)
    from 4(2) obtain t p where "t \<le> 2 ^ 50" "clk 1 = jnat t" "quote_spec L t p q"
      using quote_in_cents [OF L(2) assms(4), of 1 planId q] L(1) by auto
    moreover obtain now where "now \<le> 2 ^ 50" "clk 0 = jnat now" using clock_nat [OF assms(4)] by blast
    ultimately show ?thesis using purchase_is_step [OF L(2) 4(1)] 4(3,4) L(1) by auto
  qed
qed

section \<open>The stored text\<close>

lemma printable_jnat: "n \<le> 2 ^ 53 \<Longrightarrow> printable (JNum (jnat n))"
  using nat_reads_back by (simp add: jnat_def)

lemma printable_cents: "k \<le> 10 ^ 6 \<Longrightarrow> printable (JNum (cents k))"
  using cents_reads_back by simp

lemma printable_order: "order_ok ord \<Longrightarrow> i < 2 ^ 53 \<Longrightarrow> printable (purchase_json (order_purchase i ord))"
  unfolding purchase_json_def order_purchase_def order_ok_def printable_jobj
  using printable_jnat [of "i + 1"] printable_jnat printable_cents
  by (cases ord) (auto simp: js_not_index is_digit_def simp del: printable.simps)

lemma ledger_order_at: "ledger_ok L \<Longrightarrow> i < length (lg_orders L) \<Longrightarrow> order_ok (lg_orders L ! i) \<and> i < 2 ^ 53"
proof
  assume L: "ledger_ok L" and i: "i < length (lg_orders L)"
  from L have "list_all order_ok (lg_orders L)" by (simp add: ledger_ok_def)
  with i show "order_ok (lg_orders L ! i)" by (simp add: list_all_length)
  show "i < 2 ^ 53" using ledger_orders_bound [OF L] i by simp
qed

lemma nth_order_purchases: "i < length ords \<Longrightarrow> order_purchases ords ! i = order_purchase i (ords ! i)"
  by (simp add: order_purchases_def nth_enumerate_eq)

lemma all_purchases:
  assumes "ledger_ok L" and "\<And>i ord. order_ok ord \<Longrightarrow> i < 2 ^ 53 \<Longrightarrow> P (order_purchase i ord)"
  shows "\<forall>p \<in> set (order_purchases (lg_orders L)). P p"
  unfolding all_set_conv_all_nth length_order_purchases
proof (intro allI impI)
  fix i assume i: "i < length (lg_orders L)"
  with ledger_order_at [OF assms(1) i] assms(2) show "P (order_purchases (lg_orders L) ! i)"
    unfolding nth_order_purchases [OF i] by blast
qed

lemma printable_state:
  assumes L: "ledger_ok L"
  shows "printable (state_json (ledger_state L))"
proof -
  have "\<forall>v \<in> set (map purchase_json (order_purchases (lg_orders L))). printable v"
    using all_purchases [OF L, of "\<lambda>p. printable (purchase_json p)"] printable_order by simp
  moreover have "lg_plan L \<le> 2 ^ 53" "lg_start L \<le> 2 ^ 53" "lg_end L \<le> 2 ^ 53" "wide (lg_language L)"
    using L by (auto simp: ledger_ok_def MONTH_def split: if_splits)
  ultimately show ?thesis
    using printable_jnat printable_cents [OF ledger_cents [OF L]]
    unfolding state_json_def printable_jobj ledger_state_def
    by (auto simp: js_not_index is_digit_def)
qed

lemma schema_orders:
  assumes L: "ledger_ok L"
  shows "list_all purchase_ok (order_purchases (lg_orders L))"
proof -
  have "purchase_ok (order_purchase i ord)" if "order_ok ord" for i ord
  proof -
    obtain p m t where ord: "ord = (p, m, t)" by (cases ord)
    with that have m: "m \<le> 10 ^ 6" by (simp add: order_ok_def)
    obtain v where "cents m = Fin v" "0 \<le> v" using cents_near [OF m] .
    then show ?thesis by (simp add: purchase_ok_def order_purchase_def ord jnat_def)
  qed
  then show ?thesis unfolding list_all_iff by (intro all_purchases [OF L])
qed

lemma schema_of_ledger:
  assumes L: "ledger_ok L"
  shows "stateSchema (ledger_state L) \<longleftrightarrow> length (lg_orders L) \<le> 100"
proof -
  obtain v where v: "cents (lg_cents L) = Fin v" "0 \<le> v" using cents_near [OF ledger_cents [OF L]] .
  have "cents (10 ^ 6) = Fin 10000" using cents_whole [of 10000] by simp
  then have "js_le (cents (lg_cents L)) (Fin 10000)" using cents_le [OF ledger_cents [OF L], of "10 ^ 6"] ledger_cents [OF L] by simp
  moreover have "lg_plan L \<le> 4" using L by (auto simp: ledger_ok_def split: if_splits)
  then have "rat_of_nat (lg_plan L) \<le> of_nat 4" by (simp only: of_nat_le_iff)
  ultimately show ?thesis using v schema_orders [OF L]
    by (simp add: stateSchema_def ledger_state_def jnat_def is_integer_def)
qed

text \<open>
  The documented behaviour of the schema library on the texts the engine writes: a state that
  meets the constraints of the schema is returned as it is, any other state and null are refused.
\<close>

definition schema_checked :: "(json \<Rightarrow> DemoState option) \<Rightarrow> bool" where
  "schema_checked safeParse \<longleftrightarrow> safeParse JNull = None \<and>
     (\<forall>s. safeParse (state_json s) = (if stateSchema s then Some s else None))"

definition saved_text :: "Ledger \<Rightarrow> jsstr" where
  "saved_text L = json_stringify (state_json (ledger_state L))"

lemma initial_ledger: "initial_demo = ledger_state empty_ledger"
  using cents_whole [of 10000]
  by (simp add: initial_demo_def ledger_state_def empty_ledger_def jnat_def order_purchases_def)

lemma load_saved:
  assumes "schema_checked sp" and L: "ledger_ok L"
  shows "load_state sp (Some (Inr (Some (saved_text L)))) =
    (if length (lg_orders L) \<le> 100 then ledger_state L else initial_demo)"
proof -
  have parse: "json_parse (saved_text L) = Some (state_json (ledger_state L))"
    unfolding saved_text_def by (rule json_roundtrip [OF printable_state [OF L]])
  have "saved_text L \<noteq> []" by (simp add: saved_text_def state_json_def jobj_def)
  then have "stored_text (Some (saved_text L)) = saved_text L" by (simp add: stored_text_def opt_or_def str_or_def)
  then show ?thesis using assms(1) parse schema_of_ledger [OF L] by (simp add: load_state_def schema_checked_def)
qed

lemma load_nothing: "schema_checked sp \<Longrightarrow> load_state sp (Some (Inr None)) = initial_demo"
proof -
  assume sp: "schema_checked sp"
  have "json_parse (js ''null'') = Some JNull" by code_simp
  with sp show ?thesis by (simp add: load_state_def stored_text_def opt_or_def schema_checked_def)
qed

section \<open>Reachable engines\<close>

text \<open>The storage holds nothing or the text of a ledger that meets the invariant.\<close>

definition stored_ok :: "DemoStorage \<Rightarrow> bool" where
  "stored_ok st \<longleftrightarrow> st = Some (Inr None) \<or> (\<exists>L. ledger_ok L \<and> st = Some (Inr (Some (saved_text L))))"

definition engine_ok :: "DemoEngine \<Rightarrow> bool" where
  "engine_ok e \<longleftrightarrow> (\<exists>L. ledger_ok L \<and> de_state e = ledger_state L) \<and> stored_ok (de_storage e)"

lemma storage_with:
  assumes "stored_ok (de_storage e)" and "ledger_ok L"
  shows "stored_ok (de_storage (with_state w e (ledger_state L)))"
  using assms by (auto simp: with_state_def save_def stored_ok_def saved_text_def)

lemma effect_storage:
  assumes "effect clk w payload e e'" and "stored_ok (de_storage e)" and "de_state e' = ledger_state L'" "ledger_ok L'"
  shows "stored_ok (de_storage e')"
proof (cases "e' = e")
  case False
  with assms(1) obtain s where "e' = with_state w e s" by (auto simp: effect_def)
  with assms storage_with show ?thesis by auto
qed (use assms in simp)

lemma request_ok:
  assumes "engine_ok e" and "clock_ok clk" and "json_units payload"
    and "request env URL lower clk w http_method url payload e = Inr (e', r)"
  shows "engine_ok e'"
proof -
  from assms(1) obtain L where L: "ledger_ok L" "de_state e = ledger_state L" "stored_ok (de_storage e)"
    by (auto simp: engine_ok_def)
  note eff = request_effect [OF assms(4)]
  obtain L' where L': "ledger_step L L'" "de_state e' = ledger_state L'"
    using effect_is_step [OF eff L(2,1) assms(2,3)] by blast
  with ledger_step_ok [OF L'(1) L(1)] effect_storage [OF eff L(3)] show ?thesis by (auto simp: engine_ok_def)
qed

lemma new_engine_ok: "schema_checked sp \<Longrightarrow> stored_ok st \<Longrightarrow> engine_ok (new_engine sp st)"
  using load_saved load_nothing empty_ledger_ok
  by (auto simp: engine_ok_def new_engine_def stored_ok_def initial_ledger)

lemma reachable_ok:
  assumes "schema_checked sp"
  shows "demo_reachable env URL lower sp e \<Longrightarrow> engine_ok e"
proof (induction rule: demo_reachable.induct)
  case demo_start
  then show ?case by (intro new_engine_ok [OF assms]) (simp add: stored_ok_def)
next
  case (demo_run e e')
  from demo_run.hyps(2) show ?case
  proof (cases rule: demo_step.cases)
    case demo_request
    then show ?thesis using request_ok demo_run.IH by blast
  next
    case demo_reload
    then show ?thesis using new_engine_ok [OF assms] demo_run.IH by (simp add: engine_ok_def)
  qed
qed

lemma reachable_ledger:
  assumes "schema_checked sp" and "demo_reachable env URL lower sp e"
  obtains L where "ledger_ok L" "de_state e = ledger_state L" "stored_ok (de_storage e)"
  using reachable_ok [OF assms] by (auto simp: engine_ok_def)

lemma purchases_of_orders:
  "map dp_amount (order_purchases ords) = map (\<lambda>(p, m, t). cents m) ords"
  "map dp_id (order_purchases ords) = map jnat [1..<length ords + 1]"
  "map dp_planId (order_purchases ords) = map (\<lambda>(p, m, t). jnat p) ords"
  by (induction ords rule: rev_induct) (auto simp: order_purchases_snoc order_purchase_def order_purchases_def [of "[]"])

end
