(* ===== verification/Demo_Runs.thy ===== *)
theory Demo_Runs
  imports Demo_Props
begin

text \<open>
  The properties of the demo engine: its account never loses a cent, survives a reload, is only
  reached after signing in, never runs into an exception, and can be used until it is spent.
\<close>

section \<open>Which requests do what\<close>

definition PUBLIC_ENDPOINTS :: "(string \<times> string) list" where
  "PUBLIC_ENDPOINTS =
     [(''GET'', ''/api/status''), (''GET'', ''/api/setup''), (''GET'', ''/api/user-agreement''),
      (''GET'', ''/api/privacy-policy''), (''GET'', ''/api/subscription/plans''),
      (''POST'', ''/api/user/login''), (''GET'', ''/api/user/logout'')]"

definition WRITE_ENDPOINTS :: "(string \<times> string) list" where
  "WRITE_ENDPOINTS =
     [(''POST'', ''/api/user/login''), (''GET'', ''/api/user/logout''), (''PUT'', ''/api/user/self''),
      (''POST'', ''/api/subscription/balance/pay'')]"

definition endpoint_in :: "jsstr \<Rightarrow> jsstr \<Rightarrow> (string \<times> string) list \<Rightarrow> bool" where
  "endpoint_in http_method path eps = list_ex (\<lambda>(m, p). http_method = js m \<and> path = js p) eps"

lemmas endpoint_simps = endpoint_in_def PUBLIC_ENDPOINTS_def WRITE_ENDPOINTS_def path_in_def

lemma fail_status [simp]: "dr_status (fail msg n) = n" and ok_status [simp]: "dr_status (ok v) = 200"
  by (simp_all add: fail_def ok_def ok_with_def)

lemma not_public:
  assumes "\<not> endpoint_in http_method path PUBLIC_ENDPOINTS"
  shows "\<not> (http_method = js ''GET'' \<and> path = js ''/api/status'')" "\<not> (http_method = js ''GET'' \<and> path = js ''/api/setup'')"
    "\<not> (http_method = js ''GET'' \<and> path_in path [''/api/user-agreement'', ''/api/privacy-policy''])"
    "\<not> (http_method = js ''GET'' \<and> path = js ''/api/subscription/plans'')"
    "\<not> (http_method = js ''POST'' \<and> path = js ''/api/user/login'')"
    "\<not> (http_method = js ''GET'' \<and> path = js ''/api/user/logout'')"
  using assms by (auto simp: endpoint_simps)

lemma private_request:
  assumes "URL url = Some (pathname, ps)" and "\<not> ds_authenticated (de_state e)"
    and np: "\<not> endpoint_in http_method (strip_end_slashes pathname) PUBLIC_ENDPOINTS"
  shows "request env URL lower clk w http_method url payload e = Inr (e, fail ''Please sign in to the demo first'' 401)"
  unfolding request_def assms(1) option.case prod.case Let_def
  by (simp only: not_public [OF np] assms(2) if_False if_True not_False_eq_True)

lemma signed_out_request:
  assumes "request env URL lower clk w http_method url payload e = Inr (e', r)"
    and "\<not> ds_authenticated (de_state e)"
  shows "\<exists>b. de_state e' = (de_state e)\<lparr>ds_authenticated := b\<rparr>"
proof -
  have "\<exists>b. de_state e = (de_state e)\<lparr>ds_authenticated := b\<rparr>"
    by (intro exI [of _ "ds_authenticated (de_state e)"]) simp
  then show ?thesis using request_effect [OF assms(1)] assms(2) by (auto simp: effect_def)
qed

lemma reading_request:
  assumes "request env URL lower clk w http_method url payload e = Inr (e', r)"
    and "URL url = Some (pathname, ps)"
    and "\<not> endpoint_in http_method (strip_end_slashes pathname) WRITE_ENDPOINTS"
  shows "e' = e"
  using assms unfolding request_def assms(2) option.case prod.case Let_def
  by (auto simp: endpoint_simps split: if_split_asm option.split_asm sum.split_asm json.split_asm)

lemma login_request:
  assumes "request env URL lower clk w http_method url payload e = Inr (e', r)"
    and "URL url = Some (pathname, ps)" and "\<not> ds_authenticated (de_state e)" and "ds_authenticated (de_state e')"
  shows "map_of (payload_data payload) (js ''username'') = Some (jstr ''snowapidemo'') \<and>
    map_of (payload_data payload) (js ''password'') = Some (jstr ''1234567890'')"
  using assms unfolding request_def assms(2) option.case prod.case Let_def
  by (auto simp: login_def logout_def Let_def split: if_split_asm)

section \<open>No exceptions\<close>

lemma order_titles: "1 \<le> p \<Longrightarrow> p \<le> 4 \<Longrightarrow> \<exists>title. order_title (jnat p) = Inr title"
proof -
  assume p: "1 \<le> p" "p \<le> 4"
  have "js_sub (jnat p) (Fin 1) = Fin (of_int (int p - 1))" using jnat_sub [of p 1] p by (simp add: jnat_def)
  moreover have "length demoPlans = 4" by (simp add: demoPlans_def)
  ultimately show ?thesis using p by (auto simp: order_title_def)
qed

lemma orders_listed: "list_all order_ok ords \<Longrightarrow> \<exists>items. order_list (order_purchases ords) = Inr items"
proof -
  have "(\<forall>q \<in> set ps. \<exists>title. order_title (dp_planId q) = Inr title) \<Longrightarrow> \<exists>items. order_list ps = Inr items" for ps
    by (induction ps) fastforce+
  moreover assume "list_all order_ok ords"
  then have "\<forall>n \<in> set (map dp_planId (order_purchases ords)). \<exists>title. order_title n = Inr title"
    unfolding purchases_of_orders using order_titles by (fastforce simp: list_all_iff order_ok_def)
  ultimately show ?thesis by simp
qed

lemma first_of_mem: "first_of xs d = d \<or> Some (first_of xs d) \<in> set xs"
  by (induction xs d rule: first_of.induct) auto

lemma read_orders_Inr: "order_list (ds_purchases s) = Inr items \<Longrightarrow> read_orders lower now s grp path ps \<noteq> Some (Inl err)"
  by (simp add: read_orders_def Let_def)

lemma read_succeeds:
  assumes "order_list (ds_purchases s) = Inr items"
  shows "\<exists>r. read_request env lower clk s path ps = Inr r"
proof (cases "read_request env lower clk s path ps")
  case (Inl err)
  have no: "Some (Inl err) \<noteq> map_option Inr y" for y :: "DemoResult option" by (cases y) auto
  have "Some (Inl err) = read_orders lower (clk 0) s (demo_group (activePlan (clk 1) s)) path ps"
    using first_of_mem [of _ "Inr (fail ''This action is not available in the frontend demo'' 403)"] Inl no
    unfolding read_request_def Let_def by (metis (no_types, lifting) list.set_cases set_ConsD Inl_Inr_False empty_iff list.set(1))
  with read_orders_Inr [OF assms] show ?thesis by metis
qed auto

lemma number_succeeds: "\<forall>v \<in> snd ` set dat. \<not> str_throws v \<Longrightarrow> \<exists>x. js_Number (map_of dat k) = Inr x"
proof (cases "map_of dat k")
  case (Some v)
  assume "\<forall>v \<in> snd ` set dat. \<not> str_throws v"
  moreover have "v \<in> snd ` set dat" using map_of_SomeD [OF Some] by (rule rev_image_eqI) simp
  ultimately have "\<not> str_throws v" by blast
  with Some show ?thesis by (cases v) (auto simp: js_Number_def number_of_def simp del: str_throws.simps)
qed (simp add: js_Number_def number_of_def)

lemma request_succeeds:
  assumes "URL url = Some (pathname, ps)" and "\<forall>v \<in> snd ` set (payload_data payload). \<not> str_throws v"
    and "order_list (ds_purchases (de_state e)) = Inr items"
  shows "\<exists>e' r. request env URL lower clk w http_method url payload e = Inr (e', r)"
proof (cases "request env URL lower clk w http_method url payload e")
  case (Inl err)
  obtain x y where xy: "js_Number (map_of (payload_data payload) (js ''amount'')) = Inr x"
    "js_Number (map_of (payload_data payload) (js ''plan_id'')) = Inr y" using number_succeeds [OF assms(2)] by blast
  obtain rr where rr: "read_request env lower clk (de_state e) (strip_end_slashes pathname) ps = Inr rr"
    using read_succeeds [OF assms(3)] by blast
  from Inl show ?thesis unfolding request_def assms(1) option.case prod.case Let_def xy rr sum.case
    by (auto split: if_split_asm option.split_asm json.split_asm)
qed auto

section \<open>Buying a plan\<close>

definition login_payload :: json where
  "login_payload = jobj [(''username'', jstr ''snowapidemo''), (''password'', jstr ''1234567890'')]"

definition pay_payload :: "nat \<Rightarrow> json" where
  "pay_payload p = jobj [(''plan_id'', JNum (jnat p))]"

text \<open>A parser of addresses that reads the two addresses used here.\<close>

definition reads_paths :: "url_parser \<Rightarrow> bool" where
  "reads_paths URL \<longleftrightarrow> (\<forall>p \<in> {''/api/user/login'', ''/api/subscription/balance/pay''}. URL (js p) = Some (js p, []))"

lemma strip_paths [simp]:
  "strip_end_slashes (js ''/api/user/login'') = js ''/api/user/login''"
  "strip_end_slashes (js ''/api/subscription/balance/pay'') = js ''/api/subscription/balance/pay''"
  by code_simp+

lemma constant_clock: "t \<le> 2 ^ 50 \<Longrightarrow> clock_ok (\<lambda>i. jnat t)"
  by (auto simp: clock_ok_def)

lemma payload_units_ok: "json_units login_payload" "json_units (pay_payload p)"
  by (simp_all add: login_payload_def pay_payload_def jobj_def jstr_def)

lemma login_step:
  fixes t :: nat
  assumes "reads_paths URL" and "t \<le> 2 ^ 50"
  shows "demo_step env URL lower sp e (with_state True e ((de_state e)\<lparr>ds_authenticated := True\<rparr>))"
proof (rule demo_request [OF constant_clock [OF assms(2)] payload_units_ok(1)])
  show "request env URL lower (\<lambda>i. jnat t) True (js ''POST'') (js ''/api/user/login'') login_payload e =
      Inr (with_state True e ((de_state e)\<lparr>ds_authenticated := True\<rparr>),
        ok (profile (\<lambda>i. jnat t) 1 ((de_state e)\<lparr>ds_authenticated := True\<rparr>)))"
    using assms(1) unfolding reads_paths_def request_def
    by (simp add: inj_js login_def payload_data_def login_payload_def jobj_def path_in_def Let_def)
qed

lemma buy_quote:
  assumes "1 \<le> p" "p \<le> 4" and "lg_end L \<le> t"
  obtains q where "quote (\<lambda>i. jnat t) 1 (jnat p) (ledger_state L) = Some q" "\<not> bq_is_upgrade q"
    "bq_plan_id q = jnat p" "bq_amount_due q = cents (100 * plan_price p)"
proof -
  obtain target where target: "find_plan (jnat p) = Some target" using find_plan_jnat [OF assms(1,2)] by blast
  then obtain q where q: "quote (\<lambda>i. jnat t) 1 (jnat p) (ledger_state L) = Some q" "\<not> bq_is_upgrade q"
    using assms(3) by (auto simp: quote_def active_ledger Let_def)
  with quote_new [OF assms(3) _ q(1) assms(1,2)] that show ?thesis by (auto simp: quote_spec_def)
qed

lemma buy_step:
  assumes "reads_paths URL" and t: "t \<le> 2 ^ 50" "lg_end L \<le> t" and p: "1 \<le> p" "p \<le> 4"
    and L: "ledger_ok L" "lg_auth L" "de_state e = ledger_state L" "100 * plan_price p \<le> lg_cents L"
  shows "\<exists>e'. demo_step env URL lower sp e e' \<and>
    de_state e' = ledger_state (L\<lparr>lg_cents := lg_cents L - 100 * plan_price p, lg_plan := p, lg_start := t,
      lg_end := t + MONTH, lg_orders := lg_orders L @ [(p, 100 * plan_price p, t)]\<rparr>)"
proof -
  obtain q where q: "quote (\<lambda>i. jnat t) 1 (jnat p) (ledger_state L) = Some q" "\<not> bq_is_upgrade q"
    "bq_plan_id q = jnat p" "bq_amount_due q = cents (100 * plan_price p)" using buy_quote [OF p t(2)] .
  let ?e = "with_state True e (purchase (jnat t) q (ledger_state L))"
  have "100 * plan_price p \<le> 10 ^ 6" using plan_price_le [OF p(2)] by simp
  then have enough: "\<not> js_lt (ds_balance (de_state e)) (bq_amount_due q)"
    using cents_lt [OF ledger_cents [OF L(1)], of "100 * plan_price p"] L(3,4) q(4) by (simp add: ledger_state_def)
  have "ds_authenticated (de_state e)" using L(2,3) by (simp add: ledger_state_def)
  then have "request env URL lower (\<lambda>i. jnat t) True (js ''POST'') (js ''/api/subscription/balance/pay'') (pay_payload p) e =
      Inr (?e, ok (quote_json q))"
    using assms(1) q(1) enough L(3) unfolding reads_paths_def request_def
    by (simp add: inj_js pay_def payload_data_def pay_payload_def jobj_def path_in_def js_Number_def number_of_def)
  from demo_request [OF constant_clock [OF t(1)] payload_units_ok(2) this]
  have "demo_step env URL lower sp e ?e" .
  moreover have "purchase (jnat t) q (ledger_state L) =
      ledger_state (L\<lparr>lg_cents := lg_cents L - 100 * plan_price p, lg_plan := p, lg_start := t,
        lg_end := t + MONTH, lg_orders := lg_orders L @ [(p, 100 * plan_price p, t)]\<rparr>)"
    using q jnat_month [OF t(1)] sub_cents [OF L(4) ledger_cents [OF L(1)]]
    by (simp add: purchase_def ledger_state_def order_purchases_snoc order_purchase_def)
  ultimately show ?thesis by auto
qed

lemma can_buy:
  assumes "reads_paths URL" and t: "t \<le> 2 ^ 50" "lg_end L \<le> t" and p: "1 \<le> p" "p \<le> 4"
    and L: "ledger_ok L" "de_state e = ledger_state L" "100 * plan_price p \<le> lg_cents L"
  shows "\<exists>e'. (demo_step env URL lower sp)\<^sup>*\<^sup>* e e' \<and>
    de_state e' = ledger_state (L\<lparr>lg_auth := True, lg_cents := lg_cents L - 100 * plan_price p, lg_plan := p,
      lg_start := t, lg_end := t + MONTH, lg_orders := lg_orders L @ [(p, 100 * plan_price p, t)]\<rparr>)"
proof -
  let ?L = "L\<lparr>lg_auth := True\<rparr>"
  let ?e = "with_state True e ((de_state e)\<lparr>ds_authenticated := True\<rparr>)"
  have "ledger_ok ?L" using ledger_step_ok [OF lg_sign L(1)] .
  moreover have "de_state ?e = ledger_state ?L" by (simp add: L(2) ledger_state_def)
  ultimately obtain e' where "demo_step env URL lower sp ?e e'"
    "de_state e' = ledger_state (?L\<lparr>lg_cents := lg_cents L - 100 * plan_price p, lg_plan := p, lg_start := t,
      lg_end := t + MONTH, lg_orders := lg_orders L @ [(p, 100 * plan_price p, t)]\<rparr>)"
    using buy_step [OF assms(1) t(1) _ p, where L = ?L and e = ?e and env = env and lower = lower and sp = sp] t(2) L(3)
    by auto
  with login_step [OF assms(1) t(1), of env lower sp e] show ?thesis
    by (intro exI [of _ e']) (auto intro: converse_rtranclp_into_rtranclp)
qed

lemma reachable_trans: "(demo_step env URL lower sp)\<^sup>*\<^sup>* e e' \<Longrightarrow> demo_reachable env URL lower sp e \<Longrightarrow>
    demo_reachable env URL lower sp e'"
  by (induction rule: rtranclp_induct) (auto intro: demo_run)

text \<open>A plan a month, for as long as the money lasts.\<close>

lemma monthly_purchases:
  assumes "schema_checked sp" and "reads_paths URL"
  shows "n \<le> 200 \<Longrightarrow> \<exists>e L. demo_reachable env URL lower sp e \<and> ledger_ok L \<and> de_state e = ledger_state L \<and>
    length (lg_orders L) = n \<and> lg_cents L = 10 ^ 6 - 5000 * n \<and> lg_end L \<le> n * MONTH"
proof (induction n)
  case 0
  let ?e = "new_engine sp (Some (Inr None))"
  have "de_state ?e = ledger_state empty_ledger"
    using load_nothing [OF assms(1)] by (simp add: new_engine_def initial_ledger)
  then show ?case using demo_start [of env URL lower sp] empty_ledger_ok
    by (intro exI [of _ ?e] exI [of _ empty_ledger]) (simp add: empty_ledger_def)
next
  case (Suc n)
  then obtain e L where e: "demo_reachable env URL lower sp e" "ledger_ok L" "de_state e = ledger_state L"
    "length (lg_orders L) = n" "lg_cents L = 10 ^ 6 - 5000 * n" "lg_end L \<le> n * MONTH" by auto
  have price: "plan_price 1 = 50" by (simp add: plan_price_def)
  have "n * MONTH \<le> 2 ^ 50" "100 * plan_price 1 \<le> lg_cents L" using Suc.prems e(5) price by (auto simp: MONTH_def)
  then obtain e' where e': "(demo_step env URL lower sp)\<^sup>*\<^sup>* e e'"
    "de_state e' = ledger_state (L\<lparr>lg_auth := True, lg_cents := lg_cents L - 100 * plan_price 1, lg_plan := 1,
      lg_start := n * MONTH, lg_end := n * MONTH + MONTH, lg_orders := lg_orders L @ [(1, 100 * plan_price 1, n * MONTH)]\<rparr>)"
    (is "_ = ledger_state ?L")
    using can_buy [OF assms(2) _ e(6), where p = 1 and e = e and env = env and lower = lower and sp = sp] e(2,3) by auto
  have L': "ledger_ok ?L" using buy_ok [OF ledger_step_ok [OF lg_sign [of L True] e(2)], of 1 "n * MONTH"]
      \<open>n * MONTH \<le> 2 ^ 50\<close> \<open>100 * plan_price 1 \<le> lg_cents L\<close> by simp
  moreover have "length (lg_orders ?L) = Suc n" "lg_cents ?L = 10 ^ 6 - 5000 * Suc n" "lg_end ?L \<le> Suc n * MONTH"
    using e(4,5) price Suc.prems by auto
  ultimately show ?case using reachable_trans [OF e'(1) e(1)] e'(2) by blast
qed

section \<open>An instance of the parameters\<close>

definition num_field :: "(jsstr \<times> json) list \<Rightarrow> string \<Rightarrow> jsnum option" where
  "num_field ps k = (case map_of ps (js k) of Some (JNum x) \<Rightarrow> Some x | _ \<Rightarrow> None)"

definition decode_purchase :: "json \<Rightarrow> DemoPurchase option" where
  "decode_purchase v =
     (case v of
        JObj ps \<Rightarrow>
          (case (num_field ps ''id'', num_field ps ''planId'', num_field ps ''amount'', num_field ps ''time'') of
             (Some i, Some p, Some a, Some t) \<Rightarrow> Some \<lparr>dp_id = i, dp_planId = p, dp_amount = a, dp_time = t\<rparr>
           | _ \<Rightarrow> None)
      | _ \<Rightarrow> None)"

definition decode_state :: "json \<Rightarrow> DemoState option" where
  "decode_state v =
     (case v of
        JObj ps \<Rightarrow>
          (case (map_of ps (js ''authenticated''), num_field ps ''balance'', num_field ps ''planId'',
                 num_field ps ''startTime'', num_field ps ''endTime'', map_of ps (js ''language''),
                 map_of ps (js ''purchases'')) of
             (Some (JBool a), Some b, Some p, Some st, Some en, Some (JStr l), Some (JArr xs)) \<Rightarrow>
               (case those (map decode_purchase xs) of
                  Some os \<Rightarrow>
                    (let s = \<lparr>ds_authenticated = a, ds_balance = b, ds_planId = p, ds_startTime = st,
                       ds_endTime = en, ds_language = l, ds_purchases = os\<rparr> in
                     if stateSchema s then Some s else None)
                | None \<Rightarrow> None)
           | _ \<Rightarrow> None)
      | _ \<Rightarrow> None)"

lemma decode_purchase_json: "decode_purchase (purchase_json p) = Some p"
  by (simp add: decode_purchase_def purchase_json_def jobj_def num_field_def inj_js)

lemma decode_checked: "schema_checked decode_state"
proof -
  have "those (map decode_purchase (map purchase_json os)) = Some os" for os
    by (induction os) (simp_all add: decode_purchase_json)
  then have "decode_state (state_json s) = (if stateSchema s then Some s else None)" for s
    by (cases s) (simp add: decode_state_def state_json_def jobj_def num_field_def inj_js Let_def)
  then show ?thesis by (simp add: schema_checked_def decode_state_def)
qed

definition demo_env :: DemoEnv where
  "demo_env = \<lparr>env_base_path = None, env_logo = js ''logo.png''\<rparr>"

definition plain_url :: url_parser where
  "plain_url u = Some (u, [])"

lemma plain_reads: "reads_paths plain_url"
  by (simp add: reads_paths_def plain_url_def)

abbreviation sample_reachable :: "DemoEngine \<Rightarrow> bool" where
  "sample_reachable \<equiv> demo_reachable demo_env plain_url (\<lambda>s. s) decode_state"

lemma sample_engine:
  "\<exists>e L. sample_reachable e \<and> ledger_ok L \<and> de_state e = ledger_state L \<and> length (lg_orders L) = 2"
  using monthly_purchases [OF decode_checked plain_reads, of 2 demo_env "\<lambda>s. s"] by fastforce

section \<open>Properties\<close>

lemma ledger_amounts:
  assumes "ledger_ok L"
  shows "\<exists>k ms. ds_balance (ledger_state L) = cents k \<and>
    map dp_amount (ds_purchases (ledger_state L)) = map cents ms \<and> k + sum_list ms = 10 ^ 6"
proof -
  have "map (\<lambda>(p, m, t). cents m) (lg_orders L) = map cents (map (\<lambda>(p, m, t). m) (lg_orders L))"
    by (simp add: case_prod_unfold)
  moreover have "ds_balance (ledger_state L) = cents (lg_cents L)" "ds_purchases (ledger_state L) = order_purchases (lg_orders L)"
    by (simp_all add: ledger_state_def)
  ultimately show ?thesis using assms unfolding ledger_ok_def by (metis purchases_of_orders(1))
qed

lemma ledger_plans:
  assumes "ledger_ok L"
  shows "\<forall>p \<in> set (order_purchases (lg_orders L)). find_plan (dp_planId p) \<noteq> None"
proof (rule all_purchases [OF assms])
  fix i ord assume "order_ok ord"
  then obtain p m t where "ord = (p, m, t)" "1 \<le> p" "p \<le> 4" by (cases ord) (auto simp: order_ok_def)
  then show "find_plan (dp_planId (order_purchase i ord)) \<noteq> None"
    using find_plan_jnat [of p] by (auto simp: order_purchase_def)
qed

text \<open>C7: In every state the demo engine reaches, over requests and reloads, at any clock readings, no
  cent is lost to floating point: the balance and the amounts of the purchases are the doubles of
  whole numbers of cents that add up to the initial 10000 dollars, the purchases are numbered from
  1 and each is of one of the four plans.
\<close>

theorem demo_account_balanced:
  assumes "schema_checked safeParse" and "demo_reachable env URL lower safeParse e"
  shows "(\<exists>k ms. ds_balance (de_state e) = cents k \<and> map dp_amount (ds_purchases (de_state e)) = map cents ms \<and>
      k + sum_list ms = 10 ^ 6) \<and>
    map dp_id (ds_purchases (de_state e)) = map jnat [1..<length (ds_purchases (de_state e)) + 1] \<and>
    list_all (\<lambda>p. find_plan (dp_planId p) \<noteq> None) (ds_purchases (de_state e))"
proof -
  obtain L where L: "ledger_ok L" "de_state e = ledger_state L" using reachable_ledger [OF assms] .
  have p: "ds_purchases (ledger_state L) = order_purchases (lg_orders L)" by (simp add: ledger_state_def)
  show ?thesis
    using ledger_amounts [OF L(1)] ledger_plans [OF L(1)]
    unfolding L(2) list_all_iff p purchases_of_orders(2) length_order_purchases by blast
qed

text \<open>A run with two purchases, of which the account is balanced.\<close>

theorem demo_account_balanced_witness:
  "\<exists>e k ms. sample_reachable e \<and> length (ds_purchases (de_state e)) = 2 \<and>
     ds_balance (de_state e) = cents k \<and> map dp_amount (ds_purchases (de_state e)) = map cents ms \<and>
     k + sum_list ms = 10 ^ 6"
proof -
  obtain e L where e: "sample_reachable e" "de_state e = ledger_state L" "length (lg_orders L) = 2"
    using sample_engine by blast
  then have "length (ds_purchases (de_state e)) = 2" by (simp add: ledger_state_def)
  with demo_account_balanced [OF decode_checked e(1)] e(1) show ?thesis by blast
qed

text \<open>C8: The engine implements the ledger in whole cents: from a state that represents a ledger with
  the ledger's invariant, every request that returns leads to a state that represents a ledger one
  step further, which has the invariant again.
\<close>

theorem demo_request_refines:
  assumes "ledger_ok L" and "de_state e = ledger_state L" and "clock_ok clk" and "json_units payload"
    and "request env URL lower clk write_ok http_method url payload e = Inr (e', r)"
  shows "\<exists>L'. ledger_step L L' \<and> ledger_ok L' \<and> de_state e' = ledger_state L'"
  using effect_is_step [OF request_effect [OF assms(5)] assms(2,1,3,4)] ledger_step_ok assms(1) by blast

theorem demo_request_refines_witness:
  "\<exists>L' e' r. request demo_env plain_url (\<lambda>s. s) (\<lambda>i. jnat 7) True (js ''GET'') (js ''/api/user/logout'') JNull
      (new_engine decode_state (Some (Inr None))) = Inr (e', r) \<and>
     ledger_step empty_ledger L' \<and> ledger_ok L' \<and> de_state e' = ledger_state L'"
proof -
  let ?e = "new_engine decode_state (Some (Inr None))"
  have e: "de_state ?e = ledger_state empty_ledger"
    using load_nothing [OF decode_checked] by (simp add: new_engine_def initial_ledger)
  obtain items where "order_list (ds_purchases (de_state ?e)) = Inr items"
    using orders_listed [of "[]"] e by (auto simp: ledger_state_def empty_ledger_def)
  then obtain e' r where r: "request demo_env plain_url (\<lambda>s. s) (\<lambda>i. jnat 7) True (js ''GET'') (js ''/api/user/logout'')
      JNull ?e = Inr (e', r)"
    using request_succeeds [of plain_url "js ''/api/user/logout''" "js ''/api/user/logout''" "[]" JNull ?e items demo_env
      "\<lambda>s. s" "\<lambda>i. jnat 7" True "js ''GET''"] by (auto simp: plain_url_def payload_data_def)
  have "clock_ok (\<lambda>i. jnat 7)" "json_units JNull" by (simp_all add: constant_clock)
  with demo_request_refines [OF empty_ledger_ok e _ _ r] r show ?thesis by blast
qed

text \<open>C28: The account survives a reload: in a reachable state with at most 100 purchases, the state that
  a new engine reads from the text the engine has written is the state of the engine, down to the
  last bit of the amounts.
\<close>

theorem demo_reload_roundtrip:
  assumes "schema_checked safeParse" and "demo_reachable env URL lower safeParse e"
    and "length (ds_purchases (de_state e)) \<le> 100"
  shows "de_state (new_engine safeParse (de_storage (save True e))) = de_state e"
proof -
  obtain L where L: "ledger_ok L" "de_state e = ledger_state L" "stored_ok (de_storage e)"
    using reachable_ledger [OF assms(1,2)] .
  then have "de_storage (save True e) = Some (Inr (Some (saved_text L)))"
    by (auto simp: save_def stored_ok_def saved_text_def)
  moreover have "length (lg_orders L) \<le> 100" using assms(3) by (simp add: L(2) ledger_state_def)
  ultimately show ?thesis using load_saved [OF assms(1) L(1)] by (simp add: new_engine_def L(2))
qed

theorem demo_reload_roundtrip_witness:
  "\<exists>e. sample_reachable e \<and> length (ds_purchases (de_state e)) = 2 \<and>
     de_state (new_engine decode_state (de_storage (save True e))) = de_state e"
proof -
  obtain e L where e: "sample_reachable e" "de_state e = ledger_state L" "length (lg_orders L) = 2"
    using sample_engine by blast
  then have "length (ds_purchases (de_state e)) = 2" by (simp add: ledger_state_def)
  with demo_reload_roundtrip [OF decode_checked e(1)] e(1) show ?thesis by auto
qed

text \<open>C29: Nothing but the public endpoints answers a visitor who is not signed in, such a request
  changes nothing but the sign-in itself, which needs the demo credentials, and no request outside
  the four writing endpoints changes the engine at all.
\<close>

theorem demo_access:
  assumes "request env URL lower clk write_ok http_method url payload e = Inr (e', r)"
    and "URL url = Some (pathname, ps)"
  shows "(\<not> ds_authenticated (de_state e) \<longrightarrow>
      (endpoint_in http_method (strip_end_slashes pathname) PUBLIC_ENDPOINTS \<or> dr_status r = 401 \<and> e' = e) \<and>
      (\<exists>b. de_state e' = (de_state e)\<lparr>ds_authenticated := b\<rparr>) \<and>
      (ds_authenticated (de_state e') \<longrightarrow>
         map_of (payload_data payload) (js ''username'') = Some (jstr ''snowapidemo'') \<and>
         map_of (payload_data payload) (js ''password'') = Some (jstr ''1234567890''))) \<and>
    (endpoint_in http_method (strip_end_slashes pathname) WRITE_ENDPOINTS \<or> e' = e)"
  using private_request [where URL = URL and url = url and e = e and http_method = http_method and env = env
      and lower = lower and clk = clk and w = write_ok and payload = payload, of pathname ps] assms
    signed_out_request [OF assms(1)] login_request [OF assms] reading_request [OF assms]
  by (cases "endpoint_in http_method (strip_end_slashes pathname) PUBLIC_ENDPOINTS") auto

theorem demo_access_witness:
  "\<exists>e' r. request demo_env plain_url (\<lambda>s. s) (\<lambda>i. jnat 7) True (js ''GET'') (js ''/api/option'') JNull
      \<lparr>de_state = initial_demo, de_storage = None\<rparr> = Inr (e', r) \<and> dr_status r = 401 \<and>
     e' = \<lparr>de_state = initial_demo, de_storage = None\<rparr>"
proof -
  let ?e = "\<lparr>de_state = initial_demo, de_storage = None\<rparr>"
  have out: "\<not> ds_authenticated (de_state ?e)" by (simp add: initial_demo_def)
  have url: "plain_url (js ''/api/option'') = Some (js ''/api/option'', [])" by (simp add: plain_url_def)
  have strip: "strip_end_slashes (js ''/api/option'') = js ''/api/option''" by code_simp
  have np: "\<not> endpoint_in (js ''GET'') (strip_end_slashes (js ''/api/option'')) PUBLIC_ENDPOINTS"
    unfolding strip by (simp add: endpoint_simps inj_js)
  have "request demo_env plain_url (\<lambda>s. s) (\<lambda>i. jnat 7) True (js ''GET'') (js ''/api/option'') JNull ?e =
      Inr (?e, fail ''Please sign in to the demo first'' 401)"
    by (rule private_request [of plain_url, OF url out np])
  with demo_access [OF this url] out np show ?thesis by auto
qed

text \<open>In a reachable state a request throws only where the address is malformed or a number is read
  from a payload value that has no string form; otherwise it returns an answer, also in the list of
  orders, which looks every purchase up in the plans.
\<close>

theorem demo_never_throws:
  assumes "schema_checked safeParse" and "demo_reachable env URL lower safeParse e"
    and "URL url = Some (pathname, ps)" and "\<forall>v \<in> snd ` set (payload_data payload). \<not> str_throws v"
  shows "\<exists>e' r. request env URL lower clk write_ok http_method url payload e = Inr (e', r)"
proof -
  obtain L where L: "ledger_ok L" "de_state e = ledger_state L" using reachable_ledger [OF assms(1,2)] .
  then obtain items where "order_list (ds_purchases (de_state e)) = Inr items"
    using orders_listed [of "lg_orders L"] by (auto simp: ledger_ok_def ledger_state_def)
  from request_succeeds [where URL = URL and url = url, OF assms(3,4) this] show ?thesis .
qed

theorem demo_never_throws_witness:
  "\<exists>e e' r. sample_reachable e \<and> length (ds_purchases (de_state e)) = 2 \<and>
     request demo_env plain_url (\<lambda>s. s) (\<lambda>i. jnat 7) True (js ''GET'') (js ''/api/user/topup'') (JObj []) e = Inr (e', r)"
proof -
  obtain e L where e: "sample_reachable e" "de_state e = ledger_state L" "length (lg_orders L) = 2"
    using sample_engine by blast
  then have two: "length (ds_purchases (de_state e)) = 2" by (simp add: ledger_state_def)
  have "plain_url (js ''/api/user/topup'') = Some (js ''/api/user/topup'', [])" by (simp add: plain_url_def)
  moreover have "\<forall>v \<in> snd ` set (payload_data (JObj [])). \<not> str_throws v" by (simp add: payload_data_def)
  ultimately obtain e' r where "request demo_env plain_url (\<lambda>s. s) (\<lambda>i. jnat 7) True (js ''GET'')
      (js ''/api/user/topup'') (JObj []) e = Inr (e', r)"
    using demo_never_throws [where url = "js ''/api/user/topup''" and pathname = "js ''/api/user/topup''" and ps = "[]"
      and payload = "JObj []" and clk = "\<lambda>i. jnat 7" and write_ok = True and http_method = "js ''GET''",
      OF decode_checked e(1)] by auto
  with e(1) two show ?thesis by blast
qed

section \<open>Spending the balance\<close>

lemma pay_success:
  assumes "pay clk w planId e = (e', r)" and "dr_status r = 200"
  shows "length (ds_purchases (de_state e')) = length (ds_purchases (de_state e)) + 1"
  using assms by (auto simp: pay_def purchase_def Let_def split: option.splits if_splits)

text \<open>C30: No sequence of purchases goes on for ever: the relation between an engine in a reachable state
  and the engine after a successful purchase is well-founded, because the account holds at most 800
  purchases.
\<close>

theorem demo_purchases_end:
  assumes "schema_checked safeParse"
  shows "wf {(e', e). demo_reachable env URL lower safeParse e \<and> ds_authenticated (de_state e) \<and>
    (\<exists>clk write_ok planId r. clock_ok clk \<and> pay clk write_ok planId e = (e', r) \<and> dr_status r = 200)}"
proof (rule wf_subset [OF wf_measure [of "\<lambda>e. 800 - length (ds_purchases (de_state e))"]], clarify)
  fix e' e clk write_ok planId r
  assume e: "demo_reachable env URL lower safeParse e" "ds_authenticated (de_state e)" "clock_ok clk"
    "pay clk write_ok planId e = (e', r)" "dr_status r = 200"
  obtain L where L: "ledger_ok L" "de_state e = ledger_state L" using reachable_ledger [OF assms e(1)] .
  have "effect clk write_ok JNull e e'" by (rule effect_pay [OF e(4,2)])
  then obtain L' where L': "ledger_step L L'" "de_state e' = ledger_state L'"
    using effect_is_step [OF _ L(2,1) e(3), of write_ok JNull e'] by auto
  then have "length (ds_purchases (de_state e')) \<le> 800"
    using ledger_orders_bound [OF ledger_step_ok [OF L'(1) L(1)]] by (simp add: ledger_state_def)
  with pay_success [OF e(4,5)] show "(e', e) \<in> measure (\<lambda>e. 800 - length (ds_purchases (de_state e)))" by simp
qed

theorem demo_purchases_end_witness:
  "wf {(e', e). sample_reachable e \<and> ds_authenticated (de_state e) \<and>
    (\<exists>clk write_ok planId r. clock_ok clk \<and> pay clk write_ok planId e = (e', r) \<and> dr_status r = 200)}"
  by (rule demo_purchases_end [OF decode_checked])

text \<open>The demo stays usable until the money is spent: from every reachable state, once the running
  plan has ended, each plan the balance covers can be made the active one by signing in and paying.
\<close>

theorem demo_can_buy:
  assumes "schema_checked safeParse" and "demo_reachable env URL lower safeParse e" and "reads_paths URL"
    and "find_plan (jnat p) = Some plan" and "js_le (pl_price_amount plan) (ds_balance (de_state e))"
    and "t \<le> 2 ^ 50" and "js_le (ds_endTime (de_state e)) (jnat t)"
  shows "\<exists>e'. (demo_step env URL lower safeParse)\<^sup>*\<^sup>* e e' \<and> ds_authenticated (de_state e') \<and>
    activePlan (jnat t) (de_state e') = Some plan"
proof -
  obtain L where L: "ledger_ok L" "de_state e = ledger_state L" using reachable_ledger [OF assms(1,2)] .
  have p: "1 \<le> p" "p \<le> 4" "pl_price_amount plan = jnat (plan_price p)" using find_plan_Some [OF assms(4)] by auto
  then have "100 * plan_price p \<le> 10 ^ 6" "pl_price_amount plan = cents (100 * plan_price p)"
    using plan_price_le [OF p(2)] cents_whole [of "plan_price p"] by (auto simp: jnat_def)
  then have "100 * plan_price p \<le> lg_cents L"
    using assms(5) cents_le [OF _ ledger_cents [OF L(1)], of "100 * plan_price p"] by (simp add: L(2) ledger_state_def)
  moreover have "lg_end L \<le> t" using assms(7) by (simp add: L(2) ledger_state_def)
  ultimately obtain e' where e': "(demo_step env URL lower safeParse)\<^sup>*\<^sup>* e e'"
    "de_state e' = ledger_state (L\<lparr>lg_auth := True, lg_cents := lg_cents L - 100 * plan_price p, lg_plan := p,
      lg_start := t, lg_end := t + MONTH, lg_orders := lg_orders L @ [(p, 100 * plan_price p, t)]\<rparr>)"
    using can_buy [OF assms(3,6) _ p(1,2) L, where env = env and lower = lower and sp = safeParse] by blast
  have "ds_authenticated (de_state e')" by (simp add: e'(2) ledger_state_def)
  moreover have "activePlan (jnat t) (de_state e') = Some plan"
    unfolding e'(2) active_ledger using assms(4) by (simp add: MONTH_def)
  ultimately show ?thesis using e'(1) by blast
qed

theorem demo_can_buy_witness:
  "\<exists>plan e'. find_plan (jnat 3) = Some plan \<and>
     (demo_step demo_env plain_url (\<lambda>s. s) decode_state)\<^sup>*\<^sup>* (new_engine decode_state (Some (Inr None))) e' \<and>
     ds_authenticated (de_state e') \<and> activePlan (jnat 7) (de_state e') = Some plan"
proof -
  let ?e = "new_engine decode_state (Some (Inr None))"
  obtain plan where plan: "find_plan (jnat 3) = Some plan" "pl_price_amount plan = jnat (plan_price 3)"
    using find_plan_jnat [of 3] by auto
  have e: "de_state ?e = initial_demo" using load_nothing [OF decode_checked] by (simp add: new_engine_def)
  then have "js_le (pl_price_amount plan) (ds_balance (de_state ?e))" "js_le (ds_endTime (de_state ?e)) (jnat 7)"
    using plan(2) by (simp_all add: initial_demo_def plan_price_def jnat_def)
  from demo_can_buy [OF decode_checked demo_start [of demo_env plain_url "\<lambda>s. s"] plain_reads plan(1) this(1) _ this(2)] plan(1)
  show ?thesis by auto
qed

text \<open>An engine can reach a state with more than 100 purchases, and then the text it stores is
  refused by its own schema: after a reload the visitor has the initial state again, signed out,
  with 10000 dollars and no purchases.
\<close>

theorem demo_history_lost:
  assumes "schema_checked safeParse" and "reads_paths URL"
  shows "\<exists>e. demo_reachable env URL lower safeParse e \<and> length (ds_purchases (de_state e)) = 101 \<and>
    de_state (new_engine safeParse (de_storage (save True e))) = initial_demo"
proof -
  obtain e L where e: "demo_reachable env URL lower safeParse e" "ledger_ok L" "de_state e = ledger_state L"
    "length (lg_orders L) = 101" using monthly_purchases [OF assms, of 101 env lower] by auto
  have "stored_ok (de_storage e)" using reachable_ledger [OF assms(1) e(1)] by blast
  then have "de_storage (save True e) = Some (Inr (Some (saved_text L)))"
    by (auto simp: save_def stored_ok_def saved_text_def e(3))
  then have "de_state (new_engine safeParse (de_storage (save True e))) = initial_demo"
    using load_saved [OF assms(1) e(2)] e(4) by (simp add: new_engine_def)
  moreover have "length (ds_purchases (de_state e)) = 101" using e(3,4) by (simp add: ledger_state_def)
  ultimately show ?thesis using e(1) by blast
qed

theorem demo_history_lost_witness:
  "\<exists>e. sample_reachable e \<and> length (ds_purchases (de_state e)) = 101 \<and>
    de_state (new_engine decode_state (de_storage (save True e))) = initial_demo"
  by (rule demo_history_lost [OF decode_checked plain_reads])

end
