(* ===== verification/Param_Override.thy ===== *)
theory Param_Override
  imports Js_Values
begin

text \<open>
  The data of the parameter override editor
  (\<open>src/web/default/src/features/channels/components/dialogs/param-override-editor-dialog.tsx\<close>):
  operations and their conditions, and the tables of modes and templates.
\<close>

section \<open>Types\<close>

record ParamOverrideCondition =
  cd_id :: jsstr
  cd_path :: jsstr
  cd_mode :: jsstr
  cd_value_text :: jsstr
  cd_invert :: bool
  cd_pass_missing_key :: bool

record ParamOverrideOperation =
  op_id :: jsstr
  op_description :: jsstr
  op_path :: jsstr
  op_mode :: jsstr
  op_from :: jsstr
  op_to :: jsstr
  op_value_text :: jsstr
  op_keep_origin :: bool
  op_logic :: jsstr
  op_conditions :: "ParamOverrideCondition list"

section \<open>Tables\<close>

definition OPERATION_MODE_OPTIONS :: "(string \<times> jsstr) list" where
  "OPERATION_MODE_OPTIONS = map (\<lambda>(label, v). (label, js v))
     [(''Set Field'', ''set''),
      (''Delete Field'', ''delete''),
      (''Append to End'', ''append''),
      (''Prepend to Start'', ''prepend''),
      (''Copy Field'', ''copy''),
      (''Move Field'', ''move''),
      (''String Replace'', ''replace''),
      (''Regex Replace'', ''regex_replace''),
      (''Trim Prefix'', ''trim_prefix''),
      (''Trim Suffix'', ''trim_suffix''),
      (''Ensure Prefix'', ''ensure_prefix''),
      (''Ensure Suffix'', ''ensure_suffix''),
      (''Trim Space'', ''trim_space''),
      (''To Lowercase'', ''to_lower''),
      (''To Uppercase'', ''to_upper''),
      (''Return Custom Error'', ''return_error''),
      (''Prune Object Items'', ''prune_objects''),
      (''Pass Through Headers'', ''pass_headers''),
      (''Sync Fields'', ''sync_fields''),
      (''Set Request Header'', ''set_header''),
      (''Delete Request Header'', ''delete_header''),
      (''Copy Request Header'', ''copy_header''),
      (''Move Request Header'', ''move_header'')]"

definition OPERATION_MODE_VALUES :: "jsstr list" where
  "OPERATION_MODE_VALUES = map snd OPERATION_MODE_OPTIONS"

definition OPERATION_MODE_LABEL_MAP :: "(jsstr \<times> string) list" where
  "OPERATION_MODE_LABEL_MAP = map (\<lambda>(label, v). (v, label)) OPERATION_MODE_OPTIONS"

definition CONDITION_MODE_OPTIONS :: "(string \<times> jsstr) list" where
  "CONDITION_MODE_OPTIONS = map (\<lambda>(label, v). (label, js v))
     [(''Exact Match'', ''full''), (''Prefix'', ''prefix''), (''Suffix'', ''suffix''),
      (''Contains'', ''contains''), (''Greater Than'', ''gt''), (''Greater Than or Equal'', ''gte''),
      (''Less Than'', ''lt''), (''Less Than or Equal'', ''lte'')]"

definition CONDITION_MODE_VALUES :: "jsstr list" where
  "CONDITION_MODE_VALUES = map snd CONDITION_MODE_OPTIONS"

text \<open>What a mode uses; \<open>to: false\<close> differs from a missing \<open>to\<close>, the other flags are only tested.\<close>

record ModeMeta =
  mm_path :: bool
  mm_pathOptional :: bool
  mm_value :: bool
  mm_from :: bool
  mm_to :: "bool option"
  mm_keepOrigin :: bool
  mm_pathAlias :: bool

definition no_meta :: ModeMeta where
  "no_meta = \<lparr>mm_path = False, mm_pathOptional = False, mm_value = False, mm_from = False, mm_to = None,
     mm_keepOrigin = False, mm_pathAlias = False\<rparr>"

definition MODE_META :: "(jsstr \<times> ModeMeta) list" where
  "MODE_META =
     [(js ''delete'', no_meta\<lparr>mm_path := True\<rparr>),
      (js ''set'', no_meta\<lparr>mm_path := True, mm_value := True, mm_keepOrigin := True\<rparr>),
      (js ''append'', no_meta\<lparr>mm_path := True, mm_value := True, mm_keepOrigin := True\<rparr>),
      (js ''prepend'', no_meta\<lparr>mm_path := True, mm_value := True, mm_keepOrigin := True\<rparr>),
      (js ''copy'', no_meta\<lparr>mm_from := True, mm_to := Some True\<rparr>),
      (js ''move'', no_meta\<lparr>mm_from := True, mm_to := Some True\<rparr>),
      (js ''replace'', no_meta\<lparr>mm_path := True, mm_from := True, mm_to := Some False\<rparr>),
      (js ''regex_replace'', no_meta\<lparr>mm_path := True, mm_from := True, mm_to := Some False\<rparr>),
      (js ''trim_prefix'', no_meta\<lparr>mm_path := True, mm_value := True\<rparr>),
      (js ''trim_suffix'', no_meta\<lparr>mm_path := True, mm_value := True\<rparr>),
      (js ''ensure_prefix'', no_meta\<lparr>mm_path := True, mm_value := True\<rparr>),
      (js ''ensure_suffix'', no_meta\<lparr>mm_path := True, mm_value := True\<rparr>),
      (js ''trim_space'', no_meta\<lparr>mm_path := True\<rparr>),
      (js ''to_lower'', no_meta\<lparr>mm_path := True\<rparr>),
      (js ''to_upper'', no_meta\<lparr>mm_path := True\<rparr>),
      (js ''return_error'', no_meta\<lparr>mm_value := True\<rparr>),
      (js ''prune_objects'', no_meta\<lparr>mm_pathOptional := True, mm_value := True\<rparr>),
      (js ''pass_headers'', no_meta\<lparr>mm_value := True, mm_keepOrigin := True\<rparr>),
      (js ''sync_fields'', no_meta\<lparr>mm_from := True, mm_to := Some True\<rparr>),
      (js ''set_header'', no_meta\<lparr>mm_path := True, mm_value := True, mm_keepOrigin := True\<rparr>),
      (js ''delete_header'', no_meta\<lparr>mm_path := True\<rparr>),
      (js ''copy_header'', no_meta\<lparr>mm_from := True, mm_to := Some True, mm_keepOrigin := True, mm_pathAlias := True\<rparr>),
      (js ''move_header'', no_meta\<lparr>mm_from := True, mm_to := Some True, mm_keepOrigin := True, mm_pathAlias := True\<rparr>)]"

text \<open>\<open>MODE_META[mode] || MODE_META.set\<close>\<close>

definition meta_of :: "jsstr \<Rightarrow> ModeMeta" where
  "meta_of mode =
     (case map_of MODE_META mode of
        Some m \<Rightarrow> m
      | None \<Rightarrow> no_meta\<lparr>mm_path := True, mm_value := True, mm_keepOrigin := True\<rparr>)"

definition VALUE_REQUIRED_MODES :: "jsstr list" where
  "VALUE_REQUIRED_MODES = map js
     [''trim_prefix'', ''trim_suffix'', ''ensure_prefix'', ''ensure_suffix'', ''set_header'',
      ''return_error'', ''prune_objects'', ''pass_headers'']"

definition FROM_REQUIRED_MODES :: "jsstr list" where
  "FROM_REQUIRED_MODES = map js
     [''copy'', ''move'', ''replace'', ''regex_replace'', ''copy_header'', ''move_header'', ''sync_fields'']"

definition TO_REQUIRED_MODES :: "jsstr list" where
  "TO_REQUIRED_MODES = map js [''copy'', ''move'', ''copy_header'', ''move_header'', ''sync_fields'']"

definition MODE_DESCRIPTIONS :: "(string \<times> string) list" where
  "MODE_DESCRIPTIONS =
     [(''set'', ''Write value to the target field''),
      (''delete'', ''Remove the target field''),
      (''append'', ''Append value to array / string / object end''),
      (''prepend'', ''Prepend value to array / string / object start''),
      (''copy'', ''Copy source field to target field''),
      (''move'', ''Move source field to target field''),
      (''replace'', ''Do string replacement in the target field''),
      (''regex_replace'', ''Do regex replacement in the target field''),
      (''trim_prefix'', ''Remove string prefix''),
      (''trim_suffix'', ''Remove string suffix''),
      (''ensure_prefix'', ''Ensure the string has a specified prefix''),
      (''ensure_suffix'', ''Ensure the string has a specified suffix''),
      (''trim_space'', ''Trim leading/trailing whitespace''),
      (''to_lower'', ''Convert string to lowercase''),
      (''to_upper'', ''Convert string to uppercase''),
      (''return_error'', ''Return a custom error immediately''),
      (''prune_objects'', ''Prune object items by conditions''),
      (''pass_headers'', ''Pass specified request headers to upstream''),
      (''sync_fields'', ''Auto-fill when one field exists and another is missing''),
      (''set_header'', ''Set runtime request header: override entire value, or manipulate comma-separated tokens''),
      (''delete_header'', ''Delete a runtime request header''),
      (''copy_header'', ''Copy a request header''),
      (''move_header'', ''Move a request header'')]"

definition SYNC_TARGET_TYPE_OPTIONS :: "(string \<times> jsstr) list" where
  "SYNC_TARGET_TYPE_OPTIONS = [(''Request Body Field'', js ''json''), (''Request Header Field'', js ''header'')]"

section \<open>Templates\<close>

definition operations_json :: "json list \<Rightarrow> json" where
  "operations_json ops = jobj [(''operations'', JArr ops)]"

definition LEGACY_TEMPLATE :: json where
  "LEGACY_TEMPLATE = jobj [(''temperature'', jint 0), (''max_tokens'', jint 1000)]"

definition OPERATION_TEMPLATE :: json where
  "OPERATION_TEMPLATE = operations_json
     [jobj [(''description'', jstr ''Set default temperature for openai/* models.''),
       (''path'', jstr ''temperature''),
       (''mode'', jstr ''set''),
       (''value'', JNum (rnd (7 / 10))),
       (''conditions'', JArr [jobj [(''path'', jstr ''model''), (''mode'', jstr ''prefix''), (''value'', jstr ''openai/'')]]),
       (''logic'', jstr ''AND'')]]"

definition HEADER_PASSTHROUGH_TEMPLATE :: json where
  "HEADER_PASSTHROUGH_TEMPLATE = operations_json
     [jobj [(''description'', jstr ''Pass through X-Request-Id header to upstream.''),
       (''mode'', jstr ''pass_headers''),
       (''value'', JArr [jstr ''X-Request-Id'']),
       (''keep_origin'', JBool True)]]"

definition GEMINI_IMAGE_4K_TEMPLATE :: json where
  "GEMINI_IMAGE_4K_TEMPLATE = operations_json
     [jobj [(''description'', jstr ''Set imageSize to 4K when model contains gemini/image and ends with 4k.''),
       (''mode'', jstr ''set''),
       (''path'', jstr ''generationConfig.imageConfig.imageSize''),
       (''value'', jstr ''4K''),
       (''conditions'', JArr
         [jobj [(''path'', jstr ''original_model''), (''mode'', jstr ''contains''), (''value'', jstr ''gemini'')],
          jobj [(''path'', jstr ''original_model''), (''mode'', jstr ''contains''), (''value'', jstr ''image'')],
          jobj [(''path'', jstr ''original_model''), (''mode'', jstr ''suffix''), (''value'', jstr ''4k'')]]),
       (''logic'', jstr ''AND'')]]"

definition CODEX_CLI_HEADER_PASSTHROUGH_HEADERS :: "string list" where
  "CODEX_CLI_HEADER_PASSTHROUGH_HEADERS =
     [''Originator'', ''Session_id'', ''Thread_id'', ''Session-Id'', ''Thread-Id'', ''X-Client-Request-Id'',
      ''User-Agent'', ''X-Codex-Beta-Features'', ''X-Codex-Turn-State'', ''X-Codex-Turn-Metadata'',
      ''X-Codex-Window-Id'', ''X-Codex-Parent-Thread-Id'', ''X-OpenAI-Subagent'', ''X-OpenAI-Memgen-Request'',
      ''X-ResponsesAPI-Include-Timing-Metrics'', ''X-OpenAI-Internal-Codex-Responses-Lite'']"

definition CLAUDE_CLI_HEADER_PASSTHROUGH_HEADERS :: "string list" where
  "CLAUDE_CLI_HEADER_PASSTHROUGH_HEADERS =
     [''X-Stainless-Arch'', ''X-Stainless-Lang'', ''X-Stainless-Os'', ''X-Stainless-Package-Version'',
      ''X-Stainless-Retry-Count'', ''X-Stainless-Runtime'', ''X-Stainless-Runtime-Version'',
      ''X-Stainless-Timeout'', ''User-Agent'', ''X-App'', ''Anthropic-Beta'',
      ''Anthropic-Dangerous-Direct-Browser-Access'', ''Anthropic-Version'']"

definition buildPassHeadersTemplate :: "string list \<Rightarrow> json" where
  "buildPassHeadersTemplate headers = operations_json
     [jobj [(''mode'', jstr ''pass_headers''), (''value'', JArr (map jstr headers)), (''keep_origin'', JBool True)]]"

definition CODEX_CLI_HEADER_PASSTHROUGH_TEMPLATE :: json where
  "CODEX_CLI_HEADER_PASSTHROUGH_TEMPLATE = operations_json
     [jobj [(''mode'', jstr ''pass_headers''), (''value'', JArr (map jstr CODEX_CLI_HEADER_PASSTHROUGH_HEADERS)),
       (''keep_origin'', JBool True)]]"

definition CLAUDE_CLI_HEADER_PASSTHROUGH_TEMPLATE :: json where
  "CLAUDE_CLI_HEADER_PASSTHROUGH_TEMPLATE = buildPassHeadersTemplate CLAUDE_CLI_HEADER_PASSTHROUGH_HEADERS"

definition beta_tokens :: "(string \<times> string option) list" where
  "beta_tokens =
     [(''advanced-tool-use-2025-11-20'', Some ''tool-search-tool-2025-10-19''),
      (''bash_20241022'', None),
      (''bash_20250124'', None),
      (''code-execution-2025-08-25'', None),
      (''compact-2026-01-12'', Some ''compact-2026-01-12''),
      (''computer-use-2025-01-24'', Some ''computer-use-2025-01-24''),
      (''computer-use-2025-11-24'', Some ''computer-use-2025-11-24''),
      (''context-1m-2025-08-07'', Some ''context-1m-2025-08-07''),
      (''context-management-2025-06-27'', Some ''context-management-2025-06-27''),
      (''effort-2025-11-24'', None),
      (''fast-mode-2026-02-01'', None),
      (''files-api-2025-04-14'', None),
      (''fine-grained-tool-streaming-2025-05-14'', None),
      (''interleaved-thinking-2025-05-14'', Some ''interleaved-thinking-2025-05-14''),
      (''mcp-client-2025-11-20'', None),
      (''mcp-client-2025-04-04'', None),
      (''mcp-servers-2025-12-04'', None),
      (''output-128k-2025-02-19'', None),
      (''structured-output-2024-03-01'', None),
      (''prompt-caching-scope-2026-01-05'', None),
      (''skills-2025-10-02'', None),
      (''structured-outputs-2025-11-13'', None),
      (''text_editor_20241022'', None),
      (''text_editor_20250124'', None),
      (''token-efficient-tools-2025-02-19'', None),
      (''tool-search-tool-2025-10-19'', Some ''tool-search-tool-2025-10-19''),
      (''web-fetch-2025-09-10'', None),
      (''web-search-2025-03-05'', None),
      (''oauth-2025-04-20'', None)]"

definition AWS_BEDROCK_ANTHROPIC_COMPAT_TEMPLATE :: json where
  "AWS_BEDROCK_ANTHROPIC_COMPAT_TEMPLATE = operations_json
     [jobj [(''description'', jstr ''Normalize anthropic-beta header tokens for Bedrock compatibility.''),
       (''mode'', jstr ''set_header''),
       (''path'', jstr ''anthropic-beta''),
       (''value'', jobj (map (\<lambda>(k, v). (k, case v of None \<Rightarrow> JNull | Some s \<Rightarrow> jstr s)) beta_tokens))],
      jobj [(''description'', jstr ''Remove all tools[*].custom.input_examples before upstream relay.''),
       (''mode'', jstr ''delete''),
       (''path'', jstr ''tools.*.custom.input_examples'')]]"

datatype preset_kind = OperationsPreset | LegacyPreset

definition TEMPLATE_PRESET_CONFIG :: "(jsstr \<times> string \<times> preset_kind \<times> json) list" where
  "TEMPLATE_PRESET_CONFIG =
     [(js ''operations_default'', ''New Format Template'', OperationsPreset, OPERATION_TEMPLATE),
      (js ''legacy_default'', ''Legacy Format Template'', LegacyPreset, LEGACY_TEMPLATE),
      (js ''pass_headers_auth'', ''Header Passthrough (X-Request-Id)'', OperationsPreset, HEADER_PASSTHROUGH_TEMPLATE),
      (js ''gemini_image_4k'', ''Gemini Image 4K'', OperationsPreset, GEMINI_IMAGE_4K_TEMPLATE),
      (js ''claude_cli_headers_passthrough'', ''Claude CLI Header Passthrough'', OperationsPreset,
        CLAUDE_CLI_HEADER_PASSTHROUGH_TEMPLATE),
      (js ''codex_cli_headers_passthrough'', ''Codex CLI Header Passthrough'', OperationsPreset,
        CODEX_CLI_HEADER_PASSTHROUGH_TEMPLATE),
      (js ''aws_bedrock_anthropic_beta_override'', ''AWS Bedrock Claude Compat'', OperationsPreset,
        AWS_BEDROCK_ANTHROPIC_COMPAT_TEMPLATE)]"

end
