(* ===== verification/Param_Override_Drafts.thy ===== *)
theory Param_Override_Drafts
  imports Param_Override
begin

text \<open>
  The helpers of the parameter override editor: identifiers, the conversion between a value and
  its text in an input, the reading of operations and conditions from JSON, the order of the
  operations, labels, and the drafts of the modes whose value has an editor of its own
  (\<open>sync_fields\<close>, \<open>return_error\<close> and \<open>prune_objects\<close>).

  The module counter \<open>localIdSeed\<close> is passed along; \<open>clock n\<close> is what \<open>Date.now()\<close> returns
  when the counter is \<open>n\<close>. Texts are compared after a change of case with ASCII words only, and
  outside ASCII no character is mapped to a letter of these words.
\<close>

section \<open>Identifiers\<close>

definition local_id :: "(nat \<Rightarrow> nat) \<Rightarrow> nat \<Rightarrow> jsstr" where
  "local_id clock n = js ''po_'' @ nat_str (clock n) @ js ''_'' @ nat_str n"

definition nextLocalId :: "(nat \<Rightarrow> nat) \<Rightarrow> nat \<Rightarrow> jsstr \<times> nat" where
  "nextLocalId clock n = (local_id clock n, n + 1)"

section \<open>Values and their text\<close>

definition toValueText :: "json option \<Rightarrow> jsstr" where
  "toValueText v =
     (case v of None \<Rightarrow> [] | Some (JStr s) \<Rightarrow> s | Some w \<Rightarrow> json_stringify w)"

definition parseLooseValue :: "jsstr \<Rightarrow> json" where
  "parseLooseValue valueText =
     (let raw = trim valueText in
      if raw = [] then JStr []
      else (case json_parse raw of Some v \<Rightarrow> v | None \<Rightarrow> JStr raw))"

definition verifyJSON :: "jsstr \<Rightarrow> bool" where
  "verifyJSON txt = (json_parse txt \<noteq> None)"

definition ascii_upper :: "jsstr \<Rightarrow> jsstr" where
  "ascii_upper s = map (\<lambda>c. if 97 \<le> c \<and> c \<le> 122 then c - 32 else c) s"

definition ascii_lower :: "jsstr \<Rightarrow> jsstr" where
  "ascii_lower s = map (\<lambda>c. if 65 \<le> c \<and> c \<le> 90 then c + 32 else c) s"

text \<open>\<open>typeof v === 'string' ? v : ''\<close>\<close>

definition str_field :: "json option \<Rightarrow> jsstr" where
  "str_field v = (case v of Some (JStr s) \<Rightarrow> s | _ \<Rightarrow> [])"

text \<open>\<open>values.has(v) ? v : d\<close>\<close>

definition mode_field :: "jsstr list \<Rightarrow> jsstr \<Rightarrow> json option \<Rightarrow> jsstr" where
  "mode_field values d v = (case v of Some (JStr s) \<Rightarrow> if s \<in> set values then s else d | _ \<Rightarrow> d)"

text \<open>\<open>v || w\<close>\<close>

definition json_or :: "json option \<Rightarrow> json \<Rightarrow> json" where
  "json_or v w = (case v of Some x \<Rightarrow> if json_truthy x then x else w | None \<Rightarrow> w)"

section \<open>Reading operations\<close>

definition read_condition :: "jsstr \<Rightarrow> json \<Rightarrow> ParamOverrideCondition" where
  "read_condition ident c =
     \<lparr>cd_id = ident,
      cd_path = str_field (prop_of ''path'' c),
      cd_mode = mode_field CONDITION_MODE_VALUES (js ''full'') (prop_of ''mode'' c),
      cd_value_text = toValueText (prop_of ''value'' c),
      cd_invert = (prop_of ''invert'' c = Some (JBool True)),
      cd_pass_missing_key = (prop_of ''pass_missing_key'' c = Some (JBool True))\<rparr>"

text \<open>
  The counter is advanced before the first property is read; \<open>None\<close> is the \<open>TypeError\<close> that
  \<open>null\<close> causes.
\<close>

definition normalizeCondition_override :: "(nat \<Rightarrow> nat) \<Rightarrow> json \<Rightarrow> nat \<Rightarrow> ParamOverrideCondition option \<times> nat" where
  "normalizeCondition_override clock c n =
     (let (ident, n') = nextLocalId clock n in
      (if c = JNull then None else Some (read_condition ident c), n'))"

definition createDefaultCondition :: "(nat \<Rightarrow> nat) \<Rightarrow> nat \<Rightarrow> ParamOverrideCondition \<times> nat" where
  "createDefaultCondition clock n =
     (let (ident, n') = nextLocalId clock n in (read_condition ident (JObj []), n'))"

text \<open>\<open>values.map(f)\<close> where \<open>f\<close> takes identifiers and may throw.\<close>

fun numbered :: "('a \<Rightarrow> nat \<Rightarrow> 'b option \<times> nat) \<Rightarrow> 'a list \<Rightarrow> nat \<Rightarrow> 'b list option \<times> nat" where
  "numbered f [] n = (Some [], n)"
| "numbered f (x # xs) n =
     (case f x n of
        (None, n') \<Rightarrow> (None, n')
      | (Some y, n') \<Rightarrow> (case numbered f xs n' of (r, n'') \<Rightarrow> (map_option (\<lambda>ys. y # ys) r, n'')))"

definition read_operation :: "jsstr \<Rightarrow> json \<Rightarrow> ParamOverrideCondition list \<Rightarrow> ParamOverrideOperation" where
  "read_operation ident v cs =
     \<lparr>op_id = ident,
      op_description = str_field (prop_of ''description'' v),
      op_path = str_field (prop_of ''path'' v),
      op_mode = mode_field OPERATION_MODE_VALUES (js ''set'') (prop_of ''mode'' v),
      op_from = str_field (prop_of ''from'' v),
      op_to = str_field (prop_of ''to'' v),
      op_value_text = toValueText (prop_of ''value'' v),
      op_keep_origin = (prop_of ''keep_origin'' v = Some (JBool True)),
      op_logic = (if ascii_upper (json_string (json_or (prop_of ''logic'' v) (jstr ''OR''))) = js ''AND''
                  then js ''AND'' else js ''OR''),
      op_conditions = cs\<rparr>"

definition normalizeOperation :: "(nat \<Rightarrow> nat) \<Rightarrow> json \<Rightarrow> nat \<Rightarrow> ParamOverrideOperation option \<times> nat" where
  "normalizeOperation clock v n =
     (let (ident, n') = nextLocalId clock n in
      if v = JNull \<or> str_throws (json_or (prop_of ''logic'' v) (jstr ''OR'')) then (None, n')
      else
        (case prop_of ''conditions'' v of
           Some (JArr cs) \<Rightarrow>
             (case numbered (normalizeCondition_override clock) cs n' of
                (r, n'') \<Rightarrow> (map_option (read_operation ident v) r, n''))
         | _ \<Rightarrow> (Some (read_operation ident v []), n')))"

definition createDefaultOperation :: "(nat \<Rightarrow> nat) \<Rightarrow> nat \<Rightarrow> ParamOverrideOperation \<times> nat" where
  "createDefaultOperation clock n =
     (let (ident, n') = nextLocalId clock n in
      (read_operation ident (jobj [(''mode'', jstr ''set'')]) [], n'))"

section \<open>The list of operations\<close>

text \<open>\<open>findIndex\<close>\<close>

fun find_index :: "('a \<Rightarrow> bool) \<Rightarrow> 'a list \<Rightarrow> nat option" where
  "find_index P [] = None"
| "find_index P (x # xs) = (if P x then Some 0 else map_option Suc (find_index P xs))"

datatype drag_position = Before | After

definition reorderOperations ::
  "ParamOverrideOperation list \<Rightarrow> jsstr \<Rightarrow> jsstr \<Rightarrow> drag_position \<Rightarrow> ParamOverrideOperation list" where
  "reorderOperations ops sourceId targetId position =
     (if sourceId = [] \<or> targetId = [] \<or> sourceId = targetId then ops
      else
        (case find_index (\<lambda>p. op_id p = sourceId) ops of
           None \<Rightarrow> ops
         | Some srcIdx \<Rightarrow>
             (let moved = ops ! srcIdx; rest = take srcIdx ops @ drop (Suc srcIdx) ops in
              case find_index (\<lambda>p. op_id p = targetId) rest of
                None \<Rightarrow> ops
              | Some i \<Rightarrow>
                  (let insertIdx = (if position = After then i + 1 else i) in
                   take insertIdx rest @ moved # drop insertIdx rest))))"

definition isOperationBlank :: "ParamOverrideOperation \<Rightarrow> bool" where
  "isOperationBlank p \<longleftrightarrow>
     op_mode p = js ''set'' \<and> trim (op_path p) = [] \<and> trim (op_from p) = [] \<and> trim (op_to p) = [] \<and>
     trim (op_value_text p) = [] \<and> \<not> op_keep_origin p \<and>
     \<not> list_ex (\<lambda>c. trim (cd_path c) \<noteq> [] \<or> trim (cd_value_text c) \<noteq> [] \<or> cd_mode c \<noteq> js ''full'' \<or>
         cd_invert c \<or> cd_pass_missing_key c) (op_conditions p)"

definition op_mode_or_set :: "ParamOverrideOperation \<Rightarrow> jsstr" where
  "op_mode_or_set p = str_or (op_mode p) (js ''set'')"

definition mode_label :: "jsstr \<Rightarrow> jsstr" where
  "mode_label mode = (case map_of OPERATION_MODE_LABEL_MAP mode of Some l \<Rightarrow> js l | None \<Rightarrow> mode)"

definition getOperationSummary :: "ParamOverrideOperation \<Rightarrow> nat \<Rightarrow> jsstr" where
  "getOperationSummary p index =
     (let mode = op_mode_or_set p;
          shown = str_or (trim (op_from p)) (str_or (trim (op_to p)) (js ''-''));
          subject = (if mode = js ''sync_fields'' then shown else str_or (trim (op_path p)) shown) in
      nat_str (index + 1) @ js ''. '' @ mode_label mode @ [32, 183, 32] @ subject)"

section \<open>Labels\<close>

definition getModeTagTailwind :: "jsstr \<Rightarrow> string" where
  "getModeTagTailwind mode =
     (let has = (\<lambda>w. str_includes (js w) mode) in
      if has ''header'' then ''bg-cyan-500/15 text-cyan-700 dark:text-cyan-300 border-cyan-500/20''
      else if has ''replace'' \<or> has ''trim'' then ''bg-violet-500/15 text-violet-700 dark:text-violet-300 border-violet-500/20''
      else if has ''copy'' \<or> has ''move'' then ''bg-blue-500/15 text-blue-700 dark:text-blue-300 border-blue-500/20''
      else if has ''error'' \<or> has ''prune'' then ''bg-red-500/15 text-red-700 dark:text-red-300 border-red-500/20''
      else if has ''sync'' then ''bg-green-500/15 text-green-700 dark:text-green-300 border-green-500/20''
      else ''bg-muted text-muted-foreground'')"

definition is_mode :: "string list \<Rightarrow> jsstr \<Rightarrow> bool" where
  "is_mode ws mode = list_ex (\<lambda>w. mode = js w) ws"

definition getModePathLabel :: "jsstr \<Rightarrow> string" where
  "getModePathLabel mode =
     (if is_mode [''set_header'', ''delete_header''] mode then ''Header Name''
      else if is_mode [''prune_objects''] mode then ''Target Path (optional)'' else ''Target Field Path'')"

definition getModePathPlaceholder :: "jsstr \<Rightarrow> string" where
  "getModePathPlaceholder mode =
     (if is_mode [''set_header''] mode then ''Authorization''
      else if is_mode [''delete_header''] mode then ''X-Debug-Mode''
      else if is_mode [''prune_objects''] mode then ''messages'' else ''temperature'')"

definition getModeFromLabel :: "jsstr \<Rightarrow> string" where
  "getModeFromLabel mode =
     (if is_mode [''replace''] mode then ''Match Text''
      else if is_mode [''regex_replace''] mode then ''Regex Pattern''
      else if is_mode [''copy_header'', ''move_header''] mode then ''Source Header'' else ''Source Field'')"

definition getModeFromPlaceholder :: "jsstr \<Rightarrow> string" where
  "getModeFromPlaceholder mode =
     (if is_mode [''replace''] mode then ''openai/''
      else if is_mode [''regex_replace''] mode then ''^gpt-''
      else if is_mode [''copy_header'', ''move_header''] mode then ''Authorization'' else ''model'')"

definition getModeToLabel :: "jsstr \<Rightarrow> string" where
  "getModeToLabel mode =
     (if is_mode [''replace'', ''regex_replace''] mode then ''Replace With''
      else if is_mode [''copy_header'', ''move_header''] mode then ''Target Header'' else ''Target Field'')"

definition getModeToPlaceholder :: "jsstr \<Rightarrow> string" where
  "getModeToPlaceholder mode =
     (if is_mode [''replace''] mode then ''(leave empty to delete)''
      else if is_mode [''regex_replace''] mode then ''openai/gpt-''
      else if is_mode [''copy_header'', ''move_header''] mode then ''X-Upstream-Auth'' else ''original_model'')"

definition getModeValueLabel :: "jsstr \<Rightarrow> string" where
  "getModeValueLabel mode =
     (if is_mode [''set_header''] mode then ''Header Value (supports string or JSON mapping)''
      else if is_mode [''pass_headers''] mode then ''Pass-through Headers (comma-separated or JSON array)''
      else if is_mode [''trim_prefix'', ''trim_suffix'', ''ensure_prefix'', ''ensure_suffix''] mode then ''Prefix/Suffix Text''
      else if is_mode [''prune_objects''] mode then ''Prune Rule (string or JSON object)''
      else ''Value (supports JSON or plain text)'')"

definition getModeValuePlaceholder :: "jsstr \<Rightarrow> string" where
  "getModeValuePlaceholder mode =
     (if is_mode [''set_header''] mode then ''Bearer sk-xxx''
      else if is_mode [''pass_headers''] mode then ''Authorization, X-Request-Id''
      else if is_mode [''trim_prefix'', ''trim_suffix'', ''ensure_prefix'', ''ensure_suffix''] mode then ''openai/''
      else if is_mode [''prune_objects''] mode then ''{\"type\":\"redacted_thinking\"}''
      else ''0.7'')"

section \<open>The target of a synchronised field\<close>

definition parseSyncTargetSpec :: "jsstr \<Rightarrow> jsstr \<times> jsstr" where
  "parseSyncTargetSpec spec =
     (let raw = trim spec in
      if raw = [] then (js ''json'', [])
      else if 58 \<notin> set raw then (js ''json'', raw)
      else
        (let prefix = ascii_lower (trim (takeWhile (\<lambda>c. c \<noteq> 58) raw));
             key = trim (tl (dropWhile (\<lambda>c. c \<noteq> 58) raw)) in
         (if prefix = js ''header'' then js ''header'' else js ''json'', key)))"

definition buildSyncTargetSpec :: "jsstr \<Rightarrow> jsstr \<Rightarrow> jsstr" where
  "buildSyncTargetSpec type key =
     (let normalizedType = (if type = js ''header'' then js ''header'' else js ''json'');
          normalizedKey = trim key in
      if normalizedKey = [] then [] else normalizedType @ [58] @ normalizedKey)"

section \<open>The draft of a returned error\<close>

record ReturnErrorDraft =
  rd_message :: jsstr
  rd_statusCode :: jsnum
  rd_code :: jsstr
  rd_type :: jsstr
  rd_skipRetry :: bool
  rd_simpleMode :: bool

definition error_defaults :: ReturnErrorDraft where
  "error_defaults = \<lparr>rd_message = [], rd_statusCode = Fin 400, rd_code = [], rd_type = [],
     rd_skipRetry = True, rd_simpleMode = True\<rparr>"

definition status_or_400 :: "jsnum \<Rightarrow> jsnum" where
  "status_or_400 x = (if is_integer x \<and> js_le (Fin 100) x \<and> js_le x (Fin 599) then x else Fin 400)"

text \<open>The draft of a parsed object; a conversion that throws leaves no draft.\<close>

definition error_object_draft :: "json \<Rightarrow> ReturnErrorDraft option" where
  "error_object_draft p =
     (let statusRaw = (case prop_of ''status_code'' p of Some v \<Rightarrow> Some v | None \<Rightarrow> prop_of ''status'' p) in
      case (number_of statusRaw,
            string_of (json_or (prop_of ''message'' p) (json_or (prop_of ''msg'' p) (JStr []))),
            string_of (json_or (prop_of ''code'' p) (JStr [])),
            string_of (json_or (prop_of ''type'' p) (JStr []))) of
        (Some statusValue, Some message, Some code, Some type) \<Rightarrow> Some
          \<lparr>rd_message = trim message, rd_statusCode = status_or_400 statusValue, rd_code = trim code,
           rd_type = trim type, rd_skipRetry = (prop_of ''skip_retry'' p \<noteq> Some (JBool False)),
           rd_simpleMode = False\<rparr>
      | _ \<Rightarrow> None)"

definition parseReturnErrorDraft :: "jsstr \<Rightarrow> ReturnErrorDraft" where
  "parseReturnErrorDraft valueText =
     (let raw = trim valueText; plain = error_defaults\<lparr>rd_message := raw, rd_simpleMode := True\<rparr> in
      if raw = [] then error_defaults
      else (case json_parse raw of
         Some (JObj ps) \<Rightarrow> (case error_object_draft (JObj ps) of Some d \<Rightarrow> d | None \<Rightarrow> plain)
       | _ \<Rightarrow> plain))"

definition error_payload :: "ReturnErrorDraft \<Rightarrow> json" where
  "error_payload d =
     (let code = trim (rd_code d); type = trim (rd_type d) in
      jobj ([(''message'', JStr (trim (rd_message d))), (''status_code'', JNum (status_or_400 (rd_statusCode d)))] @
        (if code \<noteq> [] then [(''code'', JStr code)] else []) @
        (if type \<noteq> [] then [(''type'', JStr type)] else []) @
        (if \<not> rd_skipRetry d then [(''skip_retry'', JBool False)] else [])))"

definition buildReturnErrorValueText :: "ReturnErrorDraft \<Rightarrow> jsstr" where
  "buildReturnErrorValueText d =
     (if rd_simpleMode d then trim (rd_message d) else json_stringify (error_payload d))"

section \<open>The draft of a pruning rule\<close>

type_synonym PruneRule = ParamOverrideCondition

record PruneObjectsDraft =
  pd_simpleMode :: bool
  pd_typeText :: jsstr
  pd_logic :: jsstr
  pd_recursive :: bool
  pd_rules :: "PruneRule list"

definition prune_defaults :: PruneObjectsDraft where
  "prune_defaults = \<lparr>pd_simpleMode = True, pd_typeText = [], pd_logic = js ''AND'', pd_recursive = True, pd_rules = []\<rparr>"

definition normalizePruneRule :: "(nat \<Rightarrow> nat) \<Rightarrow> json \<Rightarrow> nat \<Rightarrow> PruneRule \<times> nat" where
  "normalizePruneRule clock rule n = (let (ident, n') = nextLocalId clock n in (read_condition ident rule, n'))"

fun prune_rules :: "(nat \<Rightarrow> nat) \<Rightarrow> json list \<Rightarrow> nat \<Rightarrow> PruneRule list \<times> nat" where
  "prune_rules clock [] n = ([], n)"
| "prune_rules clock (v # vs) n =
     (let (r, n') = normalizePruneRule clock v n; (rs, n'') = prune_rules clock vs n' in (r # rs, n''))"

text \<open>\<open>{ path, mode: 'full', value }\<close> for an entry of an object.\<close>

definition entry_rule :: "jsstr \<times> json \<Rightarrow> json" where
  "entry_rule e = jobj [(''path'', JStr (fst e)), (''mode'', jstr ''full''), (''value'', snd e)]"

definition is_object :: "json \<Rightarrow> bool" where
  "is_object v = (case v of JObj _ \<Rightarrow> True | JArr _ \<Rightarrow> True | _ \<Rightarrow> False)"

definition rule_values :: "json \<Rightarrow> json list" where
  "rule_values p =
     (case prop_of ''where'' p of Some (JObj ps) \<Rightarrow> map entry_rule (obj_entries ps) | _ \<Rightarrow> []) @
     (case prop_of ''conditions'' p of
        Some (JArr xs) \<Rightarrow> filter is_object xs
      | Some (JObj ps) \<Rightarrow> map entry_rule (obj_entries ps)
      | _ \<Rightarrow> [])"

definition prune_object_draft :: "json \<Rightarrow> PruneRule list \<Rightarrow> PruneObjectsDraft option" where
  "prune_object_draft p rules =
     (case (case prop_of ''type'' p of None \<Rightarrow> Some [] | Some v \<Rightarrow> map_option trim (string_of v),
            string_of (json_or (prop_of ''logic'' p) (jstr ''AND''))) of
        (Some typeText, Some logic) \<Rightarrow> Some
          \<lparr>pd_simpleMode = (prop_of ''logic'' p = None \<and> prop_of ''recursive'' p = None \<and>
             prop_of ''where'' p = None \<and> prop_of ''conditions'' p = None),
           pd_typeText = typeText,
           pd_logic = (if ascii_upper logic = js ''OR'' then js ''OR'' else js ''AND''),
           pd_recursive = (prop_of ''recursive'' p \<noteq> Some (JBool False)),
           pd_rules = rules\<rparr>
      | _ \<Rightarrow> None)"

definition parsePruneObjectsDraft :: "(nat \<Rightarrow> nat) \<Rightarrow> jsstr \<Rightarrow> nat \<Rightarrow> PruneObjectsDraft \<times> nat" where
  "parsePruneObjectsDraft clock valueText n =
     (let raw = trim valueText; plain = prune_defaults\<lparr>pd_typeText := raw\<rparr> in
      if raw = [] then (prune_defaults, n)
      else (case json_parse raw of
         None \<Rightarrow> (plain, n)
       | Some (JStr s) \<Rightarrow> (prune_defaults\<lparr>pd_typeText := trim s\<rparr>, n)
       | Some (JObj ps) \<Rightarrow>
           (let (rules, n') = prune_rules clock (rule_values (JObj ps)) n in
            (case prune_object_draft (JObj ps) rules of Some d \<Rightarrow> d | None \<Rightarrow> plain, n'))
       | Some JNull \<Rightarrow> (prune_defaults, n)
       | Some v \<Rightarrow>
           (case string_of v of Some s \<Rightarrow> prune_defaults\<lparr>pd_typeText := trim s\<rparr> | None \<Rightarrow> plain, n)))"

definition rule_payload :: "PruneRule \<Rightarrow> json" where
  "rule_payload r = jobj
     ([(''path'', JStr (trim (cd_path r))),
       (''mode'', JStr (if cd_mode r \<in> set CONDITION_MODE_VALUES then cd_mode r else js ''full''))] @
      (if trim (cd_value_text r) \<noteq> [] then [(''value'', parseLooseValue (trim (cd_value_text r)))] else []) @
      (if cd_invert r then [(''invert'', JBool True)] else []) @
      (if cd_pass_missing_key r then [(''pass_missing_key'', JBool True)] else []))"

definition buildPruneObjectsValueText :: "PruneObjectsDraft \<Rightarrow> jsstr" where
  "buildPruneObjectsValueText d =
     (let typeText = trim (pd_typeText d);
          conditions = map rule_payload (filter (\<lambda>r. trim (cd_path r) \<noteq> []) (pd_rules d)) in
      if pd_simpleMode d then typeText
      else if typeText = [] \<and> conditions = [] then json_stringify (jobj [(''logic'', jstr ''AND'')])
      else json_stringify (jobj
        ((if typeText \<noteq> [] then [(''type'', JStr typeText)] else []) @
         (if ascii_upper (str_or (pd_logic d) (js ''AND'')) = js ''OR'' then [(''logic'', jstr ''OR'')] else []) @
         (if \<not> pd_recursive d then [(''recursive'', JBool False)] else []) @
         (if conditions \<noteq> [] then [(''conditions'', JArr conditions)] else []))))"

section \<open>The names of the passed headers\<close>

text \<open>\<open>values.map((i) => String(i ?? '').trim()).filter(Boolean)\<close>; \<open>None\<close> is a \<open>TypeError\<close>.\<close>

definition header_names :: "json list \<Rightarrow> jsstr list option" where
  "header_names xs =
     (if list_ex str_throws xs then None
      else Some (truthy_strs (map (\<lambda>x. trim (if x = JNull then [] else json_string x)) xs)))"

definition parsePassHeaderNames :: "json \<Rightarrow> jsstr list option" where
  "parsePassHeaderNames v =
     (case v of
        JArr xs \<Rightarrow> header_names xs
      | JObj ps \<Rightarrow>
          (case prop_of ''headers'' v of
             Some (JArr xs) \<Rightarrow> header_names xs
           | _ \<Rightarrow> (case prop_of ''header'' v of Some h \<Rightarrow> header_names [h] | None \<Rightarrow> Some []))
      | JStr s \<Rightarrow> Some (truthy_strs (map trim (split_on 44 s)))
      | _ \<Rightarrow> Some [])"

end
