(* ===== verification/Param_Override_Text.thy ===== *)
theory Param_Override_Text
  imports Param_Override_Drafts
begin

text \<open>
  From operations to the saved text and back: \<open>buildConditionPayload\<close>, \<open>validateOperations\<close>,
  \<open>parseInitialState\<close> and \<open>buildOperationsJson\<close> of the parameter override editor.
\<close>

section \<open>Messages\<close>

text \<open>
  The texts shown to the user, before their translation; a thrown \<open>TypeError\<close> has a text of the
  language.
\<close>

datatype po_message =
    RuleMessage string nat
  | Message string
  | TypeErrorMessage

section \<open>Payloads\<close>

definition buildConditionPayload :: "ParamOverrideCondition \<Rightarrow> json option" where
  "buildConditionPayload c =
     (let path = trim (cd_path c) in
      if path = [] then None
      else Some (jobj
        ([(''path'', JStr path), (''mode'', JStr (str_or (cd_mode c) (js ''full''))),
          (''value'', parseLooseValue (cd_value_text c))] @
         (if cd_invert c then [(''invert'', JBool True)] else []) @
         (if cd_pass_missing_key c then [(''pass_missing_key'', JBool True)] else []))))"

text \<open>\<open>if (b) payload.k = v\<close>\<close>

definition put_if :: "bool \<Rightarrow> string \<Rightarrow> json \<Rightarrow> (jsstr \<times> json) list \<Rightarrow> (jsstr \<times> json) list" where
  "put_if b k v payload = (if b then AList.update (js k) v payload else payload)"

definition has_truthy :: "string \<Rightarrow> (jsstr \<times> json) list \<Rightarrow> bool" where
  "has_truthy k payload = (case map_of payload (js k) of Some v \<Rightarrow> json_truthy v | None \<Rightarrow> False)"

definition condition_payloads :: "ParamOverrideOperation \<Rightarrow> json list" where
  "condition_payloads p = List.map_filter buildConditionPayload (op_conditions p)"

definition operation_payload :: "ParamOverrideOperation \<Rightarrow> json" where
  "operation_payload p =
     (let mode = op_mode_or_set p; meta = meta_of mode;
          descriptionValue = trim (op_description p); pathValue = trim (op_path p);
          fromValue = trim (op_from p); toValue = trim (op_to p);
          a = [(js ''mode'', JStr mode)];
          b = put_if (descriptionValue \<noteq> []) ''description'' (JStr descriptionValue) a;
          c = put_if (mm_path meta) ''path'' (JStr pathValue) b;
          d = put_if (mm_pathOptional meta \<and> pathValue \<noteq> []) ''path'' (JStr pathValue) c;
          e = put_if (mm_value meta) ''value'' (parseLooseValue (op_value_text p)) d;
          f = put_if (mm_keepOrigin meta \<and> op_keep_origin p) ''keep_origin'' (JBool True) e;
          g = put_if (mm_from meta) ''from'' (JStr fromValue) f;
          h = put_if (mm_to meta \<noteq> Some True \<and> toValue \<noteq> []) ''to'' (JStr toValue) g;
          i = put_if (mm_to meta = Some True) ''to'' (JStr toValue) h;
          k = put_if (mm_pathAlias meta \<and> \<not> has_truthy ''from'' i \<and> pathValue \<noteq> []) ''from'' (JStr pathValue) i;
          l = put_if (mm_pathAlias meta \<and> \<not> has_truthy ''to'' k \<and> pathValue \<noteq> []) ''to'' (JStr pathValue) k;
          conditions = condition_payloads p;
          m = put_if (conditions \<noteq> []) ''conditions'' (JArr conditions) l in
      JObj (put_if (conditions \<noteq> []) ''logic'' (jstr (if op_logic p = js ''AND'' then ''AND'' else ''OR'')) m))"

section \<open>Validation\<close>

text \<open>A string that parses as an object must have a message; other texts are the message.\<close>

definition lacks_message :: "jsstr \<Rightarrow> bool" where
  "lacks_message raw =
     (case json_parse raw of
        Some (JObj ps) \<Rightarrow>
          (case string_of (json_or (prop_of ''message'' (JObj ps)) (JStr [])) of
             Some s \<Rightarrow> trim s = [] | None \<Rightarrow> False)
      | _ \<Rightarrow> False)"

definition validate_operation :: "nat \<Rightarrow> ParamOverrideOperation \<Rightarrow> po_message option" where
  "validate_operation line p =
     (let mode = op_mode_or_set p; meta = meta_of mode;
          pathValue = trim (op_path p); fromValue = trim (op_from p); toValue = trim (op_to p);
          raw = trim (op_value_text p); aliased = (mm_pathAlias meta \<and> pathValue \<noteq> []) in
      if mm_path meta \<and> pathValue = [] then Some (RuleMessage ''Rule {{line}} is missing target path'' line)
      else if mode \<in> set FROM_REQUIRED_MODES \<and> fromValue = [] \<and> \<not> aliased
      then Some (RuleMessage ''Rule {{line}} is missing source field'' line)
      else if mode \<in> set TO_REQUIRED_MODES \<and> toValue = [] \<and> \<not> aliased
      then Some (RuleMessage ''Rule {{line}} is missing target field'' line)
      else if mode \<in> set VALUE_REQUIRED_MODES \<and> raw = []
      then Some (RuleMessage ''Rule {{line}} is missing value'' line)
      else if mode = js ''return_error'' \<and> raw = [] then Some (RuleMessage ''Rule {{line}} is missing value'' line)
      else if mode = js ''return_error'' \<and> lacks_message raw
      then Some (RuleMessage ''Rule {{line}} return_error requires a message field'' line)
      else if mode = js ''prune_objects'' \<and> raw = []
      then Some (RuleMessage ''Rule {{line}} prune_objects is missing conditions'' line)
      else if mode = js ''pass_headers'' then
        (if raw = [] then Some (RuleMessage ''Rule {{line}} pass_headers is missing header names'' line)
         else (case parsePassHeaderNames (parseLooseValue raw) of
            None \<Rightarrow> Some TypeErrorMessage
          | Some headers \<Rightarrow>
              if headers = [] then Some (RuleMessage ''Rule {{line}} pass_headers format is invalid'' line) else None))
      else None)"

fun validate_from :: "nat \<Rightarrow> ParamOverrideOperation list \<Rightarrow> po_message option" where
  "validate_from i [] = None"
| "validate_from i (p # ps) =
     (case validate_operation (i + 1) p of Some e \<Rightarrow> Some e | None \<Rightarrow> validate_from (i + 1) ps)"

definition validateOperations :: "ParamOverrideOperation list \<Rightarrow> po_message option" where
  "validateOperations ops = validate_from 0 ops"

section \<open>Opening\<close>

datatype edit_tab = VisualTab | JsonTab

datatype visual_form = OperationsForm | LegacyForm

record EditorState =
  es_editMode :: edit_tab
  es_visualMode :: visual_form
  es_legacyValue :: jsstr
  es_operations :: "ParamOverrideOperation list"
  es_jsonText :: jsstr
  es_jsonError :: "po_message option"

text \<open>The operations of a parsed list, or one default operation; \<open>None\<close> is a \<open>TypeError\<close>.\<close>

definition operations_or_default :: "(nat \<Rightarrow> nat) \<Rightarrow> json list \<Rightarrow> nat \<Rightarrow> ParamOverrideOperation list option \<times> nat" where
  "operations_or_default clock vs n =
     (if vs = [] then (let (p, n') = createDefaultOperation clock n in (Some [p], n'))
      else numbered (normalizeOperation clock) vs n)"

definition parseInitialState :: "(nat \<Rightarrow> nat) \<Rightarrow> jsstr \<Rightarrow> nat \<Rightarrow> EditorState option \<times> nat" where
  "parseInitialState clock txt n =
     (let trimmed = trim txt;
          fallback = (\<lambda>st. let (p, n') = createDefaultOperation clock n in (Some (st\<lparr>es_operations := [p]\<rparr>), n'));
          st = \<lparr>es_editMode = VisualTab, es_visualMode = OperationsForm, es_legacyValue = [],
                es_operations = [], es_jsonText = [], es_jsonError = None\<rparr> in
      if trimmed = [] then fallback st
      else (case json_parse trimmed of
         None \<Rightarrow> fallback (st\<lparr>es_editMode := JsonTab, es_jsonText := txt,
           es_jsonError := Some (Message ''Invalid JSON format'')\<rparr>)
       | Some v \<Rightarrow>
           (let pretty = json_text 2 0 v in
            case prop_of ''operations'' v of
              Some (JArr vs) \<Rightarrow>
                (case operations_or_default clock vs n of
                   (r, n') \<Rightarrow> (map_option (\<lambda>ops. st\<lparr>es_operations := ops, es_jsonText := pretty\<rparr>) r, n'))
            | _ \<Rightarrow>
                (case v of
                   JObj _ \<Rightarrow> fallback (st\<lparr>es_visualMode := LegacyForm, es_legacyValue := pretty, es_jsonText := pretty\<rparr>)
                 | _ \<Rightarrow> fallback (st\<lparr>es_editMode := JsonTab, es_jsonText := pretty\<rparr>)))))"

section \<open>Saving\<close>

definition nonblank :: "ParamOverrideOperation list \<Rightarrow> ParamOverrideOperation list" where
  "nonblank ops = filter (\<lambda>p. \<not> isOperationBlank p) ops"

definition buildOperationsJson :: "ParamOverrideOperation list \<Rightarrow> bool \<Rightarrow> po_message + jsstr" where
  "buildOperationsJson sourceOperations check =
     (let filteredOps = nonblank sourceOperations in
      if filteredOps = [] then Inr []
      else (case (if check then validateOperations filteredOps else None) of
         Some e \<Rightarrow> Inl e
       | None \<Rightarrow> Inr (json_text 2 0 (operations_json (map operation_payload filteredOps)))))"

end
