(* ===== verification/Param_Override_Editor.thy ===== *)
theory Param_Override_Editor
  imports Param_Override_Text
begin

text \<open>
  The parameter override dialog as a state machine: its React state, one function per handler, the
  effect that keeps a selected operation, and the steps a user can take. The state holds the module
  counter of the identifiers and the draft of a pruning rule that the last rendering computed,
  since this computation takes identifiers too. An updater function of React runs at once or
  while rendering; the flag of a duplication says which. The geometry of a drag and the data of
  a drop event are arguments of the action.
\<close>

section \<open>State\<close>

record PoEditor =
  pe_editMode :: edit_tab
  pe_visualMode :: visual_form
  pe_legacyValue :: jsstr
  pe_operations :: "ParamOverrideOperation list"
  pe_jsonText :: jsstr
  pe_jsonError :: "po_message option"
  pe_operationSearch :: jsstr
  pe_selectedOperationId :: jsstr
  pe_expandedConditions :: "(jsstr, bool) jsmap"
  pe_draggedOperationId :: jsstr
  pe_dragOverOperationId :: jsstr
  pe_dragOverPosition :: drag_position
  pe_templatePresetKey :: jsstr
  pe_seed :: nat
  pe_pruneObjectsDraft :: "PruneObjectsDraft option"
  pe_saved :: "jsstr list"
  pe_open :: bool
  pe_toasts :: "po_message list"

definition first_id :: "ParamOverrideOperation list \<Rightarrow> jsstr" where
  "first_id ops = (case ops of [] \<Rightarrow> [] | p # _ \<Rightarrow> op_id p)"

text \<open>The effect that initialises the state when the dialog opens; \<open>None\<close> if it throws.\<close>

definition open_editor :: "(nat \<Rightarrow> nat) \<Rightarrow> jsstr \<Rightarrow> nat \<Rightarrow> PoEditor option" where
  "open_editor clock v n =
     (case parseInitialState clock v n of
        (None, n') \<Rightarrow> None
      | (Some st, n') \<Rightarrow> Some
          \<lparr>pe_editMode = es_editMode st, pe_visualMode = es_visualMode st, pe_legacyValue = es_legacyValue st,
           pe_operations = es_operations st, pe_jsonText = es_jsonText st, pe_jsonError = es_jsonError st,
           pe_operationSearch = [], pe_selectedOperationId = first_id (es_operations st),
           pe_expandedConditions = [], pe_draggedOperationId = [], pe_dragOverOperationId = [],
           pe_dragOverPosition = Before,
           pe_templatePresetKey = (if es_visualMode st = LegacyForm then js ''legacy_default'' else js ''operations_default''),
           pe_seed = n', pe_pruneObjectsDraft = None, pe_saved = [], pe_open = True, pe_toasts = []\<rparr>)"

text \<open>The effect that keeps the selected identifier valid.\<close>

definition keep_selection :: "PoEditor \<Rightarrow> PoEditor" where
  "keep_selection st =
     (if pe_operations st = [] then st\<lparr>pe_selectedOperationId := []\<rparr>
      else if pe_selectedOperationId st \<notin> op_id ` set (pe_operations st)
      then st\<lparr>pe_selectedOperationId := first_id (pe_operations st)\<rparr>
      else st)"

section \<open>Values computed for a rendering\<close>

definition templatePresetOptions :: "(jsstr \<times> string) list" where
  "templatePresetOptions = map (\<lambda>(v, label, _). (v, label)) TEMPLATE_PRESET_CONFIG"

definition operationCount :: "PoEditor \<Rightarrow> nat" where
  "operationCount st = length (filter (\<lambda>p. \<not> isOperationBlank p) (pe_operations st))"

text \<open>\<open>lower\<close> is the case mapping of Unicode.\<close>

definition filteredOperations :: "(jsstr \<Rightarrow> jsstr) \<Rightarrow> PoEditor \<Rightarrow> ParamOverrideOperation list" where
  "filteredOperations lower st =
     (let keyword = lower (trim (pe_operationSearch st)) in
      if keyword = [] then pe_operations st
      else filter (\<lambda>p. str_includes keyword (lower (join (js '' '') (truthy_strs
        [op_description p, op_mode p, op_path p, op_from p, op_to p, op_value_text p])))) (pe_operations st))"

definition selectedOperation :: "PoEditor \<Rightarrow> ParamOverrideOperation option" where
  "selectedOperation st = find (\<lambda>p. op_id p = pe_selectedOperationId st) (pe_operations st)"

definition selectedOperationIndex :: "PoEditor \<Rightarrow> nat option" where
  "selectedOperationIndex st = find_index (\<lambda>p. op_id p = pe_selectedOperationId st) (pe_operations st)"

definition returnErrorDraft :: "PoEditor \<Rightarrow> ReturnErrorDraft option" where
  "returnErrorDraft st =
     (case selectedOperation st of
        Some p \<Rightarrow> if op_mode p = js ''return_error'' then Some (parseReturnErrorDraft (op_value_text p)) else None
      | None \<Rightarrow> None)"

text \<open>
  A rendering of the component: the initial value of \<open>operations\<close> is built again and dropped, and
  the memoised draft of a pruning rule is computed again if \<open>fresh\<close>. Both take identifiers.
\<close>

definition render :: "(nat \<Rightarrow> nat) \<Rightarrow> bool \<Rightarrow> PoEditor \<Rightarrow> PoEditor" where
  "render clock fresh st =
     (let n = snd (createDefaultOperation clock (pe_seed st)) in
      if \<not> fresh then st\<lparr>pe_seed := n\<rparr>
      else
        (case selectedOperation st of
           Some p \<Rightarrow>
             if op_mode p = js ''prune_objects'' then
               (let (d, n') = parsePruneObjectsDraft clock (op_value_text p) n in
                st\<lparr>pe_pruneObjectsDraft := Some d, pe_seed := n'\<rparr>)
             else st\<lparr>pe_pruneObjectsDraft := None, pe_seed := n\<rparr>
         | None \<Rightarrow> st\<lparr>pe_pruneObjectsDraft := None, pe_seed := n\<rparr>))"

definition topOperationModes :: "PoEditor \<Rightarrow> (jsstr \<times> nat) list" where
  "topOperationModes st =
     take 4 (js_sort (\<lambda>a b. snd b \<le> snd a)
       (foldl (\<lambda>counts p. let mode = op_mode_or_set p in
            AList.update mode (case map_of counts mode of Some n \<Rightarrow> n + 1 | None \<Rightarrow> 1) counts)
          [] (pe_operations st)))"

section \<open>Operations and conditions\<close>

definition change_operation ::
  "jsstr \<Rightarrow> (ParamOverrideOperation \<Rightarrow> ParamOverrideOperation) \<Rightarrow> PoEditor \<Rightarrow> PoEditor" where
  "change_operation operationId f st =
     st\<lparr>pe_operations := map (\<lambda>p. if op_id p = operationId then f p else p) (pe_operations st)\<rparr>"

datatype op_patch =
    Set_mode jsstr | Set_path jsstr | Set_description jsstr | Set_value_text jsstr | Set_keep_origin bool
  | Set_from jsstr | Set_to jsstr | Set_from_to jsstr jsstr | Set_logic jsstr

fun patch_operation :: "op_patch \<Rightarrow> ParamOverrideOperation \<Rightarrow> ParamOverrideOperation" where
  "patch_operation (Set_mode s) p = p\<lparr>op_mode := s\<rparr>"
| "patch_operation (Set_path s) p = p\<lparr>op_path := s\<rparr>"
| "patch_operation (Set_description s) p = p\<lparr>op_description := s\<rparr>"
| "patch_operation (Set_value_text s) p = p\<lparr>op_value_text := s\<rparr>"
| "patch_operation (Set_keep_origin b) p = p\<lparr>op_keep_origin := b\<rparr>"
| "patch_operation (Set_from s) p = p\<lparr>op_from := s\<rparr>"
| "patch_operation (Set_to s) p = p\<lparr>op_to := s\<rparr>"
| "patch_operation (Set_from_to s u) p = p\<lparr>op_from := s, op_to := u\<rparr>"
| "patch_operation (Set_logic s) p = p\<lparr>op_logic := s\<rparr>"

definition updateOperation :: "jsstr \<Rightarrow> op_patch \<Rightarrow> PoEditor \<Rightarrow> PoEditor" where
  "updateOperation operationId patch st = change_operation operationId (patch_operation patch) st"

definition addOperation :: "(nat \<Rightarrow> nat) \<Rightarrow> PoEditor \<Rightarrow> PoEditor" where
  "addOperation clock st =
     (let (created, n) = createDefaultOperation clock (pe_seed st) in
      st\<lparr>pe_operations := pe_operations st @ [created], pe_selectedOperationId := op_id created, pe_seed := n\<rparr>)"

definition clone_json :: "ParamOverrideOperation \<Rightarrow> json" where
  "clone_json p = jobj
     [(''description'', JStr (op_description p)), (''path'', JStr (op_path p)), (''mode'', JStr (op_mode p)),
      (''value'', parseLooseValue (op_value_text p)), (''keep_origin'', JBool (op_keep_origin p)),
      (''from'', JStr (op_from p)), (''to'', JStr (op_to p)), (''logic'', JStr (op_logic p)),
      (''conditions'', JArr (map (\<lambda>c. jobj
         [(''path'', JStr (cd_path c)), (''mode'', JStr (cd_mode c)), (''value'', parseLooseValue (cd_value_text c)),
          (''invert'', JBool (cd_invert c)), (''pass_missing_key'', JBool (cd_pass_missing_key c))]) (op_conditions p)))]"

text \<open>The identifier of the clone is known to the handler only if the updater has run at once.\<close>

definition duplicateOperation :: "(nat \<Rightarrow> nat) \<Rightarrow> jsstr \<Rightarrow> bool \<Rightarrow> PoEditor \<Rightarrow> PoEditor" where
  "duplicateOperation clock operationId at_once st =
     (case find_index (\<lambda>p. op_id p = operationId) (pe_operations st) of
        None \<Rightarrow> st
      | Some idx \<Rightarrow>
          (case normalizeOperation clock (clone_json (pe_operations st ! idx)) (pe_seed st) of
             (None, n) \<Rightarrow> st\<lparr>pe_seed := n\<rparr>
           | (Some cloned, n) \<Rightarrow>
               st\<lparr>pe_operations := take (idx + 1) (pe_operations st) @ cloned # drop (idx + 1) (pe_operations st),
                 pe_selectedOperationId := (if at_once then op_id cloned else pe_selectedOperationId st),
                 pe_seed := n\<rparr>))"

definition removeOperation :: "(nat \<Rightarrow> nat) \<Rightarrow> jsstr \<Rightarrow> PoEditor \<Rightarrow> PoEditor" where
  "removeOperation clock operationId st =
     (if length (pe_operations st) \<le> 1 then
        (let (p, n) = createDefaultOperation clock (pe_seed st) in st\<lparr>pe_operations := [p], pe_seed := n\<rparr>)
      else st\<lparr>pe_operations := filter (\<lambda>p. op_id p \<noteq> operationId) (pe_operations st)\<rparr>)"

definition addCondition :: "(nat \<Rightarrow> nat) \<Rightarrow> jsstr \<Rightarrow> PoEditor \<Rightarrow> PoEditor" where
  "addCondition clock operationId st =
     (let (created, n) = createDefaultCondition clock (pe_seed st);
          st' = change_operation operationId (\<lambda>p. p\<lparr>op_conditions := op_conditions p @ [created]\<rparr>) st in
      st'\<lparr>pe_expandedConditions := AList.update (cd_id created) True (pe_expandedConditions st), pe_seed := n\<rparr>)"

datatype cond_patch =
    Cond_path jsstr | Cond_mode jsstr | Cond_value_text jsstr | Cond_invert bool | Cond_pass_missing_key bool

fun patch_condition :: "cond_patch \<Rightarrow> ParamOverrideCondition \<Rightarrow> ParamOverrideCondition" where
  "patch_condition (Cond_path s) c = c\<lparr>cd_path := s\<rparr>"
| "patch_condition (Cond_mode s) c = c\<lparr>cd_mode := s\<rparr>"
| "patch_condition (Cond_value_text s) c = c\<lparr>cd_value_text := s\<rparr>"
| "patch_condition (Cond_invert b) c = c\<lparr>cd_invert := b\<rparr>"
| "patch_condition (Cond_pass_missing_key b) c = c\<lparr>cd_pass_missing_key := b\<rparr>"

definition change_condition :: "jsstr \<Rightarrow> cond_patch \<Rightarrow> ParamOverrideCondition list \<Rightarrow> ParamOverrideCondition list" where
  "change_condition conditionId patch cs = map (\<lambda>c. if cd_id c = conditionId then patch_condition patch c else c) cs"

definition updateCondition :: "jsstr \<Rightarrow> jsstr \<Rightarrow> cond_patch \<Rightarrow> PoEditor \<Rightarrow> PoEditor" where
  "updateCondition operationId conditionId patch st =
     change_operation operationId (\<lambda>p. p\<lparr>op_conditions := change_condition conditionId patch (op_conditions p)\<rparr>) st"

definition removeCondition :: "jsstr \<Rightarrow> jsstr \<Rightarrow> PoEditor \<Rightarrow> PoEditor" where
  "removeCondition operationId conditionId st =
     change_operation operationId
       (\<lambda>p. p\<lparr>op_conditions := filter (\<lambda>c. cd_id c \<noteq> conditionId) (op_conditions p)\<rparr>) st"

section \<open>Drafts\<close>

datatype error_patch =
    Err_simple bool | Err_message jsstr | Err_status jsstr | Err_code jsstr | Err_type jsstr
  | Err_retry bool | Err_preset nat jsstr jsstr

text \<open>\<open>Number.parseInt(s, 10) || 400\<close>\<close>

definition parse_status :: "jsstr \<Rightarrow> jsnum" where
  "parse_status s =
     (let r = trim_start s;
          (neg, d) = (case r of [] \<Rightarrow> (False, []) | c # q \<Rightarrow> if c = 45 then (True, q) else if c = 43 then (False, q) else (False, r));
          ds = takeWhile is_digit d; x = rnd (of_nat (digits_val ds)) in
      if ds = [] \<or> digits_val ds = 0 then Fin 400 else if neg then js_neg x else x)"

fun patch_error :: "error_patch \<Rightarrow> ReturnErrorDraft \<Rightarrow> ReturnErrorDraft" where
  "patch_error (Err_simple b) d = d\<lparr>rd_simpleMode := b\<rparr>"
| "patch_error (Err_message s) d = d\<lparr>rd_message := s\<rparr>"
| "patch_error (Err_status s) d = d\<lparr>rd_statusCode := parse_status s\<rparr>"
| "patch_error (Err_code s) d = d\<lparr>rd_code := s\<rparr>"
| "patch_error (Err_type s) d = d\<lparr>rd_type := s\<rparr>"
| "patch_error (Err_retry b) d = d\<lparr>rd_skipRetry := b\<rparr>"
| "patch_error (Err_preset n c t) d = d\<lparr>rd_statusCode := Fin (of_nat n), rd_code := c, rd_type := t\<rparr>"

definition ERROR_PRESETS :: "(nat \<times> jsstr \<times> jsstr) list" where
  "ERROR_PRESETS =
     [(400, js ''invalid_request'', js ''invalid_request_error''),
      (401, js ''unauthorized'', js ''authentication_error''),
      (429, js ''rate_limited'', js ''rate_limit_error'')]"

definition updateReturnErrorDraft :: "jsstr \<Rightarrow> error_patch \<Rightarrow> PoEditor \<Rightarrow> PoEditor" where
  "updateReturnErrorDraft operationId patch st =
     change_operation operationId (\<lambda>p. p\<lparr>op_value_text :=
       buildReturnErrorValueText (patch_error patch (parseReturnErrorDraft (op_value_text p)))\<rparr>) st"

text \<open>The updater of the pruning draft runs once for every operation with the identifier.\<close>

fun change_drafts ::
  "(nat \<Rightarrow> nat) \<Rightarrow> jsstr \<Rightarrow> (PruneObjectsDraft \<Rightarrow> nat \<Rightarrow> PruneObjectsDraft \<times> nat) \<Rightarrow>
   ParamOverrideOperation list \<Rightarrow> nat \<Rightarrow> ParamOverrideOperation list \<times> nat" where
  "change_drafts clock operationId f [] n = ([], n)"
| "change_drafts clock operationId f (p # ps) n =
     (if op_id p \<noteq> operationId then
        (let (qs, m) = change_drafts clock operationId f ps n in (p # qs, m))
      else
        (let (d, n1) = parsePruneObjectsDraft clock (op_value_text p) n;
             (d', n2) = f d n1;
             (qs, m) = change_drafts clock operationId f ps n2 in
         (p\<lparr>op_value_text := buildPruneObjectsValueText d'\<rparr> # qs, m)))"

definition updatePruneObjectsDraft ::
  "(nat \<Rightarrow> nat) \<Rightarrow> jsstr \<Rightarrow> (PruneObjectsDraft \<Rightarrow> nat \<Rightarrow> PruneObjectsDraft \<times> nat) \<Rightarrow> PoEditor \<Rightarrow> PoEditor" where
  "updatePruneObjectsDraft clock operationId updater st =
     (let (ops, n) = change_drafts clock operationId updater (pe_operations st) (pe_seed st) in
      st\<lparr>pe_operations := ops, pe_seed := n\<rparr>)"

datatype prune_patch = Prune_simple bool | Prune_type jsstr | Prune_logic jsstr | Prune_recursive bool

fun patch_prune :: "prune_patch \<Rightarrow> PruneObjectsDraft \<Rightarrow> PruneObjectsDraft" where
  "patch_prune (Prune_simple b) d = d\<lparr>pd_simpleMode := b\<rparr>"
| "patch_prune (Prune_type s) d = d\<lparr>pd_typeText := s\<rparr>"
| "patch_prune (Prune_logic s) d = d\<lparr>pd_logic := str_or s (js ''AND'')\<rparr>"
| "patch_prune (Prune_recursive b) d = d\<lparr>pd_recursive := b\<rparr>"

definition addPruneRule :: "(nat \<Rightarrow> nat) \<Rightarrow> jsstr \<Rightarrow> PoEditor \<Rightarrow> PoEditor" where
  "addPruneRule clock operationId st =
     updatePruneObjectsDraft clock operationId
       (\<lambda>d n. let (r, n') = normalizePruneRule clock (JObj []) n in
          (d\<lparr>pd_simpleMode := False, pd_rules := pd_rules d @ [r]\<rparr>, n')) st"

definition updatePruneRule :: "(nat \<Rightarrow> nat) \<Rightarrow> jsstr \<Rightarrow> jsstr \<Rightarrow> cond_patch \<Rightarrow> PoEditor \<Rightarrow> PoEditor" where
  "updatePruneRule clock operationId ruleId patch st =
     updatePruneObjectsDraft clock operationId
       (\<lambda>d n. (d\<lparr>pd_rules := change_condition ruleId patch (pd_rules d)\<rparr>, n)) st"

definition removePruneRule :: "(nat \<Rightarrow> nat) \<Rightarrow> jsstr \<Rightarrow> jsstr \<Rightarrow> PoEditor \<Rightarrow> PoEditor" where
  "removePruneRule clock operationId ruleId st =
     updatePruneObjectsDraft clock operationId
       (\<lambda>d n. (d\<lparr>pd_rules := filter (\<lambda>r. cd_id r \<noteq> ruleId) (pd_rules d)\<rparr>, n)) st"

datatype sync_patch = Sync_from_type jsstr | Sync_from_key jsstr | Sync_to_type jsstr | Sync_to_key jsstr

text \<open>The endpoints shown are those of the selected operation.\<close>

fun sync_change :: "sync_patch \<Rightarrow> ParamOverrideOperation \<Rightarrow> op_patch" where
  "sync_change (Sync_from_type v) p = Set_from (buildSyncTargetSpec v (snd (parseSyncTargetSpec (op_from p))))"
| "sync_change (Sync_from_key k) p = Set_from (buildSyncTargetSpec (fst (parseSyncTargetSpec (op_from p))) k)"
| "sync_change (Sync_to_type v) p = Set_to (buildSyncTargetSpec v (snd (parseSyncTargetSpec (op_to p))))"
| "sync_change (Sync_to_key k) p = Set_to (buildSyncTargetSpec (fst (parseSyncTargetSpec (op_to p))) k)"

definition change_sync :: "sync_patch \<Rightarrow> PoEditor \<Rightarrow> PoEditor" where
  "change_sync patch st =
     (case selectedOperation st of None \<Rightarrow> st | Some p \<Rightarrow> updateOperation (op_id p) (sync_change patch p) st)"

definition SYNC_PRESETS :: "(jsstr \<times> jsstr) list" where
  "SYNC_PRESETS =
     [(js ''header:session_id'', js ''json:prompt_cache_key''), (js ''json:prompt_cache_key'', js ''header:session_id'')]"

text \<open>The button that formats a value; a text that does not parse is left.\<close>

definition format_value :: "PoEditor \<Rightarrow> PoEditor" where
  "format_value st =
     (case selectedOperation st of
        None \<Rightarrow> st
      | Some p \<Rightarrow>
          (case json_parse (op_value_text p) of
             Some v \<Rightarrow> updateOperation (op_id p) (Set_value_text (json_text 2 0 v)) st
           | None \<Rightarrow> st))"

section \<open>Drag and drop\<close>

definition resetDragState :: "PoEditor \<Rightarrow> PoEditor" where
  "resetDragState st = st\<lparr>pe_draggedOperationId := [], pe_dragOverOperationId := [], pe_dragOverPosition := Before\<rparr>"

definition handleDragStart :: "jsstr \<Rightarrow> PoEditor \<Rightarrow> PoEditor" where
  "handleDragStart operationId st = st\<lparr>pe_draggedOperationId := operationId, pe_selectedOperationId := operationId\<rparr>"

definition handleDragOver :: "jsstr \<Rightarrow> drag_position \<Rightarrow> PoEditor \<Rightarrow> PoEditor" where
  "handleDragOver operationId position st =
     (if pe_draggedOperationId st = [] \<or> pe_draggedOperationId st = operationId then st
      else st\<lparr>pe_dragOverOperationId := operationId, pe_dragOverPosition := position\<rparr>)"

definition handleDrop :: "jsstr \<Rightarrow> jsstr \<Rightarrow> PoEditor \<Rightarrow> PoEditor" where
  "handleDrop operationId dropped st =
     (let sourceId = str_or (pe_draggedOperationId st) dropped;
          position = (if pe_dragOverOperationId st = operationId then pe_dragOverPosition st else Before) in
      resetDragState
        (if sourceId \<noteq> [] \<and> operationId \<noteq> [] \<and> sourceId \<noteq> operationId then
           st\<lparr>pe_operations := reorderOperations (pe_operations st) sourceId operationId position,
             pe_selectedOperationId := sourceId\<rparr>
         else st))"

section \<open>Text, templates and saving\<close>

definition buildVisualJson :: "PoEditor \<Rightarrow> po_message + jsstr" where
  "buildVisualJson st =
     (if pe_visualMode st = LegacyForm then
        (let trimmed = trim (pe_legacyValue st) in
         if trimmed = [] then Inr []
         else (case json_parse trimmed of
            None \<Rightarrow> Inl (Message ''Parameter override must be valid JSON format'')
          | Some (JObj ps) \<Rightarrow> Inr (json_text 2 0 (JObj ps))
          | Some _ \<Rightarrow> Inl (Message ''Legacy format must be a JSON object'')))
      else buildOperationsJson (pe_operations st) True)"

definition visualValidationError :: "PoEditor \<Rightarrow> po_message option" where
  "visualValidationError st =
     (if pe_editMode st \<noteq> VisualTab then None
      else (case buildVisualJson st of Inl e \<Rightarrow> Some e | Inr _ \<Rightarrow> None))"

definition switchToJsonMode_override :: "PoEditor \<Rightarrow> PoEditor" where
  "switchToJsonMode_override st =
     (if pe_editMode st = JsonTab then st
      else
        (case buildVisualJson st of
           Inr t \<Rightarrow> st\<lparr>pe_jsonText := t, pe_jsonError := None, pe_editMode := JsonTab\<rparr>
         | Inl e \<Rightarrow>
             st\<lparr>pe_toasts := pe_toasts st @ [e],
               pe_jsonText := (if pe_visualMode st = LegacyForm then pe_legacyValue st
                 else (case buildOperationsJson (pe_operations st) False of Inr t \<Rightarrow> t | Inl _ \<Rightarrow> pe_jsonText st)),
               pe_jsonError := Some e, pe_editMode := JsonTab\<rparr>))"

definition switchToVisualMode_override :: "(nat \<Rightarrow> nat) \<Rightarrow> PoEditor \<Rightarrow> PoEditor" where
  "switchToVisualMode_override clock st =
     (if pe_editMode st = VisualTab then st
      else
        (let trimmed = trim (pe_jsonText st) in
         if trimmed = [] then
           (let (fallback, n) = createDefaultOperation clock (pe_seed st) in
            st\<lparr>pe_visualMode := OperationsForm, pe_operations := [fallback], pe_selectedOperationId := op_id fallback,
              pe_legacyValue := [], pe_jsonError := None, pe_editMode := VisualTab, pe_seed := n\<rparr>)
         else (case json_parse trimmed of
            None \<Rightarrow> st\<lparr>pe_toasts := pe_toasts st @ [Message ''Parameter override must be valid JSON format'']\<rparr>
          | Some v \<Rightarrow>
              (case prop_of ''operations'' v of
                 Some (JArr vs) \<Rightarrow>
                   (case operations_or_default clock vs (pe_seed st) of
                      (None, n) \<Rightarrow> st\<lparr>pe_seed := n\<rparr>
                    | (Some nextOps, n) \<Rightarrow>
                        st\<lparr>pe_visualMode := OperationsForm, pe_operations := nextOps,
                          pe_selectedOperationId := first_id nextOps, pe_legacyValue := [], pe_jsonError := None,
                          pe_editMode := VisualTab, pe_templatePresetKey := js ''operations_default'', pe_seed := n\<rparr>)
               | _ \<Rightarrow>
                   (case v of
                      JObj _ \<Rightarrow>
                        (let (fallback, n) = createDefaultOperation clock (pe_seed st) in
                         st\<lparr>pe_visualMode := LegacyForm, pe_legacyValue := json_text 2 0 v, pe_operations := [fallback],
                           pe_selectedOperationId := op_id fallback, pe_jsonError := None, pe_editMode := VisualTab,
                           pe_templatePresetKey := js ''legacy_default'', pe_seed := n\<rparr>)
                    | _ \<Rightarrow> st\<lparr>pe_toasts := pe_toasts st @ [Message ''Parameter override must be a valid JSON object'']\<rparr>)))))"

datatype fill_mode = Fill | Append

text \<open>\<open>{ ...payload, ...parsedCurrent }\<close>: what has no properties of its own adds none.\<close>

definition spread :: "json \<Rightarrow> (jsstr \<times> json) list" where
  "spread v =
     (case v of
        JObj ps \<Rightarrow> ps
      | JArr xs \<Rightarrow> map (\<lambda>(i, x). (nat_str i, x)) (enumerate 0 xs)
      | JStr s \<Rightarrow> map (\<lambda>(i, c). (nat_str i, JStr [c])) (enumerate 0 s)
      | _ \<Rightarrow> [])"

definition merge_json :: "json \<Rightarrow> json \<Rightarrow> json" where
  "merge_json payload current = JObj (foldl (\<lambda>m (k, v). AList.update k v m) (spread payload) (spread current))"

definition fill_legacy :: "(nat \<Rightarrow> nat) \<Rightarrow> jsstr \<Rightarrow> PoEditor \<Rightarrow> PoEditor" where
  "fill_legacy clock t st =
     (let (p, n) = createDefaultOperation clock (pe_seed st) in
      st\<lparr>pe_visualMode := LegacyForm, pe_legacyValue := t, pe_operations := [p], pe_jsonText := t,
        pe_jsonError := None, pe_editMode := VisualTab, pe_seed := n\<rparr>)"

definition payload_operations :: "json \<Rightarrow> json list" where
  "payload_operations payload = (case prop_of ''operations'' payload of Some (JArr vs) \<Rightarrow> vs | _ \<Rightarrow> [])"

definition fillTemplate :: "(nat \<Rightarrow> nat) \<Rightarrow> fill_mode \<Rightarrow> PoEditor \<Rightarrow> PoEditor" where
  "fillTemplate clock mode st =
     (let (_, kind, payload) = (case map_of TEMPLATE_PRESET_CONFIG (pe_templatePresetKey st) of
            Some c \<Rightarrow> c | None \<Rightarrow> (''New Format Template'', OperationsPreset, OPERATION_TEMPLATE)) in
      if kind = LegacyPreset then
        (if mode = Append \<and> pe_visualMode st = LegacyForm then
           (let trimmed = trim (pe_legacyValue st) in
            if trimmed = [] then fill_legacy clock (json_text 2 0 (merge_json payload (JObj []))) st
            else (case json_parse trimmed of
               None \<Rightarrow> st\<lparr>pe_toasts := pe_toasts st @ [Message ''Current legacy JSON is invalid, cannot append'']\<rparr>
             | Some current \<Rightarrow> fill_legacy clock (json_text 2 0 (merge_json payload current)) st))
         else fill_legacy clock (json_text 2 0 payload) st)
      else
        (case numbered (normalizeOperation clock) (payload_operations payload) (pe_seed st) of
           (None, n) \<Rightarrow> st\<lparr>pe_seed := n\<rparr>
         | (Some added, n) \<Rightarrow>
             if mode = Append then
               (let nextOps = (if pe_visualMode st = OperationsForm then nonblank (pe_operations st) else []) @ added in
                st\<lparr>pe_visualMode := OperationsForm, pe_operations := nextOps,
                  pe_selectedOperationId := first_id nextOps,
                  pe_legacyValue := [], pe_jsonError := None, pe_editMode := VisualTab, pe_jsonText := [], pe_seed := n\<rparr>)
             else
               (let (finalOps, n') = (if added = [] then map_prod (\<lambda>p. [p]) (\<lambda>m. m) (createDefaultOperation clock n) else (added, n)) in
                st\<lparr>pe_visualMode := OperationsForm, pe_operations := finalOps, pe_selectedOperationId := first_id finalOps,
                  pe_jsonText := json_text 2 0 (operations_json (payload_operations payload)),
                  pe_jsonError := None, pe_editMode := VisualTab, pe_seed := n'\<rparr>)))"

definition resetEditorState :: "(nat \<Rightarrow> nat) \<Rightarrow> PoEditor \<Rightarrow> PoEditor" where
  "resetEditorState clock st =
     (let (fallback, n) = createDefaultOperation clock (pe_seed st) in
      st\<lparr>pe_visualMode := OperationsForm, pe_legacyValue := [], pe_operations := [fallback],
        pe_selectedOperationId := op_id fallback, pe_jsonText := [], pe_jsonError := None,
        pe_templatePresetKey := js ''operations_default'', pe_editMode := VisualTab, pe_seed := n\<rparr>)"

definition handleJsonChange_override :: "jsstr \<Rightarrow> PoEditor \<Rightarrow> PoEditor" where
  "handleJsonChange_override nextValue st =
     st\<lparr>pe_jsonText := nextValue,
       pe_jsonError := (if trim nextValue = [] \<or> verifyJSON (trim nextValue) then None
         else Some (Message ''JSON format error''))\<rparr>"

definition formatJson_override :: "PoEditor \<Rightarrow> PoEditor" where
  "formatJson_override st =
     (if trim (pe_jsonText st) = [] then st
      else (case json_parse (trim (pe_jsonText st)) of
         None \<Rightarrow> st\<lparr>pe_toasts := pe_toasts st @ [Message ''Parameter override must be valid JSON format'']\<rparr>
       | Some v \<Rightarrow> st\<lparr>pe_jsonText := json_text 2 0 v, pe_jsonError := None\<rparr>))"

definition save_result :: "PoEditor \<Rightarrow> po_message + jsstr" where
  "save_result st =
     (if pe_editMode st = JsonTab then
        (let trimmed = trim (pe_jsonText st) in
         if trimmed = [] then Inr []
         else (case json_parse trimmed of
            None \<Rightarrow> Inl (Message ''Parameter override must be valid JSON format'')
          | Some v \<Rightarrow> Inr (json_text 2 0 v)))
      else buildVisualJson st)"

definition handleSave :: "PoEditor \<Rightarrow> PoEditor" where
  "handleSave st =
     (case save_result st of
        Inr r \<Rightarrow> st\<lparr>pe_saved := pe_saved st @ [r], pe_open := False\<rparr>
      | Inl e \<Rightarrow> st\<lparr>pe_toasts := pe_toasts st @ [e]\<rparr>)"

definition set_all_conditions :: "bool \<Rightarrow> PoEditor \<Rightarrow> PoEditor" where
  "set_all_conditions b st =
     (case selectedOperation st of
        None \<Rightarrow> st
      | Some p \<Rightarrow> st\<lparr>pe_expandedConditions :=
          foldl (\<lambda>m c. AList.update (cd_id c) b m) (pe_expandedConditions st) (op_conditions p)\<rparr>)"

definition expandAllConditions :: "PoEditor \<Rightarrow> PoEditor" where
  "expandAllConditions st = set_all_conditions True st"

definition collapseAllConditions :: "PoEditor \<Rightarrow> PoEditor" where
  "collapseAllConditions st = set_all_conditions False st"

section \<open>Steps\<close>

datatype po_action =
    UpdateOperation jsstr op_patch | AddOperation | DuplicateOperation jsstr bool | RemoveOperation jsstr
  | AddCondition jsstr | UpdateCondition jsstr jsstr cond_patch | RemoveCondition jsstr jsstr
  | ChangeError jsstr error_patch | ChangePrune jsstr prune_patch | AddRule jsstr
  | UpdateRule jsstr jsstr cond_patch | RemoveRule jsstr jsstr | ChangeSync sync_patch | FormatValue
  | DragStart jsstr | DragOver jsstr drag_position | Drop jsstr jsstr | DragEnd
  | ToJson | ToVisual | FillTemplate fill_mode | ResetEditor | TypeJson jsstr | FormatJson | TypeLegacy jsstr
  | Search jsstr | SelectOperation jsstr | ChoosePreset jsstr | ToggleCondition jsstr bool
  | ExpandAll | CollapseAll | SaveOverride | CancelOverride | Render bool

fun handle :: "(nat \<Rightarrow> nat) \<Rightarrow> po_action \<Rightarrow> PoEditor \<Rightarrow> PoEditor" where
  "handle clock (UpdateOperation i patch) st = updateOperation i patch st"
| "handle clock AddOperation st = addOperation clock st"
| "handle clock (DuplicateOperation i b) st = duplicateOperation clock i b st"
| "handle clock (RemoveOperation i) st = removeOperation clock i st"
| "handle clock (AddCondition i) st = addCondition clock i st"
| "handle clock (UpdateCondition i c patch) st = updateCondition i c patch st"
| "handle clock (RemoveCondition i c) st = removeCondition i c st"
| "handle clock (ChangeError i patch) st = updateReturnErrorDraft i patch st"
| "handle clock (ChangePrune i patch) st = updatePruneObjectsDraft clock i (\<lambda>d n. (patch_prune patch d, n)) st"
| "handle clock (AddRule i) st = addPruneRule clock i st"
| "handle clock (UpdateRule i r patch) st = updatePruneRule clock i r patch st"
| "handle clock (RemoveRule i r) st = removePruneRule clock i r st"
| "handle clock (ChangeSync patch) st = change_sync patch st"
| "handle clock FormatValue st = format_value st"
| "handle clock (DragStart i) st = handleDragStart i st"
| "handle clock (DragOver i pos) st = handleDragOver i pos st"
| "handle clock (Drop i s) st = handleDrop i s st"
| "handle clock DragEnd st = resetDragState st"
| "handle clock ToJson st = switchToJsonMode_override st"
| "handle clock ToVisual st = switchToVisualMode_override clock st"
| "handle clock (FillTemplate m) st = fillTemplate clock m st"
| "handle clock ResetEditor st = resetEditorState clock st"
| "handle clock (TypeJson s) st = handleJsonChange_override s st"
| "handle clock FormatJson st = formatJson_override st"
| "handle clock (TypeLegacy s) st = st\<lparr>pe_legacyValue := s\<rparr>"
| "handle clock (Search s) st = st\<lparr>pe_operationSearch := s\<rparr>"
| "handle clock (SelectOperation i) st = st\<lparr>pe_selectedOperationId := i\<rparr>"
| "handle clock (ChoosePreset k) st = st\<lparr>pe_templatePresetKey := k\<rparr>"
| "handle clock (ToggleCondition c b) st = st\<lparr>pe_expandedConditions := AList.update c b (pe_expandedConditions st)\<rparr>"
| "handle clock ExpandAll st = expandAllConditions st"
| "handle clock CollapseAll st = collapseAllConditions st"
| "handle clock SaveOverride st = handleSave st"
| "handle clock CancelOverride st = st\<lparr>pe_open := False\<rparr>"
| "handle clock (Render fresh) st = render clock fresh st"

text \<open>
  A handler and the effect that follows it. Renderings are steps of their own, as many as React
  makes.
\<close>

definition po_perform :: "(nat \<Rightarrow> nat) \<Rightarrow> po_action \<Rightarrow> PoEditor \<Rightarrow> PoEditor" where
  "po_perform clock a st = keep_selection (handle clock a st)"

text \<open>What the selects and switches of the dialog offer; texts are strings of the language.\<close>

fun op_patch_offered :: "op_patch \<Rightarrow> bool" where
  "op_patch_offered (Set_mode s) = (s \<in> set OPERATION_MODE_VALUES)"
| "op_patch_offered (Set_logic s) = (s = js ''OR'' \<or> s = js ''AND'')"
| "op_patch_offered (Set_description s) = (length s \<le> 180 \<and> wide s)"
| "op_patch_offered (Set_from_to s u) = ((s, u) \<in> set SYNC_PRESETS)"
| "op_patch_offered (Set_keep_origin b) = True"
| "op_patch_offered (Set_path s) = wide s"
| "op_patch_offered (Set_value_text s) = wide s"
| "op_patch_offered (Set_from s) = wide s"
| "op_patch_offered (Set_to s) = wide s"

fun cond_patch_offered :: "cond_patch \<Rightarrow> bool" where
  "cond_patch_offered (Cond_mode s) = (s \<in> set CONDITION_MODE_VALUES)"
| "cond_patch_offered (Cond_path s) = wide s"
| "cond_patch_offered (Cond_value_text s) = wide s"
| "cond_patch_offered _ = True"

fun po_offered :: "PoEditor \<Rightarrow> po_action \<Rightarrow> bool" where
  "po_offered st (UpdateOperation i patch) = (i = pe_selectedOperationId st \<and> op_patch_offered patch)"
| "po_offered st (UpdateCondition i c patch) = (i = pe_selectedOperationId st \<and> cond_patch_offered patch)"
| "po_offered st (UpdateRule i r patch) =
     (i = pe_selectedOperationId st \<and> cond_patch_offered patch \<and>
      (\<exists>d. pe_pruneObjectsDraft st = Some d \<and> r \<in> cd_id ` set (pd_rules d)))"
| "po_offered st (RemoveRule i r) =
     (i = pe_selectedOperationId st \<and> (\<exists>d. pe_pruneObjectsDraft st = Some d \<and> r \<in> cd_id ` set (pd_rules d)))"
| "po_offered st (ChangeError i (Err_preset n c t)) = (i = pe_selectedOperationId st \<and> (n, c, t) \<in> set ERROR_PRESETS)"
| "po_offered st (SelectOperation i) = (i \<in> op_id ` set (pe_operations st))"
| "po_offered st (DragStart i) = (i \<in> op_id ` set (pe_operations st))"
| "po_offered st (Drop i s) = (i \<in> op_id ` set (pe_operations st))"
| "po_offered st (ChoosePreset k) = (k \<in> fst ` set TEMPLATE_PRESET_CONFIG)"
| "po_offered st a = True"

inductive po_reachable :: "(nat \<Rightarrow> nat) \<Rightarrow> PoEditor \<Rightarrow> bool" for clock where
  opened: "open_editor clock v n = Some st \<Longrightarrow> po_reachable clock st"
| acted: "po_reachable clock st \<Longrightarrow> pe_open st \<Longrightarrow> po_offered st a \<Longrightarrow> po_reachable clock (po_perform clock a st)"

end
