(* ===== verification/Param_Override_Roundtrip.thy ===== *)
theory Param_Override_Roundtrip
  imports Param_Override_Text
begin

text \<open>
  What reopening a saved text shows: the operations as they were saved, with new identifiers, and
  that saving them again gives the same text.
\<close>

section \<open>Texts without white space at their ends\<close>

lemma num_str_no_ws: "c \<in> set (num_str x) \<Longrightarrow> \<not> is_ws c"
proof -
  have nat: "c \<in> set (nat_str n) \<Longrightarrow> \<not> is_ws c" for n using nat_str_digits digit_not_ws by blast
  have "c \<in> set (pos_num_str r) \<Longrightarrow> \<not> is_ws c" for r
    using nat by (auto simp: pos_num_str_def format_digits_def Let_def is_ws_def js_lit
        split: prod.splits if_splits dest: in_set_takeD in_set_dropD)
  then show "c \<in> set (num_str x) \<Longrightarrow> \<not> is_ws c"
    using nat by (cases x) (auto simp: num_str_def int_str_def is_ws_def js_lit split: if_splits)
qed

lemma trim_bracketed: "\<not> is_ws l \<Longrightarrow> \<not> is_ws r \<Longrightarrow> trim (bracketed gap ind l ws r) = bracketed gap ind l ws r"
  by (rule trim_id) (simp add: bracketed_def)

lemma trim_json_text: "trim (json_text gap ind v) = json_text gap ind v"
proof (cases v)
  case (JNum x)
  then show ?thesis
    using num_str_no_ws [of _ x] by (auto intro!: trim_no_ws simp: is_ws_def js_lit)
next
  case (JBool b)
  then show ?thesis by (cases b) (simp_all add: js_lit js_eval)
next
  case JNull
  then show ?thesis by (simp add: js_lit js_eval)
next
  case (JStr s)
  then show ?thesis by (auto simp: json_quote_def is_ws_def intro!: trim_id)
qed (simp_all add: trim_bracketed is_ws_def)

lemmas trim_json_stringify = trim_json_text [of 0, unfolded json_text_compact]

lemma json_stringify_not_Nil: "printable v \<Longrightarrow> json_stringify v \<noteq> []"
  by (cases v) (auto simp: number_reads_back_def json_quote_def js_lit split: if_splits)

section \<open>Values\<close>

text \<open>
  The text of a value that is not written as a quoted JSON string: it is shown as it was typed, or
  printed again.
\<close>

definition plain_text :: "jsstr \<Rightarrow> bool" where
  "plain_text t = (case parseLooseValue t of JStr s \<Rightarrow> s = trim t | v \<Rightarrow> printable v)"

lemma parseLooseValue_trim: "parseLooseValue (trim t) = parseLooseValue t"
  by (simp add: parseLooseValue_def)

abbreviation resaved :: "jsstr \<Rightarrow> jsstr" where
  "resaved t \<equiv> toValueText (Some (parseLooseValue t))"

lemma resaved_cases:
  assumes "plain_text t"
  obtains "resaved t = trim t"
  | v where "parseLooseValue t = v" "resaved t = json_stringify v" "printable v"
      "json_parse (trim t) = Some v" "trim t \<noteq> []"
proof (cases "\<exists>s. parseLooseValue t = JStr s")
  case True
  with assms that(1) show thesis by (auto simp: plain_text_def toValueText_def)
next
  case False
  moreover from False have "json_parse (trim t) = Some (parseLooseValue t)" "trim t \<noteq> []"
    by (auto simp: parseLooseValue_def Let_def split: if_splits option.splits)
  moreover have "printable (parseLooseValue t)" using assms False by (simp add: plain_text_def split: json.splits)
  moreover have "resaved t = json_stringify (parseLooseValue t)"
    using False by (simp add: toValueText_def split: json.splits)
  ultimately show thesis using that(2) by blast
qed

lemma resaved_parse:
  assumes "plain_text t"
  shows "json_parse (trim (resaved t)) = json_parse (trim t)"
  using assms by (cases rule: resaved_cases) (simp_all add: trim_json_stringify json_roundtrip)

lemma resaved_Nil:
  assumes "plain_text t"
  shows "trim (resaved t) = [] \<longleftrightarrow> trim t = []"
  using assms by (cases rule: resaved_cases) (simp_all add: trim_json_stringify json_stringify_not_Nil)

lemma resaved_value:
  assumes "plain_text t"
  shows "parseLooseValue (resaved t) = parseLooseValue t"
  using assms
proof (cases rule: resaved_cases)
  case 1
  then show ?thesis by (simp add: parseLooseValue_trim)
next
  case (2 v)
  then show ?thesis
    using resaved_parse [OF assms] resaved_Nil [OF assms] by (simp add: parseLooseValue_def)
qed

section \<open>The form of a payload\<close>

text \<open>The properties of a payload, in their order; \<open>path\<close> stands in for a missing \<open>from\<close> or \<open>to\<close>.\<close>

definition given :: "bool \<Rightarrow> string \<Rightarrow> json \<Rightarrow> (string \<times> json) list" where
  "given b k v = (if b then [(k, v)] else [])"

definition alias_or :: "ModeMeta \<Rightarrow> jsstr \<Rightarrow> jsstr \<Rightarrow> jsstr" where
  "alias_or meta path s = (if mm_pathAlias meta then str_or s path else s)"

definition payload_fields :: "ParamOverrideOperation \<Rightarrow> (string \<times> json) list" where
  "payload_fields p =
     (let meta = meta_of (op_mode p); path = trim (op_path p); toValue = alias_or meta path (trim (op_to p)) in
      [(''mode'', JStr (op_mode p))] @
      given (trim (op_description p) \<noteq> []) ''description'' (JStr (trim (op_description p))) @
      given (mm_path meta \<or> mm_pathOptional meta \<and> path \<noteq> []) ''path'' (JStr path) @
      given (mm_value meta) ''value'' (parseLooseValue (op_value_text p)) @
      given (mm_keepOrigin meta \<and> op_keep_origin p) ''keep_origin'' (JBool True) @
      given (mm_from meta) ''from'' (JStr (alias_or meta path (trim (op_from p)))) @
      given (mm_to meta = Some True \<or> toValue \<noteq> []) ''to'' (JStr toValue) @
      given (condition_payloads p \<noteq> []) ''conditions'' (JArr (condition_payloads p)) @
      given (condition_payloads p \<noteq> []) ''logic'' (jstr (if op_logic p = js ''AND'' then ''AND'' else ''OR'')))"

text \<open>What the table of modes has in common.\<close>

definition meta_ok :: "ModeMeta \<Rightarrow> bool" where
  "meta_ok m \<longleftrightarrow> (mm_pathAlias m \<longrightarrow> mm_from m \<and> mm_to m = Some True) \<and> \<not> (mm_path m \<and> mm_pathOptional m)"

lemma meta_of_ok: "meta_ok (meta_of mode)"
proof -
  have "\<forall>e \<in> set MODE_META. meta_ok (snd e)" by (simp add: MODE_META_def meta_ok_def no_meta_def)
  then have "map_of MODE_META mode = Some m \<Longrightarrow> meta_ok m" for m
    using map_of_SomeD [of MODE_META mode m] by auto
  then show ?thesis
    by (cases "map_of MODE_META mode") (simp_all add: meta_of_def meta_ok_def no_meta_def)
qed

lemma mode_values_not_Nil: "mode \<in> set OPERATION_MODE_VALUES \<Longrightarrow> mode \<noteq> []"
  by (auto simp: OPERATION_MODE_VALUES_def OPERATION_MODE_OPTIONS_def js_lit)

lemma condition_values_not_Nil: "mode \<in> set CONDITION_MODE_VALUES \<Longrightarrow> mode \<noteq> []"
  by (auto simp: CONDITION_MODE_VALUES_def CONDITION_MODE_OPTIONS_def js_lit)

text \<open>Assigning a new property appends it; assigning an old one changes it in place.\<close>

definition fields_of :: "(string \<times> json) list \<Rightarrow> (jsstr \<times> json) list" where
  "fields_of fs = map (\<lambda>(k, v). (js k, v)) fs"

lemma put_if_new: "k \<notin> fst ` set fs \<Longrightarrow> put_if b k v (fields_of fs) = fields_of (fs @ given b k v)"
  by (induction fs) (auto simp: put_if_def given_def fields_of_def inj_js)

lemma put_if_old:
  "k \<notin> fst ` set fs \<Longrightarrow>
   put_if b k v (fields_of (fs @ (k, x) # gs)) = fields_of (fs @ (k, if b then v else x) # gs)"
  by (induction fs) (auto simp: put_if_def fields_of_def inj_js)

lemma put_if_twice: "put_if b k v (put_if a k v fs) = put_if (a \<or> b) k v fs"
  by (auto simp: put_if_def)

lemma put_if_False [simp]: "put_if False k v fs = fs"
  by (simp add: put_if_def)

lemma key_of_given [simp]: "k \<in> fst ` set (given b k' v) \<longleftrightarrow> b \<and> k = k'"
  by (auto simp: given_def)

lemma given_simps [simp]: "given True k v = [(k, v)]" "given False k v = []"
  by (simp_all add: given_def)

lemma map_of_fields: "map_of (fields_of fs) (js k) = map_of fs k"
  by (induction fs) (auto simp: fields_of_def inj_js)

lemma map_of_given: "map_of (given b k' v) k = (if b \<and> k = k' then Some v else None)"
  by (simp add: given_def)

lemma has_truthy_fields: "has_truthy k (fields_of fs) = (case map_of fs k of Some v \<Rightarrow> json_truthy v | None \<Rightarrow> False)"
  by (simp add: has_truthy_def map_of_fields)

lemma alias_fields:
  assumes "''from'' \<notin> fst ` set A" "''to'' \<notin> fst ` set A"
    and "i = fields_of (A @ [(''from'', JStr f), (''to'', JStr t)])"
    and "k = put_if (\<not> has_truthy ''from'' i \<and> path \<noteq> []) ''from'' (JStr path) i"
  shows "put_if (\<not> has_truthy ''to'' k \<and> path \<noteq> []) ''to'' (JStr path) k =
    fields_of (A @ [(''from'', JStr (str_or f path)), (''to'', JStr (str_or t path))])"
proof -
  have "map_of A ''from'' = None" "map_of A ''to'' = None" using assms(1,2) by (simp_all add: map_of_eq_None_iff)
  then have "has_truthy ''from'' i = (f \<noteq> [])"
    by (simp add: assms(3) has_truthy_fields map_add_def)
  then have k: "k = fields_of (A @ [(''from'', JStr (str_or f path)), (''to'', JStr t)])"
    using assms(1) by (simp add: assms(3,4) put_if_old str_or_def)
  then have "has_truthy ''to'' k = (t \<noteq> [])"
    using \<open>map_of A ''to'' = None\<close> by (simp add: has_truthy_fields map_add_def)
  then show ?thesis
    using put_if_old [of "''to''" "A @ [(''from'', JStr (str_or f path))]" _ "JStr path" "JStr t" "[]"] assms(2)
    by (simp add: k str_or_def)
qed

lemma operation_payload_fields:
  assumes "op_mode p \<noteq> []"
  shows "operation_payload p = jobj (payload_fields p)"
proof -
  define meta where "meta = meta_of (op_mode p)"
  define A where "A = [(''mode'', JStr (op_mode p))] @
      given (trim (op_description p) \<noteq> []) ''description'' (JStr (trim (op_description p))) @
      given (mm_path meta \<or> mm_pathOptional meta \<and> trim (op_path p) \<noteq> []) ''path'' (JStr (trim (op_path p))) @
      given (mm_value meta) ''value'' (parseLooseValue (op_value_text p)) @
      given (mm_keepOrigin meta \<and> op_keep_origin p) ''keep_origin'' (JBool True)"
  have mode: "op_mode_or_set p = op_mode p" using assms by (simp add: op_mode_or_set_def str_or_def)
  have start: "[(js ''mode'', JStr (op_mode p))] = fields_of [(''mode'', JStr (op_mode p))]"
    by (simp add: fields_of_def)
  have A: "k \<notin> fst ` set A" if "k \<in> {''from'', ''to'', ''conditions'', ''logic''}" for k
    using that by (auto simp: A_def image_Un)
  have all: "(\<not> mm_to meta = Some True \<and> x \<or> mm_to meta = Some True) = (mm_to meta = Some True \<or> x)" for x by blast
  have ok: "mm_pathAlias meta \<Longrightarrow> mm_from meta \<and> mm_to meta = Some True"
    using meta_of_ok [of "op_mode p"] by (simp add: meta_ok_def meta_def)
  have jobj: "JObj (fields_of fs) = jobj fs" for fs by (simp add: jobj_def fields_of_def)
  have A_eq: "put_if (mm_keepOrigin meta \<and> op_keep_origin p) ''keep_origin'' (JBool True)
      (put_if (mm_value meta) ''value'' (parseLooseValue (op_value_text p))
        (put_if (mm_path meta \<or> mm_pathOptional meta \<and> trim (op_path p) \<noteq> []) ''path'' (JStr (trim (op_path p)))
          (put_if (trim (op_description p) \<noteq> []) ''description'' (JStr (trim (op_description p)))
            (fields_of [(''mode'', JStr (op_mode p))])))) = fields_of A"
    by (simp add: put_if_new image_Un A_def)
  show ?thesis
  proof (cases "mm_pathAlias meta")
    case True
    note swap = alias_fields [of A, OF _ _ refl refl]
    from True ok A show ?thesis
      unfolding operation_payload_def payload_fields_def mode Let_def meta_def [symmetric] start put_if_twice all A_eq
      by (simp add: put_if_new image_Un swap alias_or_def jobj) (simp add: A_def)
  next
    case False
    with A show ?thesis
      unfolding operation_payload_def payload_fields_def mode Let_def meta_def [symmetric] start put_if_twice all A_eq
      by (simp add: put_if_new image_Un alias_or_def jobj) (simp add: A_def)
  qed
qed

section \<open>The operations of a saved text\<close>

text \<open>
  What is left of an operation in its payload: texts are trimmed, fields its mode does not use
  and conditions without a path are dropped, values are in the form in which they are shown again.
\<close>

definition saved_condition :: "ParamOverrideCondition \<Rightarrow> ParamOverrideCondition" where
  "saved_condition c = c\<lparr>cd_path := trim (cd_path c), cd_value_text := resaved (cd_value_text c)\<rparr>"

definition has_path :: "ParamOverrideCondition \<Rightarrow> bool" where
  "has_path c \<longleftrightarrow> trim (cd_path c) \<noteq> []"

definition saved_operation :: "ParamOverrideOperation \<Rightarrow> ParamOverrideOperation" where
  "saved_operation p =
     (let meta = meta_of (op_mode p); path = trim (op_path p); cs = filter has_path (op_conditions p) in
      \<lparr>op_id = op_id p,
       op_description = trim (op_description p),
       op_path = (if mm_path meta \<or> mm_pathOptional meta then path else []),
       op_mode = op_mode p,
       op_from = (if mm_from meta then alias_or meta path (trim (op_from p)) else []),
       op_to = alias_or meta path (trim (op_to p)),
       op_value_text = (if mm_value meta then resaved (op_value_text p) else []),
       op_keep_origin = (mm_keepOrigin meta \<and> op_keep_origin p),
       op_logic = (if cs \<noteq> [] \<and> op_logic p = js ''AND'' then js ''AND'' else js ''OR''),
       op_conditions = map saved_condition cs\<rparr>)"

text \<open>Operations and conditions without their identifiers.\<close>

definition anon_condition :: "ParamOverrideCondition \<Rightarrow> ParamOverrideCondition" where
  "anon_condition c = c\<lparr>cd_id := []\<rparr>"

definition anon :: "ParamOverrideOperation \<Rightarrow> ParamOverrideOperation" where
  "anon p = p\<lparr>op_id := [], op_conditions := map anon_condition (op_conditions p)\<rparr>"

text \<open>The modes of an operation and of its conditions are those of the tables.\<close>

definition modes_ok :: "ParamOverrideOperation \<Rightarrow> bool" where
  "modes_ok p \<longleftrightarrow> op_mode p \<in> set OPERATION_MODE_VALUES \<and>
     (\<forall>c \<in> set (op_conditions p). cd_mode c \<in> set CONDITION_MODE_VALUES)"

lemma anon_read_condition: "anon_condition (read_condition i v) = read_condition [] v"
  by (simp add: anon_condition_def read_condition_def)

lemma condition_payloads_eq:
  "condition_payloads p = map (\<lambda>c. the (buildConditionPayload c)) (filter has_path (op_conditions p))"
proof -
  have "(buildConditionPayload c \<noteq> None) = has_path c" for c
    by (simp add: buildConditionPayload_def has_path_def Let_def)
  then show ?thesis by (simp add: condition_payloads_def map_filter_def comp_def)
qed

lemma prop_of_jobj: "prop_of k (jobj fs) = map_of fs k"
  using map_of_fields [of fs k] by (simp add: jobj_def prop_of_def fields_of_def)

lemma read_condition_payload:
  assumes "has_path c" and "cd_mode c \<in> set CONDITION_MODE_VALUES"
  shows "the (buildConditionPayload c) \<noteq> JNull"
    "read_condition [] (the (buildConditionPayload c)) = anon_condition (saved_condition c)"
proof -
  have "cd_mode c \<noteq> []" using assms(2) condition_values_not_Nil by blast
  then show "the (buildConditionPayload c) \<noteq> JNull"
    "read_condition [] (the (buildConditionPayload c)) = anon_condition (saved_condition c)"
    using assms by (simp_all add: buildConditionPayload_def has_path_def Let_def read_condition_def prop_of_jobj
        str_field_def mode_field_def anon_condition_def saved_condition_def str_or_def)
     (simp_all add: jobj_def)
qed

lemma numbered_total:
  assumes "\<And>x n. x \<in> set xs \<Longrightarrow> \<exists>y n'. f x n = (Some y, n') \<and> g y = k x"
  shows "\<exists>ys n'. numbered f xs n = (Some ys, n') \<and> map g ys = map k xs"
  using assms
proof (induction xs arbitrary: n)
  case (Cons x xs)
  obtain y m where "f x n = (Some y, m)" "g y = k x" using Cons.prems [of x n] by auto
  moreover obtain ys n' where "numbered f xs m = (Some ys, n')" "map g ys = map k xs"
    using Cons.IH [of m] Cons.prems by auto
  ultimately show ?case by simp
qed simp

lemma numbered_map: "numbered f (map h xs) n = numbered (\<lambda>x. f (h x)) xs n"
  by (induction xs arbitrary: n) (auto split: prod.splits option.splits)

lemma numbered_conditions:
  assumes "\<forall>c \<in> set cs. c \<noteq> JNull"
  shows "\<exists>ys n'. numbered (normalizeCondition_override clock) cs n = (Some ys, n') \<and>
    map anon_condition ys = map (read_condition []) cs"
  using assms
  by (intro numbered_total)
    (simp add: normalizeCondition_override_def nextLocalId_def anon_read_condition)

lemma payload_lookup:
  fixes p
  defines "meta \<equiv> meta_of (op_mode p)" and "path \<equiv> trim (op_path p)" and "v \<equiv> jobj (payload_fields p)"
  shows "prop_of ''mode'' v = Some (JStr (op_mode p))"
    and "str_field (prop_of ''description'' v) = trim (op_description p)"
    and "str_field (prop_of ''path'' v) = (if mm_path meta \<or> mm_pathOptional meta then path else [])"
    and "toValueText (prop_of ''value'' v) = (if mm_value meta then resaved (op_value_text p) else [])"
    and "(prop_of ''keep_origin'' v = Some (JBool True)) = (mm_keepOrigin meta \<and> op_keep_origin p)"
    and "str_field (prop_of ''from'' v) = (if mm_from meta then alias_or meta path (trim (op_from p)) else [])"
    and "str_field (prop_of ''to'' v) = alias_or meta path (trim (op_to p))"
    and "prop_of ''conditions'' v = (if condition_payloads p \<noteq> [] then Some (JArr (condition_payloads p)) else None)"
    and "prop_of ''logic'' v = (if condition_payloads p \<noteq> [] then Some (jstr (if op_logic p = js ''AND'' then ''AND'' else ''OR'')) else None)"
  unfolding v_def meta_def path_def prop_of_jobj payload_fields_def Let_def
  by (simp_all add: map_add_def map_of_given str_field_def toValueText_def split: option.split)

lemma read_payload:
  assumes "modes_ok p"
  shows "\<exists>q n'. normalizeOperation clock (operation_payload p) n = (Some q, n') \<and> anon q = anon (saved_operation p)"
proof -
  define v where "v = operation_payload p"
  have mode: "op_mode p \<in> set OPERATION_MODE_VALUES" using assms by (simp add: modes_ok_def)
  then have v: "v = jobj (payload_fields p)"
    unfolding v_def by (intro operation_payload_fields mode_values_not_Nil)
  note lookup = payload_lookup [of p, folded v]
  let ?cs = "condition_payloads p" and ?i = "local_id clock n"
  have nil: "?cs = [] \<longleftrightarrow> filter has_path (op_conditions p) = []" by (simp add: condition_payloads_eq)
  have logic: "json_string (json_or (prop_of ''logic'' v) (jstr ''OR'')) =
      (if ?cs \<noteq> [] \<and> op_logic p = js ''AND'' then js ''AND'' else js ''OR'')"
    "\<not> str_throws (json_or (prop_of ''logic'' v) (jstr ''OR''))"
    by (simp_all add: lookup(9) json_or_def jstr_def)
  have upper: "ascii_upper (js ''AND'') = js ''AND''" "ascii_upper (js ''OR'') \<noteq> js ''AND''"
    by (simp_all add: ascii_upper_def js_lit)
  have cs: "\<forall>c \<in> set ?cs. c \<noteq> JNull"
    "map (read_condition []) ?cs = map anon_condition (op_conditions (saved_operation p))"
    using assms by (auto simp: condition_payloads_eq modes_ok_def read_condition_payload saved_operation_def Let_def)
  obtain ys n' where ys: "numbered (normalizeCondition_override clock) ?cs (Suc n) = (Some ys, n')"
      "map anon_condition ys = map anon_condition (op_conditions (saved_operation p))"
    using numbered_conditions [OF cs(1), of clock "Suc n"] cs(2) by auto
  have "op_conditions (saved_operation p) = [] \<longleftrightarrow> ?cs = []" by (simp add: saved_operation_def Let_def nil)
  then have ysNil: "?cs = [] \<Longrightarrow> map anon_condition [] = map anon_condition (op_conditions (saved_operation p))" by simp
  have anon: "anon (read_operation ?i v zs) = anon (saved_operation p)"
    if "map anon_condition zs = map anon_condition (op_conditions (saved_operation p))" for zs
    using that mode
    by (simp add: anon_def read_operation_def lookup(1-7) mode_field_def logic upper)
      (simp add: saved_operation_def Let_def nil)
  have "v \<noteq> JNull" by (simp add: v jobj_def)
  then show ?thesis
    using logic(2) ys anon [OF ys(2)] anon [OF ysNil]
    unfolding v_def [symmetric] by (auto simp: normalizeOperation_def nextLocalId_def lookup(8))
qed

section \<open>Reopening a saved text\<close>

text \<open>The texts of an operation are strings of the language and its values are printed faithfully.\<close>

definition texts_ok :: "ParamOverrideOperation \<Rightarrow> bool" where
  "texts_ok p \<longleftrightarrow> wide (op_description p) \<and> wide (op_path p) \<and> wide (op_from p) \<and> wide (op_to p) \<and>
     (mm_value (meta_of (op_mode p)) \<longrightarrow> printable (parseLooseValue (op_value_text p))) \<and>
     (\<forall>c \<in> set (op_conditions p). has_path c \<longrightarrow> wide (cd_path c) \<and> printable (parseLooseValue (cd_value_text c)))"

lemma mode_values_wide:
  "mode \<in> set OPERATION_MODE_VALUES \<Longrightarrow> wide mode" "mode \<in> set CONDITION_MODE_VALUES \<Longrightarrow> wide mode"
  by (auto simp: OPERATION_MODE_VALUES_def OPERATION_MODE_OPTIONS_def CONDITION_MODE_VALUES_def CONDITION_MODE_OPTIONS_def)

lemma disjoint_given [simp]: "fst ` set (given b k v) \<inter> X = {} \<longleftrightarrow> (b \<longrightarrow> k \<notin> X)"
  by (auto simp: given_def)

lemma distinct_given [simp]: "distinct (map fst (given b k v))"
  by (simp add: given_def)

lemma Ball_given [simp]: "(\<forall>x \<in> set (given b k v). P x) \<longleftrightarrow> (b \<longrightarrow> P (k, v))"
  by (simp add: given_def)

lemma printable_condition:
  assumes "has_path c" "cd_mode c \<in> set CONDITION_MODE_VALUES" "wide (cd_path c)" "printable (parseLooseValue (cd_value_text c))"
  shows "printable (the (buildConditionPayload c))"
  using assms mode_values_wide(2) [OF assms(2)] condition_values_not_Nil [OF assms(2)]
  by (auto simp: buildConditionPayload_def has_path_def Let_def printable_jobj str_or_def js_not_index is_digit_def wide_trim)

lemma printable_payload:
  assumes "modes_ok p" and "texts_ok p"
  shows "printable (operation_payload p)"
proof -
  have mode: "op_mode p \<in> set OPERATION_MODE_VALUES" using assms(1) by (simp add: modes_ok_def)
  have "\<forall>c \<in> set (condition_payloads p). printable c"
    using assms by (auto simp: condition_payloads_eq modes_ok_def texts_ok_def printable_condition)
  moreover have "wide (alias_or m (trim (op_path p)) s)" if "wide s" for m s
    using that assms(2) by (simp add: alias_or_def str_or_def texts_ok_def wide_trim)
  moreover have "distinct (map fst (payload_fields p))"
    by (simp add: payload_fields_def Let_def image_Un Int_Un_distrib)
  ultimately show ?thesis
    using assms(2) mode_values_wide(1) [OF mode]
    unfolding operation_payload_fields [OF mode_values_not_Nil [OF mode]] printable_jobj
    by (simp add: payload_fields_def Let_def ball_Un texts_ok_def wide_trim js_not_index is_digit_def jstr_def)
qed

lemma reopened:
  assumes "buildOperationsJson ops check = Inr txt" and "txt \<noteq> []"
    and "\<forall>p \<in> set ops. modes_ok p \<and> texts_ok p"
  shows "\<exists>qs n'. parseInitialState clock txt n =
      (Some \<lparr>es_editMode = VisualTab, es_visualMode = OperationsForm, es_legacyValue = [],
         es_operations = qs, es_jsonText = txt, es_jsonError = None\<rparr>, n') \<and>
    map anon qs = map (\<lambda>p. anon (saved_operation p)) (nonblank ops)"
proof -
  let ?vs = "map operation_payload (nonblank ops)"
  have ne: "nonblank ops \<noteq> []" using assms(1,2) by (auto simp: buildOperationsJson_def Let_def)
  then have printed: "txt = json_text 2 0 (operations_json ?vs)"
    using assms(1) by (auto simp: buildOperationsJson_def Let_def split: option.splits if_splits)
  have ok: "modes_ok p" "texts_ok p" if "p \<in> set (nonblank ops)" for p
    using that assms(3) by (auto simp: nonblank_def)
  have "printable (operations_json ?vs)"
    using printable_payload [OF ok] by (simp add: operations_json_def printable_jobj js_not_index is_digit_def)
  then have parse: "json_parse txt = Some (operations_json ?vs)" by (simp add: printed json_text_roundtrip)
  obtain qs n' where "numbered (normalizeOperation clock) ?vs n = (Some qs, n')"
      "map anon qs = map (\<lambda>p. anon (saved_operation p)) (nonblank ops)"
    using numbered_total [of "nonblank ops" "\<lambda>p. normalizeOperation clock (operation_payload p)" anon
        "\<lambda>p. anon (saved_operation p)" n] read_payload ok by (auto simp: numbered_map)
  moreover have "prop_of ''operations'' (operations_json ?vs) = Some (JArr ?vs)"
    by (simp add: operations_json_def prop_of_jobj)
  ultimately show ?thesis
    using parse ne assms(2) trim_json_text [of 2 0 "operations_json ?vs", folded printed]
    by (simp add: parseInitialState_def Let_def operations_or_default_def) (simp add: printed)
qed

section \<open>Saving again\<close>

definition plain_operation :: "ParamOverrideOperation \<Rightarrow> bool" where
  "plain_operation p \<longleftrightarrow> (mm_value (meta_of (op_mode p)) \<longrightarrow> plain_text (op_value_text p)) \<and>
     (\<forall>c \<in> set (op_conditions p). has_path c \<longrightarrow> plain_text (cd_value_text c))"

lemma payload_anon: "payload_fields (anon p) = payload_fields p"
proof -
  have "buildConditionPayload (anon_condition c) = buildConditionPayload c" for c
    by (simp add: buildConditionPayload_def anon_condition_def Let_def)
  then have "condition_payloads (anon p) = condition_payloads p"
    by (simp add: condition_payloads_def anon_def map_filter_def comp_def filter_map)
  then show ?thesis by (simp add: payload_fields_def) (simp add: anon_def)
qed

lemma validate_anon: "validate_operation l (anon p) = validate_operation l p"
  by (simp add: validate_operation_def anon_def op_mode_or_set_def Let_def)

lemma saved_condition_payloads:
  assumes "plain_operation p"
  shows "condition_payloads (saved_operation p) = condition_payloads p"
proof -
  have "the (buildConditionPayload (saved_condition c)) = the (buildConditionPayload c)"
    if "c \<in> set (op_conditions p)" "has_path c" for c
    using that assms by (simp add: buildConditionPayload_def saved_condition_def Let_def plain_operation_def resaved_value)
  moreover have "has_path (saved_condition c) = has_path c" for c
    by (simp add: has_path_def saved_condition_def)
  ultimately show ?thesis
    by (simp add: condition_payloads_eq saved_operation_def Let_def filter_map comp_def)
qed

lemma alias_again: "(mm_pathAlias m \<Longrightarrow> x = [] \<or> x = a) \<Longrightarrow> alias_or m x (alias_or m a b) = alias_or m a b"
  by (auto simp: alias_or_def str_or_def)

lemma trim_alias: "trim (alias_or m (trim a) (trim b)) = alias_or m (trim a) (trim b)"
  by (simp add: alias_or_def str_or_def)

lemma saved_payload:
  assumes "plain_operation p"
  shows "payload_fields (saved_operation p) = payload_fields p"
proof -
  let ?q = "saved_operation p" and ?m = "meta_of (op_mode p)"
  have mode: "op_mode ?q = op_mode p" and desc: "trim (op_description ?q) = trim (op_description p)"
    and keep: "(mm_keepOrigin ?m \<and> op_keep_origin ?q) = (mm_keepOrigin ?m \<and> op_keep_origin p)"
    by (auto simp: saved_operation_def Let_def)
  have path: "given (mm_path ?m \<or> mm_pathOptional ?m \<and> trim (op_path ?q) \<noteq> []) ''path'' (JStr (trim (op_path ?q))) =
      given (mm_path ?m \<or> mm_pathOptional ?m \<and> trim (op_path p) \<noteq> []) ''path'' (JStr (trim (op_path p)))"
    by (auto simp: saved_operation_def Let_def)
  have val: "given (mm_value ?m) ''value'' (parseLooseValue (op_value_text ?q)) =
      given (mm_value ?m) ''value'' (parseLooseValue (op_value_text p))"
    using assms by (simp add: saved_operation_def Let_def plain_operation_def given_def resaved_value)
  have "trim (op_path ?q) = [] \<or> trim (op_path ?q) = trim (op_path p)" by (simp add: saved_operation_def Let_def)
  then have source: "given (mm_from ?m) ''from'' (JStr (alias_or ?m (trim (op_path ?q)) (trim (op_from ?q)))) =
      given (mm_from ?m) ''from'' (JStr (alias_or ?m (trim (op_path p)) (trim (op_from p))))"
    and target: "alias_or ?m (trim (op_path ?q)) (trim (op_to ?q)) = alias_or ?m (trim (op_path p)) (trim (op_to p))"
    by (simp_all add: saved_operation_def Let_def trim_alias alias_again given_def)
  have conds: "condition_payloads ?q = condition_payloads p" using assms by (rule saved_condition_payloads)
  have logic: "condition_payloads p \<noteq> [] \<Longrightarrow> (op_logic ?q = js ''AND'') = (op_logic p = js ''AND'')"
    by (simp add: saved_operation_def Let_def condition_payloads_eq js_lit)
  show ?thesis
    unfolding payload_fields_def Let_def mode desc keep path val source target conds
    using logic by (cases "condition_payloads p = []") simp_all
qed

section \<open>Validation of a saved operation\<close>

text \<open>What the table of modes says of the modes with a required source or value.\<close>

lemma required_modes:
  "mode \<in> set VALUE_REQUIRED_MODES \<Longrightarrow> mm_value (meta_of mode)"
  "mode \<in> set FROM_REQUIRED_MODES \<Longrightarrow> mm_from (meta_of mode)"
  "mode \<in> set TO_REQUIRED_MODES \<Longrightarrow> mm_to (meta_of mode) = Some True"
  by (auto simp: VALUE_REQUIRED_MODES_def FROM_REQUIRED_MODES_def TO_REQUIRED_MODES_def meta_of_def MODE_META_def
      no_meta_def inj_js)

lemma special_modes: "js ''return_error'' \<in> set VALUE_REQUIRED_MODES" "js ''prune_objects'' \<in> set VALUE_REQUIRED_MODES"
  "js ''pass_headers'' \<in> set VALUE_REQUIRED_MODES"
  by (simp_all add: VALUE_REQUIRED_MODES_def)

text \<open>The demands on an operation, without the line it stands on.\<close>

definition operation_ok :: "ParamOverrideOperation \<Rightarrow> bool" where
  "operation_ok p \<longleftrightarrow>
     (let mode = op_mode p; meta = meta_of mode; raw = trim (op_value_text p);
          path = trim (op_path p) in
      (mm_path meta \<longrightarrow> path \<noteq> []) \<and>
      (mode \<in> set FROM_REQUIRED_MODES \<longrightarrow> alias_or meta path (trim (op_from p)) \<noteq> []) \<and>
      (mode \<in> set TO_REQUIRED_MODES \<longrightarrow> alias_or meta path (trim (op_to p)) \<noteq> []) \<and>
      (mode \<in> set VALUE_REQUIRED_MODES \<longrightarrow> raw \<noteq> []) \<and>
      (mode = js ''return_error'' \<longrightarrow> \<not> lacks_message raw) \<and>
      (mode = js ''pass_headers'' \<longrightarrow> (\<exists>h hs. parsePassHeaderNames (parseLooseValue raw) = Some (h # hs))))"

lemma validate_operation_ok:
  assumes "op_mode p \<noteq> []"
  shows "validate_operation l p = None \<longleftrightarrow> operation_ok p"
proof -
  have mode: "op_mode_or_set p = op_mode p" using assms by (simp add: op_mode_or_set_def str_or_def)
  let ?h = "parsePassHeaderNames (parseLooseValue (trim (op_value_text p)))"
  have headers: "(case ?h of None \<Rightarrow> Some TypeErrorMessage | Some hs \<Rightarrow> if hs = [] then Some e else None) = None \<longleftrightarrow>
      (\<exists>h hs. ?h = Some (h # hs))" for e
    by (auto simp: neq_Nil_conv split: option.splits)
  show ?thesis
    using special_modes headers
    unfolding validate_operation_def operation_ok_def mode Let_def alias_or_def str_or_def
    by auto
qed

lemma saved_operation_ok:
  assumes "operation_ok p" and "plain_operation p"
  shows "operation_ok (saved_operation p)"
proof -
  let ?q = "saved_operation p" and ?m = "meta_of (op_mode p)"
  have mode: "op_mode ?q = op_mode p" by (simp add: saved_operation_def Let_def)
  have val: "op_value_text ?q = resaved (op_value_text p)" "plain_text (op_value_text p)" if "mm_value ?m"
    using that assms(2) by (simp_all add: saved_operation_def Let_def plain_operation_def)
  have msg: "lacks_message (trim (resaved t)) = lacks_message (trim t)" if "plain_text t" for t
    using resaved_parse [OF that] by (simp add: lacks_message_def)
  have "trim (op_path ?q) = [] \<or> trim (op_path ?q) = trim (op_path p)" by (simp add: saved_operation_def Let_def)
  then have source: "mm_from ?m \<Longrightarrow> alias_or ?m (trim (op_path ?q)) (trim (op_from ?q)) = alias_or ?m (trim (op_path p)) (trim (op_from p))"
    and target: "alias_or ?m (trim (op_path ?q)) (trim (op_to ?q)) = alias_or ?m (trim (op_path p)) (trim (op_to p))"
    by (simp_all add: saved_operation_def Let_def trim_alias alias_again)
  have path: "mm_path ?m \<Longrightarrow> trim (op_path ?q) = trim (op_path p)" by (simp add: saved_operation_def Let_def)
  show ?thesis
    using assms(1) required_modes [of "op_mode p"] special_modes source val
    unfolding operation_ok_def Let_def mode target
    by (auto simp: path msg resaved_Nil parseLooseValue_trim resaved_value)
qed

lemma validate_from_None:
  assumes "\<forall>p \<in> set ops. modes_ok p"
  shows "validate_from i ops = None \<longleftrightarrow> (\<forall>p \<in> set ops. operation_ok p)"
  using assms
proof (induction ops arbitrary: i)
  case (Cons p ops)
  have "validate_operation (i + 1) p = None \<longleftrightarrow> operation_ok p"
    using Cons.prems by (intro validate_operation_ok mode_values_not_Nil) (simp add: modes_ok_def)
  with Cons show ?case by (auto split: option.splits)
qed simp

lemma operation_ok_nonblank: "operation_ok p \<Longrightarrow> \<not> isOperationBlank p"
  by (auto simp: operation_ok_def isOperationBlank_def Let_def meta_of_def MODE_META_def no_meta_def inj_js)

lemma anon_modes: "modes_ok (anon p) = modes_ok p"
  by (simp add: modes_ok_def anon_def anon_condition_def)

lemma anon_ok: "operation_ok (anon p) = operation_ok p"
  by (simp add: operation_ok_def anon_def Let_def)

lemma saved_modes: "modes_ok p \<Longrightarrow> modes_ok (saved_operation p)"
  by (simp add: modes_ok_def saved_operation_def Let_def saved_condition_def)

lemma nonblank_id: "\<forall>p \<in> set ops. operation_ok p \<Longrightarrow> nonblank ops = ops"
  by (auto simp: nonblank_def filter_id_conv dest: operation_ok_nonblank)

lemma saved_again:
  assumes built: "buildOperationsJson ops True = Inr saved" "saved \<noteq> []"
    and modes: "\<forall>p \<in> set ops. modes_ok p" and plain: "\<forall>p \<in> set ops. plain_operation p"
    and qs: "map anon qs = map (\<lambda>p. anon (saved_operation p)) (nonblank ops)"
  shows "buildOperationsJson qs True = Inr saved"
proof -
  have sub: "set (nonblank ops) \<subseteq> set ops" by (auto simp: nonblank_def)
  have ne: "nonblank ops \<noteq> []" using built by (auto simp: buildOperationsJson_def Let_def)
  with built(1) have "validateOperations (nonblank ops) = None"
    and printed: "saved = json_text 2 0 (operations_json (map operation_payload (nonblank ops)))"
    by (auto simp: buildOperationsJson_def Let_def split: option.splits)
  then have ok: "\<forall>p \<in> set (nonblank ops). operation_ok p"
    using validate_from_None [of "nonblank ops" 0] modes sub by (auto simp: validateOperations_def)
  have new: "modes_ok q \<and> operation_ok q" if "q \<in> set qs" for q
  proof -
    have "anon q \<in> set (map anon qs)" using that by simp
    then obtain p where p: "p \<in> set (nonblank ops)" "anon q = anon (saved_operation p)" unfolding qs by auto
    then have "modes_ok p" "plain_operation p" "operation_ok p" using sub modes plain ok by auto
    then show ?thesis using p(2) saved_modes saved_operation_ok anon_modes anon_ok by metis
  qed
  have field: "operation_payload p = jobj (payload_fields (anon p))" if "modes_ok p" for p
    using that by (simp add: payload_anon operation_payload_fields mode_values_not_Nil modes_ok_def)
  have "map operation_payload qs = map (\<lambda>x. jobj (payload_fields x)) (map anon qs)"
    using new field by simp
  also have "\<dots> = map operation_payload (nonblank ops)"
    unfolding qs using sub modes plain by (auto simp: field payload_anon saved_payload)
  finally have payloads: "map operation_payload qs = map operation_payload (nonblank ops)" .
  have "qs \<noteq> []" using qs ne by auto
  moreover have "validateOperations qs = None"
    using validate_from_None [of qs 0] new by (auto simp: validateOperations_def)
  moreover have "nonblank qs = qs" using new nonblank_id by blast
  ultimately show ?thesis by (simp add: buildOperationsJson_def payloads printed)
qed

end
