(* ===== verification/Param_Override_Invariant.thy ===== *)
theory Param_Override_Invariant
  imports Param_Override_Editor Param_Override_Roundtrip
begin

text \<open>
  The invariant of the parameter override dialog: identifiers of operations and conditions are
  distinct and were made by the counter, one operation is selected, and the modes are those of the
  tables.
\<close>

section \<open>Identifiers\<close>

text \<open>A supply of identifiers: what the dialog needs of \<open>nextLocalId\<close>.\<close>

locale id_supply =
  fixes ident :: "nat \<Rightarrow> jsstr"
  assumes ident_inj: "ident m = ident n \<Longrightarrow> m = n"
    and ident_not_Nil: "ident n \<noteq> []"
begin

definition made :: "nat \<Rightarrow> jsstr set" where
  "made n = ident ` {..<n}"

lemma fresh: "n \<le> m \<Longrightarrow> ident m \<notin> made n"
  using ident_inj by (fastforce simp: made_def)

lemma made_mono: "n \<le> m \<Longrightarrow> made n \<subseteq> made m"
  by (auto simp: made_def)

lemma distinct_range: "distinct (map ident [m..<n])"
  by (simp add: distinct_map inj_on_def ident_inj)

lemma range_made: "ident ` {m..<n} \<subseteq> made n"
  by (auto simp: made_def)

lemma range_fresh: "k \<le> m \<Longrightarrow> ident ` {m..<n} \<inter> made k = {}"
  using ident_inj by (fastforce simp: made_def)

lemma Nil_not_made: "[] \<notin> made n"
  using ident_not_Nil by (metis imageE made_def)

end

lemma local_id_inj: "local_id clock m = local_id clock n \<Longrightarrow> m = n"
proof -
  have no: "95 \<notin> set (nat_str k)" for k using nat_str_digits [of k] by (auto simp: is_digit_def)
  assume "local_id clock m = local_id clock n"
  then have "nat_str (clock m) @ 95 # nat_str m = nat_str (clock n) @ 95 # nat_str n"
    by (simp add: local_id_def js_lit)
  then show "m = n" by (simp add: append_Cons_eq_iff no)
qed

interpretation po: id_supply "local_id clock" for clock
  by unfold_locales (erule local_id_inj, simp add: local_id_def)

section \<open>The identifiers of operations\<close>

definition op_ids :: "ParamOverrideOperation \<Rightarrow> jsstr list" where
  "op_ids p = op_id p # map cd_id (op_conditions p)"

definition all_ids :: "ParamOverrideOperation list \<Rightarrow> jsstr list" where
  "all_ids ops = concat (map op_ids ops)"

lemma all_ids_simps [simp]: "all_ids [] = []" "all_ids (p # ps) = op_ids p @ all_ids ps"
  "all_ids (ps @ qs) = all_ids ps @ all_ids qs"
  by (simp_all add: all_ids_def)

lemma normalizeCondition_eq:
  "normalizeCondition_override clock c n = (if c = JNull then None else Some (read_condition (local_id clock n) c), Suc n)"
  by (simp add: normalizeCondition_override_def nextLocalId_def)

lemma numbered_condition_ids:
  "numbered (normalizeCondition_override clock) cs n = (r, n') \<Longrightarrow>
   n \<le> n' \<and> (\<forall>ys. r = Some ys \<longrightarrow> map cd_id ys = map (local_id clock) [n..<n'] \<and>
     (\<forall>c \<in> set ys. cd_mode c \<in> set CONDITION_MODE_VALUES))"
proof (induction cs arbitrary: n r)
  case (Cons c cs)
  show ?case
  proof (cases "c = JNull")
    case True
    with Cons.prems show ?thesis by (auto simp: normalizeCondition_eq)
  next
    case False
    obtain r' where r': "numbered (normalizeCondition_override clock) cs (Suc n) = (r', n')"
        "r = map_option ((#) (read_condition (local_id clock n) c)) r'"
      using Cons.prems False by (auto simp: normalizeCondition_eq [of clock c n] split: prod.splits)
    have "js ''full'' \<in> set CONDITION_MODE_VALUES" by (simp add: CONDITION_MODE_VALUES_def CONDITION_MODE_OPTIONS_def)
    then have "cd_mode (read_condition i c) \<in> set CONDITION_MODE_VALUES" for i
      by (auto simp: read_condition_def mode_field_def split: option.splits json.splits)
    with Cons.IH [OF r'(1)] r'(2) show ?thesis
      by (auto simp: read_condition_def upt_conv_Cons [of n n'])
  qed
qed auto

lemma operation_mode_ok: "op_mode (read_operation i v cs) \<in> set OPERATION_MODE_VALUES"
proof -
  have "js ''set'' \<in> set OPERATION_MODE_VALUES" by (simp add: OPERATION_MODE_VALUES_def OPERATION_MODE_OPTIONS_def)
  then show ?thesis by (auto simp: read_operation_def mode_field_def split: option.splits json.splits)
qed

lemma read_operation_sel [simp]: "op_id (read_operation i v cs) = i" "op_conditions (read_operation i v cs) = cs"
  by (simp_all add: read_operation_def)

lemma normalizeOperation_ids:
  assumes "normalizeOperation clock v n = (r, n')"
  shows "n < n' \<and> (\<forall>p. r = Some p \<longrightarrow> op_ids p = map (local_id clock) [n..<n'] \<and> modes_ok p)"
proof -
  consider "r = None" "n' = Suc n"
    | cs s where "numbered (normalizeCondition_override clock) cs (Suc n) = (s, n')" "r = map_option (read_operation (local_id clock n) v) s"
    | "r = Some (read_operation (local_id clock n) v [])" "n' = Suc n"
    using assms by (auto simp: normalizeOperation_def nextLocalId_def split: if_splits option.splits json.splits prod.splits)
  then show ?thesis
  proof cases
    case (2 cs s)
    with numbered_condition_ids [OF 2(1)] operation_mode_ok show ?thesis
      by (auto simp: op_ids_def modes_ok_def upt_conv_Cons [of n n'])
  qed (use operation_mode_ok in \<open>auto simp: op_ids_def modes_ok_def\<close>)
qed

lemma default_operation_ids:
  assumes "createDefaultOperation clock n = (p, n')"
  shows "n' = Suc n" "op_ids p = [local_id clock n]" "op_id p = local_id clock n" "modes_ok p"
  using assms operation_mode_ok by (auto simp: createDefaultOperation_def nextLocalId_def op_ids_def modes_ok_def)

lemma numbered_operation_ids:
  "numbered (normalizeOperation clock) vs n = (r, n') \<Longrightarrow>
   n \<le> n' \<and> (\<forall>ops. r = Some ops \<longrightarrow> all_ids ops = map (local_id clock) [n..<n'] \<and> (\<forall>p \<in> set ops. modes_ok p))"
proof (induction vs arbitrary: n r)
  case (Cons v vs)
  obtain s m where s: "normalizeOperation clock v n = (s, m)" by (cases "normalizeOperation clock v n")
  note ids = normalizeOperation_ids [OF s]
  show ?case
  proof (cases s)
    case None
    with Cons.prems s ids show ?thesis by auto
  next
    case (Some p)
    with Cons.prems s obtain r' where r': "numbered (normalizeOperation clock) vs m = (r', n')" "r = map_option ((#) p) r'"
      by (auto split: prod.splits)
    have "[n..<n'] = [n..<m] @ [m..<n']" if "m \<le> n'" using ids that by (metis less_imp_le upt_add_eq_append le_add_diff_inverse)
    with Cons.IH [OF r'(1)] r'(2) ids Some show ?thesis by auto
  qed
qed auto

lemma operations_or_default_ids:
  assumes "operations_or_default clock vs n = (r, n')"
  shows "n \<le> n' \<and> (\<forall>ops. r = Some ops \<longrightarrow> ops \<noteq> [] \<and> all_ids ops = map (local_id clock) [n..<n'] \<and> (\<forall>p \<in> set ops. modes_ok p))"
proof (cases "vs = []")
  case True
  then show ?thesis
    using assms default_operation_ids [of clock n] by (auto simp: operations_or_default_def split: prod.splits)
next
  case False
  then have r: "numbered (normalizeOperation clock) vs n = (r, n')" using assms by (simp add: operations_or_default_def)
  have "ops \<noteq> []" if "r = Some ops" for ops
    using r False that by (cases vs) (auto split: prod.splits option.splits)
  with numbered_operation_ids [OF r] show ?thesis by blast
qed

section \<open>What a handler does to the operations\<close>

text \<open>Identifiers are kept, dropped or taken from the counter; the list stays filled.\<close>

definition grows :: "(nat \<Rightarrow> nat) \<Rightarrow> PoEditor \<Rightarrow> PoEditor \<Rightarrow> bool" where
  "grows clock st st' \<longleftrightarrow>
     pe_seed st \<le> pe_seed st' \<and>
     mset (all_ids (pe_operations st')) \<subseteq>#
       mset (all_ids (pe_operations st)) + mset (map (local_id clock) [pe_seed st..<pe_seed st']) \<and>
     (pe_operations st \<noteq> [] \<longrightarrow> pe_operations st' \<noteq> []) \<and>
     ((\<forall>p \<in> set (pe_operations st). modes_ok p) \<longrightarrow> (\<forall>p \<in> set (pe_operations st'). modes_ok p))"

lemma grows_same: "pe_operations st' = pe_operations st \<Longrightarrow> pe_seed st \<le> pe_seed st' \<Longrightarrow> grows clock st st'"
  by (simp add: grows_def)

text \<open>Handlers that leave the operations as they are.\<close>

lemma view_grows:
  assumes "pe_operations st' = pe_operations st" "pe_seed st' = pe_seed st"
  shows "grows clock st st'"
  using assms by (intro grows_same) simp_all

lemma grows_new:
  assumes "all_ids (pe_operations st') = map (local_id clock) [pe_seed st..<pe_seed st']" "pe_seed st \<le> pe_seed st'"
    "pe_operations st' \<noteq> []" "\<forall>p \<in> set (pe_operations st'). modes_ok p"
  shows "grows clock st st'"
  using assms by (simp add: grows_def)

lemma grows_default:
  assumes "createDefaultOperation clock (pe_seed st) = (p, n)" "pe_operations st' = [p]" "pe_seed st' = n"
  shows "grows clock st st'"
  using default_operation_ids [OF assms(1)] assms(2,3) by (intro grows_new) simp_all

lemma change_operation_sel [simp]:
  "pe_operations (change_operation i f st) = map (\<lambda>p. if op_id p = i then f p else p) (pe_operations st)"
  "pe_seed (change_operation i f st) = pe_seed st"
  by (simp_all add: change_operation_def)

lemma grows_change:
  assumes "\<And>p. op_id (f p) = op_id p" "\<And>p. mset (map cd_id (op_conditions (f p))) \<subseteq># mset (map cd_id (op_conditions p))"
    and "\<And>p. modes_ok p \<Longrightarrow> modes_ok (f p)"
  shows "grows clock st (change_operation i f st)"
proof -
  have ids: "mset (op_ids (f p)) \<subseteq># mset (op_ids p)" for p using assms(1,2) by (simp add: op_ids_def)
  have "mset (all_ids (map (\<lambda>p. if op_id p = i then f p else p) ops)) \<subseteq># mset (all_ids ops)" for ops
  proof (induction ops)
    case (Cons p ops)
    then show ?case using ids [of p] by (auto intro: subset_mset.add_mono)
  qed simp
  then show ?thesis using assms(3) by (auto simp: grows_def)
qed

lemma patch_operation_ids: "op_id (patch_operation patch p) = op_id p" "op_conditions (patch_operation patch p) = op_conditions p"
  by (cases patch; simp)+

lemma updateOperation_grows:
  assumes "\<And>s. patch = Set_mode s \<Longrightarrow> s \<in> set OPERATION_MODE_VALUES"
  shows "grows clock st (updateOperation i patch st)"
  unfolding updateOperation_def
proof (rule grows_change, goal_cases)
  case (3 p)
  with assms show ?case by (cases patch) (simp_all add: modes_ok_def)
qed (simp_all add: patch_operation_ids)

lemma patch_condition_id [simp]: "cd_id (patch_condition patch c) = cd_id c"
  by (cases patch) simp_all

lemma patch_condition_mode:
  "cond_patch_offered patch \<Longrightarrow> cd_mode c \<in> set CONDITION_MODE_VALUES \<Longrightarrow> cd_mode (patch_condition patch c) \<in> set CONDITION_MODE_VALUES"
  by (cases patch) simp_all

lemma change_condition_ids: "map cd_id (change_condition i patch cs) = map cd_id cs"
  by (simp add: change_condition_def)

lemma updateCondition_grows: "cond_patch_offered patch \<Longrightarrow> grows clock st (updateCondition i c patch st)"
  unfolding updateCondition_def
proof (rule grows_change, goal_cases)
  case (2 p)
  then show ?case
    using arg_cong [where f = mset, OF change_condition_ids [of c patch "op_conditions p"]] by simp
next
  case (3 p)
  then show ?case by (auto simp: modes_ok_def change_condition_def patch_condition_mode)
qed simp

lemma removeCondition_grows: "grows clock st (removeCondition i c st)"
  unfolding removeCondition_def
  by (rule grows_change) (auto simp: modes_ok_def image_mset_filter_mset_swap intro!: image_mset_subseteq_mono)

lemma updateReturnErrorDraft_grows: "grows clock st (updateReturnErrorDraft i patch st)"
  unfolding updateReturnErrorDraft_def by (rule grows_change) (simp_all add: modes_ok_def)

lemma addCondition_ids:
  assumes "distinct (map op_id ops)"
  shows "mset (all_ids (map (\<lambda>p. if op_id p = i then p\<lparr>op_conditions := op_conditions p @ [c]\<rparr> else p) ops)) \<subseteq>#
    add_mset (cd_id c) (mset (all_ids ops))"
  using assms
proof (induction ops)
  case (Cons p ops)
  show ?case
  proof (cases "op_id p = i")
    case True
    with Cons.prems have "\<forall>q \<in> set ops. op_id q \<noteq> i" by (auto simp: image_iff)
    then have "map (\<lambda>p. if op_id p = i then p\<lparr>op_conditions := op_conditions p @ [c]\<rparr> else p) ops = ops"
      by (simp add: map_idI)
    then show ?thesis by (simp add: True op_ids_def)
  next
    case False
    with Cons show ?thesis by (auto intro: subset_mset.add_left_mono)
  qed
qed simp

lemma addCondition_grows:
  assumes "distinct (map op_id (pe_operations st))"
  shows "grows clock st (addCondition clock i st)"
proof -
  have "js ''full'' \<in> set CONDITION_MODE_VALUES" by (simp add: CONDITION_MODE_VALUES_def CONDITION_MODE_OPTIONS_def)
  then have "cd_mode (read_condition j (JObj [])) \<in> set CONDITION_MODE_VALUES" for j
    by (simp add: read_condition_def mode_field_def prop_of_def)
  moreover have "cd_id (read_condition j v) = j" for j v by (simp add: read_condition_def)
  ultimately show ?thesis
    using addCondition_ids [OF assms, of i "read_condition (local_id clock (pe_seed st)) (JObj [])"]
    by (auto simp: addCondition_def createDefaultCondition_def nextLocalId_def grows_def modes_ok_def)
qed

lemma addOperation_grows: "grows clock st (addOperation clock st)"
  using default_operation_ids [of clock "pe_seed st"]
  by (auto simp: addOperation_def grows_def split: prod.split)

lemma find_index_Some: "find_index P xs = Some i \<Longrightarrow> i < length xs \<and> P (xs ! i) \<and> (\<forall>j < i. \<not> P (xs ! j))"
  by (induction xs arbitrary: i) (auto split: if_splits simp: less_Suc_eq_0_disj)

lemma find_index_None: "find_index P xs = None \<longleftrightarrow> (\<forall>x \<in> set xs. \<not> P x)"
  by (induction xs) auto

lemma all_ids_take_drop: "mset (all_ids (take k ops @ p # drop k ops)) = mset (all_ids ops) + mset (op_ids p)"
proof -
  have "mset (all_ids ops) = mset (all_ids (take k ops @ drop k ops))" by simp
  then show ?thesis unfolding all_ids_simps by simp
qed

lemma duplicateOperation_grows: "grows clock st (duplicateOperation clock i b st)"
proof (cases "find_index (\<lambda>p. op_id p = i) (pe_operations st)")
  case (Some k)
  obtain r n where r: "normalizeOperation clock (clone_json (pe_operations st ! k)) (pe_seed st) = (r, n)" by fastforce
  have "\<forall>p \<in> set (pe_operations st). modes_ok p \<Longrightarrow> q \<in> set (take m (pe_operations st)) \<union> set (drop m (pe_operations st)) \<Longrightarrow> modes_ok q" for q m
    by (auto dest: in_set_takeD in_set_dropD)
  then show ?thesis
    using Some r normalizeOperation_ids [OF r]
    by (cases r) (auto simp: duplicateOperation_def grows_def all_ids_take_drop simp del: all_ids_simps)
qed (simp add: duplicateOperation_def grows_same)

lemma all_ids_filter: "mset (all_ids (filter P ops)) \<subseteq># mset (all_ids ops)"
  by (induction ops) (auto intro: subset_mset.add_left_mono subset_mset.order_trans [OF _ mset_subset_eq_add_right])

lemma removeOperation_grows:
  assumes "distinct (map op_id (pe_operations st))"
  shows "grows clock st (removeOperation clock i st)"
proof (cases "length (pe_operations st) \<le> 1")
  case True
  then show ?thesis
    by (auto simp: removeOperation_def split: prod.split intro: grows_default)
next
  case False
  then obtain p q ps where "pe_operations st = p # q # ps" by (cases "pe_operations st" rule: remdups_adj.cases) auto
  then have "filter (\<lambda>p. op_id p \<noteq> i) (pe_operations st) \<noteq> []" using assms by auto
  with False show ?thesis
    using all_ids_filter [of "\<lambda>p. op_id p \<noteq> i" "pe_operations st"] by (auto simp: removeOperation_def grows_def)
qed

lemma mset_insert_op: "mset (take j xs @ x # drop j xs) = add_mset x (mset xs)"
  by (metis append_take_drop_id mset.simps(2) mset_append union_mset_add_mset_right)

lemma reorder_mset: "mset (reorderOperations ops s t pos) = mset ops"
proof (cases "s = [] \<or> t = [] \<or> s = t")
  case False
  show ?thesis
  proof (cases "find_index (\<lambda>p. op_id p = s) ops")
    case (Some k)
    define rest where "rest = take k ops @ drop (Suc k) ops"
    have "ops = take k ops @ ops ! k # drop (Suc k) ops"
      using find_index_Some [OF Some] by (simp add: id_take_nth_drop)
    then have "mset ops = add_mset (ops ! k) (mset rest)"
      unfolding rest_def by (metis mset.simps(2) mset_append union_mset_add_mset_right)
    then show ?thesis using False Some
      by (simp add: reorderOperations_def Let_def rest_def [symmetric] mset_insert_op del: mset_append split: option.split)
  qed (use False in \<open>simp add: reorderOperations_def\<close>)
qed (auto simp: reorderOperations_def)

lemma all_ids_mset: "mset ops = mset ops' \<Longrightarrow> mset (all_ids ops) = mset (all_ids ops')"
  unfolding all_ids_def by (simp add: mset_concat flip: sum_mset_sum_list)

lemma handleDrop_grows: "grows clock st (handleDrop i s st)"
proof -
  have "mset (all_ids (reorderOperations ops u v pos)) = mset (all_ids ops)"
    and "set (reorderOperations ops u v pos) = set ops" for ops u v pos
    using reorder_mset all_ids_mset mset_eq_setD by blast+
  moreover from this(2) have "reorderOperations ops u v pos = [] \<longleftrightarrow> ops = []" for ops u v pos
    by (metis set_empty)
  ultimately show ?thesis by (simp add: grows_def handleDrop_def resetDragState_def Let_def)
qed

lemma prune_rules_seed: "prune_rules clock vs n = (rs, n') \<Longrightarrow> map cd_id rs = map (local_id clock) [n..<n'] \<and> n \<le> n'"
proof (induction vs arbitrary: n rs)
  case (Cons v vs)
  then obtain qs where qs: "prune_rules clock vs (Suc n) = (qs, n')" "rs = read_condition (local_id clock n) v # qs"
    by (auto simp: normalizePruneRule_def nextLocalId_def split: prod.splits)
  with Cons.IH [OF qs(1)] show ?case by (simp add: read_condition_def upt_conv_Cons [of n n'])
qed simp

lemma parsePruneObjectsDraft_ids:
  assumes "parsePruneObjectsDraft clock t n = (d, n')"
  shows "n \<le> n'" "set (map cd_id (pd_rules d)) \<subseteq> local_id clock ` {n..<n'}"
proof -
  consider "pd_rules d = []" "n' = n" | vs rs where "prune_rules clock vs n = (rs, n')" "pd_rules d = rs \<or> pd_rules d = []"
    using assms
    by (auto simp: parsePruneObjectsDraft_def prune_object_draft_def prune_defaults_def Let_def
        split: if_splits option.splits json.splits prod.splits)
  then have "n \<le> n' \<and> set (map cd_id (pd_rules d)) \<subseteq> local_id clock ` {n..<n'}"
  proof cases
    case (2 vs rs)
    have "set (map cd_id rs) = local_id clock ` {n..<n'}" "n \<le> n'"
      using prune_rules_seed [OF 2(1)] by (metis list.set_map atLeastLessThan_upt)+
    with 2(2) show ?thesis by auto
  qed simp
  then show "n \<le> n'" "set (map cd_id (pd_rules d)) \<subseteq> local_id clock ` {n..<n'}" by auto
qed

lemma change_drafts_ids:
  assumes "\<And>d n. n \<le> snd (f d n)" and "change_drafts clock i f ops n = (ops', n')"
  shows "n \<le> n' \<and> all_ids ops' = all_ids ops \<and> map op_mode ops' = map op_mode ops \<and> map op_conditions ops' = map op_conditions ops"
  using assms(2)
proof (induction ops arbitrary: n ops')
  case (Cons p ops)
  show ?case
  proof (cases "op_id p = i")
    case True
    obtain d n1 d' n2 qs where step: "parsePruneObjectsDraft clock (op_value_text p) n = (d, n1)" "f d n1 = (d', n2)"
        "change_drafts clock i f ops n2 = (qs, n')" "ops' = p\<lparr>op_value_text := buildPruneObjectsValueText d'\<rparr> # qs"
      using Cons.prems True by (auto split: prod.splits)
    with Cons.IH [OF step(3)] parsePruneObjectsDraft_ids(1) [OF step(1)] assms(1) [of n1 d] show ?thesis
      by (simp add: op_ids_def)
  next
    case False
    with Cons show ?thesis by (auto split: prod.splits)
  qed
qed simp

lemma modes_ok_same:
  assumes "map op_mode ops' = map op_mode ops" "map op_conditions ops' = map op_conditions ops" "\<forall>p \<in> set ops. modes_ok p"
  shows "\<forall>p \<in> set ops'. modes_ok p"
proof
  fix p
  assume "p \<in> set ops'"
  then obtain i where i: "i < length ops'" "p = ops' ! i" by (auto simp: in_set_conv_nth)
  moreover have len: "length ops' = length ops" using assms(1) by (rule map_eq_imp_length_eq)
  ultimately have "op_mode p = op_mode (ops ! i)" "op_conditions p = op_conditions (ops ! i)"
    using assms(1,2) by (metis nth_map)+
  moreover have "modes_ok (ops ! i)" using assms(3) i len by simp
  ultimately show "modes_ok p" by (simp add: modes_ok_def)
qed

lemma updatePruneObjectsDraft_grows:
  assumes "\<And>d n. n \<le> snd (f d n)"
  shows "grows clock st (updatePruneObjectsDraft clock i f st)"
proof -
  obtain ops n where r: "change_drafts clock i f (pe_operations st) (pe_seed st) = (ops, n)" by fastforce
  note ids = change_drafts_ids [OF assms r]
  then have "ops \<noteq> [] \<longleftrightarrow> pe_operations st \<noteq> []" by (metis list.map_disc_iff)
  with ids modes_ok_same [of ops "pe_operations st"] r show ?thesis
    by (simp add: updatePruneObjectsDraft_def grows_def)
qed

lemma prune_grows:
  "grows clock st (addPruneRule clock i st)" "grows clock st (updatePruneRule clock i r patch st)"
  "grows clock st (removePruneRule clock i r st)"
  unfolding addPruneRule_def updatePruneRule_def removePruneRule_def
  by (rule updatePruneObjectsDraft_grows; simp add: normalizePruneRule_def nextLocalId_def)+

lemma switch_to_parsed_grows:
  assumes "pe_editMode st = JsonTab" "trim (pe_jsonText st) \<noteq> []" "json_parse (trim (pe_jsonText st)) = Some v"
  shows "grows clock st (switchToVisualMode_override clock st)"
proof (cases "\<exists>vs. prop_of ''operations'' v = Some (JArr vs)")
  case True
  then obtain vs where vs: "prop_of ''operations'' v = Some (JArr vs)" by blast
  obtain r n where r: "operations_or_default clock vs (pe_seed st) = (r, n)" by fastforce
  note ids = operations_or_default_ids [OF r]
  show ?thesis
  proof (cases r)
    case None
    with assms vs r ids show ?thesis by (simp add: switchToVisualMode_override_def grows_same)
  next
    case (Some ops)
    with ids have "ops \<noteq> []" "all_ids ops = map (local_id clock) [pe_seed st..<n]" "\<forall>p \<in> set ops. modes_ok p" "pe_seed st \<le> n"
      by auto
    then show ?thesis by (intro grows_new) (simp_all add: switchToVisualMode_override_def assms vs r Some)
  qed
next
  case False
  obtain p n where p: "createDefaultOperation clock (pe_seed st) = (p, n)" by fastforce
  have "(case prop_of ''operations'' v of Some (JArr vs) \<Rightarrow> f vs | _ \<Rightarrow> g) = g" for f :: "json list \<Rightarrow> PoEditor" and g
    using False by (auto split: option.split json.split)
  with assms show ?thesis
    by (cases v) (auto simp: switchToVisualMode_override_def p intro: view_grows grows_default [OF p])
qed

lemma switchToVisualMode_grows: "grows clock st (switchToVisualMode_override clock st)"
proof -
  obtain p n where p: "createDefaultOperation clock (pe_seed st) = (p, n)" by fastforce
  consider "pe_editMode st = VisualTab" | "pe_editMode st = JsonTab" "trim (pe_jsonText st) = []"
    | "pe_editMode st = JsonTab" "trim (pe_jsonText st) \<noteq> []" "json_parse (trim (pe_jsonText st)) = None"
    | v where "pe_editMode st = JsonTab" "trim (pe_jsonText st) \<noteq> []" "json_parse (trim (pe_jsonText st)) = Some v"
    by (cases "pe_editMode st") auto
  then show ?thesis
  proof cases
    case 2
    then show ?thesis by (auto simp: switchToVisualMode_override_def p intro: grows_default [OF p])
  next
    case (4 v)
    then show ?thesis by (rule switch_to_parsed_grows)
  qed (auto simp: switchToVisualMode_override_def intro: view_grows)
qed

lemma fill_legacy_grows: "grows clock st (fill_legacy clock t st)"
  by (auto simp: fill_legacy_def split: prod.split intro: grows_default)

lemma fill_added_grows:
  assumes "numbered (normalizeOperation clock) vs (pe_seed st) = (Some added, n)"
    and "pe_operations st' = (if b then nonblank (pe_operations st) else []) @ added" "pe_seed st' = n" "added \<noteq> []"
  shows "grows clock st st'"
proof -
  have "mset (all_ids (nonblank (pe_operations st))) \<subseteq># mset (all_ids (pe_operations st))"
    unfolding nonblank_def by (rule all_ids_filter)
  with numbered_operation_ids [OF assms(1)] assms(2-4) show ?thesis
    by (auto simp: grows_def nonblank_def)
qed

lemma template_operations:
  assumes "map_of TEMPLATE_PRESET_CONFIG k = Some (l, OperationsPreset, payload)"
  shows "payload_operations payload \<noteq> []"
proof -
  have "\<forall>e \<in> set TEMPLATE_PRESET_CONFIG. fst (snd (snd e)) = OperationsPreset \<longrightarrow> payload_operations (snd (snd (snd e))) \<noteq> []"
    by (simp add: TEMPLATE_PRESET_CONFIG_def payload_operations_def OPERATION_TEMPLATE_def HEADER_PASSTHROUGH_TEMPLATE_def
        GEMINI_IMAGE_4K_TEMPLATE_def CLAUDE_CLI_HEADER_PASSTHROUGH_TEMPLATE_def buildPassHeadersTemplate_def
        CODEX_CLI_HEADER_PASSTHROUGH_TEMPLATE_def AWS_BEDROCK_ANTHROPIC_COMPAT_TEMPLATE_def operations_json_def prop_of_jobj)
  with map_of_SomeD [OF assms] show ?thesis by fastforce
qed

lemma default_template: "payload_operations OPERATION_TEMPLATE \<noteq> []"
  by (simp add: payload_operations_def OPERATION_TEMPLATE_def operations_json_def prop_of_jobj)

lemma fillTemplate_grows: "grows clock st (fillTemplate clock m st)"
proof -
  obtain l kind payload where c: "(case map_of TEMPLATE_PRESET_CONFIG (pe_templatePresetKey st) of
      Some c \<Rightarrow> c | None \<Rightarrow> (''New Format Template'', OperationsPreset, OPERATION_TEMPLATE)) = (l, kind, payload)"
    by (metis prod_cases3)
  show ?thesis
  proof (cases "kind = LegacyPreset")
    case True
    then show ?thesis
      by (auto simp: fillTemplate_def c Let_def fill_legacy_grows intro: grows_same split: option.split)
  next
    case False
    then have kind: "kind = OperationsPreset" by (cases kind) auto
    then have vs: "payload_operations payload \<noteq> []"
      using c template_operations default_template by (auto split: option.splits)
    obtain r n where r: "numbered (normalizeOperation clock) (payload_operations payload) (pe_seed st) = (r, n)" by fastforce
    show ?thesis
    proof (cases r)
      case None
      with r kind numbered_operation_ids [OF r] show ?thesis by (simp add: fillTemplate_def c grows_same)
    next
      case (Some added)
      have ne: "added \<noteq> []" using r Some vs by (cases "payload_operations payload") (auto split: prod.splits option.splits)
      show ?thesis
        using r Some kind ne
        by (auto simp: fillTemplate_def c Let_def intro: fill_added_grows [where b = True] fill_added_grows [where b = False])
    qed
  qed
qed

lemma render_grows: "grows clock st (render clock fresh st)"
proof -
  have seed: "snd (createDefaultOperation clock (pe_seed st)) = Suc (pe_seed st)"
    by (simp add: createDefaultOperation_def nextLocalId_def)
  have "parsePruneObjectsDraft clock t (Suc (pe_seed st)) = (d, n) \<Longrightarrow> pe_seed st \<le> n" for t d n
    using parsePruneObjectsDraft_ids(1) [of clock t "Suc (pe_seed st)" d n] by simp
  then show ?thesis
    by (auto simp: render_def seed Let_def split: option.split prod.split intro!: grows_same)
qed

section \<open>The invariant\<close>

definition po_ok :: "(nat \<Rightarrow> nat) \<Rightarrow> PoEditor \<Rightarrow> bool" where
  "po_ok clock st \<longleftrightarrow>
     pe_operations st \<noteq> [] \<and> distinct (all_ids (pe_operations st)) \<and>
     set (all_ids (pe_operations st)) \<subseteq> local_id clock ` {..<pe_seed st} \<and>
     pe_selectedOperationId st \<in> op_id ` set (pe_operations st) \<and> (\<forall>p \<in> set (pe_operations st). modes_ok p)"

lemma distinct_submset:
  assumes "mset xs \<subseteq># mset ys" and "distinct ys"
  shows "distinct xs"
  unfolding distinct_count_atmost_1
proof
  fix a
  have "count (mset xs) a \<le> count (mset ys) a" using assms(1) by (rule mset_subset_eq_count)
  also have "\<dots> \<le> 1" using assms(2) by (simp add: distinct_count_atmost_1)
  finally have "count (mset xs) a \<le> 1" .
  then show "count (mset xs) a = (if a \<in> set xs then 1 else 0)"
    using count_mset_0_iff [of xs a] by (cases "count (mset xs) a") auto
qed

lemma grown_ok:
  assumes "grows clock st st'" and "po_ok clock st"
  shows "po_ok clock (keep_selection st')"
proof -
  let ?ids = "all_ids (pe_operations st) @ map (local_id clock) [pe_seed st..<pe_seed st']"
  have le: "pe_seed st \<le> pe_seed st'" and sub: "mset (all_ids (pe_operations st')) \<subseteq># mset ?ids"
    using assms(1) by (simp_all add: grows_def)
  have old: "set (all_ids (pe_operations st)) \<subseteq> po.made clock (pe_seed st)"
    using assms(2) by (simp add: po_ok_def po.made_def)
  then have "distinct ?ids"
    using assms(2) po.distinct_range [of clock "pe_seed st" "pe_seed st'"] po.range_fresh [of "pe_seed st" "pe_seed st" clock "pe_seed st'"]
    by (auto simp: po_ok_def)
  then have distinct: "distinct (all_ids (pe_operations st'))" by (rule distinct_submset [OF sub])
  have "set (all_ids (pe_operations st')) \<subseteq> set ?ids" using sub by (metis set_mset_mono set_mset_mset)
  also have "\<dots> \<subseteq> po.made clock (pe_seed st')"
    using old po.made_mono [OF le] po.range_made [of clock "pe_seed st" "pe_seed st'"] by auto
  finally have made: "set (all_ids (pe_operations st')) \<subseteq> local_id clock ` {..<pe_seed st'}" by (simp add: po.made_def)
  have "pe_operations st' \<noteq> []" "\<forall>p \<in> set (pe_operations st'). modes_ok p"
    using assms by (auto simp: grows_def po_ok_def)
  with distinct made show ?thesis
    by (auto simp: po_ok_def keep_selection_def first_id_def split: list.split)
qed

lemma op_ids_distinct: "distinct (all_ids ops) \<Longrightarrow> distinct (map op_id ops)"
  by (induction ops) (auto simp: op_ids_def all_ids_def)

lemma change_sync_grows: "grows clock st (change_sync patch st)"
proof -
  have "sync_change patch p \<noteq> Set_mode s" for p s by (cases patch) simp_all
  then show ?thesis by (auto simp: change_sync_def intro: view_grows updateOperation_grows split: option.split)
qed

lemma format_value_grows: "grows clock st (format_value st)"
  by (auto simp: format_value_def intro: view_grows updateOperation_grows split: option.split)

lemma text_handlers_grow:
  "grows clock st (switchToJsonMode_override st)" "grows clock st (handleJsonChange_override s st)" "grows clock st (formatJson_override st)"
  "grows clock st (handleSave st)" "grows clock st (handleDragOver i pos st)" "grows clock st (handleDragStart i st)"
  "grows clock st (resetDragState st)" "grows clock st (set_all_conditions b st)"
  by (rule view_grows; auto simp: switchToJsonMode_override_def handleJsonChange_override_def formatJson_override_def handleSave_def
      handleDragOver_def handleDragStart_def resetDragState_def set_all_conditions_def
      split: sum.splits option.splits)+

lemma resetEditorState_grows: "grows clock st (resetEditorState clock st)"
  by (auto simp: resetEditorState_def split: prod.split intro: grows_default)

lemmas handlers_grow = updateCondition_grows removeCondition_grows updateReturnErrorDraft_grows
  addOperation_grows duplicateOperation_grows handleDrop_grows prune_grows switchToVisualMode_grows
  fillTemplate_grows render_grows change_sync_grows format_value_grows text_handlers_grow resetEditorState_grows

lemma handle_grows:
  assumes "po_offered st a" and "distinct (map op_id (pe_operations st))"
  shows "grows clock st (handle clock a st)"
proof (cases a)
  case (UpdateOperation i patch)
  with assms(1) show ?thesis by (auto intro!: updateOperation_grows)
next
  case (AddCondition i)
  with assms(2) show ?thesis by (simp add: addCondition_grows)
next
  case (RemoveOperation i)
  with assms(2) show ?thesis by (simp add: removeOperation_grows)
next
  case (ChangePrune i patch)
  then show ?thesis by (auto intro: updatePruneObjectsDraft_grows)
qed (use assms(1) in \<open>auto simp: expandAllConditions_def collapseAllConditions_def intro: handlers_grow view_grows\<close>)

lemma opened_ok:
  assumes "open_editor clock v n = Some st"
  shows "po_ok clock st"
proof -
  obtain es n' where es: "parseInitialState clock v n = (Some es, n')"
    and st: "pe_operations st = es_operations es" "pe_seed st = n'" "pe_selectedOperationId st = first_id (es_operations es)"
    using assms by (auto simp: open_editor_def split: prod.splits option.splits)
  consider p where "createDefaultOperation clock n = (p, n')" "es_operations es = [p]"
    | vs where "operations_or_default clock vs n = (Some (es_operations es), n')"
    using es by (auto simp: parseInitialState_def Let_def split: if_splits option.splits json.splits prod.splits)
  then have "es_operations es \<noteq> [] \<and> all_ids (es_operations es) = map (local_id clock) [n..<n'] \<and> (\<forall>p \<in> set (es_operations es). modes_ok p)"
  proof cases
    case (1 p)
    with default_operation_ids [OF 1(1)] show ?thesis by simp
  next
    case (2 vs)
    with operations_or_default_ids [OF 2] show ?thesis by simp
  qed
  then show ?thesis
    using po.distinct_range [of clock n n'] by (auto simp: po_ok_def st first_id_def split: list.splits)
qed

lemma po_reachable_ok: "po_reachable clock st \<Longrightarrow> po_ok clock st"
proof (induction rule: po_reachable.induct)
  case (acted st a)
  then have "distinct (map op_id (pe_operations st))" by (simp add: po_ok_def op_ids_distinct)
  with acted show ?case unfolding po_perform_def by (metis grown_ok handle_grows)
qed (rule opened_ok)

end
