(* ===== verification/Param_Override_Props.thy ===== *)
theory Param_Override_Props
  imports Param_Override_Invariant Cents_Text
begin

text \<open>
  The properties of the parameter override editor: its invariant, that a saved text is reopened as it was
  saved, what the validator accepts and what a saved payload holds, the order after a drag, and the
  draft of a returned error.
\<close>

section \<open>Identifiers and selection\<close>

definition po_zero :: "nat \<Rightarrow> nat" where
  "po_zero n = 0"

definition po_blank :: PoEditor where
  "po_blank = the (open_editor po_zero [] 0)"

lemma po_blank_eq: "open_editor clock [] n = Some (the (open_editor clock [] n)) \<and> pe_open (the (open_editor clock [] n))"
  by (simp add: open_editor_def parseInitialState_def Let_def split: prod.split)

lemma po_blank_reachable: "po_reachable po_zero po_blank" "pe_open po_blank"
  using po_blank_eq [of po_zero 0] po_reachable.opened [of po_zero "[]" 0] by (auto simp: po_blank_def)

text \<open>C11: In every reachable state of the parameter override dialog there is an operation, the
  selected identifier is that of an operation, all identifiers of operations and conditions are
  distinct and were made by the module counter, and every mode is one of the tables.\<close>

theorem po_identifiers: "po_reachable clock st \<Longrightarrow> po_ok clock st"
  by (rule po_reachable_ok)

theorem po_identifiers_witness: "po_ok po_zero (po_perform po_zero AddOperation po_blank)"
  by (rule po_identifiers) (intro po_reachable.acted po_blank_reachable, simp)

section \<open>Reopening what was saved\<close>

text \<open>C10: Opening the dialog on a text, not empty, that it has saved from the operations form shows the
  operations that were not blank in their saved form, with new identifiers, and saving at once gives
  the same text, under two conditions: the JSON values that are saved are read back as they are printed,
  and no value was typed as a quoted JSON string. Such a value can change when it is saved again.\<close>

theorem saved_override_reopens:
  assumes "po_reachable clock st" and "pe_editMode st = VisualTab" and "pe_visualMode st = OperationsForm"
    and "save_result st = Inr saved" and "saved \<noteq> []"
    and "\<forall>p \<in> set (pe_operations st). texts_ok p \<and> plain_operation p"
  shows "\<exists>st'. open_editor clock saved n = Some st' \<and> save_result st' = Inr saved \<and>
    map anon (pe_operations st') = map (\<lambda>p. anon (saved_operation p)) (nonblank (pe_operations st))"
proof -
  have modes: "\<forall>p \<in> set (pe_operations st). modes_ok p" using po_reachable_ok [OF assms(1)] by (simp add: po_ok_def)
  have built: "buildOperationsJson (pe_operations st) True = Inr saved"
    using assms(2-4) by (simp add: save_result_def buildVisualJson_def)
  obtain qs n' where qs: "parseInitialState clock saved n =
      (Some \<lparr>es_editMode = VisualTab, es_visualMode = OperationsForm, es_legacyValue = [],
         es_operations = qs, es_jsonText = saved, es_jsonError = None\<rparr>, n')"
      "map anon qs = map (\<lambda>p. anon (saved_operation p)) (nonblank (pe_operations st))"
    using reopened [OF built assms(5)] modes assms(6) by blast
  have "buildOperationsJson qs True = Inr saved"
    using saved_again [OF built assms(5) modes _ qs(2)] assms(6) by blast
  with qs show ?thesis by (simp add: open_editor_def save_result_def buildVisualJson_def)
qed

definition po_edited :: PoEditor where
  "po_edited = po_perform po_zero (UpdateOperation (pe_selectedOperationId po_blank) (Set_path (js ''stream''))) po_blank"

lemma po_edited_reachable: "po_reachable po_zero po_edited"
  unfolding po_edited_def by (intro po_reachable.acted po_blank_reachable) simp

lemma po_edited_eval:
  "pe_editMode po_edited = VisualTab" "pe_visualMode po_edited = OperationsForm"
  "pe_operations po_edited = [(fst (createDefaultOperation po_zero 0))\<lparr>op_path := js ''stream''\<rparr>]"
  by (simp_all add: po_edited_def po_perform_def keep_selection_def updateOperation_def change_operation_def
      po_blank_def open_editor_def parseInitialState_def createDefaultOperation_def nextLocalId_def Let_def first_id_def)

lemma po_edited_operation:
  defines "p \<equiv> (fst (createDefaultOperation po_zero 0))\<lparr>op_path := js ''stream''\<rparr>"
  shows "texts_ok p" "plain_operation p" "operation_ok p" "modes_ok p"
proof -
  have p: "op_mode p = js ''set''" "op_path p = js ''stream''" "op_from p = []" "op_to p = []" "op_value_text p = []"
      "op_description p = []" "op_conditions p = []"
    by (simp_all add: p_def createDefaultOperation_def nextLocalId_def read_operation_def prop_of_jobj mode_field_def
        str_field_def toValueText_def jstr_def OPERATION_MODE_VALUES_def OPERATION_MODE_OPTIONS_def)
  have "trim (js ''stream'') = js ''stream''" by (simp add: js_lit js_eval)
  then show "texts_ok p" "plain_operation p" "operation_ok p" "modes_ok p"
    by (simp_all add: p texts_ok_def plain_operation_def plain_text_def parseLooseValue_def operation_ok_def modes_ok_def
        VALUE_REQUIRED_MODES_def FROM_REQUIRED_MODES_def TO_REQUIRED_MODES_def inj_js
        OPERATION_MODE_VALUES_def OPERATION_MODE_OPTIONS_def)
qed

lemma built_ok:
  assumes "\<forall>p \<in> set ops. operation_ok p \<and> modes_ok p" and "ops \<noteq> []"
  shows "buildOperationsJson ops True = Inr (json_text 2 0 (operations_json (map operation_payload ops)))"
  using assms nonblank_id [of ops] validate_from_None [of ops 0]
  by (simp add: buildOperationsJson_def validateOperations_def)

lemma json_text_not_Nil: "json_text 2 0 (operations_json vs) \<noteq> []"
  by (simp add: operations_json_def jobj_def bracketed_def)

theorem saved_override_reopens_witness:
  "\<exists>saved st'. save_result po_edited = Inr saved \<and> open_editor po_zero saved 7 = Some st' \<and> save_result st' = Inr saved"
proof -
  note ops = po_edited_eval(3) and ok = po_edited_operation
  obtain saved where saved: "save_result po_edited = Inr saved" "saved \<noteq> []"
    using built_ok [of "pe_operations po_edited"] ok(3,4) json_text_not_Nil
    by (simp add: ops save_result_def buildVisualJson_def po_edited_eval)
  have "\<forall>p \<in> set (pe_operations po_edited). texts_ok p \<and> plain_operation p" using ok(1,2) by (simp add: ops)
  from saved_override_reopens [OF po_edited_reachable po_edited_eval(1,2) saved this, of 7] saved show ?thesis by blast
qed

section \<open>Validation\<close>

lemma validate_operation_line:
  "validate_operation l p = Some e \<Longrightarrow> e = TypeErrorMessage \<or> (\<exists>m. e = RuleMessage m l)"
  by (auto simp: validate_operation_def Let_def split: if_splits option.splits)

lemma validate_from_Some:
  assumes "validate_from k ops = Some e" and "\<forall>p \<in> set ops. modes_ok p"
  shows "\<exists>i < length ops. \<not> operation_ok (ops ! i) \<and> (\<forall>j < i. operation_ok (ops ! j)) \<and>
    (e = TypeErrorMessage \<or> (\<exists>m. e = RuleMessage m (k + i + 1)))"
  using assms
proof (induction ops arbitrary: k)
  case (Cons p ops)
  have ok: "validate_operation (k + 1) p = None \<longleftrightarrow> operation_ok p"
    using Cons.prems(2) by (intro validate_operation_ok mode_values_not_Nil) (simp add: modes_ok_def)
  show ?case
  proof (cases "validate_operation (k + 1) p")
    case None
    with Cons.prems have "validate_from (k + 1) ops = Some e" "\<forall>p \<in> set ops. modes_ok p" by simp_all
    from Cons.IH [OF this] obtain i where "i < length ops" "\<not> operation_ok (ops ! i)" "\<forall>j < i. operation_ok (ops ! j)"
        "e = TypeErrorMessage \<or> (\<exists>m. e = RuleMessage m (k + 1 + i + 1))" by blast
    with None ok show ?thesis by (intro exI [of _ "Suc i"]) (auto simp: less_Suc_eq_0_disj)
  next
    case (Some f)
    with Cons.prems(1) ok validate_operation_line [OF Some] show ?thesis by (intro exI [of _ 0]) auto
  qed
qed simp

text \<open>C13: The validator accepts exactly the lists whose operations have what their mode demands, and
  otherwise its message names the line of the first operation that lacks something (or is the
  \<open>TypeError\<close> of an unprintable header name).\<close>

theorem override_validation:
  assumes "\<forall>p \<in> set ops. modes_ok p"
  shows "case validateOperations ops of
      None \<Rightarrow> \<forall>p \<in> set ops. operation_ok p
    | Some e \<Rightarrow> \<exists>i < length ops. \<not> operation_ok (ops ! i) \<and> (\<forall>j < i. operation_ok (ops ! j)) \<and>
        (e = TypeErrorMessage \<or> (\<exists>m. e = RuleMessage m (i + 1)))"
  using validate_from_None [OF assms, of 0] validate_from_Some [OF _ assms, of 0]
  by (auto simp: validateOperations_def split: option.split)

theorem override_validation_witness:
  "validateOperations [(fst (createDefaultOperation po_zero 0))\<lparr>op_path := js ''stream''\<rparr>, fst (createDefaultOperation po_zero 1)] =
     Some (RuleMessage ''Rule {{line}} is missing target path'' 2) \<and>
   \<not> operation_ok (fst (createDefaultOperation po_zero 1))"
proof -
  let ?p = "(fst (createDefaultOperation po_zero 0))\<lparr>op_path := js ''stream''\<rparr>" and ?q = "fst (createDefaultOperation po_zero 1)"
  have q: "modes_ok ?q" by (rule default_operation_ids(4) [OF prod.collapse [symmetric]])
  have "validate_operation 1 ?p = None"
    using validate_operation_ok [of ?p 1] po_edited_operation(3,4) by (simp add: mode_values_not_Nil modes_ok_def)
  moreover have "validate_operation 2 ?q = Some (RuleMessage ''Rule {{line}} is missing target path'' 2)"
    by (simp add: validate_operation_def createDefaultOperation_def nextLocalId_def read_operation_def prop_of_jobj
        str_field_def mode_field_def jstr_def op_mode_or_set_def str_or_def OPERATION_MODE_VALUES_def OPERATION_MODE_OPTIONS_def
        meta_of_def MODE_META_def no_meta_def inj_js Let_def)
  ultimately have eq: "validateOperations [?p, ?q] = Some (RuleMessage ''Rule {{line}} is missing target path'' 2)"
    by (simp add: validateOperations_def numeral_2_eq_2)
  with override_validation [of "[?p, ?q]"] q po_edited_operation(4) obtain i where
    "i < 2" "\<not> operation_ok ([?p, ?q] ! i)" "i + 1 = 2" by (auto simp: numeral_2_eq_2)
  with eq show ?thesis by (simp add: less_2_cases_iff)
qed

section \<open>Saved payloads are complete\<close>

text \<open>A payload with what its mode demands.\<close>

definition filled :: "string \<Rightarrow> json \<Rightarrow> bool" where
  "filled k v = (case prop_of k v of Some (JStr s) \<Rightarrow> s \<noteq> [] | _ \<Rightarrow> False)"

definition payload_complete :: "json \<Rightarrow> bool" where
  "payload_complete v =
     (case prop_of ''mode'' v of
        Some (JStr mode) \<Rightarrow> mode \<in> set OPERATION_MODE_VALUES \<and>
          (mm_path (meta_of mode) \<longrightarrow> filled ''path'' v) \<and>
          (mode \<in> set FROM_REQUIRED_MODES \<longrightarrow> filled ''from'' v) \<and>
          (mode \<in> set TO_REQUIRED_MODES \<longrightarrow> filled ''to'' v) \<and>
          (mode \<in> set VALUE_REQUIRED_MODES \<longrightarrow> prop_of ''value'' v \<noteq> None)
      | _ \<Rightarrow> False)"

lemma payload_is_complete:
  assumes "modes_ok p" and "operation_ok p"
  shows "payload_complete (operation_payload p)"
proof -
  have mode: "op_mode p \<in> set OPERATION_MODE_VALUES" using assms(1) by (simp add: modes_ok_def)
  have v: "operation_payload p = jobj (payload_fields p)" using mode by (intro operation_payload_fields mode_values_not_Nil)
  have look: "prop_of ''mode'' (jobj (payload_fields p)) = Some (JStr (op_mode p))"
    "mm_path (meta_of (op_mode p)) \<Longrightarrow> prop_of ''path'' (jobj (payload_fields p)) = Some (JStr (trim (op_path p)))"
    "mm_from (meta_of (op_mode p)) \<Longrightarrow> prop_of ''from'' (jobj (payload_fields p)) =
       Some (JStr (alias_or (meta_of (op_mode p)) (trim (op_path p)) (trim (op_from p))))"
    "mm_to (meta_of (op_mode p)) = Some True \<Longrightarrow> prop_of ''to'' (jobj (payload_fields p)) =
       Some (JStr (alias_or (meta_of (op_mode p)) (trim (op_path p)) (trim (op_to p))))"
    "mm_value (meta_of (op_mode p)) \<Longrightarrow> prop_of ''value'' (jobj (payload_fields p)) = Some (parseLooseValue (op_value_text p))"
    by (simp_all add: prop_of_jobj payload_fields_def Let_def map_add_def map_of_given split: option.split)
  show ?thesis
    using assms(2) mode required_modes [of "op_mode p"] look(2-5)
    by (auto simp: v payload_complete_def look(1) filled_def operation_ok_def Let_def)
qed

text \<open>C12: What the visual form of operations saves is empty or the text of a list of operations each
  of which has a known mode and, not empty, the path, source, target and value its mode demands,
  where a header operation may use its path for a missing source or target.\<close>

theorem saved_operations_complete:
  assumes "po_reachable clock st" and "pe_editMode st = VisualTab" and "pe_visualMode st = OperationsForm"
    and "save_result st = Inr saved"
  shows "saved = [] \<or> (\<exists>vs. saved = json_text 2 0 (operations_json vs) \<and> list_all payload_complete vs)"
proof (cases "nonblank (pe_operations st) = []")
  case False
  have built: "buildOperationsJson (pe_operations st) True = Inr saved"
    using assms(2-4) by (simp add: save_result_def buildVisualJson_def)
  have modes: "\<forall>p \<in> set (nonblank (pe_operations st)). modes_ok p"
    using po_reachable_ok [OF assms(1)] by (auto simp: po_ok_def nonblank_def)
  have "validateOperations (nonblank (pe_operations st)) = None"
    and "saved = json_text 2 0 (operations_json (map operation_payload (nonblank (pe_operations st))))"
    using built False by (auto simp: buildOperationsJson_def Let_def split: option.splits)
  moreover from this(1) have "list_all payload_complete (map operation_payload (nonblank (pe_operations st)))"
    using validate_from_None [OF modes, of 0] modes
    by (simp add: validateOperations_def list_all_iff payload_is_complete)
  ultimately show ?thesis by blast
qed (use assms in \<open>auto simp: save_result_def buildVisualJson_def buildOperationsJson_def\<close>)

theorem saved_operations_complete_witness:
  "\<exists>saved vs. save_result po_edited = Inr saved \<and> saved = json_text 2 0 (operations_json vs) \<and> list_all payload_complete vs"
proof -
  obtain saved where saved: "save_result po_edited = Inr saved" "saved \<noteq> []"
    using built_ok [of "pe_operations po_edited"] po_edited_operation(3,4) json_text_not_Nil
    by (simp add: po_edited_eval save_result_def buildVisualJson_def)
  from saved_operations_complete [OF po_edited_reachable po_edited_eval(1,2) saved(1)] saved show ?thesis by blast
qed

section \<open>Dragging an operation\<close>

lemma find_index_filter:
  assumes "distinct (map op_id ops)" and "find_index (\<lambda>p. op_id p = s) ops = Some k"
  shows "take k ops @ drop (Suc k) ops = filter (\<lambda>p. op_id p \<noteq> s) ops"
  using assms
proof (induction ops arbitrary: k)
  case (Cons p ops)
  show ?case
  proof (cases "op_id p = s")
    case True
    with Cons.prems have "\<forall>q \<in> set ops. op_id q \<noteq> s" by (auto simp: image_iff)
    with True Cons.prems show ?thesis by simp
  next
    case False
    with Cons show ?thesis by auto
  qed
qed simp

text \<open>Dropping an operation before or after another one, both in the list, puts it directly
  there and leaves the order of all the others as it was.\<close>

theorem reorder_places:
  assumes "distinct (map op_id ops)" and "src \<in> set ops" and "tgt \<in> set ops" and "op_id src \<noteq> op_id tgt"
    and "op_id src \<noteq> []" and "op_id tgt \<noteq> []"
  shows "\<exists>a b. filter (\<lambda>p. op_id p \<noteq> op_id src) ops = a @ tgt # b \<and>
    reorderOperations ops (op_id src) (op_id tgt) pos = (if pos = Before then a @ src # tgt # b else a @ tgt # src # b)"
proof -
  let ?rest = "filter (\<lambda>p. op_id p \<noteq> op_id src) ops"
  have same: "x = y" if "x \<in> set ops" "y \<in> set ops" "op_id x = op_id y" for x y
    using assms(1) that by (auto simp: distinct_map inj_on_def)
  obtain k where k: "find_index (\<lambda>p. op_id p = op_id src) ops = Some k"
    using assms(2) by (cases "find_index (\<lambda>p. op_id p = op_id src) ops") (auto simp: find_index_None)
  have moved: "ops ! k = src" using find_index_Some [OF k] assms(2) by (intro same) auto
  obtain i where i: "find_index (\<lambda>p. op_id p = op_id tgt) ?rest = Some i"
    using assms(3,4) by (cases "find_index (\<lambda>p. op_id p = op_id tgt) ?rest") (auto simp: find_index_None)
  have "i < length ?rest" "op_id (?rest ! i) = op_id tgt" using find_index_Some [OF i] by auto
  moreover from this have "?rest ! i = tgt" using assms(3) by (intro same) (auto dest: nth_mem)
  ultimately have split: "?rest = take i ?rest @ tgt # drop (Suc i) ?rest" by (metis id_take_nth_drop)
  have cut: "take (Suc i) ?rest = take i ?rest @ [tgt]" "drop i ?rest = tgt # drop (Suc i) ?rest"
    using \<open>i < length ?rest\<close> \<open>?rest ! i = tgt\<close> by (simp add: take_Suc_conv_app_nth, metis Cons_nth_drop_Suc)
  have "reorderOperations ops (op_id src) (op_id tgt) pos =
      (let j = (if pos = After then i + 1 else i) in take j ?rest @ src # drop j ?rest)"
    using assms(4-6) k i moved find_index_filter [OF assms(1) k] by (simp add: reorderOperations_def Let_def)
  also have "\<dots> = (if pos = Before then take i ?rest @ src # tgt # drop (Suc i) ?rest
      else take i ?rest @ tgt # src # drop (Suc i) ?rest)"
    using cut by (cases pos) simp_all
  finally show ?thesis using split by blast
qed

theorem reorder_places_witness:
  "reorderOperations
     (map (\<lambda>n. fst (createDefaultOperation po_zero n)) [0, 1, 2]) (local_id po_zero 0) (local_id po_zero 2) After =
   map (\<lambda>n. fst (createDefaultOperation po_zero n)) [1, 2, 0]"
proof -
  let ?p = "\<lambda>n. fst (createDefaultOperation po_zero n)"
  have op_id: "op_id (?p n) = local_id po_zero n" for n by (simp add: createDefaultOperation_def nextLocalId_def)
  have diff: "m \<noteq> n \<Longrightarrow> local_id po_zero m \<noteq> local_id po_zero n" for m n using local_id_inj by blast
  have ids: "local_id po_zero n \<noteq> []" for n by (simp add: local_id_def)
  have "distinct (map op_id (map ?p [0, 1, 2]))" by (simp add: op_id diff)
  from reorder_places [OF this, of "?p 0" "?p 2" After]
  obtain a b where ab: "filter (\<lambda>p. op_id p \<noteq> local_id po_zero 0) (map ?p [0, 1, 2]) = a @ ?p 2 # b"
    "reorderOperations (map ?p [0, 1, 2]) (local_id po_zero 0) (local_id po_zero 2) After = a @ ?p 2 # ?p 0 # b"
    by (auto simp: op_id diff ids)
  have "?p 1 \<noteq> ?p 2" using op_id [of 1] op_id [of 2] diff [of 1 2] by force
  with ab(1) have "a = [?p 1]" "b = []"
    by (auto simp: op_id diff Cons_eq_append_conv append_eq_Cons_conv)
  with ab(2) show ?thesis by simp
qed

section \<open>The error draft\<close>

lemma status_reads_back: "\<exists>n. 100 \<le> n \<and> n \<le> 599 \<and> status_or_400 x = Fin (of_nat n)"
proof (cases "is_integer x \<and> js_le (Fin 100) x \<and> js_le x (Fin 599)")
  case True
  then obtain q where q: "x = Fin q" "q \<in> \<int>" "100 \<le> q" "q \<le> 599"
    by (cases x) (auto simp: is_integer_def js_le_def)
  then obtain i where i: "q = of_int i" by (auto elim: Ints_cases)
  with q have "100 \<le> i" "i \<le> 599" by simp_all
  with True q(1) i show ?thesis by (intro exI [of _ "nat i"]) (auto simp: status_or_400_def)
next
  case False
  then show ?thesis by (intro exI [of _ 400]) (auto simp: status_or_400_def)
qed

lemma status_idem: "status_or_400 (status_or_400 x) = status_or_400 x"
  by (simp add: status_or_400_def js_le_def is_integer_def)

text \<open>In the advanced form of a returned error, the draft shown after a change is the changed
  draft with trimmed texts and a status code from 100 to 599: no field is lost.\<close>

theorem error_draft_roundtrip:
  assumes "\<not> rd_simpleMode d" and "wide (rd_message d)" "wide (rd_code d)" "wide (rd_type d)"
  shows "parseReturnErrorDraft (buildReturnErrorValueText d) =
    d\<lparr>rd_message := trim (rd_message d), rd_statusCode := status_or_400 (rd_statusCode d),
      rd_code := trim (rd_code d), rd_type := trim (rd_type d)\<rparr>"
proof -
  let ?v = "error_payload d"
  obtain n where n: "n \<le> 599" "status_or_400 (rd_statusCode d) = Fin (of_nat n)" using status_reads_back by blast
  have v: "printable ?v"
    using assms(2-4) nat_reads_back [of n] n
    by (auto simp: error_payload_def Let_def printable_jobj js_not_index is_digit_def wide_trim)
  then have parse: "json_parse (json_stringify ?v) = Some ?v" by (rule json_roundtrip)
  have props: "prop_of ''message'' ?v = Some (JStr (trim (rd_message d)))"
    "prop_of ''status_code'' ?v = Some (JNum (status_or_400 (rd_statusCode d)))"
    "prop_of ''msg'' ?v = None"
    "json_or (prop_of ''code'' ?v) (JStr []) = JStr (trim (rd_code d))"
    "json_or (prop_of ''type'' ?v) (JStr []) = JStr (trim (rd_type d))"
    "(prop_of ''skip_retry'' ?v \<noteq> Some (JBool False)) = rd_skipRetry d"
    by (simp_all add: error_payload_def Let_def prop_of_jobj json_or_def)
  have "json_or (prop_of ''message'' ?v) (json_or (prop_of ''msg'' ?v) (JStr [])) = JStr (trim (rd_message d))"
    by (simp add: props json_or_def)
  then have "error_object_draft ?v = Some \<lparr>rd_message = trim (rd_message d), rd_statusCode = status_or_400 (rd_statusCode d),
      rd_code = trim (rd_code d), rd_type = trim (rd_type d), rd_skipRetry = rd_skipRetry d, rd_simpleMode = False\<rparr>"
    by (simp add: error_object_draft_def props number_of_def string_of_def status_idem)
  also have "\<dots> = Some (d\<lparr>rd_message := trim (rd_message d), rd_statusCode := status_or_400 (rd_statusCode d),
      rd_code := trim (rd_code d), rd_type := trim (rd_type d)\<rparr>)"
    using assms(1) by (cases d) simp
  finally have "error_object_draft ?v = \<dots>" .
  moreover obtain ps where "?v = JObj ps" by (simp add: error_payload_def jobj_def Let_def)
  ultimately show ?thesis
    using parse json_stringify_not_Nil [OF v] assms(1)
    by (simp add: parseReturnErrorDraft_def buildReturnErrorValueText_def trim_json_stringify del: json_stringify.simps)
qed

theorem error_draft_roundtrip_witness:
  "parseReturnErrorDraft (buildReturnErrorValueText
     (error_defaults\<lparr>rd_message := js ''no '', rd_simpleMode := False, rd_skipRetry := False\<rparr>)) =
   error_defaults\<lparr>rd_message := js ''no'', rd_simpleMode := False, rd_skipRetry := False\<rparr>"
proof -
  have "trim (js ''no '') = js ''no''" by (simp add: js_lit js_eval)
  moreover have "status_or_400 (Fin 400) = Fin 400" by (simp add: status_or_400_def)
  ultimately show ?thesis
    using error_draft_roundtrip [of "error_defaults\<lparr>rd_message := js ''no '', rd_simpleMode := False, rd_skipRetry := False\<rparr>"]
    by (simp add: error_defaults_def)
qed

lemma trim_snoc_ws: "is_ws c \<Longrightarrow> trim (s @ [c]) = trim s"
  by (cases "\<forall>x \<in> set s. is_ws x") (auto simp: trim_def dropWhile_append dest: set_dropWhileD)

text \<open>A space typed at the end of the message of a returned error is lost: the state is that
  before the space, so a message of several words cannot be typed from left to right.\<close>

theorem typed_space_lost:
  "updateReturnErrorDraft operationId (Err_message (m @ [32])) st = updateReturnErrorDraft operationId (Err_message m) st"
proof -
  have "trim (m @ [32]) = trim m" by (rule trim_snoc_ws) (simp add: is_ws_def)
  then have "buildReturnErrorValueText (d\<lparr>rd_message := m @ [32]\<rparr>) = buildReturnErrorValueText (d\<lparr>rd_message := m\<rparr>)" for d
    by (simp add: buildReturnErrorValueText_def error_payload_def)
  then show ?thesis by (simp add: updateReturnErrorDraft_def)
qed

end
