(* ===== verification/Param_Override_Lost.thy ===== *)
theory Param_Override_Lost
  imports Param_Override_Props
begin

text \<open>
  What the parameter override editor loses: edits of a pruning rule, the advanced form of a rule with a
  type and the quotes of a value; and the texts on which it cannot be opened at all.
\<close>

section \<open>Pruning rules cannot be edited\<close>

lemma handle_draft:
  assumes "\<And>fresh. a \<noteq> Render fresh"
  shows "pe_pruneObjectsDraft (handle clock a st) = pe_pruneObjectsDraft st"
proof (cases a)
  case ToVisual
  then show ?thesis
    by (simp add: switchToVisualMode_override_def Let_def split: prod.split option.split json.split)
next
  case (FillTemplate m)
  then show ?thesis
    by (simp add: fillTemplate_def fill_legacy_def Let_def split: prod.split option.split)
qed (use assms in \<open>simp_all add: updateOperation_def change_operation_def addOperation_def duplicateOperation_def
    removeOperation_def addCondition_def updateCondition_def removeCondition_def updateReturnErrorDraft_def
    updatePruneObjectsDraft_def addPruneRule_def updatePruneRule_def removePruneRule_def change_sync_def format_value_def
    handleDragStart_def handleDragOver_def handleDrop_def resetDragState_def switchToJsonMode_override_def resetEditorState_def
    handleJsonChange_override_def formatJson_override_def expandAllConditions_def collapseAllConditions_def set_all_conditions_def
    handleSave_def Let_def split: prod.split option.split sum.split\<close>)

definition shown_made :: "(nat \<Rightarrow> nat) \<Rightarrow> PoEditor \<Rightarrow> bool" where
  "shown_made clock st \<longleftrightarrow>
     (\<forall>d. pe_pruneObjectsDraft st = Some d \<longrightarrow> set (map cd_id (pd_rules d)) \<subseteq> po.made clock (pe_seed st))"

lemma keep_selection_sel [simp]: "pe_pruneObjectsDraft (keep_selection st) = pe_pruneObjectsDraft st"
  "pe_seed (keep_selection st) = pe_seed st"
  by (simp_all add: keep_selection_def)

lemma shown_made_mono:
  assumes "shown_made clock st" and "pe_pruneObjectsDraft st' = pe_pruneObjectsDraft st" and "pe_seed st \<le> pe_seed st'"
  shows "shown_made clock st'"
  using assms(1,2) po.made_mono [OF assms(3), of clock] unfolding shown_made_def by (metis subset_trans)

lemma render_shown:
  assumes "shown_made clock st"
  shows "shown_made clock (render clock fresh st)"
proof (cases fresh)
  case True
  have "set (map cd_id (pd_rules d)) \<subseteq> po.made clock n" if "parsePruneObjectsDraft clock t k = (d, n)" for t k d n
    using parsePruneObjectsDraft_ids(2) [OF that] po.range_made [of clock k n] by blast
  with True show ?thesis
    unfolding shown_made_def by (simp add: render_def Let_def split: option.split prod.split)
next
  case False
  then show ?thesis
    by (intro shown_made_mono [OF assms]) (simp_all add: render_def createDefaultOperation_def nextLocalId_def)
qed

lemma reachable_shown: "po_reachable clock st \<Longrightarrow> shown_made clock st"
proof (induction rule: po_reachable.induct)
  case (opened v n st)
  then have "pe_pruneObjectsDraft st = None" by (auto simp: open_editor_def split: prod.splits option.splits)
  then show ?case by (simp add: shown_made_def)
next
  case (acted st a)
  have "shown_made clock (handle clock a st)"
  proof (cases "\<exists>fresh. a = Render fresh")
    case True
    then obtain fresh where "a = Render fresh" by blast
    with render_shown [OF acted.IH, of fresh] show ?thesis by simp
  next
    case False
    have "distinct (map op_id (pe_operations st))" using po_reachable_ok [OF acted(1)] by (simp add: po_ok_def op_ids_distinct)
    then have "pe_seed st \<le> pe_seed (handle clock a st)" using handle_grows [OF acted(3)] by (simp add: grows_def)
    moreover have "pe_pruneObjectsDraft (handle clock a st) = pe_pruneObjectsDraft st" using False by (intro handle_draft) blast
    ultimately show ?thesis using shown_made_mono [OF acted.IH] by blast
  qed
  then show ?case by (simp add: po_perform_def shown_made_def)
qed

lemma edited_rules_same:
  assumes "r \<in> po.made clock n" and "parsePruneObjectsDraft clock t k = (d, m)" and "n \<le> k"
  shows "r \<notin> cd_id ` set (pd_rules d)"
  using assms(1) parsePruneObjectsDraft_ids(2) [OF assms(2)] po.range_fresh [OF assms(3), of clock m] by auto

text \<open>The text of a rule does not depend on the identifiers of its conditions.\<close>

definition anon_rules :: "PruneObjectsDraft \<Rightarrow> PruneObjectsDraft" where
  "anon_rules d = d\<lparr>pd_rules := map (\<lambda>r. r\<lparr>cd_id := []\<rparr>) (pd_rules d)\<rparr>"

lemma rule_payload_anon: "rule_payload (r\<lparr>cd_id := i\<rparr>) = rule_payload r"
  by (cases r) (simp add: rule_payload_def)

lemma built_anon: "buildPruneObjectsValueText (anon_rules d) = buildPruneObjectsValueText d"
  by (simp add: buildPruneObjectsValueText_def anon_rules_def filter_map comp_def rule_payload_anon Let_def)

lemma prune_rules_anon: "map (\<lambda>r. r\<lparr>cd_id := []\<rparr>) (fst (prune_rules clock vs n)) = map (read_condition []) vs"
  by (induction vs arbitrary: n) (simp_all add: normalizePruneRule_def nextLocalId_def read_condition_def Let_def split_def)

lemma object_draft_anon:
  "map_option anon_rules (prune_object_draft p rs) = prune_object_draft p (map (\<lambda>r. r\<lparr>cd_id := []\<rparr>) rs)"
  by (simp add: prune_object_draft_def anon_rules_def split: option.split)

lemma parsed_anon: "anon_rules (fst (parsePruneObjectsDraft clock t n)) = anon_rules (fst (parsePruneObjectsDraft clock' t n'))"
proof -
  have obj: "anon_rules (case prune_object_draft v (fst (prune_rules clock vs n)) of None \<Rightarrow> d | Some e \<Rightarrow> e) =
      anon_rules (case prune_object_draft v (fst (prune_rules clock' vs n')) of None \<Rightarrow> d | Some e \<Rightarrow> e)" for v vs d
    using object_draft_anon [of v "fst (prune_rules clock vs n)"] object_draft_anon [of v "fst (prune_rules clock' vs n')"]
    by (auto simp: prune_rules_anon split: option.splits) (metis option.inject)
  show ?thesis
    using obj by (auto simp: parsePruneObjectsDraft_def Let_def split_def split: option.split json.split)
qed

text \<open>A text in the advanced form that is written as it is read.\<close>

definition kept_prune :: "(nat \<Rightarrow> nat) \<Rightarrow> jsstr \<Rightarrow> bool" where
  "kept_prune clock t \<longleftrightarrow>
     (let d = fst (parsePruneObjectsDraft clock t 0) in \<not> pd_simpleMode d \<and> buildPruneObjectsValueText d = t)"

lemma kept_prune_draft:
  assumes "kept_prune clock t" and "parsePruneObjectsDraft clock t k = (d, m)"
  shows "\<not> pd_simpleMode d \<and> buildPruneObjectsValueText d = t"
proof -
  have "anon_rules d = anon_rules (fst (parsePruneObjectsDraft clock t 0))"
    using parsed_anon [of clock t k clock 0] assms(2) by simp
  moreover from this have "pd_simpleMode d = pd_simpleMode (fst (parsePruneObjectsDraft clock t 0))"
    by (simp add: anon_rules_def) (metis PruneObjectsDraft.select_convs(1) PruneObjectsDraft.surjective PruneObjectsDraft.update_convs(5))
  ultimately show ?thesis
    using assms(1) built_anon [of d] built_anon [of "fst (parsePruneObjectsDraft clock t 0)"] by (simp add: kept_prune_def Let_def)
qed

lemma change_drafts_same:
  assumes "\<And>p d m k. p \<in> set ops \<Longrightarrow> op_id p = i \<Longrightarrow> n \<le> k \<Longrightarrow> parsePruneObjectsDraft clock (op_value_text p) k = (d, m) \<Longrightarrow>
      m \<le> snd (f d m) \<and> buildPruneObjectsValueText (fst (f d m)) = op_value_text p"
    and "n \<le> k"
  shows "fst (change_drafts clock i f ops k) = ops"
  using assms
proof (induction ops arbitrary: k)
  case (Cons p ops)
  obtain d m where d: "parsePruneObjectsDraft clock (op_value_text p) k = (d, m)" by fastforce
  have rest: "fst (change_drafts clock i f ops j) = ops" if "n \<le> j" for j
    by (rule Cons.IH [OF Cons.prems(1) that]) simp_all
  show ?case
  proof (cases "op_id p = i")
    case True
    have f: "m \<le> snd (f d m) \<and> buildPruneObjectsValueText (fst (f d m)) = op_value_text p"
      using Cons.prems(1) [of p k d m] True d Cons.prems(2) by simp
    moreover have "n \<le> snd (f d m)" using f parsePruneObjectsDraft_ids(1) [OF d] Cons.prems(2) by simp
    ultimately show ?thesis using True d rest by (simp add: split_def Let_def)
  next
    case False
    with rest [OF Cons.prems(2)] show ?thesis by (simp add: split_def Let_def)
  qed
qed simp

lemma draft_update_same:
  assumes "\<And>p d m k. p \<in> set (pe_operations st) \<Longrightarrow> op_id p = i \<Longrightarrow> pe_seed st \<le> k \<Longrightarrow>
      parsePruneObjectsDraft clock (op_value_text p) k = (d, m) \<Longrightarrow>
      m \<le> snd (f d m) \<and> buildPruneObjectsValueText (fst (f d m)) = op_value_text p"
  shows "pe_operations (updatePruneObjectsDraft clock i f st) = pe_operations st"
  using change_drafts_same [of "pe_operations st" i "pe_seed st" clock f "pe_seed st"] assms
  by (simp add: updatePruneObjectsDraft_def split_def Let_def)

lemma added_rule_dropped:
  assumes "\<not> pd_simpleMode d"
  shows "buildPruneObjectsValueText (d\<lparr>pd_simpleMode := False,
      pd_rules := pd_rules d @ [fst (normalizePruneRule clock (JObj []) k)]\<rparr>) = buildPruneObjectsValueText d"
proof -
  have "trim (cd_path (fst (normalizePruneRule clock (JObj []) k))) = []"
    by (simp add: normalizePruneRule_def nextLocalId_def read_condition_def Let_def prop_of_def str_field_def trim_def)
  then show ?thesis using assms by (simp add: buildPruneObjectsValueText_def Let_def)
qed

lemma perform_operations: "pe_operations (po_perform clock a st) = pe_operations (handle clock a st)"
  by (simp add: po_perform_def keep_selection_def)

text \<open>C40: The conditions of a pruning rule can be neither edited nor removed, and no condition can be added:
  in every reachable state, if the value of the operation is in the advanced form and written as it is
  read, then changing or removing any condition that is shown and adding a condition leave all operations
  as they are. The handlers read the draft again from the text, so that its conditions get new
  identifiers and the one of the button is not among them, and a new condition has no path and is
  left out of the text.\<close>

theorem prune_edit_lost:
  assumes "po_reachable clock st" and "po_offered st a" and "a \<in> {UpdateRule i r patch, RemoveRule i r, AddRule i}"
    and "\<forall>p \<in> set (pe_operations st). op_id p = i \<longrightarrow> kept_prune clock (op_value_text p)"
  shows "pe_operations (po_perform clock a st) = pe_operations st"
proof -
  have other: "r \<notin> cd_id ` set (pd_rules d)"
    if "a \<noteq> AddRule i" "parsePruneObjectsDraft clock t k = (d, m)" "pe_seed st \<le> k" for t k d m
  proof (rule edited_rules_same [OF _ that(2,3)])
    have "a = UpdateRule i r patch \<or> a = RemoveRule i r" using assms(3) that(1) by blast
    then obtain d where "pe_pruneObjectsDraft st = Some d" "r \<in> set (map cd_id (pd_rules d))" using assms(2) by auto
    with reachable_shown [OF assms(1)] show "r \<in> po.made clock (pe_seed st)" unfolding shown_made_def by blast
  qed
  have kept: "\<not> pd_simpleMode d \<and> buildPruneObjectsValueText d = op_value_text p"
    if "p \<in> set (pe_operations st)" "op_id p = i" "parsePruneObjectsDraft clock (op_value_text p) k = (d, m)" for p k d m
    using kept_prune_draft [OF _ that(3)] assms(4) that(1,2) by blast
  from assms(3) consider "a = UpdateRule i r patch" | "a = RemoveRule i r" | "a = AddRule i" by blast
  then show ?thesis
  proof cases
    case 1
    then have "change_condition r patch (pd_rules d) = pd_rules d"
      if "parsePruneObjectsDraft clock t k = (d, m)" "pe_seed st \<le> k" for t k d m
      using other [OF _ that] by (auto simp: change_condition_def intro!: map_idI)
    then show ?thesis
      using kept unfolding perform_operations 1 handle.simps updatePruneRule_def by (intro draft_update_same) simp
  next
    case 2
    then have "filter (\<lambda>c. cd_id c \<noteq> r) (pd_rules d) = pd_rules d"
      if "parsePruneObjectsDraft clock t k = (d, m)" "pe_seed st \<le> k" for t k d m
      using other [OF _ that] by (auto intro!: filter_True)
    then show ?thesis
      using kept unfolding perform_operations 2 handle.simps removePruneRule_def by (intro draft_update_same) simp
  next
    case 3
    have "k \<le> snd (normalizePruneRule clock v k)" for k v by (simp add: normalizePruneRule_def nextLocalId_def)
    then show ?thesis
      using kept unfolding perform_operations 3 handle.simps addPruneRule_def
      by (intro draft_update_same) (simp add: split_def Let_def added_rule_dropped)
  qed
qed

definition pruning_text :: jsstr where
  "pruning_text = js ''{\"operations\":[{\"mode\":\"prune_objects\",\"value\":{\"conditions\":[{\"path\":\"a\",\"mode\":\"full\"}]}}]}''"

definition po_pruning :: PoEditor where
  "po_pruning = po_perform po_zero (Render True) (the (open_editor po_zero pruning_text 0))"

lemma po_pruning_eval:
  "open_editor po_zero pruning_text 0 \<noteq> None"
  "map_option (\<lambda>d. map cd_id (pd_rules d)) (pe_pruneObjectsDraft po_pruning) = Some [local_id po_zero 2]"
  "list_all (\<lambda>p. kept_prune po_zero (op_value_text p)) (pe_operations po_pruning)"
  by code_simp+

theorem prune_edit_lost_witness:
  "pe_operations (po_perform po_zero (RemoveRule (pe_selectedOperationId po_pruning) (local_id po_zero 2)) po_pruning) =
     pe_operations po_pruning"
proof (rule prune_edit_lost)
  obtain st where st: "open_editor po_zero pruning_text 0 = Some st" using po_pruning_eval(1) by blast
  then have "pe_open st" by (auto simp: open_editor_def split: prod.splits option.splits)
  with po_reachable.opened [OF st] show "po_reachable po_zero po_pruning"
    unfolding po_pruning_def st option.sel by (intro po_reachable.acted) simp_all
  obtain d where "pe_pruneObjectsDraft po_pruning = Some d" "map cd_id (pd_rules d) = [local_id po_zero 2]"
    using po_pruning_eval(2) by auto
  then show "po_offered po_pruning (RemoveRule (pe_selectedOperationId po_pruning) (local_id po_zero 2))"
    by (auto simp: image_iff)
  show "\<forall>p \<in> set (pe_operations po_pruning). op_id p = pe_selectedOperationId po_pruning \<longrightarrow> kept_prune po_zero (op_value_text p)"
    using po_pruning_eval(3) by (simp add: list_all_iff)
qed simp

text \<open>The button of the advanced form has no effect on a pruning rule that has a type: the saved
  object holds only the type, and it is shown in the simple form again.\<close>

theorem prune_advanced_reverts:
  assumes "t \<noteq> []" and "trim t = t" and "wide t"
  shows "parsePruneObjectsDraft clock
      (buildPruneObjectsValueText (patch_prune (Prune_simple False) (prune_defaults\<lparr>pd_typeText := t\<rparr>))) n =
    (prune_defaults\<lparr>pd_typeText := t\<rparr>, n)"
proof -
  let ?v = "jobj [(''type'', JStr t)]"
  have built: "buildPruneObjectsValueText (patch_prune (Prune_simple False) (prune_defaults\<lparr>pd_typeText := t\<rparr>)) = json_stringify ?v"
    using assms(1,2) by (simp add: buildPruneObjectsValueText_def prune_defaults_def ascii_upper_def str_or_def js_lit)
  have v: "printable ?v" using assms(3) by (simp add: printable_jobj js_not_index is_digit_def)
  have "rule_values ?v = []" by (simp add: rule_values_def prop_of_jobj)
  moreover have "prune_object_draft ?v [] = Some (prune_defaults\<lparr>pd_typeText := t\<rparr>)"
    using assms(2) by (simp add: prune_object_draft_def prop_of_jobj string_of_def json_or_def jstr_def prune_defaults_def
        ascii_upper_def js_lit)
  moreover obtain ps where "?v = JObj ps" by (simp add: jobj_def)
  ultimately show ?thesis
    using json_roundtrip [OF v] json_stringify_not_Nil [OF v]
    unfolding built by (simp add: parsePruneObjectsDraft_def trim_json_stringify del: json_stringify.simps)
qed

theorem prune_advanced_reverts_witness:
  "parsePruneObjectsDraft po_zero (buildPruneObjectsValueText
      (patch_prune (Prune_simple False) (prune_defaults\<lparr>pd_typeText := js ''thinking''\<rparr>))) 3 =
    (prune_defaults\<lparr>pd_typeText := js ''thinking''\<rparr>, 3)"
  by (rule prune_advanced_reverts) (simp_all add: js_lit js_eval)

section \<open>Quoted values\<close>

text \<open>A value typed as a quoted JSON string is saved as that string, but it is shown without its
  quotes, and if it then reads as another JSON value, that value is what the next save writes.\<close>

theorem quoted_value_changes:
  assumes "wide s" and "trim s = s" and "s \<noteq> []" and "json_parse s = Some v"
  shows "parseLooseValue (json_quote s) = JStr s \<and> parseLooseValue (resaved (json_quote s)) = v"
proof -
  have "json_quote s = json_stringify (JStr s)" by simp
  then have "trim (json_quote s) = json_quote s" using trim_json_stringify [of "JStr s"] by simp
  moreover have "json_parse (json_quote s) = Some (JStr s)" using assms(1) by (intro json_parse_quote) (simp add: wide_def)
  ultimately have "parseLooseValue (json_quote s) = JStr s" by (simp add: parseLooseValue_def json_quote_def)
  with assms(2-4) show ?thesis by (simp add: toValueText_def parseLooseValue_def)
qed

theorem quoted_value_changes_witness:
  "parseLooseValue (js ''\"true\"'') = JStr (js ''true'') \<and> parseLooseValue (resaved (js ''\"true\"'')) = JBool True"
proof -
  have q: "json_quote (js ''true'') = js ''\"true\"''" by code_simp
  have p: "json_parse (js ''true'') = Some (JBool True)" and t: "trim (js ''true'') = js ''true''" by code_simp+
  have ne: "js ''true'' \<noteq> []" by simp
  from quoted_value_changes [OF wide_js t ne p] show ?thesis unfolding q .
qed

section \<open>Texts that cannot be opened\<close>

text \<open>An operation that can be read: neither it nor one of its conditions is \<open>null\<close>, and its logic
  has a string form.\<close>

definition readable :: "json \<Rightarrow> bool" where
  "readable v \<longleftrightarrow> v \<noteq> JNull \<and> \<not> str_throws (json_or (prop_of ''logic'' v) (jstr ''OR'')) \<and>
     (case prop_of ''conditions'' v of Some (JArr cs) \<Rightarrow> JNull \<notin> set cs | _ \<Rightarrow> True)"

lemma numbered_None:
  assumes "\<And>x n. fst (f x n) = None \<longleftrightarrow> \<not> P x"
  shows "fst (numbered f xs n) = None \<longleftrightarrow> \<not> list_all P xs"
proof (induction xs arbitrary: n)
  case (Cons x xs)
  obtain r m where r: "f x n = (r, m)" by fastforce
  obtain q k where q: "numbered f xs m = (q, k)" by fastforce
  have "q = None \<longleftrightarrow> \<not> list_all P xs" using Cons.IH [of m] q by simp
  moreover have "r = None \<longleftrightarrow> \<not> P x" using assms [of x n] r by simp
  ultimately show ?case using r q by (auto split: option.splits)
qed simp

lemma numbered_conditions_None: "fst (numbered (normalizeCondition_override clock) cs n) = None \<longleftrightarrow> JNull \<in> set cs"
  by (subst numbered_None [where P = "\<lambda>c. c \<noteq> JNull"]) (auto simp: normalizeCondition_eq list_all_iff)

lemma normalizeOperation_None: "fst (normalizeOperation clock v n) = None \<longleftrightarrow> \<not> readable v"
proof -
  have "fst (case numbered (normalizeCondition_override clock) cs k of (r, m) \<Rightarrow> (map_option f r, m)) = None \<longleftrightarrow> JNull \<in> set cs" for cs k and f :: "_ \<Rightarrow> ParamOverrideOperation"
    using numbered_conditions_None [of clock cs k] by (cases "numbered (normalizeCondition_override clock) cs k") simp
  then show ?thesis
    by (auto simp: normalizeOperation_def readable_def nextLocalId_def split: option.splits json.splits)
qed

lemma numbered_operations_None: "fst (numbered (normalizeOperation clock) vs n) = None \<longleftrightarrow> \<not> list_all readable vs"
  by (rule numbered_None) (rule normalizeOperation_None)

text \<open>C39: Opening the dialog throws exactly on texts of an object whose list of operations has one that
  is \<open>null\<close>, has a condition that is \<open>null\<close> or a logic without a string form; on every other text it
  shows a state.\<close>

theorem open_throws:
  "open_editor clock v n = None \<longleftrightarrow>
     (\<exists>w vs. json_parse (trim v) = Some w \<and> trim v \<noteq> [] \<and> prop_of ''operations'' w = Some (JArr vs) \<and> \<not> list_all readable vs)"
proof -
  have none: "open_editor clock v n = None \<longleftrightarrow> fst (parseInitialState clock v n) = None"
    by (auto simp: open_editor_def split: prod.splits option.splits)
  have ops: "fst (operations_or_default clock vs n) = None \<longleftrightarrow> \<not> list_all readable vs" for vs
    by (auto simp: operations_or_default_def numbered_operations_None split: prod.splits)
  show ?thesis
  proof (cases "\<exists>w vs. trim v \<noteq> [] \<and> json_parse (trim v) = Some w \<and> prop_of ''operations'' w = Some (JArr vs)")
    case True
    then obtain w vs where w: "trim v \<noteq> []" "json_parse (trim v) = Some w" "prop_of ''operations'' w = Some (JArr vs)" by blast
    then have "fst (parseInitialState clock v n) = None \<longleftrightarrow> fst (operations_or_default clock vs n) = None"
      by (auto simp: parseInitialState_def Let_def split: prod.splits)
    with w none ops show ?thesis by simp
  next
    case False
    then have "fst (parseInitialState clock v n) \<noteq> None"
      by (auto simp: parseInitialState_def Let_def split: prod.splits option.splits json.splits)
    with none False show ?thesis by blast
  qed
qed

end
