(* ===== verification/Param_Override_Tabs.thy ===== *)
theory Param_Override_Tabs
  imports Param_Override_Lost
begin

text \<open>
  The visual form and the JSON tab of the parameter override editor agree, and every template can be
  saved.
\<close>

section \<open>The two tabs\<close>

lemma switch_like_open:
  assumes "pe_editMode st = JsonTab" and "trim (pe_jsonText st) \<noteq> []"
    and "parseInitialState clock (pe_jsonText st) (pe_seed st) = (Some es, n')"
    and "es_editMode es = VisualTab" and "es_visualMode es = OperationsForm"
  shows "pe_editMode (switchToVisualMode_override clock st) = VisualTab \<and> pe_visualMode (switchToVisualMode_override clock st) = OperationsForm \<and>
    pe_operations (switchToVisualMode_override clock st) = es_operations es"
proof -
  obtain v where v: "json_parse (trim (pe_jsonText st)) = Some v"
    using assms by (auto simp: parseInitialState_def Let_def split: prod.splits option.splits)
  have "\<exists>vs. prop_of ''operations'' v = Some (JArr vs)"
  proof (rule ccontr)
    assume no: "\<nexists>vs. prop_of ''operations'' v = Some (JArr vs)"
    have "(case prop_of ''operations'' v of Some (JArr vs) \<Rightarrow> f vs | _ \<Rightarrow> g) = g" for f :: "json list \<Rightarrow> EditorState option \<times> nat" and g
      using no by (auto split: option.split json.split)
    with assms(2-5) v show False
      by (cases v) (auto simp: parseInitialState_def Let_def split: prod.splits)
  qed
  then obtain vs where vs: "prop_of ''operations'' v = Some (JArr vs)" by blast
  then have "operations_or_default clock vs (pe_seed st) = (Some (es_operations es), n')"
    using assms(2,3) v by (auto simp: parseInitialState_def Let_def split: prod.splits)
  with assms(1,2) v vs show ?thesis by (simp add: switchToVisualMode_override_def)
qed

text \<open>Going from valid operations to the JSON tab and back shows the same operations in their saved
  form: nothing but blank operations and unused fields is lost.\<close>

theorem tabs_roundtrip:
  assumes "po_reachable clock st" and "pe_editMode st = VisualTab" and "pe_visualMode st = OperationsForm"
    and "save_result st = Inr saved" and "saved \<noteq> []" and "\<forall>p \<in> set (pe_operations st). texts_ok p"
  shows "pe_editMode (handle clock ToVisual (handle clock ToJson st)) = VisualTab \<and>
    map anon (pe_operations (handle clock ToVisual (handle clock ToJson st))) =
      map (\<lambda>p. anon (saved_operation p)) (nonblank (pe_operations st))"
proof -
  have modes: "\<forall>p \<in> set (pe_operations st). modes_ok p" using po_reachable_ok [OF assms(1)] by (simp add: po_ok_def)
  have visual: "buildVisualJson st = Inr saved" using assms(2,4) by (simp add: save_result_def)
  then have built: "buildOperationsJson (pe_operations st) True = Inr saved" using assms(3) by (simp add: buildVisualJson_def)
  let ?st = "switchToJsonMode_override st"
  have st: "pe_editMode ?st = JsonTab" "pe_jsonText ?st = saved" "pe_seed ?st = pe_seed st"
    using assms(2) visual by (simp_all add: switchToJsonMode_override_def)
  obtain qs n' where qs: "parseInitialState clock saved (pe_seed st) =
      (Some \<lparr>es_editMode = VisualTab, es_visualMode = OperationsForm, es_legacyValue = [],
         es_operations = qs, es_jsonText = saved, es_jsonError = None\<rparr>, n')"
      "map anon qs = map (\<lambda>p. anon (saved_operation p)) (nonblank (pe_operations st))"
    using reopened [OF built assms(5)] modes assms(6) by blast
  obtain vs where "saved = json_text 2 0 (operations_json vs)"
    using built assms(5) by (auto simp: buildOperationsJson_def Let_def split: if_splits option.splits)
  then have "trim saved \<noteq> []" using assms(5) by (simp add: trim_json_text)
  with switch_like_open [of ?st clock] st qs show ?thesis by simp
qed

theorem tabs_roundtrip_witness:
  "length (pe_operations (handle po_zero ToVisual (handle po_zero ToJson po_edited))) = 1"
proof -
  obtain saved where saved: "save_result po_edited = Inr saved" "saved \<noteq> []"
    using built_ok [of "pe_operations po_edited"] po_edited_operation(3,4) json_text_not_Nil
    by (simp add: po_edited_eval save_result_def buildVisualJson_def)
  have ok: "\<forall>p \<in> set (pe_operations po_edited). texts_ok p \<and> operation_ok p"
    using po_edited_operation(1,3) by (simp add: po_edited_eval)
  then have "nonblank (pe_operations po_edited) = pe_operations po_edited" by (intro nonblank_id) blast
  moreover have "map anon (pe_operations (handle po_zero ToVisual (handle po_zero ToJson po_edited))) =
      map (\<lambda>p. anon (saved_operation p)) (nonblank (pe_operations po_edited))"
    using tabs_roundtrip [OF po_edited_reachable po_edited_eval(1,2) saved] ok by blast
  ultimately show ?thesis by (metis length_map po_edited_eval(3) length_Cons list.size(3) One_nat_def)
qed

section \<open>Templates\<close>

lemma loose_stringify: "printable v \<Longrightarrow> parseLooseValue (json_stringify v) = v"
  by (simp add: parseLooseValue_def trim_json_stringify json_stringify_not_Nil json_roundtrip)

lemma operation_ok_read: "operation_ok (read_operation i v cs) = operation_ok (read_operation [] v [])"
  by (simp add: operation_ok_def read_operation_def Let_def)

lemma numbered_reads:
  "numbered (normalizeOperation clock) vs n = (Some ops, n') \<Longrightarrow> list_all (\<lambda>v. operation_ok (read_operation [] v [])) vs \<Longrightarrow>
   \<forall>p \<in> set ops. operation_ok p"
proof (induction vs arbitrary: n ops)
  case (Cons v vs)
  obtain p m qs where p: "normalizeOperation clock v n = (Some p, m)" "numbered (normalizeOperation clock) vs m = (Some qs, n')"
      "ops = p # qs"
    using Cons.prems(1) by (auto split: prod.splits option.splits)
  obtain i cs where "p = read_operation i v cs"
    using p(1) by (auto simp: normalizeOperation_def nextLocalId_def split: if_splits option.splits json.splits prod.splits)
  with Cons.prems(2) have "operation_ok p" by (simp add: operation_ok_read [of i])
  with Cons.IH [OF p(2)] Cons.prems(2) p(3) show ?case by simp
qed auto

lemma printable_strings: "printable (JArr (map jstr hs))"
  by (simp add: jstr_def)

lemma header_list_ok:
  assumes "prop_of ''mode'' v = Some (jstr ''pass_headers'')" "prop_of ''value'' v = Some (JArr (map jstr hs))"
    and "\<exists>w \<in> set hs. trim (js w) \<noteq> []"
  shows "operation_ok (read_operation i v cs)"
proof -
  let ?x = "JArr (map jstr hs)"
  have val: "op_value_text (read_operation i v cs) = json_stringify ?x"
    by (simp only: read_operation_def assms(2) toValueText_def option.case json.case ParamOverrideOperation.simps)
  have loose: "parseLooseValue (trim (json_stringify ?x)) = ?x"
    by (simp only: trim_json_stringify loose_stringify [OF printable_strings])
  have names: "parsePassHeaderNames ?x = Some (truthy_strs (map (\<lambda>w. trim (js w)) hs))"
    by (simp add: parsePassHeaderNames_def header_names_def jstr_def list_ex_iff comp_def)
  have "truthy_strs (map (\<lambda>w. trim (js w)) hs) \<noteq> []" using assms(3) by (auto simp: truthy_strs_def filter_empty_conv)
  then obtain x xs where xs: "truthy_strs (map (\<lambda>w. trim (js w)) hs) = x # xs" by (meson neq_Nil_conv)
  have mode: "op_mode (read_operation i v cs) = js ''pass_headers''"
    by (simp add: read_operation_def assms(1) mode_field_def jstr_def OPERATION_MODE_VALUES_def OPERATION_MODE_OPTIONS_def)
  have "trim (json_stringify ?x) \<noteq> []"
    using json_stringify_not_Nil [OF printable_strings] by (simp only: trim_json_stringify not_False_eq_True)
  then show ?thesis
    unfolding operation_ok_def Let_def mode val loose names xs
    by (simp add: FROM_REQUIRED_MODES_def TO_REQUIRED_MODES_def inj_js meta_of_def MODE_META_def no_meta_def)
qed

lemmas template_defs = OPERATION_TEMPLATE_def HEADER_PASSTHROUGH_TEMPLATE_def GEMINI_IMAGE_4K_TEMPLATE_def
  CLAUDE_CLI_HEADER_PASSTHROUGH_TEMPLATE_def CODEX_CLI_HEADER_PASSTHROUGH_TEMPLATE_def
  AWS_BEDROCK_ANTHROPIC_COMPAT_TEMPLATE_def buildPassHeadersTemplate_def
  CLAUDE_CLI_HEADER_PASSTHROUGH_HEADERS_def CODEX_CLI_HEADER_PASSTHROUGH_HEADERS_def

lemma payload_operations_json [simp]: "payload_operations (operations_json vs) = vs"
  by (simp add: payload_operations_def operations_json_def prop_of_jobj)

lemma template_readable: "(l, OperationsPreset, payload) \<in> snd ` set TEMPLATE_PRESET_CONFIG \<Longrightarrow> list_all readable (payload_operations payload)"
  by (auto simp: TEMPLATE_PRESET_CONFIG_def template_defs readable_def prop_of_jobj json_or_def jstr_def jobj_def [of "[]"])
    (simp_all add: jobj_def)

lemma set_operation_ok:
  assumes "prop_of ''mode'' v = Some (jstr ''set'')" "prop_of ''path'' v = Some (jstr w)" "trim (js w) \<noteq> []"
  shows "operation_ok (read_operation i v cs)"
  using assms
  by (simp add: operation_ok_def read_operation_def Let_def mode_field_def str_field_def jstr_def inj_js
      OPERATION_MODE_VALUES_def OPERATION_MODE_OPTIONS_def FROM_REQUIRED_MODES_def TO_REQUIRED_MODES_def VALUE_REQUIRED_MODES_def)

lemma bedrock_ok: "list_all (\<lambda>v. operation_ok (read_operation [] v [])) (payload_operations AWS_BEDROCK_ANTHROPIC_COMPAT_TEMPLATE)"
proof -
  have "toValueText (Some (jobj fs)) = json_stringify (jobj fs)" for fs by (simp add: toValueText_def jobj_def)
  then have "trim (toValueText (Some (jobj fs))) \<noteq> []" for fs
    by (simp only: trim_json_stringify) (simp add: jobj_def)
  moreover have "trim (js ''anthropic-beta'') \<noteq> []" "trim (js ''tools.*.custom.input_examples'') \<noteq> []" by code_simp+
  ultimately show ?thesis
    by (simp add: AWS_BEDROCK_ANTHROPIC_COMPAT_TEMPLATE_def operation_ok_def read_operation_def Let_def mode_field_def
        str_field_def jstr_def inj_js prop_of_jobj OPERATION_MODE_VALUES_def OPERATION_MODE_OPTIONS_def FROM_REQUIRED_MODES_def
        TO_REQUIRED_MODES_def VALUE_REQUIRED_MODES_def meta_of_def MODE_META_def no_meta_def)
qed

lemma templates_ok:
  assumes "(l, OperationsPreset, payload) \<in> snd ` set TEMPLATE_PRESET_CONFIG"
  shows "list_all (\<lambda>v. operation_ok (read_operation [] v [])) (payload_operations payload)"
proof -
  have words: "trim (js ''temperature'') \<noteq> []" "trim (js ''generationConfig.imageConfig.imageSize'') \<noteq> []"
    "trim (js ''X-Request-Id'') \<noteq> []" "trim (js ''Originator'') \<noteq> []" "trim (js ''X-Stainless-Arch'') \<noteq> []"
    by code_simp+
  have "list_all (\<lambda>v. operation_ok (read_operation [] v [])) (payload_operations OPERATION_TEMPLATE)"
    by (simp only: OPERATION_TEMPLATE_def payload_operations_json list.pred_inject)
      (rule conjI [OF set_operation_ok [where w = "''temperature''"]], simp_all add: prop_of_jobj words)
  moreover have "list_all (\<lambda>v. operation_ok (read_operation [] v [])) (payload_operations GEMINI_IMAGE_4K_TEMPLATE)"
    by (simp only: GEMINI_IMAGE_4K_TEMPLATE_def payload_operations_json list.pred_inject)
      (rule conjI [OF set_operation_ok [where w = "''generationConfig.imageConfig.imageSize''"]], simp_all add: prop_of_jobj words)
  moreover have "list_all (\<lambda>v. operation_ok (read_operation [] v [])) (payload_operations HEADER_PASSTHROUGH_TEMPLATE)"
    by (simp only: HEADER_PASSTHROUGH_TEMPLATE_def payload_operations_json list.pred_inject)
      (rule conjI [OF header_list_ok [where hs = "[''X-Request-Id'']"]], simp_all add: prop_of_jobj words)
  moreover have "list_all (\<lambda>v. operation_ok (read_operation [] v [])) (payload_operations CODEX_CLI_HEADER_PASSTHROUGH_TEMPLATE)"
    by (simp only: CODEX_CLI_HEADER_PASSTHROUGH_TEMPLATE_def payload_operations_json list.pred_inject)
      (rule conjI [OF header_list_ok [where hs = CODEX_CLI_HEADER_PASSTHROUGH_HEADERS]],
        simp_all add: prop_of_jobj words CODEX_CLI_HEADER_PASSTHROUGH_HEADERS_def)
  moreover have "list_all (\<lambda>v. operation_ok (read_operation [] v [])) (payload_operations CLAUDE_CLI_HEADER_PASSTHROUGH_TEMPLATE)"
    by (simp only: CLAUDE_CLI_HEADER_PASSTHROUGH_TEMPLATE_def buildPassHeadersTemplate_def payload_operations_json list.pred_inject)
      (rule conjI [OF header_list_ok [where hs = CLAUDE_CLI_HEADER_PASSTHROUGH_HEADERS]],
        simp_all add: prop_of_jobj words CLAUDE_CLI_HEADER_PASSTHROUGH_HEADERS_def)
  ultimately show ?thesis using assms bedrock_ok by (auto simp: TEMPLATE_PRESET_CONFIG_def)
qed

lemma legacy_template_saves:
  "json_parse (trim (json_text 2 0 LEGACY_TEMPLATE)) = Some LEGACY_TEMPLATE" "json_text 2 0 LEGACY_TEMPLATE \<noteq> []"
proof -
  have "number_reads_back (Fin 0)" "number_reads_back (Fin 1000)"
    using nat_reads_back [of 0] nat_reads_back [of 1000] by simp_all
  then have "printable LEGACY_TEMPLATE"
    by (simp add: LEGACY_TEMPLATE_def printable_jobj jint_def js_not_index is_digit_def)
  then show "json_parse (trim (json_text 2 0 LEGACY_TEMPLATE)) = Some LEGACY_TEMPLATE"
    by (simp add: trim_json_text json_text_roundtrip)
  show "json_text 2 0 LEGACY_TEMPLATE \<noteq> []" by (simp add: LEGACY_TEMPLATE_def jobj_def bracketed_def)
qed

lemma template_save_result:
  assumes "pe_templatePresetKey st \<in> fst ` set TEMPLATE_PRESET_CONFIG"
  shows "\<exists>saved. save_result (fillTemplate clock Fill st) = Inr saved \<and> saved \<noteq> []"
proof -
  obtain l kind payload where c: "map_of TEMPLATE_PRESET_CONFIG (pe_templatePresetKey st) = Some (l, kind, payload)"
    using assms by (metis map_of_eq_None_iff not_Some_eq prod_cases3)
  have mem: "(l, kind, payload) \<in> snd ` set TEMPLATE_PRESET_CONFIG" using map_of_SomeD [OF c] by (metis image_eqI snd_conv)
  show ?thesis
  proof (cases kind)
    case LegacyPreset
    with mem have payload: "payload = LEGACY_TEMPLATE" by (auto simp: TEMPLATE_PRESET_CONFIG_def)
    obtain ps where ps: "LEGACY_TEMPLATE = JObj ps" by (simp add: LEGACY_TEMPLATE_def jobj_def)
    note saves = legacy_template_saves [unfolded ps]
    have "save_result (fillTemplate clock Fill st) = Inr (json_text 2 0 (JObj ps))"
      using saves trim_json_text [of 2 0 "JObj ps"]
      by (simp add: fillTemplate_def c LegacyPreset payload ps fill_legacy_def save_result_def buildVisualJson_def
          del: json_text.simps split: prod.split)
    with saves(2) show ?thesis by blast
  next
    case OperationsPreset
    have vs: "payload_operations payload \<noteq> []" using c template_operations OperationsPreset by blast
    obtain added n where r: "numbered (normalizeOperation clock) (payload_operations payload) (pe_seed st) = (Some added, n)"
      using numbered_operations_None [of clock "payload_operations payload" "pe_seed st"] template_readable mem OperationsPreset
      by (metis option.exhaust prod.collapse)
    have ok: "\<forall>p \<in> set added. operation_ok p \<and> modes_ok p"
      using numbered_reads [OF r] templates_ok mem OperationsPreset numbered_operation_ids [OF r] by blast
    have ne: "added \<noteq> []" using r vs by (cases "payload_operations payload") (auto split: prod.splits option.splits)
    have "save_result (fillTemplate clock Fill st) = buildOperationsJson added True"
      using ne by (simp add: fillTemplate_def c OperationsPreset r save_result_def buildVisualJson_def)
    with built_ok [OF ok ne] json_text_not_Nil show ?thesis by metis
  qed
qed

lemma kept_selection_saves [simp]:
  "save_result (keep_selection st) = save_result st" "pe_saved (keep_selection st) = pe_saved st"
  "pe_open (keep_selection st) = pe_open st"
  by (simp_all add: keep_selection_def save_result_def buildVisualJson_def)

lemma fill_keeps_saved: "pe_saved (fillTemplate clock m st) = pe_saved st"
  by (simp add: fillTemplate_def fill_legacy_def Let_def split: prod.split option.split)

text \<open>C38: In every state of the dialog, if one of the seven templates is chosen, the button that fills
  in the template followed by the button that saves passes one text to the form, which is not
  empty, and closes the dialog.\<close>

theorem templates_can_be_saved:
  assumes "pe_templatePresetKey st \<in> fst ` set TEMPLATE_PRESET_CONFIG"
  shows "\<exists>saved. saved \<noteq> [] \<and>
    pe_saved (po_perform clock SaveOverride (po_perform clock (FillTemplate Fill) st)) = pe_saved st @ [saved] \<and>
    \<not> pe_open (po_perform clock SaveOverride (po_perform clock (FillTemplate Fill) st))"
  using template_save_result [OF assms, of clock] by (auto simp: po_perform_def handleSave_def fill_keeps_saved)

theorem templates_can_be_saved_witness:
  "\<exists>saved. saved \<noteq> [] \<and>
    pe_saved (po_perform po_zero SaveOverride (po_perform po_zero (FillTemplate Fill)
      (po_blank\<lparr>pe_templatePresetKey := js ''gemini_image_4k''\<rparr>))) = pe_saved po_blank @ [saved] \<and>
    \<not> pe_open (po_perform po_zero SaveOverride (po_perform po_zero (FillTemplate Fill)
      (po_blank\<lparr>pe_templatePresetKey := js ''gemini_image_4k''\<rparr>)))"
  using templates_can_be_saved [of "po_blank\<lparr>pe_templatePresetKey := js ''gemini_image_4k''\<rparr>" po_zero]
  by (simp add: TEMPLATE_PRESET_CONFIG_def)

end
