(* ===== verification/Tiered_Editor.thy ===== *)
theory Tiered_Editor
  imports Billing_Roundtrip Billing_Tiers_Props
begin

text \<open>
  The editor of tiered prices
  (\<open>src/web/default/src/features/system-settings/models/tiered-pricing-editor.tsx\<close>), which
  composes the tiers and the request rules of a billing expression: number inputs with a draft,
  the handlers of tiers, conditions and rules, the presets, the estimator, and the component itself
  as a state machine. The two expressions are properties that the surrounding form stores; the
  effects of the component push them to the form after each rendering, and the form renders
  the component again. \<open>commit\<close> is one rendering with its effects, \<open>settle\<close> repeats it until
  nothing changes. The identity of rows for React is not part of the model.
\<close>

section \<open>Tables\<close>

definition CACHE_PRICE_VARS :: "BillingVar list" where
  "CACHE_PRICE_VARS = filter (\<lambda>v. bv_group v = Some ''cache'') BILLING_EXTRA_VARS"

definition MEDIA_PRICE_VARS :: "BillingVar list" where
  "MEDIA_PRICE_VARS = filter (\<lambda>v. bv_group v = Some ''media'') BILLING_EXTRA_VARS"

definition CONDITION_INPUT_OPTIONS :: "(jsstr \<times> string) list" where
  "CONDITION_INPUT_OPTIONS =
     [(js ''len'', ''Full input length''), (js ''p'', ''Billable input tokens''), (js ''c'', ''Billable output tokens'')]"

definition OPS :: "jsstr list" where
  "OPS = [js ''<'', js ''<='', js ''>'', js ''>='']"

record Preset =
  pr_key :: string
  pr_label :: string
  pr_expr :: jsstr
  pr_requestRules :: "RequestRuleGroup list option"

definition plain_preset :: "string \<Rightarrow> string \<Rightarrow> string \<Rightarrow> Preset" where
  "plain_preset key label expr = \<lparr>pr_key = key, pr_label = label, pr_expr = js expr, pr_requestRules = None\<rparr>"

definition rule_preset :: "string \<Rightarrow> string \<Rightarrow> string \<Rightarrow> (RequestCondition \<times> string) list \<Rightarrow> Preset" where
  "rule_preset key label expr rules = \<lparr>pr_key = key, pr_label = label, pr_expr = js expr,
     pr_requestRules = Some (map (\<lambda>(c, m). \<lparr>grp_conditions = [c], grp_multiplier = js m\<rparr>) rules)\<rparr>"

definition time_preset :: "string \<Rightarrow> jsstr \<Rightarrow> string \<Rightarrow> string \<Rightarrow> string \<Rightarrow> RequestCondition" where
  "time_preset timeFunc mode v start stop = CTime \<lparr>tc_timeFunc = js timeFunc, tc_timezone = js ''Asia/Shanghai'',
     tc_mode = mode, tc_value = js v, tc_rangeStart = js start, tc_rangeEnd = js stop\<rparr>"

definition PRESET_GROUPS :: "(string \<times> Preset list) list" where
  "PRESET_GROUPS =
     [(''Fixed price'',
       [plain_preset ''flat'' ''Flat'' ''tier(\"base\", p * 2 + c * 4)'',
        plain_preset ''claude-opus'' ''Claude Opus 4.6''
          ''tier(\"base\", p * 5 + c * 25 + cr * 0.5 + cc * 6.25 + cc1h * 10)'',
        plain_preset ''gpt-5.4'' ''GPT-5.4''
          ''len <= 272000 ? tier(\"standard\", p * 2.5 + c * 15 + cr * 0.25) : tier(\"long_context\", p * 5 + c * 22.5 + cr * 0.5)'']),
      (''Tiered'',
       [plain_preset ''claude-sonnet'' ''Claude Sonnet 4.5''
          ''len <= 200000 ? tier(\"standard\", p * 3 + c * 15 + cr * 0.3 + cc * 3.75 + cc1h * 6) : tier(\"long_context\", p * 6 + c * 22.5 + cr * 0.6 + cc * 7.5 + cc1h * 12)'',
        plain_preset ''qwen3-max'' ''Qwen3 Max''
          ''len <= 32000 ? tier(\"short\", p * 1.2 + c * 6 + cr * 0.24 + cc * 1.5) : len <= 128000 ? tier(\"mid\", p * 2.4 + c * 12 + cr * 0.48 + cc * 3) : tier(\"long\", p * 3 + c * 15 + cr * 0.6 + cc * 3.75)'',
        plain_preset ''glm-4.5-air'' ''GLM-4.5 Air''
          ''len < 32000 && c < 200 ? tier(\"short_output\", p * 0.8 + c * 2 + cr * 0.16) : len < 32000 && c >= 200 ? tier(\"long_output\", p * 0.8 + c * 6 + cr * 0.16) : tier(\"mid_context\", p * 1.2 + c * 8 + cr * 0.24)'',
        plain_preset ''doubao-seed-1.8'' ''Doubao Seed 1.8''
          ''len <= 32000 && c <= 200 ? tier(\"discount\", p * 0.8 + c * 2 + cr * 0.16 + cc * 0.17) : len <= 32000 ? tier(\"short\", p * 0.8 + c * 8 + cr * 0.16 + cc * 0.17) : len <= 128000 ? tier(\"mid\", p * 1.2 + c * 16 + cr * 0.16 + cc * 0.17) : tier(\"long\", p * 2.4 + c * 24 + cr * 0.16 + cc * 0.17)'']),
      (''Multimodal'',
       [plain_preset ''gpt-image-1-mini'' ''GPT Image 1 Mini'' ''tier(\"base\", p * 2 + c * 8 + img * 2.5)'',
        plain_preset ''gemini-2.5-flash'' ''Gemini 2.5 Flash'' ''tier(\"base\", p * 0.3 + c * 2.5 + cr * 0.03 + ai * 1.0)'',
        plain_preset ''gemini-3-pro-image'' ''Gemini 3 Pro Image'' ''tier(\"base\", p * 2 + c * 12 + img_o * 120)'',
        plain_preset ''qwen3-omni-flash'' ''Qwen3 Omni Flash''
          ''tier(\"base\", p * 0.43 + c * 3.06 + img * 0.78 + ai * 3.81 + ao * 15.11)'']),
      (''Request rule'',
       [rule_preset ''claude-opus-fast'' ''Claude Opus 4.6 Fast''
          ''tier(\"base\", p * 5 + c * 25 + cr * 0.5 + cc * 6.25 + cc1h * 10)''
          [(CParamHeader \<lparr>ph_source = SOURCE_HEADER, ph_path = js ''anthropic-beta'', ph_mode = MATCH_CONTAINS,
              ph_value = js ''fast-mode-2026-02-01''\<rparr>, ''6'')],
        rule_preset ''gpt-5.4-tiers'' ''GPT-5.4 Priority/Flex''
          ''len <= 272000 ? tier(\"standard\", p * 2.5 + c * 15 + cr * 0.25) : tier(\"long_context\", p * 5 + c * 22.5 + cr * 0.5)''
          [(CParamHeader \<lparr>ph_source = SOURCE_PARAM, ph_path = js ''service_tier'', ph_mode = MATCH_EQ,
              ph_value = js ''priority''\<rparr>, ''2''),
           (CParamHeader \<lparr>ph_source = SOURCE_PARAM, ph_path = js ''service_tier'', ph_mode = MATCH_EQ,
              ph_value = js ''flex''\<rparr>, ''0.5'')]]),
      (''Time-based'',
       [rule_preset ''night-discount'' ''Night discount (50%)'' ''tier(\"base\", p * 3 + c * 15)''
          [(time_preset ''hour'' MATCH_RANGE '''' ''21'' ''6'', ''0.5'')],
        rule_preset ''weekend-discount'' ''Weekend discount (80%)'' ''tier(\"base\", p * 3 + c * 15)''
          [(time_preset ''weekday'' MATCH_EQ ''0'' '''' '''', ''0.8''),
           (time_preset ''weekday'' MATCH_EQ ''6'' '''' '''', ''0.8'')]])]"

section \<open>Number inputs\<close>

definition unitCostToPrice :: "jsnum \<Rightarrow> jsnum" where
  "unitCostToPrice uc = num_or_zero uc"

definition priceToUnitCost :: "jsnum \<Rightarrow> jsnum" where
  "priceToUnitCost price = num_or_zero price"

definition finite_number :: "jsnum \<Rightarrow> bool" where
  "finite_number x = (case x of Fin _ \<Rightarrow> True | NegZero \<Rightarrow> True | _ \<Rightarrow> False)"

text \<open>The value of an input: a number or a text. \<open>fmt\<close> is \<open>toLocaleString\<close>.\<close>

fun cond_number :: "cond_value \<Rightarrow> jsnum" where
  "cond_number (CNum x) = x"
| "cond_number (CText s) = to_number s"

definition formatTokenHint :: "(jsnum \<Rightarrow> jsstr) \<Rightarrow> cond_value option \<Rightarrow> jsstr" where
  "formatTokenHint fmt n =
     (case n of
        None \<Rightarrow> []
      | Some x \<Rightarrow>
          (let v = cond_number x in
           if x = CText [] \<or> v = NaN then []
           else if js_num_eq v (Fin 0) then js ''= 0''
           else if js_le (Fin 1000000) v then js ''= '' @ fmt (js_div v (Fin 1000000)) @ js ''M tokens''
           else if js_le (Fin 1000) v then js ''= '' @ fmt (js_div v (Fin 1000)) @ js ''K tokens''
           else js ''= '' @ fmt v @ js '' tokens''))"

fun formatNumberDraft :: "cond_value \<Rightarrow> jsstr" where
  "formatNumberDraft (CNum x) = (if finite_number x then num_str x else js ''0'')"
| "formatNumberDraft (CText s) = s"

definition parseNumberDraft :: "jsstr \<Rightarrow> jsnum" where
  "parseNumberDraft v =
     (if trim v = [] then Fin 0 else (let n = to_number v in if finite_number n then n else Fin 0))"

definition isZeroDraft :: "jsstr \<Rightarrow> bool" where
  "isZeroDraft v \<longleftrightarrow> trim v \<noteq> [] \<and> js_num_eq (parseNumberDraft v) (Fin 0)"

text \<open>
  The input keeps what is typed until it loses the focus. A handler gives the new state and the
  number passed to \<open>onValueChange\<close>.
\<close>

record DraftNumberInput =
  di_draft :: jsstr
  di_focused :: bool

definition new_input :: "cond_value \<Rightarrow> DraftNumberInput" where
  "new_input v = \<lparr>di_draft = formatNumberDraft v, di_focused = False\<rparr>"

definition input_effect :: "cond_value \<Rightarrow> DraftNumberInput \<Rightarrow> DraftNumberInput" where
  "input_effect v i = (if \<not> di_focused i then i\<lparr>di_draft := formatNumberDraft v\<rparr> else i)"

definition handleChange_input :: "jsstr \<Rightarrow> DraftNumberInput \<Rightarrow> DraftNumberInput \<times> jsnum" where
  "handleChange_input nextDraft i = (i\<lparr>di_draft := nextDraft\<rparr>, parseNumberDraft nextDraft)"

definition handleFocus :: "DraftNumberInput \<Rightarrow> DraftNumberInput" where
  "handleFocus i = i\<lparr>di_focused := True\<rparr>"

definition handleBlur :: "DraftNumberInput \<Rightarrow> DraftNumberInput \<times> jsnum" where
  "handleBlur i =
     (let normalized = parseNumberDraft (di_draft i) in
      (i\<lparr>di_focused := False, di_draft := num_str normalized\<rparr>, normalized))"

section \<open>Tiers\<close>

text \<open>The fields of a tier that hold a price.\<close>

datatype price_field = InputCost | OutputCost | ExtraCost string

fun handlePriceChange :: "price_field \<Rightarrow> jsnum \<Rightarrow> VisualTier \<Rightarrow> VisualTier" where
  "handlePriceChange InputCost v tier = tier\<lparr>vt_input_unit_cost := v\<rparr>"
| "handlePriceChange OutputCost v tier = tier\<lparr>vt_output_unit_cost := v\<rparr>"
| "handlePriceChange (ExtraCost f) v tier = tier\<lparr>vt_extra := (vt_extra tier)(f \<mapsto> v)\<rparr>"

definition handleConditionChange_tier :: "nat \<Rightarrow> TierConditionInput \<Rightarrow> VisualTier \<Rightarrow> VisualTier" where
  "handleConditionChange_tier conditionIndex c tier = tier\<lparr>vt_conditions := (vt_conditions tier)[conditionIndex := c]\<rparr>"

definition drop_nth :: "nat \<Rightarrow> 'a list \<Rightarrow> 'a list" where
  "drop_nth i xs = take i xs @ drop (Suc i) xs"

definition handleConditionRemove :: "nat \<Rightarrow> VisualTier \<Rightarrow> VisualTier" where
  "handleConditionRemove conditionIndex tier = tier\<lparr>vt_conditions := drop_nth conditionIndex (vt_conditions tier)\<rparr>"

definition handleCacheModeChange :: "jsstr \<Rightarrow> VisualTier \<Rightarrow> VisualTier" where
  "handleCacheModeChange mode tier =
     tier\<lparr>vt_cache_mode := mode, vt_extra := (vt_extra tier)(''cache_create_1h_unit_cost'' \<mapsto>
       (if mode = CACHE_MODE_TIMED then if_given (vt_extra tier ''cache_create_1h_unit_cost'') (Fin 0) else Fin 0))\<rparr>"

definition hasMediaPricing :: "VisualTier \<Rightarrow> bool" where
  "hasMediaPricing tier = list_ex (\<lambda>v.
     js_lt (Fin 0) (unitCostToPrice (if_given (vt_extra tier (the (bv_tierField v))) (Fin 0)))) MEDIA_PRICE_VARS"

text \<open>The cache price fields that are shown.\<close>

definition shown_cache_vars :: "VisualTier \<Rightarrow> BillingVar list" where
  "shown_cache_vars tier =
     filter (\<lambda>v. bv_key v \<noteq> ''cc1h'' \<or> getTierCacheMode (partial_tier tier) = CACHE_MODE_TIMED) CACHE_PRICE_VARS"

datatype tier_edit =
    TierLabel jsstr | TierCondition nat TierConditionInput | TierConditionRemove nat
  | TierPrice price_field jsnum | TierCacheMode jsstr

fun edit_tier :: "tier_edit \<Rightarrow> VisualTier \<Rightarrow> VisualTier" where
  "edit_tier (TierLabel s) tier = tier\<lparr>vt_label := s\<rparr>"
| "edit_tier (TierCondition i c) tier = handleConditionChange_tier i c tier"
| "edit_tier (TierConditionRemove i) tier = handleConditionRemove i tier"
| "edit_tier (TierPrice f v) tier = handlePriceChange f (priceToUnitCost v) tier"
| "edit_tier (TierCacheMode m) tier = handleCacheModeChange m tier"

text \<open>The handlers of the visual editor work on the normalised configuration.\<close>

definition handleTierChange :: "nat \<Rightarrow> VisualTier \<Rightarrow> VisualConfig \<Rightarrow> VisualConfig" where
  "handleTierChange index tier config = config[index := normalizeVisualTier (partial_tier tier)]"

definition default_condition :: "jsstr \<Rightarrow> TierConditionInput" where
  "default_condition v = \<lparr>ci_var = v, ci_op = js ''<'', ci_value = Some (CNum (Fin 200000))\<rparr>"

definition handleAddTier :: "VisualConfig \<Rightarrow> VisualConfig" where
  "handleAddTier config =
     (let tiers = (if config \<noteq> [] \<and> vt_conditions (last config) = []
          then butlast config @
            [normalizeVisualTier (partial_tier ((last config)\<lparr>vt_conditions := [default_condition (js ''len'')]\<rparr>))]
          else config) in
      tiers @ [normalizeVisualTier
        \<lparr>pv_label = Some (js ''tier_'' @ nat_str (length tiers + 1)), pv_conditions = Some [],
         pv_input_unit_cost = Some (Fin 0), pv_output_unit_cost = Some (Fin 0), pv_cache_mode = None,
         pv_extra = (\<lambda>_. None)\<rparr>])"

definition handleRemoveTier :: "nat \<Rightarrow> VisualConfig \<Rightarrow> VisualConfig" where
  "handleRemoveTier index config = (let tiers = drop_nth index config in if 0 < length tiers then tiers else config)"

definition handleAddCondition_tier :: "nat \<Rightarrow> VisualConfig \<Rightarrow> VisualConfig option" where
  "handleAddCondition_tier index config =
     (let tier = config ! index in
      if 2 \<le> length (vt_conditions tier) then None
      else
        (let nextVar = (if js ''len'' \<in> ci_var ` set (vt_conditions tier) then js ''c'' else js ''len'') in
         Some (config[index := tier\<lparr>vt_conditions := vt_conditions tier @ [default_condition nextVar]\<rparr>])))"

section \<open>Request rules\<close>

definition getMatchLabel :: "jsstr \<Rightarrow> jsstr" where
  "getMatchLabel mode =
     (case map_of [(MATCH_EQ, ''Equals''), (MATCH_CONTAINS, ''Contains''), (MATCH_EXISTS, ''Exists''),
        (MATCH_GT, ''Greater than''), (MATCH_GTE, ''Greater than or equal''), (MATCH_LT, ''Less than''),
        (MATCH_LTE, ''Less than or equal''), (MATCH_RANGE, ''Overnight range'')] mode of
        Some l \<Rightarrow> js l | None \<Rightarrow> mode)"

definition getTimeFuncLabel :: "jsstr \<Rightarrow> jsstr" where
  "getTimeFuncLabel timeFunc =
     (case map_of [(js ''hour'', ''Hour of day''), (js ''minute'', ''Minute''), (js ''weekday'', ''Weekday''),
        (js ''month'', ''Month number''), (js ''day'', ''Day of month'')] timeFunc of
        Some l \<Rightarrow> js l | None \<Rightarrow> timeFunc)"

fun cond_source :: "RequestCondition \<Rightarrow> jsstr" where
  "cond_source (CTime c) = SOURCE_TIME"
| "cond_source (CParamHeader c) = ph_source c"

definition sourceLabel :: "RequestCondition \<Rightarrow> string" where
  "sourceLabel c = (if cond_source c = SOURCE_PARAM then ''Body param''
     else if cond_source c = SOURCE_HEADER then ''Header'' else ''Time'')"

definition handleSourceChange :: "jsstr \<Rightarrow> RequestCondition \<Rightarrow> RequestCondition" where
  "handleSourceChange source c =
     (if source = SOURCE_TIME then CTime createEmptyTimeCondition
      else if source = SOURCE_HEADER \<or> source = SOURCE_PARAM
      then CParamHeader (createEmptyCondition\<lparr>ph_source := source\<rparr>) else c)"

fun handleModeChange_rule :: "jsstr \<Rightarrow> RequestCondition \<Rightarrow> RequestCondition" where
  "handleModeChange_rule mode (CTime c) = CTime (c\<lparr>tc_mode := mode\<rparr>)"
| "handleModeChange_rule mode (CParamHeader c) = CParamHeader (c\<lparr>ph_mode := mode\<rparr>)"

text \<open>The edits of a row; a time condition has number inputs, the other ones text inputs.\<close>

datatype cond_edit =
    CondSource jsstr | CondMode jsstr | CondTimeFunc jsstr | CondTimezone jsstr | CondNumber jsnum
  | CondStart jsnum | CondEnd jsnum | CondPath jsstr | CondText jsstr

fun edit_condition :: "cond_edit \<Rightarrow> RequestCondition \<Rightarrow> RequestCondition" where
  "edit_condition (CondSource s) c = handleSourceChange s c"
| "edit_condition (CondMode m) c = handleModeChange_rule m c"
| "edit_condition (CondTimeFunc f) (CTime c) = CTime (c\<lparr>tc_timeFunc := f\<rparr>)"
| "edit_condition (CondTimezone z) (CTime c) = CTime (c\<lparr>tc_timezone := z\<rparr>)"
| "edit_condition (CondNumber x) (CTime c) = CTime (c\<lparr>tc_value := num_str x\<rparr>)"
| "edit_condition (CondStart x) (CTime c) = CTime (c\<lparr>tc_rangeStart := num_str x\<rparr>)"
| "edit_condition (CondEnd x) (CTime c) = CTime (c\<lparr>tc_rangeEnd := num_str x\<rparr>)"
| "edit_condition (CondPath s) (CParamHeader c) = CParamHeader (c\<lparr>ph_path := s\<rparr>)"
| "edit_condition (CondText s) (CParamHeader c) = CParamHeader (c\<lparr>ph_value := s\<rparr>)"
| "edit_condition _ c = c"

definition handleConditionChange_rule :: "nat \<Rightarrow> RequestCondition \<Rightarrow> RequestRuleGroup \<Rightarrow> RequestRuleGroup" where
  "handleConditionChange_rule conditionIndex c g = g\<lparr>grp_conditions := (grp_conditions g)[conditionIndex := c]\<rparr>"

definition handleAddCondition_rule :: "bool \<Rightarrow> RequestRuleGroup \<Rightarrow> RequestRuleGroup" where
  "handleAddCondition_rule timeMode g = g\<lparr>grp_conditions := grp_conditions g @
     [if timeMode then CTime createEmptyTimeCondition else CParamHeader createEmptyCondition]\<rparr>"

datatype group_edit =
    GroupCondition nat cond_edit | GroupConditionRemove nat | GroupConditionAdd bool | GroupMultiplier jsnum

fun edit_group :: "group_edit \<Rightarrow> RequestRuleGroup \<Rightarrow> RequestRuleGroup" where
  "edit_group (GroupCondition i ce) g = handleConditionChange_rule i (edit_condition ce (grp_conditions g ! i)) g"
| "edit_group (GroupConditionRemove i) g = g\<lparr>grp_conditions := drop_nth i (grp_conditions g)\<rparr>"
| "edit_group (GroupConditionAdd b) g = handleAddCondition_rule b g"
| "edit_group (GroupMultiplier x) g = g\<lparr>grp_multiplier := num_str x\<rparr>"

section \<open>The estimator\<close>

record CostEstimator =
  ce_promptTokens :: jsnum
  ce_completionTokens :: jsnum
  ce_extras :: "string \<Rightarrow> jsnum"

definition new_estimator :: CostEstimator where
  "new_estimator = \<lparr>ce_promptTokens = Fin 0, ce_completionTokens = Fin 0, ce_extras = (\<lambda>_. Fin 0)\<rparr>"

text \<open>\<open>field.replace('Price', 'Tokens')\<close>: every field ends in \<open>Price\<close>.\<close>

definition stateKey :: "string \<Rightarrow> string" where
  "stateKey fld = take (length fld - 5) fld @ ''Tokens''"

definition estimator_inputs :: "jsstr \<Rightarrow> (string \<times> string) list" where
  "estimator_inputs effectiveExpr =
     (if exprUsesExtraVars effectiveExpr
      then List.map_filter (\<lambda>v. map_option (\<lambda>f. (bv_key v, stateKey f)) (bv_field v)) BILLING_EXTRA_VARS else [])"

definition estimate ::
    "(jsstr \<Rightarrow> (string \<times> jsnum) list \<Rightarrow> jsstr + jsnum \<times> jsstr) \<Rightarrow> jsstr \<Rightarrow> CostEstimator \<Rightarrow> EvalResult" where
  "estimate run effectiveExpr est =
     evalExprLocally run effectiveExpr (ce_promptTokens est) (ce_completionTokens est) (ce_extras est)"

section \<open>The component\<close>

datatype EditorMode = VisualMode | RawMode

text \<open>
  The properties, the state, \<open>initRef\<close>, and for the two effects that have a cause to
  skip the dependencies they last ran with.
\<close>

record TpEditor =
  tp_modelName :: jsstr
  tp_currentExpr :: jsstr
  tp_currentRequestRuleExpr :: jsstr
  tp_editorMode :: EditorMode
  tp_visualConfig :: "VisualConfig option"
  tp_rawExpr :: jsstr
  tp_requestRuleGroups :: "RequestRuleGroup list"
  tp_initRef :: bool
  tp_initDeps :: "(jsstr \<times> jsstr) option"
  tp_nameDep :: "jsstr option"

text \<open>\<open>tryParseRequestRuleExpr(e) || []\<close>\<close>

definition groups_or_none :: "jsstr \<Rightarrow> js_error + RequestRuleGroup list" where
  "groups_or_none e = map_sum (\<lambda>x. x) (\<lambda>r. if_given r []) (tryParseRequestRuleExpr e)"

definition first_render :: "jsstr \<Rightarrow> jsstr \<Rightarrow> jsstr \<Rightarrow> js_error + TpEditor" where
  "first_render modelName e r =
     map_sum (\<lambda>x. x) (\<lambda>gs. \<lparr>tp_modelName = modelName, tp_currentExpr = e, tp_currentRequestRuleExpr = r,
       tp_editorMode = VisualMode, tp_visualConfig = tryParseVisualConfig (Some e),
       tp_rawExpr = combineBillingExpr e r, tp_requestRuleGroups = gs, tp_initRef = False,
       tp_initDeps = None, tp_nameDep = None\<rparr>) (groups_or_none r)"

definition canUseVisualRules :: "TpEditor \<Rightarrow> js_error + bool" where
  "canUseVisualRules st =
     (if tp_currentRequestRuleExpr st = [] then Inr True
      else map_sum (\<lambda>x. x) (\<lambda>r. r \<noteq> None) (tryParseRequestRuleExpr (tp_currentRequestRuleExpr st)))"

definition effectiveExpr :: "TpEditor \<Rightarrow> js_error + jsstr" where
  "effectiveExpr st =
     (if tp_editorMode st = VisualMode then Inr (generateExprFromVisualConfig (tp_visualConfig st))
      else map_sum (\<lambda>x. x) split_billingExpr (splitBillingExprAndRequestRules (tp_rawExpr st)))"

text \<open>The body of the effect that initialises the state from the properties.\<close>

definition initialise :: "TpEditor \<Rightarrow> js_error + TpEditor" where
  "initialise st =
     (let e = tp_currentExpr st; r = tp_currentRequestRuleExpr st;
          st' = (case tryParseVisualConfig (Some e) of
              Some parsedConfig \<Rightarrow> st\<lparr>tp_visualConfig := Some parsedConfig, tp_editorMode := VisualMode\<rparr>
            | None \<Rightarrow> if e \<noteq> [] then st\<lparr>tp_visualConfig := None, tp_editorMode := RawMode\<rparr>
                else st\<lparr>tp_visualConfig := Some createDefaultVisualConfig\<rparr>) in
      map_sum (\<lambda>x. x) (\<lambda>gs. st'\<lparr>tp_initRef := True, tp_rawExpr := combineBillingExpr e r, tp_requestRuleGroups := gs\<rparr>)
        (groups_or_none r))"

definition init_due :: "TpEditor \<Rightarrow> bool" where
  "init_due st \<longleftrightarrow>
     tp_initDeps st \<noteq> Some (tp_currentExpr st, tp_currentRequestRuleExpr st) \<and> \<not> tp_initRef st"

text \<open>The request rules after the fourth effect.\<close>

definition pushed_rules :: "TpEditor \<Rightarrow> jsstr" where
  "pushed_rules st = (if tp_editorMode st = VisualMode then buildRequestRuleExpr (tp_requestRuleGroups st)
     else tp_currentRequestRuleExpr st)"

text \<open>
  One rendering and its four effects, in their order. Every effect sees the values of the rendering,
  and the updates they make are applied together. The flag says whether a state or a
  property was set, so that the component is rendered again; an exception unmounts it.
\<close>

definition commit :: "TpEditor \<Rightarrow> js_error + bool \<times> TpEditor" where
  "commit st =
     (case canUseVisualRules st of
        Inl e \<Rightarrow> Inl e
      | Inr _ \<Rightarrow>
          (case effectiveExpr st of
             Inl e \<Rightarrow> Inl e
           | Inr eff \<Rightarrow>
               (case (if init_due st then initialise st else Inr st) of
                  Inl e \<Rightarrow> Inl e
                | Inr st1 \<Rightarrow>
                    (let st2 = st1\<lparr>tp_initDeps := Some (tp_currentExpr st, tp_currentRequestRuleExpr st),
                           tp_initRef := (tp_initRef st1 \<and> tp_nameDep st = Some (tp_modelName st)),
                           tp_nameDep := Some (tp_modelName st)\<rparr> in
                     Inr (init_due st \<or> eff \<noteq> tp_currentExpr st \<or> pushed_rules st \<noteq> tp_currentRequestRuleExpr st,
                       st2\<lparr>tp_currentExpr := eff, tp_currentRequestRuleExpr := pushed_rules st\<rparr>)))))"

fun settle :: "nat \<Rightarrow> TpEditor \<Rightarrow> (js_error + TpEditor) option" where
  "settle 0 st = None"
| "settle (Suc n) st =
     (case commit st of
        Inl e \<Rightarrow> Some (Inl e)
      | Inr (again, st') \<Rightarrow> if again then settle n st' else Some (Inr st'))"

text \<open>Five renderings are enough after anything that happens (\<open>settles\<close>).\<close>

definition open_tiered :: "jsstr \<Rightarrow> jsstr \<Rightarrow> jsstr \<Rightarrow> (js_error + TpEditor) option" where
  "open_tiered modelName e r =
     (case first_render modelName e r of Inl x \<Rightarrow> Some (Inl x) | Inr st \<Rightarrow> settle 5 st)"

section \<open>Handlers\<close>

definition handleVisualChange :: "VisualConfig \<Rightarrow> TpEditor \<Rightarrow> TpEditor" where
  "handleVisualChange config st = st\<lparr>tp_visualConfig := Some config\<rparr>"

text \<open>If the split throws, the text has been set and the rules have not.\<close>

definition handleRawChange :: "jsstr \<Rightarrow> TpEditor \<Rightarrow> TpEditor" where
  "handleRawChange v st =
     (case splitBillingExprAndRequestRules v of
        Inl e \<Rightarrow> st\<lparr>tp_rawExpr := v\<rparr>
      | Inr parts \<Rightarrow> st\<lparr>tp_rawExpr := v, tp_currentRequestRuleExpr := split_requestRuleExpr parts\<rparr>)"

definition handleModeChange :: "EditorMode \<Rightarrow> TpEditor \<Rightarrow> TpEditor" where
  "handleModeChange mode st =
     (case mode of
        VisualMode \<Rightarrow>
          (case splitBillingExprAndRequestRules (tp_rawExpr st) of
             Inl e \<Rightarrow> st
           | Inr parts \<Rightarrow>
               (let st' = st\<lparr>tp_visualConfig :=
                      Some (if_given (tryParseVisualConfig (Some (split_billingExpr parts))) createDefaultVisualConfig)\<rparr> in
                case groups_or_none (split_requestRuleExpr parts) of
                  Inl e \<Rightarrow> st'
                | Inr gs \<Rightarrow> st'\<lparr>tp_requestRuleGroups := gs,
                    tp_currentRequestRuleExpr := split_requestRuleExpr parts, tp_editorMode := VisualMode\<rparr>))
      | RawMode \<Rightarrow>
          (let expr = generateExprFromVisualConfig (tp_visualConfig st);
               ruleExpr = buildRequestRuleExpr (tp_requestRuleGroups st) in
           st\<lparr>tp_rawExpr := str_or (combineBillingExpr expr ruleExpr) expr, tp_editorMode := RawMode\<rparr>))"

definition applyPreset :: "Preset \<Rightarrow> TpEditor \<Rightarrow> TpEditor" where
  "applyPreset preset st =
     (let presetGroups = if_given (pr_requestRules preset) [];
          ruleExpr = buildRequestRuleExpr presetGroups;
          combined = str_or (combineBillingExpr (pr_expr preset) ruleExpr) (pr_expr preset);
          st' = (case tryParseVisualConfig (Some (pr_expr preset)) of
              Some parsed \<Rightarrow> st\<lparr>tp_visualConfig := Some parsed, tp_editorMode := VisualMode\<rparr>
            | None \<Rightarrow> st\<lparr>tp_visualConfig := None, tp_editorMode := RawMode\<rparr>) in
      st'\<lparr>tp_rawExpr := combined, tp_requestRuleGroups := presetGroups, tp_currentRequestRuleExpr := ruleExpr\<rparr>)"

definition handleRuleGroupsChange :: "RequestRuleGroup list \<Rightarrow> TpEditor \<Rightarrow> TpEditor" where
  "handleRuleGroupsChange groups st = st\<lparr>tp_requestRuleGroups := groups\<rparr>"

datatype tp_action =
    EditTier nat tier_edit | AddTier | RemoveTier nat | AddTierCondition nat
  | EditGroup nat group_edit | AddGroup | RemoveGroup nat
  | TypeRaw jsstr | ChangeMode EditorMode | ApplyPreset Preset | RenameModel jsstr

definition shown_config :: "TpEditor \<Rightarrow> VisualConfig" where
  "shown_config st = normalizeVisualConfig (tp_visualConfig st)"

fun tp_handle :: "tp_action \<Rightarrow> TpEditor \<Rightarrow> TpEditor" where
  "tp_handle (EditTier i ed) st =
     handleVisualChange (handleTierChange i (edit_tier ed (shown_config st ! i)) (shown_config st)) st"
| "tp_handle AddTier st = handleVisualChange (handleAddTier (shown_config st)) st"
| "tp_handle (RemoveTier i) st = handleVisualChange (handleRemoveTier i (shown_config st)) st"
| "tp_handle (AddTierCondition i) st =
     (case handleAddCondition_tier i (shown_config st) of None \<Rightarrow> st | Some c \<Rightarrow> handleVisualChange c st)"
| "tp_handle (EditGroup i ed) st =
     handleRuleGroupsChange ((tp_requestRuleGroups st)[i := edit_group ed (tp_requestRuleGroups st ! i)]) st"
| "tp_handle AddGroup st = handleRuleGroupsChange (tp_requestRuleGroups st @ [createEmptyRuleGroup]) st"
| "tp_handle (RemoveGroup i) st = handleRuleGroupsChange (drop_nth i (tp_requestRuleGroups st)) st"
| "tp_handle (TypeRaw s) st = handleRawChange s st"
| "tp_handle (ChangeMode m) st = handleModeChange m st"
| "tp_handle (ApplyPreset p) st = applyPreset p st"
| "tp_handle (RenameModel s) st = st\<lparr>tp_modelName := s\<rparr>"

text \<open>The cards that are shown and the presets on offer.\<close>

fun tp_offered :: "TpEditor \<Rightarrow> tp_action \<Rightarrow> bool" where
  "tp_offered st (EditTier i ed) \<longleftrightarrow> tp_editorMode st = VisualMode \<and> i < length (shown_config st)"
| "tp_offered st AddTier \<longleftrightarrow> tp_editorMode st = VisualMode"
| "tp_offered st (RemoveTier i) \<longleftrightarrow>
     tp_editorMode st = VisualMode \<and> i < length (shown_config st) \<and> 1 < length (shown_config st)"
| "tp_offered st (AddTierCondition i) \<longleftrightarrow> tp_editorMode st = VisualMode \<and> i < length (shown_config st)"
| "tp_offered st (EditGroup i ed) \<longleftrightarrow> tp_editorMode st = VisualMode \<and> i < length (tp_requestRuleGroups st)"
| "tp_offered st AddGroup \<longleftrightarrow> tp_editorMode st = VisualMode"
| "tp_offered st (RemoveGroup i) \<longleftrightarrow> tp_editorMode st = VisualMode \<and> i < length (tp_requestRuleGroups st)"
| "tp_offered st (TypeRaw s) \<longleftrightarrow> tp_editorMode st = RawMode"
| "tp_offered st (ChangeMode m) \<longleftrightarrow> True"
| "tp_offered st (ApplyPreset p) \<longleftrightarrow> p \<in> set (concat (map snd PRESET_GROUPS))"
| "tp_offered st (RenameModel s) \<longleftrightarrow> True"

inductive tp_reachable :: "TpEditor \<Rightarrow> bool" where
  opened: "open_tiered modelName e r = Some (Inr st) \<Longrightarrow> tp_reachable st"
| acted: "tp_reachable st \<Longrightarrow> tp_offered st a \<Longrightarrow> settle 5 (tp_handle a st) = Some (Inr st') \<Longrightarrow> tp_reachable st'"

end
