(* ===== verification/Tiered_Editor_Props.thy ===== *)
theory Tiered_Editor_Props
  imports Tiered_Editor
begin

text \<open>
  What the editor of tiered prices guarantees: its effects come to rest, what the form stores is then
  what the editor shows, an expression in visual form is opened unchanged, and a change of the mode
  and back keeps it. Two findings: an expression the visual editor cannot show is replaced by a
  price of zero when the editor opens, and rules it cannot read are erased.
\<close>

section \<open>The effects come to rest\<close>

text \<open>The form stores what the editor shows.\<close>

definition in_step :: "TpEditor \<Rightarrow> bool" where
  "in_step st \<longleftrightarrow> effectiveExpr st = Inr (tp_currentExpr st) \<and> pushed_rules st = tp_currentRequestRuleExpr st"

lemma initialise_result:
  "initialise st = Inr st' \<Longrightarrow> tp_initRef st' \<and> tp_modelName st' = tp_modelName st"
  by (auto simp: initialise_def Let_def map_sum_def split: sum.splits option.splits if_splits)

text \<open>What one rendering leaves behind.\<close>

lemma commit_result:
  assumes "commit st = Inr (again, st')"
  shows "tp_nameDep st' = Some (tp_modelName st')" and "tp_modelName st' = tp_modelName st"
    and "tp_initRef st' \<longleftrightarrow> (tp_initRef st \<or> init_due st) \<and> tp_nameDep st = Some (tp_modelName st)"
    and "\<not> init_due st \<Longrightarrow> in_step st'"
    and "\<not> again \<Longrightarrow> \<not> init_due st \<and> tp_initDeps st' = Some (tp_currentExpr st', tp_currentRequestRuleExpr st')"
  using assms initialise_result
  by (auto simp: commit_def Let_def in_step_def effectiveExpr_def pushed_rules_def init_due_def
      split: sum.splits if_splits)

lemma commit_quiet:
  assumes "in_step st" and "\<not> init_due st"
  shows "\<exists>e. commit st = Inl e \<or> (\<exists>st'. commit st = Inr (False, st'))"
  using assms by (auto simp: commit_def in_step_def Let_def split: sum.split)

lemma settle_Suc: "(\<And>again st'. commit st = Inr (again, st') \<Longrightarrow> again \<Longrightarrow> settle n st' \<noteq> None) \<Longrightarrow> settle (Suc n) st \<noteq> None"
  by (auto split: sum.splits)

lemma settle_initialised:
  assumes "tp_initRef st" and "tp_nameDep st = Some (tp_modelName st)"
  shows "settle (Suc (Suc n)) st \<noteq> None"
proof (rule settle_Suc)
  fix again st' assume st': "commit st = Inr (again, st')"
  have "\<not> init_due st" using assms(1) by (simp add: init_due_def)
  then have "in_step st'" "\<not> init_due st'"
    using commit_result(3,4) [OF st'] assms by (auto simp: init_due_def)
  from commit_quiet [OF this] show "settle (Suc n) st' \<noteq> None" by auto
qed

lemma settle_named:
  assumes "tp_nameDep st = Some (tp_modelName st)"
  shows "settle 4 st \<noteq> None"
proof -
  have due: "settle (Suc (Suc (Suc n))) st \<noteq> None" if "init_due st" "tp_nameDep st = Some (tp_modelName st)" for st n
  proof (rule settle_Suc)
    fix again st' assume st': "commit st = Inr (again, st')"
    show "settle (Suc (Suc n)) st' \<noteq> None"
      by (rule settle_initialised) (use commit_result(1,3) [OF st'] that in auto)
  qed
  have "settle (Suc (Suc (Suc (Suc 0)))) st \<noteq> None"
  proof (rule settle_Suc)
    fix again st' assume st': "commit st = Inr (again, st')"
    show "settle (Suc (Suc (Suc 0))) st' \<noteq> None"
    proof (cases "init_due st \<or> \<not> init_due st'")
      case True
      then have "tp_initRef st' \<or> (in_step st' \<and> \<not> init_due st')"
        using commit_result(3,4) [OF st'] assms by auto
      then show ?thesis
        using settle_initialised [OF _ commit_result(1) [OF st']] commit_quiet [of st'] by auto
    next
      case False
      then show ?thesis using due [OF _ commit_result(1) [OF st']] by blast
    qed
  qed
  moreover have "(4::nat) = Suc (Suc (Suc (Suc 0)))" by simp
  ultimately show ?thesis by (simp only: not_False_eq_True)
qed

lemma settles: "settle 5 st \<noteq> None"
proof -
  have "settle (Suc 4) st \<noteq> None" by (rule settle_Suc) (rule settle_named, erule commit_result(1))
  moreover have "(5::nat) = Suc 4" by simp
  ultimately show ?thesis by (simp only: not_False_eq_True)
qed

text \<open>C34: The effects of the editor, which change the properties that make them run again, come to rest:
  whatever the state, after at most five renderings nothing is set any more, or the
  component has thrown an exception.\<close>

theorem editor_settles: "\<exists>r. settle 5 st = Some r"
  using settles by blast

section \<open>The form stores what is shown\<close>

lemma settle_done: "commit st = Inr (False, st') \<Longrightarrow> settle (Suc n) st = Some (Inr st')"
  by simp

lemma five: "(5::nat) = Suc (Suc (Suc (Suc (Suc 0))))"
  by simp

definition at_rest :: "TpEditor \<Rightarrow> bool" where
  "at_rest st \<longleftrightarrow> in_step st \<and> tp_initDeps st = Some (tp_currentExpr st, tp_currentRequestRuleExpr st) \<and>
     tp_nameDep st = Some (tp_modelName st) \<and> (\<exists>b. canUseVisualRules st = Inr b)"

lemma commit_at_rest: "commit st = Inr (False, st') \<Longrightarrow> at_rest st'"
  using commit_result(1,4,5) [of st False st']
  by (auto simp: at_rest_def commit_def Let_def canUseVisualRules_def split: sum.splits if_splits)

lemma at_rest_commit: "at_rest st \<Longrightarrow> commit st = Inr (False, st)"
  by (cases st) (auto simp: at_rest_def commit_def in_step_def init_due_def Let_def)

lemma at_rest_settle: "at_rest st \<Longrightarrow> settle 5 st = Some (Inr st)"
  unfolding five by (rule settle_done) (rule at_rest_commit)

lemma settle_at_rest: "settle n st = Some (Inr st') \<Longrightarrow> at_rest st'"
  by (induction n st rule: settle.induct) (auto split: sum.splits if_splits intro: commit_at_rest)

lemma reachable_at_rest: "tp_reachable st \<Longrightarrow> at_rest st"
  by (induction rule: tp_reachable.induct)
    (auto simp: open_tiered_def split: sum.splits intro: settle_at_rest)

text \<open>C14: Whenever the editor has come to rest, the form around it stores what the editor shows: the
  base expression is the one of the tiers, or of the typed text, and in the visual mode the rules
  are those of the groups that are shown.\<close>

theorem saved_is_shown:
  assumes "tp_reachable st"
  shows "effectiveExpr st = Inr (tp_currentExpr st) \<and>
    (tp_editorMode st = VisualMode \<longrightarrow>
       tp_currentExpr st = generateExprFromVisualConfig (tp_visualConfig st) \<and>
       tp_currentRequestRuleExpr st = buildRequestRuleExpr (tp_requestRuleGroups st))"
  using reachable_at_rest [OF assms] by (auto simp: at_rest_def in_step_def effectiveExpr_def pushed_rules_def)


section \<open>Opening\<close>

lemmas commit_simps = commit_def canUseVisualRules_def effectiveExpr_def init_due_def initialise_def groups_or_none_def
  pushed_rules_def Let_def if_given_def

lemma no_rules [simp]: "tryParseRequestRuleExpr [] = Inr (Some [])" "buildRequestRuleExpr [] = []"
  by (simp_all add: tryParseRequestRuleExpr_def trim_def buildRequestRuleExpr_def truthy_strs_def)

lemma opened_unchanged:
  assumes "tryParseVisualConfig (Some e) = Some cfg" and "generateExprFromVisualConfig (Some cfg) = e"
    and "\<forall>g \<in> set gs. editor_group g"
  shows "\<exists>st. open_tiered modelName e (buildRequestRuleExpr gs) = Some (Inr st) \<and>
    tp_currentExpr st = e \<and> tp_currentRequestRuleExpr st = buildRequestRuleExpr gs \<and>
    tp_editorMode st = VisualMode \<and> tp_visualConfig st = Some cfg \<and> tp_requestRuleGroups st = gs"
  using assms(1,2) rules_read_back [OF assms(3)]
  by (auto simp: open_tiered_def first_render_def five commit_simps)

text \<open>C15: Opening the editor on an expression that its tiers generate, with rules in the form of the
  editor, changes nothing: the form keeps both expressions, and the editor shows the tiers and the
  groups they stand for.\<close>

theorem tiered_open_keeps:
  assumes "tryParseVisualConfig (Some e) = Some cfg" and "generateExprFromVisualConfig (Some cfg) = e"
    and "\<forall>g \<in> set gs. editor_group g"
  shows "\<exists>st. open_tiered modelName e (buildRequestRuleExpr gs) = Some (Inr st) \<and>
    tp_currentExpr st = e \<and> tp_currentRequestRuleExpr st = buildRequestRuleExpr gs \<and>
    tp_editorMode st = VisualMode \<and> tp_visualConfig st = Some cfg \<and> tp_requestRuleGroups st = gs"
  by (rule opened_unchanged [OF assms])

lemma zero_price: "splitBillingExprAndRequestRules (js ''p * 0 + c * 0'') =
    Inr \<lparr>split_billingExpr = js ''p * 0 + c * 0'', split_requestRuleExpr = []\<rparr>"
  "tryParseVisualConfig (Some (js ''p * 0 + c * 0'')) = None"
  "combineBillingExpr (js ''p * 0 + c * 0'') [] = js ''p * 0 + c * 0''"
  by code_simp+

text \<open>C35: Opening the editor on an expression without request rules, not empty and without outer white
  space, that the tiers cannot show replaces it by a price of zero: the first rendering is in the visual mode without tiers and
  pushes the empty price, and since the guard against a second initialisation has been reset, the
  text is then initialised from it.\<close>

theorem raw_expression_zeroed:
  assumes "tryParseVisualConfig (Some e) = None" and "e \<noteq> []" and "trim e = e"
    and "splitBillingExprAndRequestRules e = Inr \<lparr>split_billingExpr = e, split_requestRuleExpr = []\<rparr>"
  shows "\<exists>st. open_tiered modelName e [] = Some (Inr st) \<and> tp_currentExpr st = js ''p * 0 + c * 0'' \<and>
    tp_rawExpr st = js ''p * 0 + c * 0''"
proof -
  have [simp]: "combineBillingExpr e [] = e" using assms(2,3) by (simp add: combineBillingExpr_def Let_def trim_def)
  have [simp]: "generateExprFromVisualConfig None = js ''p * 0 + c * 0''" by (simp add: generateExprFromVisualConfig_def)
  have [simp]: "js ''p * 0 + c * 0'' \<noteq> []" by (simp add: js_lit)
  show ?thesis
    using assms(1,2,4)
    by (cases "e = js ''p * 0 + c * 0''") (auto simp: open_tiered_def first_render_def five commit_simps zero_price)
qed

theorem raw_expression_zeroed_witness:
  "\<exists>st. open_tiered [] (js ''max(p, c)'') [] = Some (Inr st) \<and> tp_currentExpr st = js ''p * 0 + c * 0''"
proof -
  have "tryParseVisualConfig (Some (js ''max(p, c)'')) = None" by code_simp
  moreover have "js ''max(p, c)'' \<noteq> []" "trim (js ''max(p, c)'') = js ''max(p, c)''" by code_simp+
  moreover have "splitBillingExprAndRequestRules (js ''max(p, c)'') =
      Inr \<lparr>split_billingExpr = js ''max(p, c)'', split_requestRuleExpr = []\<rparr>" by code_simp
  ultimately show ?thesis using raw_expression_zeroed [of "js ''max(p, c)''" "[]"] by blast
qed

text \<open>C36: Opening the editor on an expression of its own with rules it cannot read erases the rules: the
  list of groups starts empty and its expression is pushed to the form, without an edit.\<close>

theorem unreadable_rules_erased:
  assumes "tryParseVisualConfig (Some e) = Some cfg" and "generateExprFromVisualConfig (Some cfg) = e"
    and "tryParseRequestRuleExpr r = Inr None"
  shows "\<exists>st. open_tiered modelName e r = Some (Inr st) \<and> tp_currentExpr st = e \<and> tp_currentRequestRuleExpr st = []"
proof -
  have "r \<noteq> []" using assms(3) by auto
  with assms show ?thesis by (auto simp: open_tiered_def first_render_def five commit_simps)
qed

definition flat_tier :: jsstr where
  "flat_tier = js ''tier(\"base\", p * 2 + c * 4)''"

lemma flat_tier_visual:
  "\<exists>cfg. tryParseVisualConfig (Some flat_tier) = Some cfg \<and> generateExprFromVisualConfig (Some cfg) = flat_tier"
proof -
  have "map_option (\<lambda>cfg. generateExprFromVisualConfig (Some cfg)) (tryParseVisualConfig (Some flat_tier)) = Some flat_tier"
    by code_simp
  then show ?thesis by auto
qed

theorem unreadable_rules_erased_witness:
  "\<exists>st. open_tiered [] flat_tier (buildRequestRuleExpr [\<lparr>grp_conditions = [param_gt], grp_multiplier = js ''2''\<rparr>]) = Some (Inr st) \<and>
     tp_currentExpr st = flat_tier \<and> tp_currentRequestRuleExpr st = []"
proof -
  have "tryParseRequestRuleExpr (buildRequestRuleExpr [\<lparr>grp_conditions = [param_gt], grp_multiplier = js ''2''\<rparr>]) = Inr None"
    by code_simp
  with flat_tier_visual show ?thesis using unreadable_rules_erased by blast
qed

theorem tiered_open_keeps_witness:
  "\<exists>st. open_tiered [] flat_tier (buildRequestRuleExpr sample_groups) = Some (Inr st) \<and>
     tp_currentExpr st = flat_tier \<and> tp_requestRuleGroups st = sample_groups"
  using flat_tier_visual tiered_open_keeps [OF _ _ sample_editor] by blast

section \<open>Changing the mode\<close>

text \<open>C16: Changing from the visual mode to the expression mode and back keeps both expressions and the
  groups of rules, with and without rules, under three conditions on the editor: the tiers are read
  from the expression they generate; this expression is balanced, not wrapped in parentheses as a whole,
  does not end like a rule and is, if there are no rules, split without rules; and the groups are in the
  form that is read back (time and header conditions, existence and equality of parameters, with
  numeric literals and plain texts, but no comparison of a parameter and no search in one).\<close>

theorem mode_switch_keeps:
  assumes "tp_reachable st" and "tp_editorMode st = VisualMode"
    and "tp_requestRuleGroups st = [] \<longrightarrow> splitBillingExprAndRequestRules (tp_currentExpr st) =
      Inr \<lparr>split_billingExpr = tp_currentExpr st, split_requestRuleExpr = []\<rparr>"
    and "\<forall>g \<in> set (tp_requestRuleGroups st). editor_group g"
    and "base_expr (tp_currentExpr st)" and "tryParseVisualConfig (Some (tp_currentExpr st)) = Some cfg"
    and "generateExprFromVisualConfig (Some cfg) = tp_currentExpr st"
  shows "\<exists>st1 st2. settle 5 (tp_handle (ChangeMode RawMode) st) = Some (Inr st1) \<and>
    tp_currentExpr st1 = tp_currentExpr st \<and>
    settle 5 (tp_handle (ChangeMode VisualMode) st1) = Some (Inr st2) \<and>
    tp_editorMode st2 = VisualMode \<and> tp_currentExpr st2 = tp_currentExpr st \<and>
    tp_currentRequestRuleExpr st2 = tp_currentRequestRuleExpr st \<and> tp_requestRuleGroups st2 = tp_requestRuleGroups st"
proof -
  let ?e = "tp_currentExpr st" and ?gs = "tp_requestRuleGroups st"
  let ?r = "buildRequestRuleExpr ?gs"
  have rest: "at_rest st" by (rule reachable_at_rest [OF assms(1)])
  then have e: "generateExprFromVisualConfig (tp_visualConfig st) = ?e" and r: "tp_currentRequestRuleExpr st = ?r"
    using assms(2) by (auto simp: at_rest_def in_step_def effectiveExpr_def pushed_rules_def)
  have split: "splitBillingExprAndRequestRules (combineBillingExpr ?e ?r) = Inr \<lparr>split_billingExpr = ?e, split_requestRuleExpr = ?r\<rparr>"
  proof (cases "?gs = []")
    case True
    then have "combineBillingExpr ?e ?r = ?e" using assms(5) by (simp add: combineBillingExpr_def base_expr_def Let_def trim_def)
    with True assms(3) show ?thesis by simp
  qed (rule combined_splits [OF assms(5) _ assms(4)])
  note read = rules_read_back [OF assms(4)]
  have raw: "combineBillingExpr ?e ?r \<noteq> []"
    using assms(5) by (simp add: combineBillingExpr_def base_expr_def Let_def js_lit)
  let ?st1 = "st\<lparr>tp_editorMode := RawMode, tp_rawExpr := combineBillingExpr ?e ?r\<rparr>"
  have "tp_handle (ChangeMode RawMode) st = ?st1" using raw by (simp add: handleModeChange_def e str_or_def Let_def)
  moreover have "at_rest ?st1"
    using rest split read by (auto simp: at_rest_def in_step_def effectiveExpr_def pushed_rules_def canUseVisualRules_def r)
  ultimately have raw_mode: "settle 5 (tp_handle (ChangeMode RawMode) st) = Some (Inr ?st1)" by (metis at_rest_settle)
  let ?st2 = "?st1\<lparr>tp_visualConfig := Some cfg, tp_editorMode := VisualMode\<rparr>"
  have "tp_handle (ChangeMode VisualMode) ?st1 = ?st2"
    using split read assms(6) by (simp add: handleModeChange_def groups_or_none_def if_given_def r [symmetric])
  moreover have "at_rest ?st2"
    using rest read assms(7) by (auto simp: at_rest_def in_step_def effectiveExpr_def pushed_rules_def canUseVisualRules_def r)
  ultimately have "settle 5 (tp_handle (ChangeMode VisualMode) ?st1) = Some (Inr ?st2)" by (metis at_rest_settle)
  with raw_mode show ?thesis by (intro exI [of _ ?st1] exI [of _ ?st2]) simp
qed

theorem mode_switch_keeps_witness:
  "\<exists>st st1 st2. tp_currentExpr st = flat_tier \<and> tp_requestRuleGroups st = sample_groups \<and>
     settle 5 (tp_handle (ChangeMode RawMode) st) = Some (Inr st1) \<and>
     settle 5 (tp_handle (ChangeMode VisualMode) st1) = Some (Inr st2) \<and>
     tp_currentExpr st2 = flat_tier \<and> tp_requestRuleGroups st2 = sample_groups"
proof -
  obtain cfg where cfg: "tryParseVisualConfig (Some flat_tier) = Some cfg"
    "generateExprFromVisualConfig (Some cfg) = flat_tier" using flat_tier_visual by blast
  from opened_unchanged [OF this sample_editor, of "[]"] obtain st where st:
    "open_tiered [] flat_tier (buildRequestRuleExpr sample_groups) = Some (Inr st)"
    "tp_currentExpr st = flat_tier" "tp_editorMode st = VisualMode" "tp_requestRuleGroups st = sample_groups" by blast
  have "base_expr flat_tier" by code_simp
  moreover have "sample_groups \<noteq> []" by (simp add: sample_groups_def)
  ultimately show ?thesis
    using mode_switch_keeps [OF tp_reachable.opened [OF st(1)] st(3), of cfg] sample_editor cfg st(2,4) by metis
qed

theorem saved_is_shown_witness:
  "\<exists>st. tp_editorMode st = VisualMode \<and> tp_currentExpr st = flat_tier \<and> effectiveExpr st = Inr flat_tier \<and>
     generateExprFromVisualConfig (tp_visualConfig st) = flat_tier"
proof -
  obtain cfg where cfg: "tryParseVisualConfig (Some flat_tier) = Some cfg"
    "generateExprFromVisualConfig (Some cfg) = flat_tier" using flat_tier_visual by blast
  from opened_unchanged [OF this sample_editor, of "[]"] obtain st where st:
    "open_tiered [] flat_tier (buildRequestRuleExpr sample_groups) = Some (Inr st)"
    "tp_currentExpr st = flat_tier" "tp_editorMode st = VisualMode" by blast
  from saved_is_shown [OF tp_reachable.opened [OF st(1)]] st(2,3) show ?thesis by auto
qed

section \<open>Presets\<close>

text \<open>Every preset has rules in the form of the editor.\<close>

lemma preset_rules: "list_all (\<lambda>p. list_all editor_group (if_given (pr_requestRules p) [])) (concat (map snd PRESET_GROUPS))"
  by code_simp

text \<open>C37: The first preset with request rules that is applied after the editor has opened on an expression
  without rules loses its prices: the new rules make the effect run that initialises the tiers
  from the expression the form still has, so that the rules of the preset are kept and its
  tiers are replaced by the old ones.\<close>

theorem first_preset_reverted:
  assumes "tryParseVisualConfig (Some e) = Some cfg" and "generateExprFromVisualConfig (Some cfg) = e"
    and "tryParseVisualConfig (Some (pr_expr p)) = Some cfg'" and "pr_requestRules p = Some gs"
    and "\<forall>g \<in> set gs. editor_group g" and "buildRequestRuleExpr gs \<noteq> []"
  shows "\<exists>st st'. open_tiered modelName e [] = Some (Inr st) \<and> settle 5 (tp_handle (ApplyPreset p) st) = Some (Inr st') \<and>
    tp_currentExpr st' = e \<and> tp_currentRequestRuleExpr st' = buildRequestRuleExpr gs"
proof -
  define st where "st = \<lparr>tp_modelName = modelName, tp_currentExpr = e, tp_currentRequestRuleExpr = [],
    tp_editorMode = VisualMode, tp_visualConfig = Some cfg, tp_rawExpr = combineBillingExpr e [],
    tp_requestRuleGroups = [], tp_initRef = False, tp_initDeps = Some (e, []), tp_nameDep = Some modelName\<rparr>"
  have "open_tiered modelName e [] = Some (Inr st)"
    using assms(1,2) by (simp add: open_tiered_def first_render_def five commit_simps st_def)
  moreover have "\<exists>st'. settle 5 (tp_handle (ApplyPreset p) st) = Some (Inr st') \<and>
      tp_currentExpr st' = e \<and> tp_currentRequestRuleExpr st' = buildRequestRuleExpr gs"
    using assms rules_read_back [OF assms(5)]
    by (cases "generateExprFromVisualConfig (Some cfg') = e") (auto simp: applyPreset_def five commit_simps st_def)
  ultimately show ?thesis by blast
qed

theorem first_preset_reverted_witness:
  "\<exists>p st st'. p = snd (PRESET_GROUPS ! 4) ! 0 \<and> pr_expr p = js ''tier(\"base\", p * 3 + c * 15)'' \<and>
     open_tiered [] flat_tier [] = Some (Inr st) \<and> settle 5 (tp_handle (ApplyPreset p) st) = Some (Inr st') \<and>
     tp_currentExpr st' = flat_tier"
proof -
  let ?p = "snd (PRESET_GROUPS ! 4) ! 0"
  obtain cfg where cfg: "tryParseVisualConfig (Some flat_tier) = Some cfg"
    "generateExprFromVisualConfig (Some cfg) = flat_tier" using flat_tier_visual by blast
  have p: "pr_expr ?p = js ''tier(\"base\", p * 3 + c * 15)''"
    by (simp add: PRESET_GROUPS_def rule_preset_def)
  have "tryParseVisualConfig (Some (js ''tier(\"base\", p * 3 + c * 15)'')) \<noteq> None" by code_simp
  then obtain cfg' where cfg': "tryParseVisualConfig (Some (pr_expr ?p)) = Some cfg'" unfolding p by blast
  have gs: "pr_requestRules ?p = Some [\<lparr>grp_conditions = [time_preset ''hour'' MATCH_RANGE [] ''21'' ''6''], grp_multiplier = js ''0.5''\<rparr>]"
    by (simp add: PRESET_GROUPS_def rule_preset_def)
  have "editor_group \<lparr>grp_conditions = [time_preset ''hour'' MATCH_RANGE [] ''21'' ''6''], grp_multiplier = js ''0.5''\<rparr>"
    "buildRequestRuleExpr [\<lparr>grp_conditions = [time_preset ''hour'' MATCH_RANGE [] ''21'' ''6''], grp_multiplier = js ''0.5''\<rparr>] \<noteq> []"
    by code_simp+
  then show ?thesis using first_preset_reverted [OF cfg cfg' gs, of "[]"] p by auto
qed

section \<open>Tiers and number inputs\<close>

lemma tier_parts_last: "tier_parts i (ts @ [t\<lparr>vt_conditions := cs\<rparr>]) = tier_parts i (ts @ [t])"
  by (induction ts arbitrary: i) (auto simp: Let_def tier_call_def buildTierBodyExpr_def)

text \<open>The conditions that the editor lets one add to the last of several tiers have no effect: the
  expression is the same with and without them.\<close>

theorem last_conditions_ignored:
  assumes "ts \<noteq> []"
  shows "generateExprFromVisualConfig (Some (ts @ [t\<lparr>vt_conditions := cs\<rparr>])) = generateExprFromVisualConfig (Some (ts @ [t]))"
proof -
  obtain a b us where "ts @ [t\<lparr>vt_conditions := cs\<rparr>] = a # b # us" by (cases ts; cases "tl ts") (use assms in auto)
  moreover obtain a' b' us' where "ts @ [t] = a' # b' # us'" by (cases ts; cases "tl ts") (use assms in auto)
  ultimately show ?thesis using tier_parts_last [of 0 ts cs t] by (simp add: generateExprFromVisualConfig_def)
qed

theorem last_conditions_ignored_witness:
  "generateExprFromVisualConfig (Some [sample_tier, sample_tier\<lparr>vt_conditions := [default_condition (js ''c'')]\<rparr>]) =
   generateExprFromVisualConfig (Some [sample_tier, sample_tier])"
  using last_conditions_ignored [of "[sample_tier]" "[default_condition (js ''c'')]" sample_tier] by simp

text \<open>A number input passes on finite numbers only, whatever is typed, and once it has lost the focus it
  shows the number it has passed on.\<close>

theorem draft_input_finite:
  "finite_number (snd (handleChange_input s i)) \<and> finite_number (snd (handleBlur i)) \<and>
   input_effect (CNum (snd (handleBlur i))) (fst (handleBlur i)) = fst (handleBlur i)"
  by (auto simp: handleChange_input_def handleBlur_def parseNumberDraft_def input_effect_def finite_number_def Let_def
      split: jsnum.splits)

end
