(* ===== verification/Spec2Isabelle.thy ===== *)
theory Spec2Isabelle
  imports Http_Status_Rules Billing_Roundtrip Billing_Tiers_Props Advanced_Custom_Editor_Props Flow_Props
    Ratio_Sync_Props Channel_Mapping Demo_Runs Param_Override_Tabs
    Tiered_Editor_Props
begin

text \<open>
  A verification development of the SnowAPI web console, the TypeScript application under
  \<open>src/web/default/src\<close>. SnowAPI is a gateway in front of language model providers; the
  console configures it. The development models the parts of the console that compute: what an
  administrator types is parsed, checked, normalised, combined and written back, and a wrong result
  is a wrong price, a wrong route or lost settings.

  \<^bold>\<open>The parts and how they interact.\<close>

  \<^item> \<^emph>\<open>The language.\<close> \<open>Js_Prelude\<close>: strings as lists of 16 bit code units, \<open>trim\<close>, \<open>split\<close>, \<open>join\<close>, maps in
    insertion order, \<open>Set\<close>, stable sorting (locale \<open>js_comparator\<close>), decimal digits. \<open>Js_Number\<close>: binary64 as
    exact rationals with NaN, infinities and \<open>-0\<close>; every operation is the exact one followed by
    rounding to nearest even; \<open>Number(s)\<close> and \<open>String(x)\<close>. \<open>Js_Rounding\<close>: \<open>Math.round\<close>, \<open>min\<close>, \<open>max\<close>, the error of
    rounding, amounts in cents. \<open>Js_Regex\<close>: the backtracking matcher for the patterns the sources
    use. \<open>Js_Json\<close>: \<open>JSON.parse\<close>, order of properties. \<open>Json_Roundtrip\<close>: \<open>JSON.stringify\<close> with and without
    indentation, and that parsing undoes it. \<open>Js_Values\<close>: properties and conversions of JSON values.
    \<open>Cents_Text\<close>: the decimal text of amounts reads back.
  \<^item> \<^emph>\<open>HTTP status code rules\<close> (\<open>lib/http-status-code-rules.ts\<close>): \<open>Http_Status_Rules\<close>. The text of ranges that
    the retry settings use is parsed into a canonical list of ranges.
  \<^item> \<^emph>\<open>Billing expressions\<close> (\<open>features/pricing/lib/billing-expr.ts\<close>, \<open>tier-expr.ts\<close>): \<open>Billing_Rules\<close> has the
    request rules (conditions on parameters, headers and time that multiply a price), their parser,
    printer and the split of an expression into base and rules; \<open>Billing_Tiers\<close> the tiers, the visual editor
    and the estimator. The pricing editor parses a stored expression, shows it and writes it back,
    so the round trips of \<open>Billing_Roundtrip\<close> and \<open>Billing_Tiers_Props\<close> are what keeps prices.
  \<^item> \<^emph>\<open>Tiered pricing editor\<close> (\<open>features/system-settings/models/tiered-pricing-editor.tsx\<close>): \<open>Tiered_Editor\<close> puts
    tiers and request rules together: number inputs, the handlers of tiers and rules, presets, and
    the component, whose effects push the expressions to the form that stores them; one rendering
    with its effects is \<open>commit\<close>, and \<open>settle\<close> repeats it. \<open>Tiered_Editor_Props\<close> has the properties.
  \<^item> \<^emph>\<open>Advanced custom channels\<close> (\<open>features/channels/lib/advanced-custom.ts\<close>): \<open>Advanced_Custom\<close> has routes with
    converters, authentication and model rules and a stateful validator against a declarative
    specification; \<open>Advanced_Custom_Text\<close> the JSON text of a configuration, read from arbitrary JSON
    values; \<open>Advanced_Custom_Editor\<close> the editor dialog
    (\<open>features/channels/components/dialogs/advanced-custom-editor-dialog.tsx\<close>) as a state machine over both, with
    its properties in \<open>Advanced_Custom_Editor_Props\<close>.
  \<^item> \<^emph>\<open>Parameter overrides of a channel\<close>
    (\<open>features/channels/components/dialogs/param-override-editor-dialog.tsx\<close>): \<open>Param_Override\<close> has the types,
    the tables of modes and the templates, \<open>Param_Override_Drafts\<close> identifiers, the reading of operations,
    conditions and drafts from arbitrary JSON, \<open>Param_Override_Text\<close> validation and the saved text,
    \<open>Param_Override_Editor\<close> the dialog as a state machine, with the renderings, which take identifiers too.
    \<open>Param_Override_Roundtrip\<close> relates what is saved to what is read, \<open>Param_Override_Invariant\<close> has the locale of
    a supply of identifiers and the invariant of the dialog; \<open>Param_Override_Props\<close>, \<open>Param_Override_Lost\<close> and
    \<open>Param_Override_Tabs\<close> the properties.
  \<^item> \<^emph>\<open>Model and status code mappings of a channel\<close> (\<open>model-mapping-validation.ts\<close>,
    \<open>status-code-risk-guard.ts\<close>): \<open>Channel_Mapping\<close>.
  \<^item> \<^emph>\<open>Price synchronisation\<close> (\<open>upstream-ratio-sync-helpers.ts\<close>, \<open>upstream-ratio-sync.tsx\<close>): \<open>Ratio_Sync\<close> has the
    selection of upstream prices, \<open>Ratio_Sync_Page\<close> the state of the page, its handlers and the
    settings it saves, \<open>Ratio_Sync_Props\<close> the invariants, as a locale for a condition every
    operation keeps, interpreted for three conditions.
  \<^item> \<^emph>\<open>Flow diagram of the dashboard\<close> (\<open>features/dashboard/lib/flow.ts\<close>): \<open>Flow\<close> builds nodes and links from
    usage rows, with limits, folding, masking and filters; \<open>Flow_Props\<close> shows what is conserved.
  \<^item> \<^emph>\<open>The demo\<close> (\<open>demo/engine.ts\<close>, \<open>demo/fixtures.ts\<close>, \<open>demo/adapter.ts\<close>, \<open>lib/deployment-mode.ts\<close>): a stand-in for
    the backend in the browser. \<open>Demo_Fixtures\<close> has its records, \<open>Demo_Engine\<close> state, storage, quotes
    and the requests that change the state, \<open>Demo_Requests\<close> all other requests, the adapter and the
    runs as a step relation, \<open>Demo_Ledger\<close> the abstract account in whole cents, \<open>Demo_Props\<close> and
    \<open>Demo_Runs\<close> that the engine implements it.

  \<^bold>\<open>Correspondence.\<close> A definition has the name of the function, type or constant it models; the
  parts of a long function are definitions of their own that the text next to them names. A
  TypeScript object type is a \<open>record\<close>, a union a \<open>datatype\<close>, a dictionary an association list in the order of
  creation, an absent or undefined value \<open>None\<close>, a thrown exception \<open>Inl\<close>. React state is a record and an
  event handler a function on it; the pages and the demo engine are step relations over them.

  \<^bold>\<open>What is shown.\<close>

  \<^item> Canonical form, normal form, errors and round trip of status code rules.
  \<^item> Round trips of request rules, of the combination with a base price and of tier bodies; how any
    sum of terms is read as prices; the conditions that are not read back.
  \<^item> The effects of the tiered pricing editor come to rest; the form then stores what is shown; an
    expression of the editor is opened unchanged and survives a change of the mode and back.
  \<^item> The validator of custom routes accepts exactly the specified configurations and reports the
    first offending route; defaults and templates pass it. The text of a configuration is read back;
    what the editor dialog saves is valid, its rows have unique keys, and reordering keeps the
    routes and repairs the order of catch-all routes.
  \<^item> A saved parameter override is opened again as the operations that were saved and, without quoted
    strings, saves to the same text; every saved operation has what its mode needs; validation reports the first line that
    has not; identifiers stay unique; every template can be filled in and saved; switching between
    the two tabs and back keeps the operations.
  \<^item> In the flow diagram the links at a node and the nodes of a column add up to the traffic;
    limits, filters and masking do what they promise.
  \<^item> Every state of the synchronisation page has consistent resolutions; saving stores exactly
    them; nothing changes its kind of billing without a confirmation.
  \<^item> The demo account is exact to the cent in floating point, implements its ledger, survives a
    reload, answers only signed-in visitors, never throws, ends and stays usable.
  \<^item> Fifteen findings: a comparison of or a search in a parameter that the editor
    writes is not read back, a parser that
    throws, a guard that is missing for a single tier, a demo account that is lost after 100
    purchases, a comma that cannot be typed into a list of models, a mode button that discards
    the edits of the route editor; in the parameter override editor conditions of a pruning rule
    that can be neither edited nor removed nor added, an advanced mode that reverts at once, strings that become numbers when
    saved twice, a space that cannot be typed and a stored null that makes opening throw; in the
    tiered pricing editor a price that becomes zero when the editor opens on an expression without
    a visual form, rules that are erased in the same way, a preset whose prices are replaced by the
    old ones, and conditions of the last tier that have no effect.

  \<^bold>\<open>Bounds and fuel.\<close> \<open>JSON.parse\<close> and the search for the decimal exponent and the shortest digits use
  fuel: \<open>json_fuel_enough\<close> shows that twice the length of a text plus one is enough for the former; 17
  digits and decimal exponents within 330 cover binary64. \<open>settle\<close> repeats at most five renderings, which
  \<open>settles\<close> shows to be enough from every state. Where exactness is claimed the numbers are
  bounded by the safe integers (\<open>2 ^ 53\<close>), the clock of the demo by \<open>2 ^ 50\<close> seconds; the amounts of the demo
  are at most 10000 dollars by its invariant.

  \<^bold>\<open>Parameters.\<close> Code outside the repository is an argument: \<open>lc\<close> for \<open>localeCompare\<close>, \<open>fmt\<close> for the number
  format of the browser, \<open>run\<close> for the evaluation of a generated function, \<open>url\<close> and \<open>URL\<close> for the URL parser,
  \<open>clock\<close> for the time at which an identifier is made, \<open>lower\<close> and \<open>upper\<close> for case mappings, \<open>t\<close> for translations, \<open>safeParse\<close> for the schema library, \<open>cur\<close> for the
  stored settings of the server. What a theorem needs of them is a named hypothesis such as
  \<open>schema_checked\<close>, and its witness instantiates them.

  \<^bold>\<open>Not modelled.\<close> Rendering, styling and routing; the HTTP client, whose effects are outside the
  program; the query cache; translation tables; the classic frontend and the Go backend, which are
  other programs. Of the modelled files: what happens after a JSON text whose fields have other types than
  the declared ones has been read (\<open>Mistyped\<close>), the colours and drawing of the flow diagram beyond its
  links, the requests of the synchronisation page, the identities of rows and the prompt helper of the
  tiered pricing editor, and the copying of query parameters in the demo adapter.

  \<^bold>\<open>Order of further work.\<close> Currency and quota formatting; the forms of channels and the helpers of the
  pricing page; the remaining panels of the dashboard.
\<close>

end
